(* ===== verification/Prelude.thy ===== *)
theory Prelude
  imports Main "HOL-Library.Word"
begin

unbundle bit_operations_syntax

text \<open>
  Shared vocabulary of the development.  The C code works on fixed-width unsigned integers,
  so the model keeps them as words (\<open>u8\<close>, \<open>u32\<close>, \<open>u64\<close> and the compiler's
  \<open>unsigned __int128\<close> as \<open>u128\<close>); the proofs read them as integers through \<open>uint\<close>.
  This theory provides the facts every component needs for that change of view: when an
  operation does not wrap, what a shift or a mask computes, and the little-endian
  value of a byte array.
\<close>

type_synonym u8 = "8 word"
type_synonym u32 = "32 word"
type_synonym u64 = "64 word"
type_synonym u128 = "128 word"
type_synonym bytes = "u8 list"

text \<open>
  \<open>nowrap\<close> collects the conditional equations \<open>uint (a + b) = uint a + uint b\<close> and so on;
  \<open>bitval\<close> the unconditional readings of shifts, masks and casts.
\<close>

named_theorems nowrap
named_theorems bitval

subsection \<open>Arithmetic that does not wrap\<close>

lemma uint_nonneg: "0 \<le> uint (a :: 'a::len word)"
  by simp

lemma uint64_lt: "uint (a :: u64) < 18446744073709551616"
  using uint_lt2p [of a] by simp

lemma uint128_lt: "uint (a :: u128) < 340282366920938463463374607431768211456"
  using uint_lt2p [of a] by simp

lemma uint8_lt: "uint (a :: u8) < 256"
  using uint_lt2p [of a] by simp

lemma uint64_add [nowrap]:
  "uint (a :: u64) + uint b < 18446744073709551616 \<Longrightarrow> uint (a + b) = uint a + uint b"
  by (simp add: uint_word_ariths)

lemma uint64_sub [nowrap]:
  "uint (b :: u64) \<le> uint a \<Longrightarrow> uint (a - b) = uint a - uint b"
  by (simp add: uint_sub_lem)

lemma uint64_mult [nowrap]:
  "uint (a :: u64) * uint b < 18446744073709551616 \<Longrightarrow> uint (a * b) = uint a * uint b"
  by (simp add: uint_word_ariths)

lemma uint128_add [nowrap]:
  "uint (a :: u128) + uint b < 340282366920938463463374607431768211456
    \<Longrightarrow> uint (a + b) = uint a + uint b"
  by (simp add: uint_word_ariths)

lemma uint128_mult [nowrap]:
  "uint (a :: u128) * uint b < 340282366920938463463374607431768211456
    \<Longrightarrow> uint (a * b) = uint a * uint b"
  by (simp add: uint_word_ariths)

subsection \<open>Shifts, masks and casts\<close>

lemma uint_drop_bit [bitval]: "uint (drop_bit n (a :: 'a::len word)) = uint a div 2 ^ n"
  by (subst unsigned_drop_bit_eq) (simp add: drop_bit_eq_div take_bit_int_eq_self)

lemma uint_and_mask [bitval]:
  "uint ((a :: 'a::len word) AND mask n) = uint a mod 2 ^ n"
  by (simp only: take_bit_eq_mask [symmetric] unsigned_take_bit_eq) (simp add: take_bit_eq_mod)

lemma uint_ucast_64_128 [bitval]: "uint (ucast (a :: u64) :: u128) = uint a"
  using uint64_lt [of a] by (simp add: unsigned_ucast_eq take_bit_int_eq_self)

lemma uint_ucast_128_64 [bitval]: "uint (ucast (a :: u128) :: u64) = uint a mod 2 ^ 64"
  by (simp add: unsigned_ucast_eq take_bit_eq_mod)

lemma uint_ucast_8_64 [bitval]: "uint (ucast (a :: u8) :: u64) = uint a"
  using uint8_lt [of a] by (simp add: unsigned_ucast_eq take_bit_int_eq_self)

lemma uint_ucast_64_8 [bitval]: "uint (ucast (a :: u64) :: u8) = uint a mod 2 ^ 8"
  by (simp add: unsigned_ucast_eq take_bit_eq_mod)

text \<open>A bitwise or of two words with disjoint bits is their sum.\<close>

lemma or_push_bit_eq_plus:
  assumes "uint (a :: 'a::len word) < 2 ^ n"
  shows "a OR push_bit n b = a + push_bit n b"
proof -
  have "take_bit n a = a"
    using assms by (simp add: word_uint_eq_iff unsigned_take_bit_eq take_bit_int_eq_self)
  then have "a AND push_bit n b = take_bit n a AND push_bit n b"
    by simp
  also have "\<dots> = 0"
    by (rule bit_eqI) (auto simp: bit_simps)
  finally show ?thesis
    by (simp add: disjunctive_add_eq_or)
qed

lemma uint_push_bit: "uint (push_bit n (a :: 'a::len word)) = (uint a * 2 ^ n) mod 2 ^ LENGTH('a)"
  by (subst unsigned_push_bit_eq) (simp add: push_bit_eq_mult take_bit_eq_mod)

lemma uint64_or_push_bit:
  assumes "uint (a :: u64) < 2 ^ n" and "n < 64"
  shows "uint (a OR push_bit n b) = uint a + (uint b * 2 ^ n) mod 2 ^ 64"
proof -
  define m where "m = uint b mod 2 ^ (64 - n)"
  have pow: "(2::int) ^ n * 2 ^ (64 - n) = 2 ^ 64"
    using assms(2) by (simp flip: power_add)
  have hi: "(uint b * 2 ^ n) mod 2 ^ 64 = 2 ^ n * m"
    unfolding m_def by (subst pow [symmetric]) (simp add: mult.commute mod_mult_mult2)
  have "m \<le> 2 ^ (64 - n) - 1"
    using pos_mod_bound [of "2 ^ (64 - n)" "uint b"] by (simp add: m_def)
  then have "2 ^ n * m \<le> 2 ^ n * (2 ^ (64 - n) - 1)"
    by (intro mult_left_mono) auto
  then have "uint a + 2 ^ n * m < 2 ^ 64"
    using assms(1) pow by (simp add: algebra_simps)
  moreover have "uint (push_bit n b) = 2 ^ n * m"
    by (simp only: uint_push_bit hi [symmetric]) simp
  moreover have "0 \<le> m"
    by (simp add: m_def)
  ultimately show ?thesis
    by (simp only: or_push_bit_eq_plus [OF assms(1)] hi) (simp add: uint64_add)
qed

subsection \<open>Division facts\<close>

lemma int_div_less:
  fixes x :: int
  assumes "0 < m" "x < m * n"
  shows "x div m < n"
proof (rule ccontr)
  assume "\<not> x div m < n"
  then have "m * n \<le> m * (x div m)" using assms(1) by (intro mult_left_mono) auto
  moreover have "m * (x div m) \<le> x"
    using assms(1) mult_div_mod_eq [of m x] pos_mod_sign [of m x] by linarith
  ultimately show False using assms(2) by linarith
qed

lemma int_mod_unique: "x = r + m * q \<Longrightarrow> 0 \<le> r \<Longrightarrow> r < m \<Longrightarrow> x mod m = (r :: int)"
  by simp

lemma int_split:
  fixes x :: int
  assumes "0 < m" "0 \<le> x"
  obtains q r where "x = m * q + r" "0 \<le> r" "r < m" "x div m = q" "x mod m = r" "0 \<le> q"
  using assms by (metis mult_div_mod_eq pos_imp_zdiv_nonneg_iff pos_mod_bound pos_mod_sign)

text \<open>Two neighbouring 64-bit words shifted together and masked.\<close>

lemma shift_concat_mask:
  fixes x y :: u64
  assumes "k + s = 64" "s \<le> w" "w \<le> 64" "0 < k"
  shows "uint ((drop_bit k x OR push_bit s y) AND mask w) = uint x div 2 ^ k + 2 ^ s * (uint y mod 2 ^ (w - s))"
proof -
  have p: "(2::int) ^ s * 2 ^ k = 2 ^ 64" "(2::int) ^ s * 2 ^ (w - s) = 2 ^ w"
    using assms by (simp_all add: add.commute flip: power_add)
  have lo: "uint x div 2 ^ k < 2 ^ s"
    by (rule int_div_less) (use uint64_lt [of x] p(1) in \<open>simp_all add: mult.commute\<close>)
  have hi: "(uint y * 2 ^ s) mod 2 ^ 64 = 2 ^ s * (uint y mod 2 ^ k)"
    by (simp only: p(1) [symmetric] mult.commute [of "uint y"] mod_mult_mult1)
  have "uint (drop_bit k x OR push_bit s y) = uint x div 2 ^ k + 2 ^ s * (uint y mod 2 ^ k)"
    using uint64_or_push_bit [of "drop_bit k x" s y] lo hi assms by (simp add: bitval)
  then have "uint ((drop_bit k x OR push_bit s y) AND mask w)
      = (2 ^ s * (uint y mod 2 ^ k) + uint x div 2 ^ k) mod (2 ^ s * 2 ^ (w - s))"
    by (simp only: uint_and_mask p(2) add.commute)
  also have "\<dots> = 2 ^ s * ((uint y mod 2 ^ k) mod 2 ^ (w - s)) + uint x div 2 ^ k"
    using lo by (subst zmod_zmult2_eq) (simp_all add: pos_imp_zdiv_nonneg_iff)
  also have "(uint y mod 2 ^ k) mod 2 ^ (w - s) = uint y mod 2 ^ (w - s)"
    using assms by (intro mod_mod_cancel le_imp_power_dvd) auto
  finally show ?thesis by simp
qed

subsection \<open>Little-endian byte arrays\<close>

fun le_val :: "bytes \<Rightarrow> int" where
  "le_val [] = 0"
| "le_val (b # bs) = uint b + 256 * le_val bs"

fun le_bytes :: "nat \<Rightarrow> int \<Rightarrow> bytes" where
  "le_bytes 0 x = []"
| "le_bytes (Suc n) x = word_of_int x # le_bytes n (x div 256)"

lemma length_le_bytes [simp]: "length (le_bytes n x) = n"
  by (induction n arbitrary: x) auto

lemma le_val_nonneg: "0 \<le> le_val bs"
  by (induction bs) auto

lemma le_val_bound: "le_val bs < 256 ^ length bs"
proof (induction bs)
  case (Cons b bs)
  then show ?case using uint8_lt [of b] by simp
qed simp

lemma le_val_append: "le_val (xs @ ys) = le_val xs + 256 ^ length xs * le_val ys"
  by (induction xs) (auto simp: algebra_simps)

lemma le_bytes_le_val: "le_bytes (length bs) (le_val bs) = bs"
proof (induction bs)
  case (Cons b bs)
  have "(uint b + 256 * le_val bs) div 256 = le_val bs"
    using uint8_lt [of b] by simp
  moreover have "(word_of_int (uint b + 256 * le_val bs) :: u8) = b"
    by (subst word_uint_eq_iff, subst uint_word_of_int) (simp add: uint8_lt)
  ultimately show ?case using Cons by simp
qed simp

lemma le_val_le_bytes: "le_val (le_bytes n x) = x mod 256 ^ n"
proof (induction n arbitrary: x)
  case (Suc n)
  have "uint (word_of_int x :: u8) = x mod 256"
    by (simp add: uint_word_of_int)
  then have "le_val (le_bytes (Suc n) x) = x mod 256 + 256 * ((x div 256) mod 256 ^ n)"
    using Suc by simp
  also have "\<dots> = x mod (256 * 256 ^ n)"
    by (simp add: zmod_zmult2_eq)
  finally show ?case by simp
qed simp

lemma le_val_inj: "length xs = length ys \<Longrightarrow> le_val xs = le_val ys \<longleftrightarrow> xs = ys"
  by (metis le_bytes_le_val)

lemma le_bytes_append: "le_bytes (m + n) x = le_bytes m x @ le_bytes n (x div 256 ^ m)"
  by (induction m arbitrary: x) (auto simp: zdiv_zmult2_eq)

lemma le_bytes_mod: "le_bytes n (x mod 256 ^ n) = le_bytes n x"
  by (metis le_bytes_le_val le_val_le_bytes length_le_bytes)

lemma le_val_chunks:
  assumes "length bs = 8 * n"
  shows "le_val bs = (\<Sum>i<n. 2 ^ (64 * i) * le_val (take 8 (drop (8 * i) bs)))"
  using assms
proof (induction n arbitrary: bs)
  case (Suc n)
  have "le_val bs = le_val (take 8 bs) + 2 ^ 64 * le_val (drop 8 bs)"
    using le_val_append [of "take 8 bs" "drop 8 bs"] Suc.prems by simp
  also have "le_val (drop 8 bs) = (\<Sum>i<n. 2 ^ (64 * i) * le_val (take 8 (drop (8 * i) (drop 8 bs))))"
    using Suc by simp
  finally show ?case
    by (subst sum.lessThan_Suc_shift) (simp add: sum_distrib_left power_add mult.assoc mult.left_commute add.commute)
qed simp

lemma le_bytes_inject:
  assumes "0 \<le> x" "x < 256 ^ n" "0 \<le> y" "y < 256 ^ n"
  shows "le_bytes n x = le_bytes n y \<longleftrightarrow> x = y"
proof
  assume "le_bytes n x = le_bytes n y"
  then have "x mod 256 ^ n = y mod 256 ^ n"
    by (metis le_val_le_bytes)
  then show "x = y"
    using assms by simp
qed simp

lemma le_val_replicate_0 [simp]: "le_val (replicate n 0) = 0"
  by (induction n) simp_all

lemma le_val_replicate_255: "le_val (replicate n 255) = 256 ^ n - 1"
  by (induction n) simp_all

end
