(* ===== verification/Portable.thy ===== *)
theory Portable
  imports Prelude
begin

unbundle bit_operations_syntax

text \<open>
  The portability layer (\<open>ed25519-donna-portable.h\<close>): the 128-bit helper macros in their
  native \<open>unsigned __int128\<close> form, and the little-endian loads and stores.  A pointer into
  a byte array is the list of the bytes from that position on.
\<close>

definition mul64x64_128 :: "u64 \<Rightarrow> u64 \<Rightarrow> u128" where
  "mul64x64_128 a b = ucast a * ucast b"

definition shr128 :: "u128 \<Rightarrow> nat \<Rightarrow> u64" where
  "shr128 x shift = ucast (drop_bit shift x)"

definition shl128 :: "u128 \<Rightarrow> nat \<Rightarrow> u64" where
  "shl128 x shift = ucast (drop_bit 64 (push_bit shift x))"

definition add128_64 :: "u128 \<Rightarrow> u64 \<Rightarrow> u128" where
  "add128_64 a b = a + ucast b"

definition lo128 :: "u128 \<Rightarrow> u64" where
  "lo128 a = ucast a"

definition hi128 :: "u128 \<Rightarrow> u64" where
  "hi128 a = ucast (drop_bit 64 a)"

definition U8TO64_LE :: "bytes \<Rightarrow> u64" where
  "U8TO64_LE p =
     (ucast (p ! 0)) OR
     push_bit 8 (ucast (p ! 1)) OR
     push_bit 16 (ucast (p ! 2)) OR
     push_bit 24 (ucast (p ! 3)) OR
     push_bit 32 (ucast (p ! 4)) OR
     push_bit 40 (ucast (p ! 5)) OR
     push_bit 48 (ucast (p ! 6)) OR
     push_bit 56 (ucast (p ! 7))"

definition U64TO8_LE :: "u64 \<Rightarrow> bytes" where
  "U64TO8_LE v =
     [ucast v, ucast (drop_bit 8 v), ucast (drop_bit 16 v), ucast (drop_bit 24 v),
      ucast (drop_bit 32 v), ucast (drop_bit 40 v), ucast (drop_bit 48 v), ucast (drop_bit 56 v)]"

subsection \<open>Their integer readings\<close>

lemma uint_mul64x64_128 [bitval]: "uint (mul64x64_128 a b) = uint a * uint b"
proof -
  have "uint a * uint b \<le> 18446744073709551615 * 18446744073709551615"
    using uint64_lt [of a] uint64_lt [of b] by (intro mult_mono) auto
  then show ?thesis
    by (simp add: mul64x64_128_def uint128_mult uint_ucast_64_128)
qed

lemma uint_shr128:
  "uint x div 2 ^ n < 18446744073709551616 \<Longrightarrow> uint (shr128 x n) = uint x div 2 ^ n"
  by (simp add: shr128_def bitval pos_imp_zdiv_nonneg_iff)

lemma uint_add128_64:
  "uint a + uint b < 340282366920938463463374607431768211456
    \<Longrightarrow> uint (add128_64 a b) = uint a + uint b"
  by (simp add: add128_64_def uint128_add bitval)

lemma uint_lo128 [bitval]: "uint (lo128 a) = uint a mod 2 ^ 64"
  by (simp add: lo128_def bitval)

lemma uint_shl128_13 [bitval]: "uint (shl128 x 13) = (uint x div 2 ^ 51) mod 2 ^ 64"
proof -
  have "(uint x * 2 ^ 13) mod 2 ^ 128 = 2 ^ 13 * (uint x mod 2 ^ 115)"
    using mod_mult_mult1 [of "2 ^ 13" "uint x" "2 ^ 115"] by (simp add: mult.commute)
  then have "uint (shl128 x 13) = (2 ^ 13 * (uint x mod 2 ^ 115) div 2 ^ 64) mod 2 ^ 64"
    by (simp add: shl128_def bitval uint_push_bit)
  also have "\<dots> = ((uint x mod 2 ^ 115) div 2 ^ 51) mod 2 ^ 64"
    using div_mult_mult1 [of "2 ^ 13" "uint x mod 2 ^ 115" "2 ^ 51"] by simp
  also have "\<dots> = (uint x div 2 ^ 51) mod 2 ^ 64"
    using zmod_zmult2_eq [of "2 ^ 64" "uint x" "2 ^ 51"] by simp
  finally show ?thesis by simp
qed

lemma le_bytes_8:
  "le_bytes 8 x =
     [word_of_int x, word_of_int (x div 2 ^ 8), word_of_int (x div 2 ^ 16), word_of_int (x div 2 ^ 24),
      word_of_int (x div 2 ^ 32), word_of_int (x div 2 ^ 40), word_of_int (x div 2 ^ 48),
      word_of_int (x div 2 ^ 56)]"
  by (simp add: eval_nat_numeral zdiv_zmult2_eq [symmetric])

lemma ucast_64_8_word_of_int: "(ucast (v :: u64) :: u8) = word_of_int (uint v)"
  by (simp add: word_uint_eq_iff uint_word_of_int bitval)

lemma U64TO8_LE_le_bytes: "U64TO8_LE v = le_bytes 8 (uint v)"
  by (simp only: U64TO8_LE_def le_bytes_8 ucast_64_8_word_of_int uint_drop_bit)

lemma length_U64TO8_LE [simp]: "length (U64TO8_LE v) = 8"
  by (simp add: U64TO8_LE_def)

lemma or_shift_step:
  assumes "uint (a :: u64) < 2 ^ n" and "n \<le> 56"
  shows "uint (a OR push_bit n (ucast (b :: u8))) = uint a + 2 ^ n * uint b"
    and "uint (a OR push_bit n (ucast (b :: u8))) < 2 ^ (n + 8)"
proof -
  have b: "uint b \<le> 255" using uint8_lt [of b] by simp
  have "uint b * 2 ^ n \<le> 255 * 2 ^ n" using b by (intro mult_right_mono) auto
  moreover have "(2::int) ^ n \<le> 72057594037927936" using power_increasing [of n 56 "2::int"] assms(2) by simp
  ultimately have small: "uint b * 2 ^ n < 18446744073709551616" by linarith
  have eq: "uint (a OR push_bit n (ucast b)) = uint a + uint b * 2 ^ n"
    using uint64_or_push_bit [OF assms(1), of "ucast b"] assms(2) small by (simp add: bitval)
  then show "uint (a OR push_bit n (ucast b)) = uint a + 2 ^ n * uint b"
    by (simp add: mult.commute)
  have "uint a + uint b * 2 ^ n < 2 ^ n + 255 * 2 ^ n"
    using assms(1) \<open>uint b * 2 ^ n \<le> 255 * 2 ^ n\<close> by linarith
  then show "uint (a OR push_bit n (ucast b)) < 2 ^ (n + 8)"
    unfolding eq by (simp add: power_add)
qed

lemma uint_U8TO64_LE_list:
  "uint (U8TO64_LE [b0, b1, b2, b3, b4, b5, b6, b7]) = le_val [b0, b1, b2, b3, b4, b5, b6, b7]"
proof -
  define a0 where "a0 = (ucast b0 :: u64)"
  define a1 where "a1 = a0 OR push_bit 8 (ucast b1)"
  define a2 where "a2 = a1 OR push_bit 16 (ucast b2)"
  define a3 where "a3 = a2 OR push_bit 24 (ucast b3)"
  define a4 where "a4 = a3 OR push_bit 32 (ucast b4)"
  define a5 where "a5 = a4 OR push_bit 40 (ucast b5)"
  define a6 where "a6 = a5 OR push_bit 48 (ucast b6)"
  define a7 where "a7 = a6 OR push_bit 56 (ucast b7)"
  have 0: "uint a0 < 2 ^ 8" "uint a0 = uint b0"
    using uint8_lt [of b0] by (simp_all add: a0_def bitval)
  have 1: "uint a1 < 2 ^ 16" "uint a1 = uint a0 + 2 ^ 8 * uint b1"
    using or_shift_step [OF 0(1), of b1] by (simp_all add: a1_def)
  have 2: "uint a2 < 2 ^ 24" "uint a2 = uint a1 + 2 ^ 16 * uint b2"
    using or_shift_step [OF 1(1), of b2] by (simp_all add: a2_def)
  have 3: "uint a3 < 2 ^ 32" "uint a3 = uint a2 + 2 ^ 24 * uint b3"
    using or_shift_step [OF 2(1), of b3] by (simp_all add: a3_def)
  have 4: "uint a4 < 2 ^ 40" "uint a4 = uint a3 + 2 ^ 32 * uint b4"
    using or_shift_step [OF 3(1), of b4] by (simp_all add: a4_def)
  have 5: "uint a5 < 2 ^ 48" "uint a5 = uint a4 + 2 ^ 40 * uint b5"
    using or_shift_step [OF 4(1), of b5] by (simp_all add: a5_def)
  have 6: "uint a6 < 2 ^ 56" "uint a6 = uint a5 + 2 ^ 48 * uint b6"
    using or_shift_step [OF 5(1), of b6] by (simp_all add: a6_def)
  have 7: "uint a7 = uint a6 + 2 ^ 56 * uint b7"
    using or_shift_step(1) [OF 6(1), of b7] by (simp add: a7_def)
  have "U8TO64_LE [b0, b1, b2, b3, b4, b5, b6, b7] = a7"
    by (simp add: U8TO64_LE_def a0_def a1_def a2_def a3_def a4_def a5_def a6_def a7_def or.assoc)
  then show ?thesis
    by (simp add: 0 1 2 3 4 5 6 7)
qed

lemma take_8_list:
  assumes "8 \<le> length p"
  shows "take 8 p = [p ! 0, p ! 1, p ! 2, p ! 3, p ! 4, p ! 5, p ! 6, p ! 7]"
  using assms by (auto intro!: nth_equalityI simp: less_Suc_eq eval_nat_numeral)

lemma uint_U8TO64_LE: "8 \<le> length p \<Longrightarrow> uint (U8TO64_LE p) = le_val (take 8 p)"
  using uint_U8TO64_LE_list [of "p ! 0" "p ! 1" "p ! 2" "p ! 3" "p ! 4" "p ! 5" "p ! 6" "p ! 7"]
  by (simp only: take_8_list) (simp add: U8TO64_LE_def)

lemma U8TO64_LE_U64TO8_LE: "U8TO64_LE (U64TO8_LE v) = v"
  using uint64_lt [of v]
  by (simp add: word_uint_eq_iff uint_U8TO64_LE U64TO8_LE_le_bytes le_val_le_bytes)

end
