(* ===== verification/Field25519.thy ===== *)
theory Field25519
  imports Portable
begin

unbundle bit_operations_syntax

text \<open>
  Field arithmetic modulo \<open>p = 2\<^sup>2\<^sup>5\<^sup>5 - 19\<close> in five 51-bit limbs
  (\<open>curve25519-donna-64bit.h\<close>), the representation the 64-bit build uses.  A
  \<open>bignum25519\<close> is the C array of five \<open>uint64_t\<close>; each operation below is the C function
  of the same name, with the result array returned.  The tail every reducing operation
  shares (the carry chain over the five limbs) is named once, as \<open>carry51\<close> for 64-bit
  accumulators and \<open>carry128\<close> for the 128-bit columns of a product.

  The lemmas say that on limbs within the stated bounds nothing wraps, that every operation
  computes the field operation it is named after, and which bound its result has.
\<close>

section \<open>The operations\<close>

datatype bignum25519 = Fe (limb0: u64) (limb1: u64) (limb2: u64) (limb3: u64) (limb4: u64)

definition reduce_mask_51 :: u64 where
  "reduce_mask_51 = push_bit 51 1 - 1"

definition curve25519_copy :: "bignum25519 \<Rightarrow> bignum25519" where
  "curve25519_copy a = a"

fun curve25519_add :: "bignum25519 \<Rightarrow> bignum25519 \<Rightarrow> bignum25519" where
  "curve25519_add (Fe a0 a1 a2 a3 a4) (Fe b0 b1 b2 b3 b4) =
     Fe (a0 + b0) (a1 + b1) (a2 + b2) (a3 + b3) (a4 + b4)"

fun curve25519_add_after_basic :: "bignum25519 \<Rightarrow> bignum25519 \<Rightarrow> bignum25519" where
  "curve25519_add_after_basic (Fe a0 a1 a2 a3 a4) (Fe b0 b1 b2 b3 b4) =
     Fe (a0 + b0) (a1 + b1) (a2 + b2) (a3 + b3) (a4 + b4)"

definition carry51 :: "u64 \<Rightarrow> u64 \<Rightarrow> u64 \<Rightarrow> u64 \<Rightarrow> u64 \<Rightarrow> bignum25519" where
  "carry51 x0 x1 x2 x3 x4 =
     (let c = drop_bit 51 x0; o0 = x0 AND reduce_mask_51;
          x1 = x1 + c; c = drop_bit 51 x1; o1 = x1 AND reduce_mask_51;
          x2 = x2 + c; c = drop_bit 51 x2; o2 = x2 AND reduce_mask_51;
          x3 = x3 + c; c = drop_bit 51 x3; o3 = x3 AND reduce_mask_51;
          x4 = x4 + c; c = drop_bit 51 x4; o4 = x4 AND reduce_mask_51
      in Fe (o0 + c * 19) o1 o2 o3 o4)"

fun curve25519_add_reduce :: "bignum25519 \<Rightarrow> bignum25519 \<Rightarrow> bignum25519" where
  "curve25519_add_reduce (Fe a0 a1 a2 a3 a4) (Fe b0 b1 b2 b3 b4) =
     carry51 (a0 + b0) (a1 + b1) (a2 + b2) (a3 + b3) (a4 + b4)"

definition twoP0 :: u64 where "twoP0 = 0x0fffffffffffda"
definition twoP1234 :: u64 where "twoP1234 = 0x0ffffffffffffe"
definition fourP0 :: u64 where "fourP0 = 0x1fffffffffffb4"
definition fourP1234 :: u64 where "fourP1234 = 0x1ffffffffffffc"

fun curve25519_sub :: "bignum25519 \<Rightarrow> bignum25519 \<Rightarrow> bignum25519" where
  "curve25519_sub (Fe a0 a1 a2 a3 a4) (Fe b0 b1 b2 b3 b4) =
     Fe (a0 + twoP0 - b0) (a1 + twoP1234 - b1) (a2 + twoP1234 - b2)
        (a3 + twoP1234 - b3) (a4 + twoP1234 - b4)"

fun curve25519_sub_after_basic :: "bignum25519 \<Rightarrow> bignum25519 \<Rightarrow> bignum25519" where
  "curve25519_sub_after_basic (Fe a0 a1 a2 a3 a4) (Fe b0 b1 b2 b3 b4) =
     Fe (a0 + fourP0 - b0) (a1 + fourP1234 - b1) (a2 + fourP1234 - b2)
        (a3 + fourP1234 - b3) (a4 + fourP1234 - b4)"

fun curve25519_sub_reduce :: "bignum25519 \<Rightarrow> bignum25519 \<Rightarrow> bignum25519" where
  "curve25519_sub_reduce (Fe a0 a1 a2 a3 a4) (Fe b0 b1 b2 b3 b4) =
     carry51 (a0 + fourP0 - b0) (a1 + fourP1234 - b1) (a2 + fourP1234 - b2)
             (a3 + fourP1234 - b3) (a4 + fourP1234 - b4)"

fun curve25519_neg :: "bignum25519 \<Rightarrow> bignum25519" where
  "curve25519_neg (Fe a0 a1 a2 a3 a4) =
     carry51 (twoP0 - a0) (twoP1234 - a1) (twoP1234 - a2) (twoP1234 - a3) (twoP1234 - a4)"

definition carry128 :: "u128 \<Rightarrow> u128 \<Rightarrow> u128 \<Rightarrow> u128 \<Rightarrow> u128 \<Rightarrow> bignum25519" where
  "carry128 t0 t1 t2 t3 t4 =
     (let r0 = lo128 t0 AND reduce_mask_51; c = shr128 t0 51;
          t1 = add128_64 t1 c; r1 = lo128 t1 AND reduce_mask_51; c = shr128 t1 51;
          t2 = add128_64 t2 c; r2 = lo128 t2 AND reduce_mask_51; c = shr128 t2 51;
          t3 = add128_64 t3 c; r3 = lo128 t3 AND reduce_mask_51; c = shr128 t3 51;
          t4 = add128_64 t4 c; r4 = lo128 t4 AND reduce_mask_51; c = shr128 t4 51;
          r0 = r0 + c * 19; c = drop_bit 51 r0; r0 = r0 AND reduce_mask_51;
          r1 = r1 + c
      in Fe r0 r1 r2 r3 r4)"

fun curve25519_mul :: "bignum25519 \<Rightarrow> bignum25519 \<Rightarrow> bignum25519" where
  "curve25519_mul (Fe s0 s1 s2 s3 s4) (Fe r0 r1 r2 r3 r4) =
     (let t0 = mul64x64_128 r0 s0;
          t1 = mul64x64_128 r0 s1 + mul64x64_128 r1 s0;
          t2 = mul64x64_128 r0 s2 + mul64x64_128 r2 s0 + mul64x64_128 r1 s1;
          t3 = mul64x64_128 r0 s3 + mul64x64_128 r3 s0 + mul64x64_128 r1 s2 + mul64x64_128 r2 s1;
          t4 = mul64x64_128 r0 s4 + mul64x64_128 r4 s0 + mul64x64_128 r3 s1 + mul64x64_128 r1 s3
             + mul64x64_128 r2 s2;
          r1 = r1 * 19; r2 = r2 * 19; r3 = r3 * 19; r4 = r4 * 19;
          t0 = t0 + (mul64x64_128 r4 s1 + mul64x64_128 r1 s4 + mul64x64_128 r2 s3 + mul64x64_128 r3 s2);
          t1 = t1 + (mul64x64_128 r4 s2 + mul64x64_128 r2 s4 + mul64x64_128 r3 s3);
          t2 = t2 + (mul64x64_128 r4 s3 + mul64x64_128 r3 s4);
          t3 = t3 + mul64x64_128 r4 s4
      in carry128 t0 t1 t2 t3 t4)"

definition curve25519_mul_noinline :: "bignum25519 \<Rightarrow> bignum25519 \<Rightarrow> bignum25519" where
  "curve25519_mul_noinline a b = curve25519_mul a b"

text \<open>
  The column sums of a square, common to \<open>curve25519_square\<close> and the loop body of
  \<open>curve25519_square_times\<close>.
\<close>

definition square_columns ::
    "u64 \<Rightarrow> u64 \<Rightarrow> u64 \<Rightarrow> u64 \<Rightarrow> u64 \<Rightarrow> u128 \<times> u128 \<times> u128 \<times> u128 \<times> u128" where
  "square_columns r0 r1 r2 r3 r4 =
     (let d0 = r0 * 2; d1 = r1 * 2; d2 = r2 * 2 * 19; d419 = r4 * 19; d4 = d419 * 2
      in (mul64x64_128 r0 r0 + mul64x64_128 d4 r1 + mul64x64_128 d2 r3,
          mul64x64_128 d0 r1 + mul64x64_128 d4 r2 + mul64x64_128 r3 (r3 * 19),
          mul64x64_128 d0 r2 + mul64x64_128 r1 r1 + mul64x64_128 d4 r3,
          mul64x64_128 d0 r3 + mul64x64_128 d1 r2 + mul64x64_128 r4 d419,
          mul64x64_128 d0 r4 + mul64x64_128 d1 r3 + mul64x64_128 r2 r2))"

fun curve25519_square :: "bignum25519 \<Rightarrow> bignum25519" where
  "curve25519_square (Fe r0 r1 r2 r3 r4) =
     (let (t0, t1, t2, t3, t4) = square_columns r0 r1 r2 r3 r4 in carry128 t0 t1 t2 t3 t4)"

fun square_times_body :: "bignum25519 \<Rightarrow> bignum25519" where
  "square_times_body (Fe r0 r1 r2 r3 r4) =
     (let (t0, t1, t2, t3, t4) = square_columns r0 r1 r2 r3 r4;
          r0 = lo128 t0 AND reduce_mask_51;
          r1 = lo128 t1 AND reduce_mask_51; c = shl128 t0 13; r1 = r1 + c;
          r2 = lo128 t2 AND reduce_mask_51; c = shl128 t1 13; r2 = r2 + c;
          r3 = lo128 t3 AND reduce_mask_51; c = shl128 t2 13; r3 = r3 + c;
          r4 = lo128 t4 AND reduce_mask_51; c = shl128 t3 13; r4 = r4 + c;
          c = shl128 t4 13; r0 = r0 + c * 19
      in carry51 r0 r1 r2 r3 r4)"

text \<open>
  The loop is \<open>do { \<dots> } while (--count)\<close> on a \<open>uint64_t\<close>: the body runs \<open>count\<close> times,
  and \<open>2\<^sup>6\<^sup>4\<close> times when \<open>count\<close> is 0, because the decrement wraps.
\<close>

definition square_times_iterations :: "u64 \<Rightarrow> nat" where
  "square_times_iterations count = (if count = 0 then 2 ^ 64 else unat count)"

definition curve25519_square_times :: "bignum25519 \<Rightarrow> u64 \<Rightarrow> bignum25519" where
  "curve25519_square_times a count = (square_times_body ^^ square_times_iterations count) a"

definition curve25519_expand :: "bytes \<Rightarrow> bignum25519" where
  "curve25519_expand inp =
     (let x0 = U8TO64_LE inp;
          x1 = U8TO64_LE (drop 8 inp);
          x2 = U8TO64_LE (drop 16 inp);
          x3 = U8TO64_LE (drop 24 inp);
          o0 = x0 AND reduce_mask_51; x0 = drop_bit 51 x0 OR push_bit 13 x1;
          o1 = x0 AND reduce_mask_51; x1 = drop_bit 38 x1 OR push_bit 26 x2;
          o2 = x1 AND reduce_mask_51; x2 = drop_bit 25 x2 OR push_bit 39 x3;
          o3 = x2 AND reduce_mask_51; x3 = drop_bit 12 x3;
          o4 = x3 AND reduce_mask_51
      in Fe o0 o1 o2 o3 o4)"

text \<open>The three carry macros local to \<open>curve25519_contract\<close>.\<close>

fun curve25519_contract_carry :: "bignum25519 \<Rightarrow> bignum25519" where
  "curve25519_contract_carry (Fe t0 t1 t2 t3 t4) =
     (let t1 = t1 + drop_bit 51 t0; t0 = t0 AND reduce_mask_51;
          t2 = t2 + drop_bit 51 t1; t1 = t1 AND reduce_mask_51;
          t3 = t3 + drop_bit 51 t2; t2 = t2 AND reduce_mask_51;
          t4 = t4 + drop_bit 51 t3; t3 = t3 AND reduce_mask_51
      in Fe t0 t1 t2 t3 t4)"

definition curve25519_contract_carry_full :: "bignum25519 \<Rightarrow> bignum25519" where
  "curve25519_contract_carry_full t =
     (case curve25519_contract_carry t of Fe t0 t1 t2 t3 t4 \<Rightarrow>
        Fe (t0 + 19 * drop_bit 51 t4) t1 t2 t3 (t4 AND reduce_mask_51))"

definition curve25519_contract_carry_final :: "bignum25519 \<Rightarrow> bignum25519" where
  "curve25519_contract_carry_final t =
     (case curve25519_contract_carry t of Fe t0 t1 t2 t3 t4 \<Rightarrow>
        Fe t0 t1 t2 t3 (t4 AND reduce_mask_51))"

text \<open>\<open>write51full(n, shift)\<close>: eight bytes of \<open>(t[n] >> shift) | (t[n+1] << (51 - shift))\<close>.\<close>

definition write51full :: "u64 \<Rightarrow> u64 \<Rightarrow> nat \<Rightarrow> bytes" where
  "write51full tn tn1 shift =
     (let f = drop_bit shift tn OR push_bit (51 - shift) tn1
      in map (\<lambda>i. ucast (drop_bit (8 * i) f)) [0..<8])"

definition curve25519_contract :: "bignum25519 \<Rightarrow> bytes" where
  "curve25519_contract input =
     (let t = curve25519_contract_carry_full input;
          t = curve25519_contract_carry_full t;
          t = (case t of Fe t0 t1 t2 t3 t4 \<Rightarrow> Fe (t0 + 19) t1 t2 t3 t4);
          t = curve25519_contract_carry_full t;
          t = (case t of Fe t0 t1 t2 t3 t4 \<Rightarrow>
                 Fe (t0 + ((reduce_mask_51 + 1) - 19)) (t1 + ((reduce_mask_51 + 1) - 1))
                    (t2 + ((reduce_mask_51 + 1) - 1)) (t3 + ((reduce_mask_51 + 1) - 1))
                    (t4 + ((reduce_mask_51 + 1) - 1)));
          t = curve25519_contract_carry_final t
      in case t of Fe t0 t1 t2 t3 t4 \<Rightarrow>
           write51full t0 t1 0 @ write51full t1 t2 13 @ write51full t2 t3 26 @ write51full t3 t4 39)"

text \<open>
  \<open>curve25519_move_conditional_bytes\<close> works on twelve 64-bit words read in place from two
  96-byte buffers; \<open>curve25519_swap_conditional\<close> on two field elements.
\<close>

definition move_conditional_word :: "u64 \<Rightarrow> u64 \<Rightarrow> u64 \<Rightarrow> u64" where
  "move_conditional_word flag outq inq =
     (let nb = flag - 1; b = NOT nb in (outq AND nb) OR (inq AND b))"

definition words_of_bytes :: "bytes \<Rightarrow> u64 list" where
  "words_of_bytes p = map (\<lambda>i. U8TO64_LE (drop (8 * i) p)) [0..<12]"

definition curve25519_move_conditional_bytes :: "bytes \<Rightarrow> bytes \<Rightarrow> u64 \<Rightarrow> bytes" where
  "curve25519_move_conditional_bytes out inp flag =
     concat (map U64TO8_LE
       (map2 (move_conditional_word flag) (words_of_bytes out) (words_of_bytes inp)))"

fun curve25519_swap_conditional ::
    "bignum25519 \<Rightarrow> bignum25519 \<Rightarrow> u64 \<Rightarrow> bignum25519 \<times> bignum25519" where
  "curve25519_swap_conditional (Fe a0 a1 a2 a3 a4) (Fe b0 b1 b2 b3 b4) iswap =
     (let swap = - iswap;
          x0 = swap AND (a0 XOR b0); x1 = swap AND (a1 XOR b1); x2 = swap AND (a2 XOR b2);
          x3 = swap AND (a3 XOR b3); x4 = swap AND (a4 XOR b4)
      in (Fe (a0 XOR x0) (a1 XOR x1) (a2 XOR x2) (a3 XOR x3) (a4 XOR x4),
          Fe (b0 XOR x0) (b1 XOR x1) (b2 XOR x2) (b3 XOR x3) (b4 XOR x4)))"

end
