(* ===== verification/Fp.thy ===== *)
theory Fp
  imports Prelude
begin

text \<open>
  The prime field of curve25519 as the specification sees it: residues modulo
  \<open>p = 2\<^sup>2\<^sup>5\<^sup>5 - 19\<close>, written as integers in \<open>{0..<p}\<close>.  The limb-level operations of
  the code refine these operations; the point formulas and the Ristretto encoding are
  stated over them.
\<close>

definition p25519 :: int where
  "p25519 = 2 ^ 255 - 19"

definition fp_add :: "int \<Rightarrow> int \<Rightarrow> int" where
  "fp_add x y = (x + y) mod p25519"

definition fp_sub :: "int \<Rightarrow> int \<Rightarrow> int" where
  "fp_sub x y = (x - y) mod p25519"

definition fp_neg :: "int \<Rightarrow> int" where
  "fp_neg x = (- x) mod p25519"

definition fp_mul :: "int \<Rightarrow> int \<Rightarrow> int" where
  "fp_mul x y = (x * y) mod p25519"

definition fp_sqr :: "int \<Rightarrow> int" where
  "fp_sqr x = fp_mul x x"

definition fp_pow :: "int \<Rightarrow> nat \<Rightarrow> int" where
  "fp_pow x n = (x ^ n) mod p25519"

lemmas fp_defs = fp_add_def fp_sub_def fp_neg_def fp_mul_def fp_sqr_def fp_pow_def

lemma p25519_pos: "0 < p25519"
  by (simp add: p25519_def)

lemma p25519_less: "p25519 < 2 ^ 255"
  by (simp add: p25519_def)

lemma fp_range:
  "0 \<le> x mod p25519" "x mod p25519 < p25519" "x mod p25519 < 2 ^ 255"
proof -
  show "0 \<le> x mod p25519" "x mod p25519 < p25519"
    using p25519_pos by simp_all
  then show "x mod p25519 < 2 ^ 255"
    using p25519_less by linarith
qed

lemma fp_mod_id [simp]:
  "fp_add x y mod p25519 = fp_add x y"
  "fp_sub x y mod p25519 = fp_sub x y"
  "fp_neg x mod p25519 = fp_neg x"
  "fp_mul x y mod p25519 = fp_mul x y"
  "fp_sqr x mod p25519 = fp_sqr x"
  "fp_pow x n mod p25519 = fp_pow x n"
  by (simp_all add: fp_defs)

lemma fp_mul_zero [simp]: "fp_mul 0 x = 0" "fp_mul x 0 = 0"
  by (simp_all add: fp_mul_def)

lemma fp_add_zero [simp]: "fp_add 0 0 = 0" "fp_sub 0 0 = 0" "fp_neg 0 = 0" "fp_sqr 0 = 0"
  by (simp_all add: fp_defs)

lemma fp_pow_mul: "fp_mul (fp_pow x m) (fp_pow x n) = fp_pow x (m + n)"
  by (simp add: fp_defs power_add mod_mult_eq)

lemma fp_pow_pow: "fp_pow (fp_pow x m) n = fp_pow x (m * n)"
  by (simp add: fp_defs power_mult power_mod)

lemma fp_pow_one: "0 \<le> x \<Longrightarrow> x < p25519 \<Longrightarrow> fp_pow x 1 = x"
  by (simp add: fp_defs)

lemma fp_pow_zero: "0 < n \<Longrightarrow> fp_pow 0 n = 0"
  by (simp add: fp_defs zero_power)

lemma fp_mod_eq_mul: "(x mod p25519 * (y mod p25519)) mod p25519 = fp_mul x y"
  by (simp add: fp_mul_def mod_mult_eq)

end
