(* ===== verification/Field25519_Correct.thy ===== *)
theory Field25519_Correct
  imports Field25519 Fp
begin

unbundle bit_operations_syntax

text \<open>
  Correctness of the limb arithmetic.  \<open>fval\<close> is the integer a limb vector stands for and
  \<open>feval\<close> the field element, its residue.  Three bounds on the limbs describe how far an
  element may be from fully carried: \<open>tight\<close> after a reducing operation, \<open>basic\<close> after one
  unreduced addition or subtraction of tight elements, \<open>loose\<close> for what a multiplication
  accepts.  Each operation is shown to stay within 64 (or 128) bits, to land in its bound,
  and to compute the operation of \<open>Fp\<close>.
\<close>

fun fval :: "bignum25519 \<Rightarrow> int" where
  "fval (Fe a0 a1 a2 a3 a4) =
     uint a0 + 2 ^ 51 * uint a1 + 2 ^ 102 * uint a2 + 2 ^ 153 * uint a3 + 2 ^ 204 * uint a4"

definition feval :: "bignum25519 \<Rightarrow> int" where
  "feval a = fval a mod p25519"

fun limbs_below :: "int \<Rightarrow> bignum25519 \<Rightarrow> bool" where
  "limbs_below b (Fe a0 a1 a2 a3 a4) \<longleftrightarrow>
     uint a0 < b \<and> uint a1 < b \<and> uint a2 < b \<and> uint a3 < b \<and> uint a4 < b"

definition tight :: "bignum25519 \<Rightarrow> bool" where
  "tight = limbs_below (2 ^ 51 + 2 ^ 18)"

definition basic :: "bignum25519 \<Rightarrow> bool" where
  "basic = limbs_below (2 ^ 53 - 76)"

definition loose :: "bignum25519 \<Rightarrow> bool" where
  "loose = limbs_below (2 ^ 54)"

lemmas bound_defs = tight_def basic_def loose_def

text \<open>
  \<open>fe_bound\<close> collects the bound each operation establishes, \<open>fe_val\<close> the field
  operation it computes.
\<close>

named_theorems fe_bound
named_theorems fe_val

lemma limbs_below_mono: "limbs_below b a \<Longrightarrow> b \<le> c \<Longrightarrow> limbs_below c a"
  by (cases a) auto

lemma tight_basic [fe_bound]: "tight a \<Longrightarrow> basic a"
  unfolding bound_defs by (erule limbs_below_mono) simp

lemma basic_loose [fe_bound]: "basic a \<Longrightarrow> loose a"
  unfolding bound_defs by (erule limbs_below_mono) simp

lemma tight_loose [fe_bound]: "tight a \<Longrightarrow> loose a"
  unfolding bound_defs by (erule limbs_below_mono) simp

lemma loose_63: "loose a \<Longrightarrow> limbs_below (2 ^ 63) a"
  unfolding bound_defs by (erule limbs_below_mono) simp

lemma feval_range: "0 \<le> feval a" "feval a < p25519"
  by (simp_all add: feval_def fp_range)

lemma feval_mod [simp]: "feval a mod p25519 = feval a"
  by (simp add: feval_def)

section \<open>Carry chains\<close>

lemma reduce_mask_51_eq: "reduce_mask_51 = mask 51"
  by (simp add: reduce_mask_51_def mask_eq_exp_minus_1)

lemma uint_and_mask_51 [bitval]: "uint (x AND reduce_mask_51) = uint x mod 2251799813685248"
  by (simp add: reduce_mask_51_eq uint_and_mask)

lemma split51:
  fixes x :: u64
  obtains q r where "uint x = 2251799813685248 * q + r" "0 \<le> r" "r < 2251799813685248"
    "uint (drop_bit 51 x) = q" "uint (x AND reduce_mask_51) = r" "0 \<le> q" "q < 8192"
proof
  show "uint x = 2251799813685248 * (uint x div 2251799813685248) + uint x mod 2251799813685248"
    by simp
  show "uint x div 2251799813685248 < 8192"
    using uint64_lt [of x] by linarith
qed (simp_all add: bitval pos_imp_zdiv_nonneg_iff)
lemma contract_carry_correct:
  assumes "uint x1 < 2 ^ 64 - 2 ^ 13" "uint x2 < 2 ^ 64 - 2 ^ 13" "uint x3 < 2 ^ 64 - 2 ^ 13"
    and "uint x4 < 2 ^ 64 - 2 ^ 13"
  obtains t0 t1 t2 t3 t4 where
    "curve25519_contract_carry (Fe x0 x1 x2 x3 x4) = Fe t0 t1 t2 t3 t4"
    "uint t0 < 2 ^ 51" "uint t1 < 2 ^ 51" "uint t2 < 2 ^ 51" "uint t3 < 2 ^ 51"
    "fval (Fe x0 x1 x2 x3 x4) = fval (Fe t0 t1 t2 t3 t4)"
proof -
  define y1 where "y1 = x1 + drop_bit 51 x0"
  define y2 where "y2 = x2 + drop_bit 51 y1"
  define y3 where "y3 = x3 + drop_bit 51 y2"
  define y4 where "y4 = x4 + drop_bit 51 y3"
  obtain q0 r0 where 0: "uint x0 = 2251799813685248 * q0 + r0" "0 \<le> r0" "r0 < 2251799813685248"
    "uint (drop_bit 51 x0) = q0" "uint (x0 AND reduce_mask_51) = r0" "0 \<le> q0" "q0 < 8192"
    by (rule split51)
  have y1: "uint y1 = uint x1 + q0" using assms 0 by (simp add: y1_def nowrap)
  obtain q1 r1 where 1: "uint y1 = 2251799813685248 * q1 + r1" "0 \<le> r1" "r1 < 2251799813685248"
    "uint (drop_bit 51 y1) = q1" "uint (y1 AND reduce_mask_51) = r1" "0 \<le> q1" "q1 < 8192"
    by (rule split51)
  have y2: "uint y2 = uint x2 + q1" using assms 1 by (simp add: y2_def nowrap)
  obtain q2 r2 where 2: "uint y2 = 2251799813685248 * q2 + r2" "0 \<le> r2" "r2 < 2251799813685248"
    "uint (drop_bit 51 y2) = q2" "uint (y2 AND reduce_mask_51) = r2" "0 \<le> q2" "q2 < 8192"
    by (rule split51)
  have y3: "uint y3 = uint x3 + q2" using assms 2 by (simp add: y3_def nowrap)
  obtain q3 r3 where 3: "uint y3 = 2251799813685248 * q3 + r3" "0 \<le> r3" "r3 < 2251799813685248"
    "uint (drop_bit 51 y3) = q3" "uint (y3 AND reduce_mask_51) = r3" "0 \<le> q3" "q3 < 8192"
    by (rule split51)
  have y4: "uint y4 = uint x4 + q3" using assms 3 by (simp add: y4_def nowrap)
  have eq: "curve25519_contract_carry (Fe x0 x1 x2 x3 x4) = Fe (x0 AND reduce_mask_51)
      (y1 AND reduce_mask_51) (y2 AND reduce_mask_51) (y3 AND reduce_mask_51) y4"
    by (simp add: Let_def y1_def y2_def y3_def y4_def)
  show thesis
    by (rule that, rule eq) (use 0 1 2 3 y1 y2 y3 y4 in simp_all)
qed

lemma contract_carry_full_correct:
  assumes "uint x1 < 2 ^ 64 - 2 ^ 13" "uint x2 < 2 ^ 64 - 2 ^ 13" "uint x3 < 2 ^ 64 - 2 ^ 13"
    and "uint x4 < 2 ^ 64 - 2 ^ 13"
  obtains t0 t1 t2 t3 t4 q r where
    "curve25519_contract_carry_full (Fe x0 x1 x2 x3 x4) = Fe t0 t1 t2 t3 t4"
    "uint t0 = r + 19 * q" "0 \<le> r" "r < 2251799813685248" "0 \<le> q" "q < 8192"
    "uint t1 < 2251799813685248" "uint t2 < 2251799813685248" "uint t3 < 2251799813685248"
    "uint t4 < 2251799813685248"
    "uint x0 + 2 ^ 51 * uint x1 + 2 ^ 102 * uint x2 + 2 ^ 153 * uint x3 + 2 ^ 204 * uint x4
      = r + 2 ^ 51 * uint t1 + 2 ^ 102 * uint t2 + 2 ^ 153 * uint t3 + 2 ^ 204 * uint t4 + 2 ^ 255 * q"
proof -
  obtain u0 u1 u2 u3 u4 where u:
    "curve25519_contract_carry (Fe x0 x1 x2 x3 x4) = Fe u0 u1 u2 u3 u4"
    "uint u0 < 2 ^ 51" "uint u1 < 2 ^ 51" "uint u2 < 2 ^ 51" "uint u3 < 2 ^ 51"
    "fval (Fe x0 x1 x2 x3 x4) = fval (Fe u0 u1 u2 u3 u4)"
    by (rule contract_carry_correct [OF assms, of x0])
  obtain q r where 4: "uint u4 = 2251799813685248 * q + r" "0 \<le> r" "r < 2251799813685248"
    "uint (drop_bit 51 u4) = q" "uint (u4 AND reduce_mask_51) = r" "0 \<le> q" "q < 8192"
    by (rule split51)
  have "uint (19 * drop_bit 51 u4) = 19 * q"
    using 4 by (simp add: nowrap)
  then have t0: "uint (u0 + 19 * drop_bit 51 u4) = uint u0 + 19 * q"
    using 4 u(2) by (simp add: nowrap)
  have eq: "curve25519_contract_carry_full (Fe x0 x1 x2 x3 x4) =
      Fe (u0 + 19 * drop_bit 51 u4) u1 u2 u3 (u4 AND reduce_mask_51)"
    by (simp only: curve25519_contract_carry_full_def u(1) bignum25519.case)
  show thesis
    by (rule that, rule eq, rule t0) (use 4 u in simp_all)
qed

lemma carry51_eq: "carry51 x0 x1 x2 x3 x4 = curve25519_contract_carry_full (Fe x0 x1 x2 x3 x4)"
  by (simp add: carry51_def curve25519_contract_carry_full_def Let_def mult.commute)

lemma carry51_correct:
  assumes "uint x1 < 2 ^ 64 - 2 ^ 13" "uint x2 < 2 ^ 64 - 2 ^ 13" "uint x3 < 2 ^ 64 - 2 ^ 13"
    and "uint x4 < 2 ^ 64 - 2 ^ 13"
  shows "tight (carry51 x0 x1 x2 x3 x4)"
    and "fval (carry51 x0 x1 x2 x3 x4) mod p25519 =
      (uint x0 + 2 ^ 51 * uint x1 + 2 ^ 102 * uint x2 + 2 ^ 153 * uint x3 + 2 ^ 204 * uint x4) mod p25519"
proof -
  from assms obtain t0 t1 t2 t3 t4 q r where t:
    "curve25519_contract_carry_full (Fe x0 x1 x2 x3 x4) = Fe t0 t1 t2 t3 t4"
    "uint t0 = r + 19 * q" "0 \<le> r" "r < 2251799813685248" "0 \<le> q" "q < 8192"
    "uint t1 < 2251799813685248" "uint t2 < 2251799813685248" "uint t3 < 2251799813685248"
    "uint t4 < 2251799813685248"
    "uint x0 + 2 ^ 51 * uint x1 + 2 ^ 102 * uint x2 + 2 ^ 153 * uint x3 + 2 ^ 204 * uint x4
      = r + 2 ^ 51 * uint t1 + 2 ^ 102 * uint t2 + 2 ^ 153 * uint t3 + 2 ^ 204 * uint t4 + 2 ^ 255 * q"
    by (rule contract_carry_full_correct [of x1 x2 x3 x4 x0])
  show "tight (carry51 x0 x1 x2 x3 x4)" using t by (simp add: carry51_eq tight_def)
  have "uint x0 + 2 ^ 51 * uint x1 + 2 ^ 102 * uint x2 + 2 ^ 153 * uint x3 + 2 ^ 204 * uint x4
      = fval (carry51 x0 x1 x2 x3 x4) + p25519 * q"
    unfolding t(11) by (simp add: carry51_eq t p25519_def)
  then show "fval (carry51 x0 x1 x2 x3 x4) mod p25519 =
      (uint x0 + 2 ^ 51 * uint x1 + 2 ^ 102 * uint x2 + 2 ^ 153 * uint x3 + 2 ^ 204 * uint x4) mod p25519"
    by (simp only: mod_mult_self2)
qed

lemma split51_128:
  fixes t :: u128
  assumes "uint t < 2 ^ 115"
  obtains q r where "uint t = 2251799813685248 * q + r" "0 \<le> r" "r < 2251799813685248"
    "uint (shr128 t 51) = q" "uint (shl128 t 13) = q" "uint (lo128 t AND reduce_mask_51) = r" "0 \<le> q"
proof
  have q: "uint t div 2251799813685248 < 18446744073709551616"
    using assms by simp
  show "uint t = 2251799813685248 * (uint t div 2251799813685248) + uint t mod 2251799813685248"
    by simp
  show "uint (shr128 t 51) = uint t div 2251799813685248"
    using uint_shr128 [of t 51] q by simp
  show "uint (shl128 t 13) = uint t div 2251799813685248"
    using q by (simp add: bitval pos_imp_zdiv_nonneg_iff)
  show "uint (lo128 t AND reduce_mask_51) = uint t mod 2251799813685248"
    by (simp add: bitval mod_mod_cancel)
qed (simp_all add: pos_imp_zdiv_nonneg_iff)

lemma carry128_correct:
  assumes "uint t0 < 2 ^ 114 + 2 ^ 112" "uint t1 < 2 ^ 114" "uint t2 < 2 ^ 114" "uint t3 < 2 ^ 114"
    and "uint t4 < 5 * 2 ^ 108"
  shows "tight (carry128 t0 t1 t2 t3 t4)"
    and "fval (carry128 t0 t1 t2 t3 t4) mod p25519 =
      (uint t0 + 2 ^ 51 * uint t1 + 2 ^ 102 * uint t2 + 2 ^ 153 * uint t3 + 2 ^ 204 * uint t4) mod p25519"
proof -
  define y1 where "y1 = add128_64 t1 (shr128 t0 51)"
  define y2 where "y2 = add128_64 t2 (shr128 y1 51)"
  define y3 where "y3 = add128_64 t3 (shr128 y2 51)"
  define y4 where "y4 = add128_64 t4 (shr128 y3 51)"
  have "uint t0 < 2 ^ 115" using assms(1) by simp
  then obtain q0 r0 where 0: "uint t0 = 2251799813685248 * q0 + r0" "0 \<le> r0" "r0 < 2251799813685248"
    "uint (shr128 t0 51) = q0" "uint (shl128 t0 13) = q0" "uint (lo128 t0 AND reduce_mask_51) = r0" "0 \<le> q0"
    by (rule split51_128)
  have y1: "uint y1 = uint t1 + q0"
    using uint64_lt [of "shr128 t0 51"] assms 0 by (simp add: y1_def uint_add128_64)
  have "uint y1 < 2 ^ 115" using y1 assms 0 by simp
  then obtain q1 r1 where 1: "uint y1 = 2251799813685248 * q1 + r1" "0 \<le> r1" "r1 < 2251799813685248"
    "uint (shr128 y1 51) = q1" "uint (shl128 y1 13) = q1" "uint (lo128 y1 AND reduce_mask_51) = r1" "0 \<le> q1"
    by (rule split51_128)
  have y2: "uint y2 = uint t2 + q1"
    using uint64_lt [of "shr128 y1 51"] assms 1 by (simp add: y2_def uint_add128_64)
  have "uint y2 < 2 ^ 115" using y1 y2 assms 0 1 by simp
  then obtain q2 r2 where 2: "uint y2 = 2251799813685248 * q2 + r2" "0 \<le> r2" "r2 < 2251799813685248"
    "uint (shr128 y2 51) = q2" "uint (shl128 y2 13) = q2" "uint (lo128 y2 AND reduce_mask_51) = r2" "0 \<le> q2"
    by (rule split51_128)
  have y3: "uint y3 = uint t3 + q2"
    using uint64_lt [of "shr128 y2 51"] assms 2 by (simp add: y3_def uint_add128_64)
  have "uint y3 < 2 ^ 115" using y2 y3 y1 assms 0 1 2 by simp
  then obtain q3 r3 where 3: "uint y3 = 2251799813685248 * q3 + r3" "0 \<le> r3" "r3 < 2251799813685248"
    "uint (shr128 y3 51) = q3" "uint (shl128 y3 13) = q3" "uint (lo128 y3 AND reduce_mask_51) = r3" "0 \<le> q3"
    by (rule split51_128)
  have y4: "uint y4 = uint t4 + q3"
    using uint64_lt [of "shr128 y3 51"] assms 3 by (simp add: y4_def uint_add128_64)
  have "uint y4 < 2 ^ 115"
    using y1 y2 y3 y4 assms 0 1 2 3 uint64_lt [of "shr128 y3 51"] by simp
  then obtain q4 r4 where 4: "uint y4 = 2251799813685248 * q4 + r4" "0 \<le> r4" "r4 < 2251799813685248"
    "uint (shr128 y4 51) = q4" "uint (shl128 y4 13) = q4" "uint (lo128 y4 AND reduce_mask_51) = r4" "0 \<le> q4"
    by (rule split51_128)
  have q4: "q4 < 5 * 2 ^ 57 + 2 ^ 13"
    using uint64_lt [of "shr128 y3 51"] y4 4 3 assms(5) by simp
  have "uint (shr128 y4 51 * 19) = q4 * 19"
    using 4 q4 by (simp add: nowrap)
  moreover define z where "z = (lo128 t0 AND reduce_mask_51) + shr128 y4 51 * 19"
  ultimately have z: "uint z = r0 + q4 * 19"
    using 0 4 q4 by (simp add: nowrap)
  obtain q5 r5 where 5: "uint z = 2251799813685248 * q5 + r5" "0 \<le> r5" "r5 < 2251799813685248"
    "uint (drop_bit 51 z) = q5" "uint (z AND reduce_mask_51) = r5" "0 \<le> q5" "q5 < 8192"
    by (rule split51)
  have 6: "uint ((lo128 y1 AND reduce_mask_51) + drop_bit 51 z) = r1 + q5"
    using 1 5 by (simp add: nowrap)
  have eq: "carry128 t0 t1 t2 t3 t4 =
      Fe (z AND reduce_mask_51) ((lo128 y1 AND reduce_mask_51) + drop_bit 51 z)
         (lo128 y2 AND reduce_mask_51) (lo128 y3 AND reduce_mask_51) (lo128 y4 AND reduce_mask_51)"
    by (simp add: carry128_def Let_def y1_def y2_def y3_def y4_def z_def)
  show "tight (carry128 t0 t1 t2 t3 t4)"
    using 1 2 3 4 5 6 by (simp add: eq tight_def)
  have "uint t0 + 2 ^ 51 * uint t1 + 2 ^ 102 * uint t2 + 2 ^ 153 * uint t3 + 2 ^ 204 * uint t4
      = fval (carry128 t0 t1 t2 t3 t4) + p25519 * q4"
    using 0(1) 1(1) 2(1) 3(1) 4(1) y1 y2 y3 y4 5(1) z
    by (simp add: eq 5(5) 6 2(6) 3(6) 4(6) p25519_def)
  then show "fval (carry128 t0 t1 t2 t3 t4) mod p25519 =
      (uint t0 + 2 ^ 51 * uint t1 + 2 ^ 102 * uint t2 + 2 ^ 153 * uint t3 + 2 ^ 204 * uint t4) mod p25519"
    by simp
qed

section \<open>Multiplication and squaring\<close>

lemma uint_times_19:
  "uint (r :: u64) < 2 ^ 54 \<Longrightarrow> uint (mul64x64_128 (r * 19) s) = 19 * uint (mul64x64_128 r s)"
  by (simp add: bitval nowrap)

lemma mul64_bound:
  assumes "uint r < 2 ^ 54" "uint s < 2 ^ 54"
  shows "uint (mul64x64_128 r s) < 2 ^ 108"
proof -
  have "uint r * uint s \<le> (2 ^ 54 - 1) * (2 ^ 54 - 1)"
    using assms by (intro mult_mono) auto
  then show ?thesis by (simp add: bitval)
qed

lemma curve25519_mul_correct:
  assumes "loose a" "loose b"
  shows "tight (curve25519_mul a b)" (is ?A)
    and "fval (curve25519_mul a b) mod p25519 = (fval a * fval b) mod p25519" (is ?B)
proof -
  obtain s0 s1 s2 s3 s4 where a: "a = Fe s0 s1 s2 s3 s4" by (cases a)
  obtain r0 r1 r2 r3 r4 where b: "b = Fe r0 r1 r2 r3 r4" by (cases b)
  have s: "uint s0 < 2 ^ 54" "uint s1 < 2 ^ 54" "uint s2 < 2 ^ 54" "uint s3 < 2 ^ 54" "uint s4 < 2 ^ 54"
    using assms(1) a by (simp_all add: loose_def)
  have r: "uint r0 < 2 ^ 54" "uint r1 < 2 ^ 54" "uint r2 < 2 ^ 54" "uint r3 < 2 ^ 54" "uint r4 < 2 ^ 54"
    using assms(2) b by (simp_all add: loose_def)
  let ?m = mul64x64_128
  note x19 = r [THEN uint_times_19]
  note B0 = s [THEN mul64_bound [OF r(1)]]
  note B1 = s [THEN mul64_bound [OF r(2)]]
  note B2 = s [THEN mul64_bound [OF r(3)]]
  note B3 = s [THEN mul64_bound [OF r(4)]]
  note B4 = s [THEN mul64_bound [OF r(5)]]
  define t0 where "t0 = ?m r0 s0 + (?m (r4 * 19) s1 + ?m (r1 * 19) s4 + ?m (r2 * 19) s3 + ?m (r3 * 19) s2)"
  define t1 where "t1 = ?m r0 s1 + ?m r1 s0 + (?m (r4 * 19) s2 + ?m (r2 * 19) s4 + ?m (r3 * 19) s3)"
  define t2 where "t2 = ?m r0 s2 + ?m r2 s0 + ?m r1 s1 + (?m (r4 * 19) s3 + ?m (r3 * 19) s4)"
  define t3 where "t3 = ?m r0 s3 + ?m r3 s0 + ?m r1 s2 + ?m r2 s1 + ?m (r4 * 19) s4"
  define t4 where "t4 = ?m r0 s4 + ?m r4 s0 + ?m r3 s1 + ?m r1 s3 + ?m r2 s2"
  have t0: "uint t0 = uint (?m r0 s0) + 19 * (uint (?m r4 s1) + uint (?m r1 s4) + uint (?m r2 s3) + uint (?m r3 s2))"
    using B0 B1 B2 B3 B4 by (simp add: t0_def x19 nowrap)
  have t1: "uint t1 = uint (?m r0 s1) + uint (?m r1 s0) + 19 * (uint (?m r4 s2) + uint (?m r2 s4) + uint (?m r3 s3))"
    using B0 B1 B2 B3 B4 by (simp add: t1_def x19 nowrap)
  have t2: "uint t2 = uint (?m r0 s2) + uint (?m r2 s0) + uint (?m r1 s1) + 19 * (uint (?m r4 s3) + uint (?m r3 s4))"
    using B0 B1 B2 B3 B4 by (simp add: t2_def x19 nowrap)
  have t3: "uint t3 = uint (?m r0 s3) + uint (?m r3 s0) + uint (?m r1 s2) + uint (?m r2 s1) + 19 * uint (?m r4 s4)"
    using B0 B1 B2 B3 B4 by (simp add: t3_def x19 nowrap)
  have t4: "uint t4 = uint (?m r0 s4) + uint (?m r4 s0) + uint (?m r3 s1) + uint (?m r1 s3) + uint (?m r2 s2)"
    using B0 B1 B2 B3 B4 by (simp add: t4_def nowrap)
  have eq: "curve25519_mul a b = carry128 t0 t1 t2 t3 t4"
    by (simp add: a b Let_def t0_def t1_def t2_def t3_def t4_def)
  have bounds: "uint t0 < 2 ^ 114 + 2 ^ 112" "uint t1 < 2 ^ 114" "uint t2 < 2 ^ 114" "uint t3 < 2 ^ 114"
    "uint t4 < 5 * 2 ^ 108"
    using B0 B1 B2 B3 B4 by (simp_all add: t0 t1 t2 t3 t4)
  show ?A using carry128_correct(1) [OF bounds] by (simp only: eq)
  have "fval a * fval b =
     uint t0 + 2 ^ 51 * uint t1 + 2 ^ 102 * uint t2 + 2 ^ 153 * uint t3 + 2 ^ 204 * uint t4
     + p25519 * (uint r1 * uint s4 + uint r2 * uint s3 + uint r3 * uint s2 + uint r4 * uint s1
       + 2 ^ 51 * (uint r2 * uint s4 + uint r3 * uint s3 + uint r4 * uint s2)
       + 2 ^ 102 * (uint r3 * uint s4 + uint r4 * uint s3) + 2 ^ 153 * (uint r4 * uint s4))"
    by (simp add: a b t0 t1 t2 t3 t4 bitval p25519_def algebra_simps)
  then show ?B using carry128_correct(2) [OF bounds] by (simp add: eq)
qed

lemma square_columns_correct:
  assumes "loose (Fe r0 r1 r2 r3 r4)" and "square_columns r0 r1 r2 r3 r4 = (t0, t1, t2, t3, t4)"
  shows "uint t0 < 2 ^ 114 + 2 ^ 112 \<and> uint t1 < 2 ^ 114 \<and> uint t2 < 2 ^ 114 \<and> uint t3 < 2 ^ 114
      \<and> uint t4 < 5 * 2 ^ 108" (is ?A)
    and "(uint t0 + 2 ^ 51 * uint t1 + 2 ^ 102 * uint t2 + 2 ^ 153 * uint t3 + 2 ^ 204 * uint t4) mod p25519
      = (fval (Fe r0 r1 r2 r3 r4))\<^sup>2 mod p25519" (is ?B)
proof -
  let ?m = mul64x64_128
  have r: "uint r0 < 2 ^ 54" "uint r1 < 2 ^ 54" "uint r2 < 2 ^ 54" "uint r3 < 2 ^ 54" "uint r4 < 2 ^ 54"
    using assms(1) by (simp_all add: loose_def)
  have d: "uint (r0 * 2) = 2 * uint r0" "uint (r1 * 2) = 2 * uint r1" "uint (38 * r2) = 38 * uint r2"
    "uint (38 * r4) = 38 * uint r4" "uint (r3 * 19) = 19 * uint r3" "uint (r4 * 19) = 19 * uint r4"
    using r by (simp_all add: nowrap)
  note B = mul64_bound [OF r(1) r(1)] mul64_bound [OF r(4) r(4)] mul64_bound [OF r(2) r(2)]
    mul64_bound [OF r(5) r(5)] mul64_bound [OF r(3) r(3)]
    r(2-5) [THEN mul64_bound [OF r(1)]] r(3-4) [THEN mul64_bound [OF r(2)]]
    mul64_bound [OF r(3) r(4)] r(2-4) [THEN mul64_bound [OF r(5)]]
  note B = B [unfolded uint_mul64x64_128]
  have t0: "uint t0 = uint r0 * uint r0 + 38 * (uint r4 * uint r1) + 38 * (uint r2 * uint r3)"
    using assms(2) B by (auto simp: square_columns_def Let_def nowrap bitval d)
  have t1: "uint t1 = 2 * (uint r0 * uint r1) + 38 * (uint r4 * uint r2) + 19 * (uint r3 * uint r3)"
    using assms(2) B by (auto simp: square_columns_def Let_def nowrap bitval d)
  have t2: "uint t2 = 2 * (uint r0 * uint r2) + uint r1 * uint r1 + 38 * (uint r4 * uint r3)"
    using assms(2) B by (auto simp: square_columns_def Let_def nowrap bitval d)
  have t3: "uint t3 = 2 * (uint r0 * uint r3) + 2 * (uint r1 * uint r2) + 19 * (uint r4 * uint r4)"
    using assms(2) B by (auto simp: square_columns_def Let_def nowrap bitval d)
  have t4: "uint t4 = 2 * (uint r0 * uint r4) + 2 * (uint r1 * uint r3) + uint r2 * uint r2"
    using assms(2) B by (auto simp: square_columns_def Let_def nowrap bitval d)
  show ?A using B by (simp add: t0 t1 t2 t3 t4)
  have "(fval (Fe r0 r1 r2 r3 r4))\<^sup>2 =
     uint t0 + 2 ^ 51 * uint t1 + 2 ^ 102 * uint t2 + 2 ^ 153 * uint t3 + 2 ^ 204 * uint t4
     + p25519 * (2 * (uint r1 * uint r4 + uint r2 * uint r3)
       + 2 ^ 51 * (2 * (uint r2 * uint r4) + uint r3 * uint r3)
       + 2 ^ 102 * (2 * (uint r3 * uint r4)) + 2 ^ 153 * (uint r4 * uint r4))"
    by (simp add: t0 t1 t2 t3 t4 p25519_def power2_eq_square algebra_simps)
  then show ?B by simp
qed

lemma curve25519_square_correct:
  assumes "loose a"
  shows "tight (curve25519_square a)"
    and "fval (curve25519_square a) mod p25519 = (fval a)\<^sup>2 mod p25519"
proof -
  obtain r0 r1 r2 r3 r4 where a: "a = Fe r0 r1 r2 r3 r4" by (cases a)
  obtain t0 t1 t2 t3 t4 where t: "square_columns r0 r1 r2 r3 r4 = (t0, t1, t2, t3, t4)"
    by (cases "square_columns r0 r1 r2 r3 r4")
  note sq = square_columns_correct [OF assms [unfolded a] t]
  show "tight (curve25519_square a)"
    using carry128_correct(1) [of t0 t1 t2 t3 t4] sq(1) by (simp add: a t)
  show "fval (curve25519_square a) mod p25519 = (fval a)\<^sup>2 mod p25519"
    using carry128_correct(2) [of t0 t1 t2 t3 t4] sq by (simp add: a t)
qed

lemma square_times_body_correct:
  assumes "loose a"
  shows "tight (square_times_body a)"
    and "fval (square_times_body a) mod p25519 = (fval a)\<^sup>2 mod p25519"
proof -
  obtain r0 r1 r2 r3 r4 where a: "a = Fe r0 r1 r2 r3 r4" by (cases a)
  obtain t0 t1 t2 t3 t4 where t: "square_columns r0 r1 r2 r3 r4 = (t0, t1, t2, t3, t4)"
    by (cases "square_columns r0 r1 r2 r3 r4")
  note sq = square_columns_correct [OF assms [unfolded a] t]
  have b: "uint t0 < 2 ^ 115" "uint t1 < 2 ^ 115" "uint t2 < 2 ^ 115" "uint t3 < 2 ^ 115" "uint t4 < 2 ^ 115"
    using sq(1) by simp_all
  obtain q0 l0 where 0: "uint t0 = 2251799813685248 * q0 + l0" "0 \<le> l0" "l0 < 2251799813685248"
    "uint (shl128 t0 13) = q0" "uint (lo128 t0 AND reduce_mask_51) = l0" "0 \<le> q0"
    using b(1) by (rule split51_128)
  obtain q1 l1 where 1: "uint t1 = 2251799813685248 * q1 + l1" "0 \<le> l1" "l1 < 2251799813685248"
    "uint (shl128 t1 13) = q1" "uint (lo128 t1 AND reduce_mask_51) = l1" "0 \<le> q1"
    using b(2) by (rule split51_128)
  obtain q2 l2 where 2: "uint t2 = 2251799813685248 * q2 + l2" "0 \<le> l2" "l2 < 2251799813685248"
    "uint (shl128 t2 13) = q2" "uint (lo128 t2 AND reduce_mask_51) = l2" "0 \<le> q2"
    using b(3) by (rule split51_128)
  obtain q3 l3 where 3: "uint t3 = 2251799813685248 * q3 + l3" "0 \<le> l3" "l3 < 2251799813685248"
    "uint (shl128 t3 13) = q3" "uint (lo128 t3 AND reduce_mask_51) = l3" "0 \<le> q3"
    using b(4) by (rule split51_128)
  obtain q4 l4 where 4: "uint t4 = 2251799813685248 * q4 + l4" "0 \<le> l4" "l4 < 2251799813685248"
    "uint (shl128 t4 13) = q4" "uint (lo128 t4 AND reduce_mask_51) = l4" "0 \<le> q4"
    using b(5) by (rule split51_128)
  define y0 where "y0 = (lo128 t0 AND reduce_mask_51) + shl128 t4 13 * 19"
  define y1 where "y1 = (lo128 t1 AND reduce_mask_51) + shl128 t0 13"
  define y2 where "y2 = (lo128 t2 AND reduce_mask_51) + shl128 t1 13"
  define y3 where "y3 = (lo128 t3 AND reduce_mask_51) + shl128 t2 13"
  define y4 where "y4 = (lo128 t4 AND reduce_mask_51) + shl128 t3 13"
  have y0: "uint y0 = l0 + 19 * q4"
    using sq(1) 0 4 by (simp add: y0_def nowrap)
  have y: "uint y1 = l1 + q0" "uint y2 = l2 + q1" "uint y3 = l3 + q2" "uint y4 = l4 + q3"
    using sq(1) 0 1 2 3 4 by (simp_all add: y1_def y2_def y3_def y4_def nowrap)
  have bounds: "uint y1 < 2 ^ 64 - 2 ^ 13" "uint y2 < 2 ^ 64 - 2 ^ 13" "uint y3 < 2 ^ 64 - 2 ^ 13"
    "uint y4 < 2 ^ 64 - 2 ^ 13"
    using sq(1) 0 1 2 3 4 by (simp_all add: y)
  have eq: "square_times_body a = carry51 y0 y1 y2 y3 y4"
    by (simp add: a t Let_def y0_def y1_def y2_def y3_def y4_def)
  show "tight (square_times_body a)"
    using carry51_correct(1) [OF bounds] by (simp only: eq)
  have "uint t0 + 2 ^ 51 * uint t1 + 2 ^ 102 * uint t2 + 2 ^ 153 * uint t3 + 2 ^ 204 * uint t4 =
      uint y0 + 2 ^ 51 * uint y1 + 2 ^ 102 * uint y2 + 2 ^ 153 * uint y3 + 2 ^ 204 * uint y4 + p25519 * q4"
    by (simp add: y0 y 0(1) 1(1) 2(1) 3(1) 4(1) p25519_def)
  from carry51_correct(2) [OF bounds, of y0] sq(2) [unfolded this mod_mult_self2]
  show "fval (square_times_body a) mod p25519 = (fval a)\<^sup>2 mod p25519"
    by (simp only: eq flip: a)
qed

section \<open>Bytes\<close>

lemma curve25519_expand_correct:
  assumes "length bs = 32"
  shows "limbs_below (2 ^ 51) (curve25519_expand bs)"
    and "fval (curve25519_expand bs) = le_val bs mod 2 ^ 255"
proof -
  define X0 where "X0 = U8TO64_LE bs"
  define X1 where "X1 = U8TO64_LE (drop 8 bs)"
  define X2 where "X2 = U8TO64_LE (drop 16 bs)"
  define X3 where "X3 = U8TO64_LE (drop 24 bs)"
  have X: "le_val bs = uint X0 + 2 ^ 64 * uint X1 + 2 ^ 128 * uint X2 + 2 ^ 192 * uint X3"
    using assms le_val_chunks [of bs 4]
    by (simp add: X0_def X1_def X2_def X3_def uint_U8TO64_LE lessThan_Suc numeral_eq_Suc)
  have eq: "curve25519_expand bs =
      Fe (X0 AND mask 51) ((drop_bit 51 X0 OR push_bit 13 X1) AND mask 51)
         ((drop_bit 38 X1 OR push_bit 26 X2) AND mask 51) ((drop_bit 25 X2 OR push_bit 39 X3) AND mask 51)
         (drop_bit 12 X3 AND mask 51)"
    by (simp only: curve25519_expand_def Let_def X0_def X1_def X2_def X3_def reduce_mask_51_eq)
  have lt: "uint (x AND mask 51) < 2 ^ 51" for x :: u64
    by (simp add: uint_and_mask)
  show "limbs_below (2 ^ 51) (curve25519_expand bs)"
    using lt by (simp only: eq limbs_below.simps)
  obtain q0 r0 where 0: "uint X0 = 2 ^ 51 * q0 + r0" "0 \<le> r0" "r0 < 2 ^ 51" "uint X0 div 2 ^ 51 = q0" "uint X0 mod 2 ^ 51 = r0" "0 \<le> q0"
    by (rule int_split [of "2 ^ 51" "uint X0"]) auto
  obtain q1 r1 where 1: "uint X1 = 2 ^ 38 * q1 + r1" "0 \<le> r1" "r1 < 2 ^ 38" "uint X1 div 2 ^ 38 = q1" "uint X1 mod 2 ^ 38 = r1" "0 \<le> q1"
    by (rule int_split [of "2 ^ 38" "uint X1"]) auto
  obtain q2 r2 where 2: "uint X2 = 2 ^ 25 * q2 + r2" "0 \<le> r2" "r2 < 2 ^ 25" "uint X2 div 2 ^ 25 = q2" "uint X2 mod 2 ^ 25 = r2" "0 \<le> q2"
    by (rule int_split [of "2 ^ 25" "uint X2"]) auto
  obtain q3 r3 where 3: "uint X3 = 2 ^ 12 * q3 + r3" "0 \<le> r3" "r3 < 2 ^ 12" "uint X3 div 2 ^ 12 = q3" "uint X3 mod 2 ^ 12 = r3" "0 \<le> q3"
    by (rule int_split [of "2 ^ 12" "uint X3"]) auto
  obtain q4 r4 where 4: "q3 = 2 ^ 51 * q4 + r4" "0 \<le> r4" "r4 < 2 ^ 51" "q3 div 2 ^ 51 = q4" "q3 mod 2 ^ 51 = r4" "0 \<le> q4"
    by (rule int_split [of "2 ^ 51" q3]) (use 3 in auto)
  have l1: "uint ((drop_bit 51 X0 OR push_bit 13 X1) AND mask 51) = q0 + 2 ^ 13 * r1"
    by (rule trans [OF shift_concat_mask]) (use 0 1 in simp_all)
  have l2: "uint ((drop_bit 38 X1 OR push_bit 26 X2) AND mask 51) = q1 + 2 ^ 26 * r2"
    by (rule trans [OF shift_concat_mask]) (use 1 2 in simp_all)
  have l3: "uint ((drop_bit 25 X2 OR push_bit 39 X3) AND mask 51) = q2 + 2 ^ 39 * r3"
    by (rule trans [OF shift_concat_mask]) (use 2 3 in simp_all)
  have "fval (curve25519_expand bs) = r0 + 2 ^ 51 * (q0 + 2 ^ 13 * r1) + 2 ^ 102 * (q1 + 2 ^ 26 * r2)
      + 2 ^ 153 * (q2 + 2 ^ 39 * r3) + 2 ^ 204 * r4"
    by (simp only: eq fval.simps l1 l2 l3) (simp only: uint_and_mask uint_drop_bit 0(5) 3(4) 4(5))
  also have "\<dots> = le_val bs mod 2 ^ 255"
    by (rule int_mod_unique [symmetric, where q = q4])
      (use 0 1 2 3 4 uint64_lt [of X0] uint64_lt [of X1] uint64_lt [of X2] in \<open>simp_all add: X\<close>)
  finally show "fval (curve25519_expand bs) = le_val bs mod 2 ^ 255" .
qed

lemma contract_settled:
  assumes "uint x0 < 2 ^ 51 + 2 ^ 18" "uint x1 < 2 ^ 51" "uint x2 < 2 ^ 51" "uint x3 < 2 ^ 51" "uint x4 < 2 ^ 51"
  obtains t0 t1 t2 t3 t4 q where
    "curve25519_contract_carry_full (Fe x0 x1 x2 x3 x4) = Fe t0 t1 t2 t3 t4"
    "limbs_below (2 ^ 51) (Fe t0 t1 t2 t3 t4)" "q = 0 \<or> q = 1"
    "fval (Fe x0 x1 x2 x3 x4) = fval (Fe t0 t1 t2 t3 t4) + p25519 * q"
    "q = 1 \<longleftrightarrow> 2 ^ 255 \<le> fval (Fe x0 x1 x2 x3 x4)"
proof -
  obtain t0 t1 t2 t3 t4 q r where t:
    "curve25519_contract_carry_full (Fe x0 x1 x2 x3 x4) = Fe t0 t1 t2 t3 t4"
    "uint t0 = r + 19 * q" "0 \<le> r" "r < 2251799813685248" "0 \<le> q" "q < 8192"
    "uint t1 < 2251799813685248" "uint t2 < 2251799813685248" "uint t3 < 2251799813685248"
    "uint t4 < 2251799813685248"
    "uint x0 + 2 ^ 51 * uint x1 + 2 ^ 102 * uint x2 + 2 ^ 153 * uint x3 + 2 ^ 204 * uint x4
      = r + 2 ^ 51 * uint t1 + 2 ^ 102 * uint t2 + 2 ^ 153 * uint t3 + 2 ^ 204 * uint t4 + 2 ^ 255 * q"
    by (rule contract_carry_full_correct [of x1 x2 x3 x4 x0]) (use assms in simp_all)
  have bound: "fval (Fe x0 x1 x2 x3 x4) < 2 ^ 255 + 2 ^ 18"
    using assms by simp
  define R where "R = r + 2 ^ 51 * uint t1 + 2 ^ 102 * uint t2 + 2 ^ 153 * uint t3 + 2 ^ 204 * uint t4"
  have R: "fval (Fe x0 x1 x2 x3 x4) = R + 2 ^ 255 * q" "r \<le> R" "R < 2 ^ 255"
    using t by (simp_all add: R_def)
  have "q < 2"
    using bound R t(3) by simp
  then have q: "q = 0 \<or> q = 1"
    using t(5) by linarith
  have "uint t0 < 2251799813685248"
    using q bound R t(2,4) by auto
  moreover have "fval (Fe x0 x1 x2 x3 x4) = fval (Fe t0 t1 t2 t3 t4) + p25519 * q"
    using t(2) R(1) by (simp add: p25519_def R_def)
  moreover have "q = 1 \<longleftrightarrow> 2 ^ 255 \<le> fval (Fe x0 x1 x2 x3 x4)"
    using q R t(3) unfolding R(1) by auto
  ultimately show thesis
    by (intro that [of t0 t1 t2 t3 t4 q]) (use t q in simp_all)
qed

lemma write51full_eq: "write51full a b s = U64TO8_LE (drop_bit s a OR push_bit (51 - s) b)"
  by (simp add: write51full_def U64TO8_LE_def upt_rec)

lemma uint_write51:
  fixes a b :: u64
  assumes "uint a < 2 ^ 51" "s < 51"
  shows "uint (drop_bit s a OR push_bit (51 - s) b) = uint a div 2 ^ s + 2 ^ (51 - s) * (uint b mod 2 ^ (13 + s))"
proof -
  have p: "(2::int) ^ (51 - s) * 2 ^ (13 + s) = 2 ^ 64" "(2::int) ^ s * 2 ^ (51 - s) = 2 ^ 51"
    using assms(2) by (simp_all flip: power_add)
  have lo: "uint (drop_bit s a) < 2 ^ (51 - s)"
    unfolding uint_drop_bit by (rule int_div_less) (use assms(1) p(2) in simp_all)
  have hi: "(uint b * 2 ^ (51 - s)) mod 2 ^ 64 = 2 ^ (51 - s) * (uint b mod 2 ^ (13 + s))"
    by (simp only: p(1) [symmetric] mult.commute [of "uint b"] mod_mult_mult1)
  show ?thesis
    using uint64_or_push_bit [OF lo, of b] hi by (simp add: bitval)
qed

lemma write51_bytes:
  assumes "limbs_below (2 ^ 51) (Fe t0 t1 t2 t3 t4)"
  shows "write51full t0 t1 0 @ write51full t1 t2 13 @ write51full t2 t3 26 @ write51full t3 t4 39
    = le_bytes 32 (fval (Fe t0 t1 t2 t3 t4))" (is "?bs = _")
proof -
  have b: "uint t0 < 2 ^ 51" "uint t1 < 2 ^ 51" "uint t2 < 2 ^ 51" "uint t3 < 2 ^ 51" "uint t4 < 2 ^ 51"
    using assms by simp_all
  obtain q1 r1 where 1: "uint t1 = 2 ^ 13 * q1 + r1" "0 \<le> r1" "r1 < 2 ^ 13"
      "uint t1 div 2 ^ 13 = q1" "uint t1 mod 2 ^ 13 = r1" "0 \<le> q1"
    by (rule int_split [of "2 ^ 13" "uint t1"]) auto
  obtain q2 r2 where 2: "uint t2 = 2 ^ 26 * q2 + r2" "0 \<le> r2" "r2 < 2 ^ 26"
      "uint t2 div 2 ^ 26 = q2" "uint t2 mod 2 ^ 26 = r2" "0 \<le> q2"
    by (rule int_split [of "2 ^ 26" "uint t2"]) auto
  obtain q3 r3 where 3: "uint t3 = 2 ^ 39 * q3 + r3" "0 \<le> r3" "r3 < 2 ^ 39"
      "uint t3 div 2 ^ 39 = q3" "uint t3 mod 2 ^ 39 = r3" "0 \<le> q3"
    by (rule int_split [of "2 ^ 39" "uint t3"]) auto
  have w1: "uint (drop_bit 0 t0 OR push_bit (51 - 0) t1) = uint t0 + 2 ^ 51 * r1"
    by (subst uint_write51) (use b 1(5) in simp_all)
  have w2: "uint (drop_bit 13 t1 OR push_bit (51 - 13) t2) = q1 + 2 ^ 38 * r2"
    by (subst uint_write51) (use b 1(4) 2(5) in simp_all)
  have w3: "uint (drop_bit 26 t2 OR push_bit (51 - 26) t3) = q2 + 2 ^ 25 * r3"
    by (subst uint_write51) (use b 2(4) 3(5) in simp_all)
  have w4: "uint (drop_bit 39 t3 OR push_bit (51 - 39) t4) = q3 + 2 ^ 12 * uint t4"
    by (subst uint_write51) (use b 3(4) in simp_all)
  have v: "le_val (write51full a c s) = uint (drop_bit s a OR push_bit (51 - s) c)" for a c s
    using uint64_lt [of "drop_bit s a OR push_bit (51 - s) c"]
    by (simp add: write51full_eq U64TO8_LE_le_bytes le_val_le_bytes)
  have "le_val ?bs = fval (Fe t0 t1 t2 t3 t4)"
    unfolding le_val_append v w1 w2 w3 w4 by (simp add: write51full_eq 1(1) 2(1) 3(1))
  moreover have "length ?bs = 32"
    by (simp add: write51full_eq)
  ultimately show ?thesis
    using le_bytes_le_val [of ?bs] by simp
qed

lemma contract_final:
  assumes "limbs_below (2 ^ 51) (Fe c0 c1 c2 c3 c4)"
    and "fval (Fe c0 c1 c2 c3 c4) = v + 19" "0 \<le> v" "v < 2 ^ 255"
  obtains e0 e1 e2 e3 e4 where
    "curve25519_contract_carry_final
       (Fe (c0 + ((reduce_mask_51 + 1) - 19)) (c1 + ((reduce_mask_51 + 1) - 1))
           (c2 + ((reduce_mask_51 + 1) - 1)) (c3 + ((reduce_mask_51 + 1) - 1))
           (c4 + ((reduce_mask_51 + 1) - 1))) = Fe e0 e1 e2 e3 e4"
    "limbs_below (2 ^ 51) (Fe e0 e1 e2 e3 e4)" "fval (Fe e0 e1 e2 e3 e4) = v"
proof -
  define d0 where "d0 = c0 + ((reduce_mask_51 + 1) - 19)"
  define d1 where "d1 = c1 + ((reduce_mask_51 + 1) - 1)"
  define d2 where "d2 = c2 + ((reduce_mask_51 + 1) - 1)"
  define d3 where "d3 = c3 + ((reduce_mask_51 + 1) - 1)"
  define d4 where "d4 = c4 + ((reduce_mask_51 + 1) - 1)"
  have d: "uint d0 = uint c0 + (2 ^ 51 - 19)" "uint d1 = uint c1 + (2 ^ 51 - 1)"
    "uint d2 = uint c2 + (2 ^ 51 - 1)" "uint d3 = uint c3 + (2 ^ 51 - 1)" "uint d4 = uint c4 + (2 ^ 51 - 1)"
    using assms(1) by (simp_all add: d0_def d1_def d2_def d3_def d4_def reduce_mask_51_def nowrap)
  obtain u0 u1 u2 u3 u4 where u:
    "curve25519_contract_carry (Fe d0 d1 d2 d3 d4) = Fe u0 u1 u2 u3 u4"
    "uint u0 < 2 ^ 51" "uint u1 < 2 ^ 51" "uint u2 < 2 ^ 51" "uint u3 < 2 ^ 51"
    "fval (Fe d0 d1 d2 d3 d4) = fval (Fe u0 u1 u2 u3 u4)"
    by (rule contract_carry_correct [of d1 d2 d3 d4 d0]) (use assms(1) d in simp_all)
  obtain q r where 4: "uint u4 = 2251799813685248 * q + r" "0 \<le> r" "r < 2251799813685248"
    "uint (drop_bit 51 u4) = q" "uint (u4 AND reduce_mask_51) = r" "0 \<le> q" "q < 8192"
    by (rule split51)
  define R where "R = uint u0 + 2 ^ 51 * uint u1 + 2 ^ 102 * uint u2 + 2 ^ 153 * uint u3 + 2 ^ 204 * r"
  have R: "0 \<le> R" "R < 2 ^ 255"
    using u 4(2,3) by (simp_all add: R_def)
  have "fval (Fe d0 d1 d2 d3 d4) = v + 2 ^ 255"
    using assms(2) by (simp add: d)
  then have sum: "R + 2 ^ 255 * q = v + 2 ^ 255"
    using u(6) 4(1) by (simp add: R_def)
  then have "0 < q" "q < 2"
    using R assms(3,4) by simp_all
  then have "q = 1" by linarith
  then have v: "R = v" using sum by simp
  have eq: "curve25519_contract_carry_final (Fe d0 d1 d2 d3 d4) = Fe u0 u1 u2 u3 (u4 AND reduce_mask_51)"
    by (simp only: curve25519_contract_carry_final_def u(1) bignum25519.case)
  show thesis
    by (rule that [OF eq [unfolded d0_def d1_def d2_def d3_def d4_def]]) (use u 4 v in \<open>simp_all add: R_def\<close>)
qed

lemma curve25519_contract_fval:
  assumes "limbs_below (2 ^ 63) a"
  shows "curve25519_contract a = le_bytes 32 (fval a mod p25519)"
proof -
  obtain x0 x1 x2 x3 x4 where a: "a = Fe x0 x1 x2 x3 x4" by (cases a)
  obtain a0 a1 a2 a3 a4 k r where A:
    "curve25519_contract_carry_full (Fe x0 x1 x2 x3 x4) = Fe a0 a1 a2 a3 a4"
    "uint a0 = r + 19 * k" "0 \<le> r" "r < 2251799813685248" "0 \<le> k" "k < 8192"
    "uint a1 < 2251799813685248" "uint a2 < 2251799813685248" "uint a3 < 2251799813685248"
    "uint a4 < 2251799813685248"
    "uint x0 + 2 ^ 51 * uint x1 + 2 ^ 102 * uint x2 + 2 ^ 153 * uint x3 + 2 ^ 204 * uint x4
      = r + 2 ^ 51 * uint a1 + 2 ^ 102 * uint a2 + 2 ^ 153 * uint a3 + 2 ^ 204 * uint a4 + 2 ^ 255 * k"
    by (rule contract_carry_full_correct [of x1 x2 x3 x4 x0]) (use assms a in simp_all)
  obtain b0 b1 b2 b3 b4 q where B:
    "curve25519_contract_carry_full (Fe a0 a1 a2 a3 a4) = Fe b0 b1 b2 b3 b4"
    "limbs_below (2 ^ 51) (Fe b0 b1 b2 b3 b4)" "q = 0 \<or> q = 1"
    "fval (Fe a0 a1 a2 a3 a4) = fval (Fe b0 b1 b2 b3 b4) + p25519 * q"
    "q = 1 \<longleftrightarrow> 2 ^ 255 \<le> fval (Fe a0 a1 a2 a3 a4)"
    by (rule contract_settled [of a0 a1 a2 a3 a4]) (use A in simp_all)
  have b19: "uint (b0 + 19) = uint b0 + 19" using B(2) by (simp add: nowrap)
  obtain c0 c1 c2 c3 c4 s where C:
    "curve25519_contract_carry_full (Fe (b0 + 19) b1 b2 b3 b4) = Fe c0 c1 c2 c3 c4"
    "limbs_below (2 ^ 51) (Fe c0 c1 c2 c3 c4)" "s = 0 \<or> s = 1"
    "fval (Fe (b0 + 19) b1 b2 b3 b4) = fval (Fe c0 c1 c2 c3 c4) + p25519 * s"
    "s = 1 \<longleftrightarrow> 2 ^ 255 \<le> fval (Fe (b0 + 19) b1 b2 b3 b4)"
    by (rule contract_settled [of "b0 + 19" b1 b2 b3 b4]) (use B(2) b19 in simp_all)
  define V where "V = fval (Fe b0 b1 b2 b3 b4)"
  have V: "0 \<le> V" "V < 2 ^ 255" "fval (Fe (b0 + 19) b1 b2 b3 b4) = V + 19"
    using B(2) b19 by (simp_all add: V_def)
  have "fval a = V + p25519 * (k + q)"
    using A(2,11) B(4) by (simp add: a V_def p25519_def algebra_simps)
  then have mod: "fval a mod p25519 = V - p25519 * s"
    using C(3) C(5) V by (intro int_mod_unique [where q = "k + q + s"]) (auto simp: algebra_simps p25519_def)
  have v: "fval (Fe c0 c1 c2 c3 c4) = (V - p25519 * s) + 19" "0 \<le> V - p25519 * s" "V - p25519 * s < 2 ^ 255"
    using C(3-5) V by (auto simp: p25519_def)
  obtain e0 e1 e2 e3 e4 where E:
    "curve25519_contract_carry_final
       (Fe (c0 + ((reduce_mask_51 + 1) - 19)) (c1 + ((reduce_mask_51 + 1) - 1))
           (c2 + ((reduce_mask_51 + 1) - 1)) (c3 + ((reduce_mask_51 + 1) - 1))
           (c4 + ((reduce_mask_51 + 1) - 1))) = Fe e0 e1 e2 e3 e4"
    "limbs_below (2 ^ 51) (Fe e0 e1 e2 e3 e4)" "fval (Fe e0 e1 e2 e3 e4) = V - p25519 * s"
    by (rule contract_final [OF C(2) v])
  have "curve25519_contract a =
      write51full e0 e1 0 @ write51full e1 e2 13 @ write51full e2 e3 26 @ write51full e3 e4 39"
    by (simp only: curve25519_contract_def Let_def a A(1) B(1) C(1) E(1) bignum25519.case)
  also have "\<dots> = le_bytes 32 (fval (Fe e0 e1 e2 e3 e4))"
    using E(2) by (rule write51_bytes)
  finally show ?thesis by (simp only: E(3) mod)
qed

section \<open>The field operations refine \<open>Fp\<close>\<close>

lemma mul_tight [fe_bound]: "loose a \<Longrightarrow> loose b \<Longrightarrow> tight (curve25519_mul a b)"
  by (rule curve25519_mul_correct)

lemma mul_val [fe_val]:
  "loose a \<Longrightarrow> loose b \<Longrightarrow> feval (curve25519_mul a b) = fp_mul (feval a) (feval b)"
  by (simp add: feval_def curve25519_mul_correct fp_mul_def mod_mult_eq)

lemma square_tight [fe_bound]: "loose a \<Longrightarrow> tight (curve25519_square a)"
  by (rule curve25519_square_correct)

lemma square_val [fe_val]: "loose a \<Longrightarrow> feval (curve25519_square a) = fp_sqr (feval a)"
  by (simp add: feval_def curve25519_square_correct fp_sqr_def fp_mul_def power2_eq_square mod_mult_eq)

lemma square_times_iterate:
  assumes "loose a"
  shows "tight ((square_times_body ^^ Suc n) a)
    \<and> feval ((square_times_body ^^ Suc n) a) = fp_pow (feval a) (2 ^ Suc n)"
proof (induction n)
  case 0
  show ?case
    using square_times_body_correct [OF assms]
    by (simp add: feval_def fp_pow_def power_mod)
next
  case (Suc n)
  define b where "b = (square_times_body ^^ Suc n) a"
  have b: "tight b" "feval b = fp_pow (feval a) (2 ^ Suc n)"
    using Suc by (simp_all add: b_def)
  then have "loose b" by (intro tight_loose)
  note body = square_times_body_correct [OF this]
  have "feval (square_times_body b) = fp_pow (feval b) 2"
    using body(2) by (simp add: feval_def fp_pow_def power_mod)
  also have "\<dots> = fp_pow (feval a) (2 ^ Suc (Suc n))"
    by (simp add: b fp_pow_pow mult.commute)
  finally show ?case
    using body(1) by (simp add: b_def)
qed

lemma square_times_correct:
  assumes "loose a" "count \<noteq> 0"
  shows "tight (curve25519_square_times a count)"
    and "feval (curve25519_square_times a count) = fp_pow (feval a) (2 ^ unat count)"
proof -
  obtain n where n: "unat count = Suc n"
    using assms(2) by (metis not0_implies_Suc unat_eq_zero)
  show "tight (curve25519_square_times a count)"
    and "feval (curve25519_square_times a count) = fp_pow (feval a) (2 ^ unat count)"
    using square_times_iterate [OF assms(1), of n] assms(2)
    by (simp_all only: curve25519_square_times_def square_times_iterations_def n if_False)
qed

lemma add_bounds [fe_bound]:
  "tight a \<Longrightarrow> tight b \<Longrightarrow> basic (curve25519_add a b)"
  "basic a \<Longrightarrow> basic b \<Longrightarrow> loose (curve25519_add_after_basic a b)"
  by (cases a; cases b; simp add: nowrap bound_defs)+

lemma add_val [fe_val]:
  "tight a \<Longrightarrow> tight b \<Longrightarrow> feval (curve25519_add a b) = fp_add (feval a) (feval b)"
  "basic a \<Longrightarrow> basic b \<Longrightarrow> feval (curve25519_add_after_basic a b) = fp_add (feval a) (feval b)"
proof -
  have *: "fval (curve25519_add a b) = fval a + fval b" "curve25519_add_after_basic a b = curve25519_add a b"
    if "basic a" "basic b"
    using that by (cases a; cases b; simp add: nowrap bound_defs)+
  show "basic a \<Longrightarrow> basic b \<Longrightarrow> feval (curve25519_add_after_basic a b) = fp_add (feval a) (feval b)"
    by (simp add: feval_def fp_add_def * mod_add_eq)
  show "tight a \<Longrightarrow> tight b \<Longrightarrow> feval (curve25519_add a b) = fp_add (feval a) (feval b)"
    by (simp add: feval_def fp_add_def * tight_basic mod_add_eq)
qed

text \<open>One limb of a subtraction: adding the multiple \<open>k\<close> of the modulus keeps it from wrapping.\<close>

lemma limb_sub:
  fixes a b k :: u64
  assumes "uint a < 2 ^ 54" "uint k < 2 ^ 54" "uint b \<le> uint k"
  shows "uint (a + k - b) = uint a + uint k - uint b" and "uint (a + k - b) \<le> uint a + uint k"
proof -
  have "uint (a + k) = uint a + uint k"
    using assms by (simp add: nowrap)
  moreover have "uint b \<le> uint a + uint k"
    using assms(3) uint_nonneg [of a] by linarith
  ultimately show "uint (a + k - b) = uint a + uint k - uint b"
    by (simp add: nowrap)
  then show "uint (a + k - b) \<le> uint a + uint k"
    using uint_nonneg [of b] by linarith
qed

lemma multiples_of_p:
  "uint twoP0 = 2 ^ 52 - 38" "uint twoP1234 = 2 ^ 52 - 2"
  "uint fourP0 = 2 ^ 53 - 76" "uint fourP1234 = 2 ^ 53 - 4"
  by (simp_all add: twoP0_def twoP1234_def fourP0_def fourP1234_def)

lemma sub_limbs:
  assumes "tight a" "tight b"
  shows "basic (curve25519_sub a b)" (is ?A)
    and "fval (curve25519_sub a b) = fval a - fval b + p25519 * 2" (is ?B)
proof -
  obtain a0 a1 a2 a3 a4 b0 b1 b2 b3 b4 where ab: "a = Fe a0 a1 a2 a3 a4" "b = Fe b0 b1 b2 b3 b4"
    by (cases a, cases b)
  note l = limb_sub [of a0 twoP0 b0] limb_sub [of a1 twoP1234 b1] limb_sub [of a2 twoP1234 b2]
    limb_sub [of a3 twoP1234 b3] limb_sub [of a4 twoP1234 b4]
  show ?A using assms l(2,4,6,8,10) by (simp add: ab bound_defs multiples_of_p)
  show ?B using assms l(1,3,5,7,9) by (simp add: ab bound_defs multiples_of_p p25519_def)
qed

lemma sub_after_basic_limbs:
  assumes "basic a" "basic b"
  shows "loose (curve25519_sub_after_basic a b)" (is ?A)
    and "fval (curve25519_sub_after_basic a b) = fval a - fval b + p25519 * 4" (is ?B)
proof -
  obtain a0 a1 a2 a3 a4 b0 b1 b2 b3 b4 where ab: "a = Fe a0 a1 a2 a3 a4" "b = Fe b0 b1 b2 b3 b4"
    by (cases a, cases b)
  note l = limb_sub [of a0 fourP0 b0] limb_sub [of a1 fourP1234 b1] limb_sub [of a2 fourP1234 b2]
    limb_sub [of a3 fourP1234 b3] limb_sub [of a4 fourP1234 b4]
  show ?A using assms l(2,4,6,8,10) by (simp add: ab bound_defs multiples_of_p)
  show ?B using assms l(1,3,5,7,9) by (simp add: ab bound_defs multiples_of_p p25519_def)
qed

lemma sub_bounds [fe_bound]:
  "tight a \<Longrightarrow> tight b \<Longrightarrow> basic (curve25519_sub a b)"
  "basic a \<Longrightarrow> basic b \<Longrightarrow> loose (curve25519_sub_after_basic a b)"
  by (rule sub_limbs sub_after_basic_limbs; assumption)+

lemma sub_val [fe_val]:
  "tight a \<Longrightarrow> tight b \<Longrightarrow> feval (curve25519_sub a b) = fp_sub (feval a) (feval b)"
  "basic a \<Longrightarrow> basic b \<Longrightarrow> feval (curve25519_sub_after_basic a b) = fp_sub (feval a) (feval b)"
  by (simp_all only: feval_def fp_sub_def sub_limbs sub_after_basic_limbs mod_mult_self2 mod_diff_eq)

text \<open>The reducing variants carry the same limb sums.\<close>

lemma carry51_limbs:
  assumes "loose (Fe x0 x1 x2 x3 x4)"
  shows "tight (carry51 x0 x1 x2 x3 x4)"
    and "feval (carry51 x0 x1 x2 x3 x4) = fval (Fe x0 x1 x2 x3 x4) mod p25519"
  using assms carry51_correct [of x1 x2 x3 x4 x0] by (simp_all add: feval_def loose_def)

lemma add_reduce_correct:
  assumes "basic a" "basic b"
  shows "tight (curve25519_add_reduce a b)"
    and "feval (curve25519_add_reduce a b) = fp_add (feval a) (feval b)"
proof -
  obtain x0 x1 x2 x3 x4 where x: "curve25519_add_after_basic a b = Fe x0 x1 x2 x3 x4"
    by (cases "curve25519_add_after_basic a b")
  have eq: "curve25519_add_reduce a b = carry51 x0 x1 x2 x3 x4"
    using x by (cases a; cases b) simp
  have "loose (Fe x0 x1 x2 x3 x4)" using add_bounds(2) [OF assms] x by simp
  note c = carry51_limbs [OF this]
  show "tight (curve25519_add_reduce a b)" using c(1) eq by simp
  show "feval (curve25519_add_reduce a b) = fp_add (feval a) (feval b)"
    using c(2) add_val(2) [OF assms] by (simp only: eq x feval_def)
qed

lemma sub_reduce_correct:
  assumes "basic a" "basic b"
  shows "tight (curve25519_sub_reduce a b)"
    and "feval (curve25519_sub_reduce a b) = fp_sub (feval a) (feval b)"
proof -
  obtain x0 x1 x2 x3 x4 where x: "curve25519_sub_after_basic a b = Fe x0 x1 x2 x3 x4"
    by (cases "curve25519_sub_after_basic a b")
  have eq: "curve25519_sub_reduce a b = carry51 x0 x1 x2 x3 x4"
    using x by (cases a; cases b) simp
  have "loose (Fe x0 x1 x2 x3 x4)" using sub_bounds(2) [OF assms] x by simp
  note c = carry51_limbs [OF this]
  show "tight (curve25519_sub_reduce a b)" using c(1) eq by simp
  show "feval (curve25519_sub_reduce a b) = fp_sub (feval a) (feval b)"
    using c(2) sub_val(2) [OF assms] by (simp only: eq x feval_def)
qed

lemma neg_correct:
  assumes "tight a"
  shows "tight (curve25519_neg a)"
    and "feval (curve25519_neg a) = fp_neg (feval a)"
proof -
  obtain x0 x1 x2 x3 x4 where x: "curve25519_sub (Fe 0 0 0 0 0) a = Fe x0 x1 x2 x3 x4"
    by (cases "curve25519_sub (Fe 0 0 0 0 0) a")
  have eq: "curve25519_neg a = carry51 x0 x1 x2 x3 x4"
    using x by (cases a) simp
  have zero: "tight (Fe 0 0 0 0 0)" by (simp add: tight_def)
  have "loose (Fe x0 x1 x2 x3 x4)" using sub_bounds(1) [OF zero assms] x by (simp add: basic_loose)
  note c = carry51_limbs [OF this]
  show "tight (curve25519_neg a)" using c(1) eq by simp
  have "feval (curve25519_neg a) = feval (curve25519_sub (Fe 0 0 0 0 0) a)"
    using c(2) by (simp only: eq x feval_def)
  also have "\<dots> = fp_neg (feval a)"
    using sub_val(1) [OF zero assms] by (simp add: fp_sub_def fp_neg_def feval_def)
  finally show "feval (curve25519_neg a) = fp_neg (feval a)" .
qed

lemmas reduce_bounds [fe_bound] =
  add_reduce_correct(1) sub_reduce_correct(1) neg_correct(1) square_times_correct(1)
lemmas reduce_val [fe_val] =
  add_reduce_correct(2) sub_reduce_correct(2) neg_correct(2) square_times_correct(2)

lemma expand_tight [fe_bound]: "length bs = 32 \<Longrightarrow> tight (curve25519_expand bs)"
  unfolding tight_def by (rule limbs_below_mono [OF curve25519_expand_correct(1)]) simp_all

lemma expand_val [fe_val]:
  "length bs = 32 \<Longrightarrow> feval (curve25519_expand bs) = (le_val bs mod 2 ^ 255) mod p25519"
  by (simp only: feval_def curve25519_expand_correct)

lemma contract_val [fe_val]: "loose a \<Longrightarrow> curve25519_contract a = le_bytes 32 (feval a)"
  by (simp add: curve25519_contract_fval [OF loose_63] feval_def)

lemma length_contract [simp]: "length (curve25519_contract a) = 32"
  by (simp add: curve25519_contract_def Let_def write51full_eq split: bignum25519.split)

end
