(* ===== verification/Field_Pow.thy ===== *)
theory Field_Pow
  imports Field25519_Correct
begin

text \<open>
  The exponentiation chains of \<open>curve25519-donna-helpers.h\<close>.  The header is compiled against
  whichever field backend the build selects, so each chain takes the backend's
  multiplication and repeated squaring as arguments; the functions of the 64-bit build are
  the instances at \<open>curve25519_mul_noinline\<close> and \<open>curve25519_square_times\<close>.

  The locale \<open>power_backend\<close> is the contract a backend has to meet; inside it, each chain
  is shown to raise its argument to the exponent its comment names.
\<close>

definition pow_two5mtwo0_two250mtwo0 :: "('f \<Rightarrow> 'f \<Rightarrow> 'f) \<Rightarrow> ('f \<Rightarrow> u64 \<Rightarrow> 'f) \<Rightarrow> 'f \<Rightarrow> 'f" where
  "pow_two5mtwo0_two250mtwo0 mul square_times b =
     (let t0 = square_times b 5;
          b = mul t0 b;
          t0 = square_times b 10;
          c = mul t0 b;
          t0 = square_times c 20;
          t0 = mul t0 c;
          t0 = square_times t0 10;
          b = mul t0 b;
          t0 = square_times b 50;
          c = mul t0 b;
          t0 = square_times c 100;
          t0 = mul t0 c;
          t0 = square_times t0 50
      in mul t0 b)"

definition recip_with :: "('f \<Rightarrow> 'f \<Rightarrow> 'f) \<Rightarrow> ('f \<Rightarrow> u64 \<Rightarrow> 'f) \<Rightarrow> 'f \<Rightarrow> 'f" where
  "recip_with mul square_times z =
     (let a = square_times z 1;
          t0 = square_times a 2;
          b = mul t0 z;
          a = mul b a;
          t0 = square_times a 1;
          b = mul t0 b;
          b = pow_two5mtwo0_two250mtwo0 mul square_times b;
          b = square_times b 5
      in mul b a)"

definition pow_two252m3_with :: "('f \<Rightarrow> 'f \<Rightarrow> 'f) \<Rightarrow> ('f \<Rightarrow> u64 \<Rightarrow> 'f) \<Rightarrow> 'f \<Rightarrow> 'f" where
  "pow_two252m3_with mul square_times z =
     (let c = square_times z 1;
          t0 = square_times c 2;
          b = mul t0 z;
          c = mul b c;
          t0 = square_times c 1;
          b = mul t0 b;
          b = pow_two5mtwo0_two250mtwo0 mul square_times b;
          b = square_times b 2
      in mul b z)"

definition curve25519_pow_two5mtwo0_two250mtwo0 :: "bignum25519 \<Rightarrow> bignum25519" where
  "curve25519_pow_two5mtwo0_two250mtwo0 =
     pow_two5mtwo0_two250mtwo0 curve25519_mul_noinline curve25519_square_times"

definition curve25519_recip :: "bignum25519 \<Rightarrow> bignum25519" where
  "curve25519_recip = recip_with curve25519_mul_noinline curve25519_square_times"

definition curve25519_pow_two252m3 :: "bignum25519 \<Rightarrow> bignum25519" where
  "curve25519_pow_two252m3 = pow_two252m3_with curve25519_mul_noinline curve25519_square_times"

locale power_backend =
  fixes arg :: "'f \<Rightarrow> bool"
    and res :: "'f \<Rightarrow> bool"
    and val :: "'f \<Rightarrow> int"
    and mul :: "'f \<Rightarrow> 'f \<Rightarrow> 'f"
    and square_times :: "'f \<Rightarrow> u64 \<Rightarrow> 'f"
  assumes res_arg: "res a \<Longrightarrow> arg a"
    and val_mod: "val a mod p25519 = val a"
    and mul_res: "arg a \<Longrightarrow> arg b \<Longrightarrow> res (mul a b)"
    and val_mul: "arg a \<Longrightarrow> arg b \<Longrightarrow> val (mul a b) = fp_mul (val a) (val b)"
    and square_times_res: "arg a \<Longrightarrow> n \<noteq> 0 \<Longrightarrow> res (square_times a n)"
    and val_square_times: "arg a \<Longrightarrow> n \<noteq> 0 \<Longrightarrow> val (square_times a n) = fp_pow (val a) (2 ^ unat n)"
begin

text \<open>\<open>power z n x\<close>: the limb vector \<open>x\<close> is usable and represents \<open>z\<^sup>n\<close>.\<close>

definition power :: "int \<Rightarrow> nat \<Rightarrow> 'f \<Rightarrow> bool" where
  "power z n x \<longleftrightarrow> arg x \<and> val x = fp_pow z n"

lemma power_self: "arg x \<Longrightarrow> power (val x) 1 x"
  using val_mod [of x] by (simp add: power_def fp_pow_def)

lemma power_mul: "power z m x \<Longrightarrow> power z n y \<Longrightarrow> power z (m + n) (mul x y)"
  by (simp add: power_def mul_res res_arg val_mul fp_pow_mul)

lemma power_square_times: "power z m x \<Longrightarrow> n \<noteq> 0 \<Longrightarrow> power z (m * 2 ^ unat n) (square_times x n)"
  by (simp add: power_def square_times_res res_arg val_square_times fp_pow_pow)

lemma power_chain250:
  assumes "power z 31 b"
  shows "power z (2 ^ 250 - 1) (pow_two5mtwo0_two250mtwo0 mul square_times b)"
proof -
  define b1 where "b1 = mul (square_times b 5) b"
  define c1 where "c1 = mul (square_times b1 10) b1"
  define t1 where "t1 = mul (square_times c1 20) c1"
  define b2 where "b2 = mul (square_times t1 10) b1"
  define c2 where "c2 = mul (square_times b2 50) b2"
  define t2 where "t2 = mul (square_times c2 100) c2"
  have b1: "power z (2 ^ 10 - 1) b1"
    using power_mul [OF power_square_times [OF assms, of 5] assms] by (simp add: b1_def)
  have c1: "power z (2 ^ 20 - 1) c1"
    using power_mul [OF power_square_times [OF b1, of 10] b1] by (simp add: c1_def)
  have t1: "power z (2 ^ 40 - 1) t1"
    using power_mul [OF power_square_times [OF c1, of 20] c1] by (simp add: t1_def)
  have b2: "power z (2 ^ 50 - 1) b2"
    using power_mul [OF power_square_times [OF t1, of 10] b1] by (simp add: b2_def)
  have c2: "power z (2 ^ 100 - 1) c2"
    using power_mul [OF power_square_times [OF b2, of 50] b2] by (simp add: c2_def)
  have t2: "power z (2 ^ 200 - 1) t2"
    using power_mul [OF power_square_times [OF c2, of 100] c2] by (simp add: t2_def)
  have "power z (2 ^ 250 - 1) (mul (square_times t2 50) b2)"
    using power_mul [OF power_square_times [OF t2, of 50] b2] by simp
  then show ?thesis
    by (simp add: pow_two5mtwo0_two250mtwo0_def Let_def b1_def c1_def t1_def b2_def c2_def t2_def)
qed

text \<open>The start both chains share: \<open>z\<^sup>2\<close>, \<open>z\<^sup>9\<close>, \<open>z\<^sup>1\<^sup>1\<close> and \<open>z\<^sup>3\<^sup>1\<close>.\<close>

lemma power_start:
  assumes "power z 1 x"
  shows "power z 2 (square_times x 1)"
    and "power z 9 (mul (square_times (square_times x 1) 2) x)"
    and "power z 11 (mul (mul (square_times (square_times x 1) 2) x) (square_times x 1))"
    and "power z 31 (mul (square_times (mul (mul (square_times (square_times x 1) 2) x) (square_times x 1)) 1)
                     (mul (square_times (square_times x 1) 2) x))"
proof -
  show 2: "power z 2 (square_times x 1)"
    using power_square_times [OF assms, of 1] by simp
  show 9: "power z 9 (mul (square_times (square_times x 1) 2) x)"
    using power_mul [OF power_square_times [OF 2, of 2] assms] by simp
  show 11: "power z 11 (mul (mul (square_times (square_times x 1) 2) x) (square_times x 1))"
    using power_mul [OF 9 2] by simp
  show "power z 31 (mul (square_times (mul (mul (square_times (square_times x 1) 2) x) (square_times x 1)) 1)
                     (mul (square_times (square_times x 1) 2) x))"
    using power_mul [OF power_square_times [OF 11, of 1] 9] by simp
qed

lemma recip_power:
  assumes "power z 1 x"
  shows "power z (2 ^ 255 - 21) (recip_with mul square_times x)"
proof -
  note s = power_start [OF assms]
  have "power z ((2 ^ 250 - 1) * 2 ^ unat (5 :: u64) + 11) (recip_with mul square_times x)"
    unfolding recip_with_def Let_def
    by (rule power_mul [OF power_square_times [OF power_chain250 [OF s(4)]] s(3)]) simp
  then show ?thesis by simp
qed

lemma pow_two252m3_power:
  assumes "power z 1 x"
  shows "power z (2 ^ 252 - 3) (pow_two252m3_with mul square_times x)"
proof -
  note s = power_start [OF assms]
  have "power z ((2 ^ 250 - 1) * 2 ^ unat (2 :: u64) + 1) (pow_two252m3_with mul square_times x)"
    unfolding pow_two252m3_with_def Let_def
    by (rule power_mul [OF power_square_times [OF power_chain250 [OF s(4)]] assms]) simp
  then show ?thesis by simp
qed

lemma mul_last_res: "power z m x \<Longrightarrow> power z n y \<Longrightarrow> res (mul x y)"
  by (simp add: power_def mul_res)

lemma chains_res:
  assumes "power z 1 x"
  shows "res (recip_with mul square_times x)" and "res (pow_two252m3_with mul square_times x)"
proof -
  note s = power_start [OF assms]
  show "res (recip_with mul square_times x)"
    unfolding recip_with_def Let_def
    by (rule mul_last_res [OF power_square_times [OF power_chain250 [OF s(4)]] s(3)]) simp
  show "res (pow_two252m3_with mul square_times x)"
    unfolding pow_two252m3_with_def Let_def
    by (rule mul_last_res [OF power_square_times [OF power_chain250 [OF s(4)]] assms]) simp
qed

end

interpretation fe51: power_backend loose tight feval curve25519_mul_noinline curve25519_square_times
  by unfold_locales
    (simp_all add: curve25519_mul_noinline_def tight_loose fe_bound fe_val)

lemma recip_correct:
  assumes "loose z"
  shows "tight (curve25519_recip z)" and "feval (curve25519_recip z) = fp_pow (feval z) (2 ^ 255 - 21)"
  using fe51.recip_power [OF fe51.power_self [OF assms]] fe51.chains_res(1) [OF fe51.power_self [OF assms]]
  by (simp_all only: curve25519_recip_def fe51.power_def)

lemma pow_two252m3_correct:
  assumes "loose z"
  shows "tight (curve25519_pow_two252m3 z)"
    and "feval (curve25519_pow_two252m3 z) = fp_pow (feval z) (2 ^ 252 - 3)"
  using fe51.pow_two252m3_power [OF fe51.power_self [OF assms]] fe51.chains_res(2) [OF fe51.power_self [OF assms]]
  by (simp_all only: curve25519_pow_two252m3_def fe51.power_def)

lemmas pow_bound [fe_bound] = recip_correct(1) pow_two252m3_correct(1)
lemmas pow_val [fe_val] = recip_correct(2) pow_two252m3_correct(2)

end
