(* ===== verification/Modm.thy ===== *)
theory Modm
  imports Portable
begin

unbundle bit_operations_syntax

text \<open>
  Arithmetic modulo the group order \<open>m = 2\<^sup>2\<^sup>5\<^sup>2 + 27742317777372353535851937790883648493\<close> in five
  56-bit limbs (\<open>modm-donna-64bit.h\<close>): conditional subtraction, Barrett reduction,
  multiplication, the byte conversions, and the two signed recodings of a scalar that the
  scalar multiplications consume.
\<close>

datatype bignum256modm = Sc (sc0: u64) (sc1: u64) (sc2: u64) (sc3: u64) (sc4: u64)

definition modm_m0 :: u64 where "modm_m0 = 0x12631a5cf5d3ed"
definition modm_m1 :: u64 where "modm_m1 = 0xf9dea2f79cd658"
definition modm_m2 :: u64 where "modm_m2 = 0x000000000014de"
definition modm_m3 :: u64 where "modm_m3 = 0x00000000000000"
definition modm_m4 :: u64 where "modm_m4 = 0x00000010000000"

definition modm_m :: bignum256modm where
  "modm_m = Sc modm_m0 modm_m1 modm_m2 modm_m3 modm_m4"

definition modm_mu0 :: u64 where "modm_mu0 = 0x9ce5a30a2c131b"
definition modm_mu1 :: u64 where "modm_mu1 = 0x215d086329a7ed"
definition modm_mu2 :: u64 where "modm_mu2 = 0xffffffffeb2106"
definition modm_mu3 :: u64 where "modm_mu3 = 0xffffffffffffff"
definition modm_mu4 :: u64 where "modm_mu4 = 0x00000fffffffff"

definition modm_mu :: bignum256modm where
  "modm_mu = Sc modm_mu0 modm_mu1 modm_mu2 modm_mu3 modm_mu4"

definition lt_modm :: "u64 \<Rightarrow> u64 \<Rightarrow> u64" where
  "lt_modm a b = drop_bit 63 (a - b)"

text \<open>
  One limb of a borrow chain, the statement
  \<open>pb += m; b = lt_modm(r, pb); t = (r - pb + (b << w))\<close> that three functions repeat:
  the limb and the borrow \<open>b\<close>, which becomes the next \<open>pb\<close>.
\<close>

definition borrow_limb :: "nat \<Rightarrow> u64 \<Rightarrow> u64 \<Rightarrow> u64 \<Rightarrow> u64 \<times> u64" where
  "borrow_limb w r m pb =
     (let pb = pb + m; b = lt_modm r pb in (r - pb + push_bit w b, b))"

text \<open>The chain over the five limbs, with the weight \<open>w\<close> of the last borrow.\<close>

definition borrow_chain :: "nat \<Rightarrow> bignum256modm \<Rightarrow> bignum256modm \<Rightarrow> bignum256modm \<times> u64" where
  "borrow_chain w x y =
     (let (t0, b) = borrow_limb 56 (sc0 x) (sc0 y) 0;
          (t1, b) = borrow_limb 56 (sc1 x) (sc1 y) b;
          (t2, b) = borrow_limb 56 (sc2 x) (sc2 y) b;
          (t3, b) = borrow_limb 56 (sc3 x) (sc3 y) b;
          (t4, b) = borrow_limb w (sc4 x) (sc4 y) b
      in (Sc t0 t1 t2 t3 t4, b))"

definition mask_select :: "u64 \<Rightarrow> u64 \<Rightarrow> u64 \<Rightarrow> u64" where
  "mask_select msk r t = r XOR (msk AND (r XOR t))"

definition reduce256_modm :: "bignum256modm \<Rightarrow> bignum256modm" where
  "reduce256_modm r =
     (let (t, b) = borrow_chain 32 r modm_m;
          msk = b - 1
      in Sc (mask_select msk (sc0 r) (sc0 t)) (mask_select msk (sc1 r) (sc1 t))
            (mask_select msk (sc2 r) (sc2 t)) (mask_select msk (sc3 r) (sc3 t))
            (mask_select msk (sc4 r) (sc4 t)))"

text \<open>
  \<open>add128(c, mul)\<close> is \<open>c += mul\<close>; \<open>barrett_q3\<close> and \<open>barrett_r2\<close> are the two halves of
  \<open>barrett_reduce256_modm\<close>: the quotient estimate and the low limbs of \<open>q3 * m\<close>.
\<close>

definition barrett_q3 :: "bignum256modm \<Rightarrow> bignum256modm" where
  "barrett_q3 q1 =
     (case q1 of Sc a0 a1 a2 a3 a4 \<Rightarrow>
     (let c = mul64x64_128 modm_mu0 a3 + mul64x64_128 modm_mu3 a0 + mul64x64_128 modm_mu1 a2
            + mul64x64_128 modm_mu2 a1;
          f = shr128 c 56;
          c = add128_64 (mul64x64_128 modm_mu0 a4) f + mul64x64_128 modm_mu4 a0
            + mul64x64_128 modm_mu3 a1 + mul64x64_128 modm_mu1 a3 + mul64x64_128 modm_mu2 a2;
          f = lo128 c; q0 = drop_bit 40 f AND 0xffff; f = shr128 c 56;
          c = add128_64 (mul64x64_128 modm_mu4 a1) f + mul64x64_128 modm_mu1 a4
            + mul64x64_128 modm_mu2 a3 + mul64x64_128 modm_mu3 a2;
          f = lo128 c; q0 = q0 OR (push_bit 16 f AND 0xffffffffffffff); q1 = drop_bit 40 f AND 0xffff;
          f = shr128 c 56;
          c = add128_64 (mul64x64_128 modm_mu4 a2) f + mul64x64_128 modm_mu2 a4
            + mul64x64_128 modm_mu3 a3;
          f = lo128 c; q1 = q1 OR (push_bit 16 f AND 0xffffffffffffff); q2 = drop_bit 40 f AND 0xffff;
          f = shr128 c 56;
          c = add128_64 (mul64x64_128 modm_mu4 a3) f + mul64x64_128 modm_mu3 a4;
          f = lo128 c; q2 = q2 OR (push_bit 16 f AND 0xffffffffffffff); q3 = drop_bit 40 f AND 0xffff;
          f = shr128 c 56;
          c = add128_64 (mul64x64_128 modm_mu4 a4) f;
          f = lo128 c; q3 = q3 OR (push_bit 16 f AND 0xffffffffffffff); q4 = drop_bit 40 f AND 0xffff;
          f = shr128 c 56;
          q4 = q4 OR push_bit 16 f
      in Sc q0 q1 q2 q3 q4))"

definition barrett_r2 :: "bignum256modm \<Rightarrow> bignum256modm" where
  "barrett_r2 q3 =
     (case q3 of Sc q0 q1 q2 q3 q4 \<Rightarrow>
     (let c = mul64x64_128 modm_m0 q0;
          r0 = lo128 c AND 0xffffffffffffff; f = shr128 c 56;
          c = add128_64 (mul64x64_128 modm_m0 q1) f + mul64x64_128 modm_m1 q0;
          r1 = lo128 c AND 0xffffffffffffff; f = shr128 c 56;
          c = add128_64 (mul64x64_128 modm_m0 q2) f + mul64x64_128 modm_m2 q0 + mul64x64_128 modm_m1 q1;
          r2 = lo128 c AND 0xffffffffffffff; f = shr128 c 56;
          c = add128_64 (mul64x64_128 modm_m0 q3) f + mul64x64_128 modm_m3 q0 + mul64x64_128 modm_m1 q2
            + mul64x64_128 modm_m2 q1;
          r3 = lo128 c AND 0xffffffffffffff; f = shr128 c 56;
          c = add128_64 (mul64x64_128 modm_m0 q4) f + mul64x64_128 modm_m4 q0 + mul64x64_128 modm_m3 q1
            + mul64x64_128 modm_m1 q3 + mul64x64_128 modm_m2 q2;
          r4 = lo128 c AND 0x0000ffffffffff
      in Sc r0 r1 r2 r3 r4))"

definition barrett_sub :: "bignum256modm \<Rightarrow> bignum256modm \<Rightarrow> bignum256modm" where
  "barrett_sub r1 r2 = fst (borrow_chain 40 r1 r2)"

definition barrett_reduce256_modm :: "bignum256modm \<Rightarrow> bignum256modm \<Rightarrow> bignum256modm" where
  "barrett_reduce256_modm q1 r1 =
     (let q3 = barrett_q3 q1; r2 = barrett_r2 q3; r = barrett_sub r1 r2
      in reduce256_modm (reduce256_modm r))"

definition add256_modm :: "bignum256modm \<Rightarrow> bignum256modm \<Rightarrow> bignum256modm" where
  "add256_modm x y =
     (case x of Sc x0 x1 x2 x3 x4 \<Rightarrow>
     (case y of Sc y0 y1 y2 y3 y4 \<Rightarrow>
     (let c = x0 + y0; r0 = c AND 0xffffffffffffff; c = drop_bit 56 c;
          c = c + (x1 + y1); r1 = c AND 0xffffffffffffff; c = drop_bit 56 c;
          c = c + (x2 + y2); r2 = c AND 0xffffffffffffff; c = drop_bit 56 c;
          c = c + (x3 + y3); r3 = c AND 0xffffffffffffff; c = drop_bit 56 c;
          c = c + (x4 + y4)
      in reduce256_modm (Sc r0 r1 r2 r3 c))))"

definition neg256_modm :: "bignum256modm \<Rightarrow> bignum256modm" where
  "neg256_modm x = reduce256_modm (fst (borrow_chain 29 modm_m x))"

definition sub256_modm :: "bignum256modm \<Rightarrow> bignum256modm \<Rightarrow> bignum256modm" where
  "sub256_modm x y = add256_modm x (neg256_modm y)"

text \<open>
  \<open>is_reduced256_modm\<close> walks the limbs from the most significant one, collecting a bit
  "smaller" in \<open>res1\<close> and a bit "larger" in \<open>res2\<close>.
\<close>

fun limb_list :: "bignum256modm \<Rightarrow> u64 list" where
  "limb_list (Sc x0 x1 x2 x3 x4) = [x0, x1, x2, x3, x4]"

definition is_reduced256_modm :: "bignum256modm \<Rightarrow> bool" where
  "is_reduced256_modm inp =
     (let (res1, res2) =
        foldl (\<lambda>(res1 :: u64, res2 :: u64) i.
                 (push_bit 1 res1 OR of_bool (limb_list inp ! i < limb_list modm_m ! i),
                  push_bit 1 res2 OR of_bool (limb_list inp ! i > limb_list modm_m ! i)))
              (0, 0) [4, 3, 2, 1, 0]
      in res1 > res2)"

definition mul256_modm :: "bignum256modm \<Rightarrow> bignum256modm \<Rightarrow> bignum256modm" where
  "mul256_modm x y =
     (case x of Sc x0 x1 x2 x3 x4 \<Rightarrow>
     (case y of Sc y0 y1 y2 y3 y4 \<Rightarrow>
     (let c = mul64x64_128 x0 y0;
          f = lo128 c; r0 = f AND 0xffffffffffffff; f = shr128 c 56;
          c = add128_64 (mul64x64_128 x0 y1) f + mul64x64_128 x1 y0;
          f = lo128 c; r1 = f AND 0xffffffffffffff; f = shr128 c 56;
          c = add128_64 (mul64x64_128 x0 y2) f + mul64x64_128 x2 y0 + mul64x64_128 x1 y1;
          f = lo128 c; r2 = f AND 0xffffffffffffff; f = shr128 c 56;
          c = add128_64 (mul64x64_128 x0 y3) f + mul64x64_128 x3 y0 + mul64x64_128 x1 y2
            + mul64x64_128 x2 y1;
          f = lo128 c; r3 = f AND 0xffffffffffffff; f = shr128 c 56;
          c = add128_64 (mul64x64_128 x0 y4) f + mul64x64_128 x4 y0 + mul64x64_128 x3 y1
            + mul64x64_128 x1 y3 + mul64x64_128 x2 y2;
          f = lo128 c; r4 = f AND 0x0000ffffffffff; q0 = drop_bit 24 f AND 0xffffffff; f = shr128 c 56;
          c = add128_64 (mul64x64_128 x4 y1) f + mul64x64_128 x1 y4 + mul64x64_128 x2 y3
            + mul64x64_128 x3 y2;
          f = lo128 c; q0 = q0 OR (push_bit 32 f AND 0xffffffffffffff);
          q1 = drop_bit 24 f AND 0xffffffff; f = shr128 c 56;
          c = add128_64 (mul64x64_128 x4 y2) f + mul64x64_128 x2 y4 + mul64x64_128 x3 y3;
          f = lo128 c; q1 = q1 OR (push_bit 32 f AND 0xffffffffffffff);
          q2 = drop_bit 24 f AND 0xffffffff; f = shr128 c 56;
          c = add128_64 (mul64x64_128 x4 y3) f + mul64x64_128 x3 y4;
          f = lo128 c; q2 = q2 OR (push_bit 32 f AND 0xffffffffffffff);
          q3 = drop_bit 24 f AND 0xffffffff; f = shr128 c 56;
          c = add128_64 (mul64x64_128 x4 y4) f;
          f = lo128 c; q3 = q3 OR (push_bit 32 f AND 0xffffffffffffff);
          q4 = drop_bit 24 f AND 0xffffffff; f = shr128 c 56;
          q4 = q4 OR push_bit 32 f
      in barrett_reduce256_modm (Sc q0 q1 q2 q3 q4) (Sc r0 r1 r2 r3 r4))))"

text \<open>
  \<open>memcpy(work, in, len)\<close> into a zeroed 64-byte buffer; the callers pass \<open>len \<le> 64\<close>
  bytes.
\<close>

definition expand256_work :: "bytes \<Rightarrow> nat \<Rightarrow> bytes" where
  "expand256_work inp len = take len inp @ replicate (64 - len) 0"

definition expand256_modm :: "bytes \<Rightarrow> nat \<Rightarrow> bignum256modm" where
  "expand256_modm inp len =
     (let work = expand256_work inp len;
          x0 = U8TO64_LE work; x1 = U8TO64_LE (drop 8 work);
          x2 = U8TO64_LE (drop 16 work); x3 = U8TO64_LE (drop 24 work);
          x4 = U8TO64_LE (drop 32 work); x5 = U8TO64_LE (drop 40 work);
          x6 = U8TO64_LE (drop 48 work); x7 = U8TO64_LE (drop 56 work);
          out = Sc (x0 AND 0xffffffffffffff)
                   ((drop_bit 56 x0 OR push_bit 8 x1) AND 0xffffffffffffff)
                   ((drop_bit 48 x1 OR push_bit 16 x2) AND 0xffffffffffffff)
                   ((drop_bit 40 x2 OR push_bit 24 x3) AND 0xffffffffffffff)
                   ((drop_bit 32 x3 OR push_bit 32 x4) AND 0x0000ffffffffff)
      in if len < 32 then out
         else
           let q1 = Sc ((drop_bit 56 x3 OR push_bit 8 x4) AND 0xffffffffffffff)
                       ((drop_bit 48 x4 OR push_bit 16 x5) AND 0xffffffffffffff)
                       ((drop_bit 40 x5 OR push_bit 24 x6) AND 0xffffffffffffff)
                       ((drop_bit 32 x6 OR push_bit 32 x7) AND 0xffffffffffffff)
                       (drop_bit 24 x7)
           in barrett_reduce256_modm q1 out)"

definition expand_raw256_modm :: "bytes \<Rightarrow> bignum256modm" where
  "expand_raw256_modm inp =
     (let x0 = U8TO64_LE inp; x1 = U8TO64_LE (drop 8 inp);
          x2 = U8TO64_LE (drop 16 inp); x3 = U8TO64_LE (drop 24 inp)
      in Sc (x0 AND 0xffffffffffffff)
            ((drop_bit 56 x0 OR push_bit 8 x1) AND 0xffffffffffffff)
            ((drop_bit 48 x1 OR push_bit 16 x2) AND 0xffffffffffffff)
            ((drop_bit 40 x2 OR push_bit 24 x3) AND 0xffffffffffffff)
            (drop_bit 32 x3 AND 0x000000ffffffff))"

fun contract256_modm :: "bignum256modm \<Rightarrow> bytes" where
  "contract256_modm (Sc x0 x1 x2 x3 x4) =
     U64TO8_LE (x0 OR push_bit 56 x1) @ U64TO8_LE (drop_bit 8 x1 OR push_bit 48 x2) @
     U64TO8_LE (drop_bit 16 x2 OR push_bit 40 x3) @ U64TO8_LE (drop_bit 24 x3 OR push_bit 32 x4)"

section \<open>Signed recodings\<close>

text \<open>
  The recodings store their digits in \<open>signed char\<close>.  The arithmetic happens in \<open>int\<close>; a
  store converts to eight bits, which is \<open>schar\<close>.
\<close>

definition schar :: "int \<Rightarrow> int" where
  "schar x = sint (word_of_int x :: u8)"

text \<open>Four-bit digits of a limb, \<open>*quads++ = (v & 15); v >>= 4\<close> repeated \<open>m\<close> times.\<close>

definition limb_quads :: "nat \<Rightarrow> u64 \<Rightarrow> int list" where
  "limb_quads m v = map (\<lambda>j. uint (drop_bit (4 * j) v AND 15)) [0..<m]"

fun window4_quads :: "bignum256modm \<Rightarrow> int list" where
  "window4_quads (Sc x0 x1 x2 x3 x4) =
     limb_quads 14 x0 @ limb_quads 14 x1 @ limb_quads 14 x2 @ limb_quads 14 x3 @ limb_quads 8 x4"

definition window4_step :: "int list \<times> int \<Rightarrow> nat \<Rightarrow> int list \<times> int" where
  "window4_step st i =
     (let (r, carry) = st;
          r = r[i := schar (r ! i + carry)];
          r = r[i + 1 := schar (r ! (i + 1) + r ! i div 16)];
          r = r[i := schar (r ! i mod 16)];
          carry = schar (r ! i div 8);
          r = r[i := schar (r ! i - carry * 16)]
      in (r, carry))"

definition contract256_window4_modm :: "bignum256modm \<Rightarrow> int list" where
  "contract256_window4_modm s =
     (let (r, carry) = foldl window4_step (window4_quads s, 0) [0..<63]
      in r[63 := schar (r ! 63 + carry)])"

definition limb_bits :: "nat \<Rightarrow> u64 \<Rightarrow> int list" where
  "limb_bits m v = map (\<lambda>j. uint (drop_bit j v AND 1)) [0..<m]"

fun slidingwindow_bits :: "bignum256modm \<Rightarrow> int list" where
  "slidingwindow_bits (Sc x0 x1 x2 x3 x4) =
     limb_bits 56 x0 @ limb_bits 56 x1 @ limb_bits 56 x2 @ limb_bits 56 x3 @ limb_bits 32 x4"

definition soplen :: nat where "soplen = 256"

text \<open>The carry loop: set the first zero digit from position \<open>k\<close> on, clearing the ones before it.\<close>

function slidingwindow_carry :: "int list \<Rightarrow> nat \<Rightarrow> int list" where
  "slidingwindow_carry r k =
     (if k < soplen
      then if r ! k = 0 then r[k := 1] else slidingwindow_carry (r[k := 0]) (k + 1)
      else r)"
  by pat_completeness auto
termination
  by (relation "measure (\<lambda>(r, k). soplen - k)") auto

function slidingwindow_inner :: "int \<Rightarrow> nat \<Rightarrow> int list \<Rightarrow> nat \<Rightarrow> int list" where
  "slidingwindow_inner m j r b =
     (if b < soplen - j \<and> b \<le> 6
      then
        if r ! j + r ! (j + b) * 2 ^ b \<le> m then
          slidingwindow_inner m j (r[j := schar (r ! j + r ! (j + b) * 2 ^ b), j + b := 0]) (b + 1)
        else if r ! j - r ! (j + b) * 2 ^ b \<ge> - m then
          slidingwindow_inner m j
            (slidingwindow_carry (r[j := schar (r ! j - r ! (j + b) * 2 ^ b)]) (j + b)) (b + 1)
        else if r ! (j + b) \<noteq> 0 then r
        else slidingwindow_inner m j r (b + 1)
      else r)"
  by pat_completeness auto
termination
  by (relation "measure (\<lambda>(m, j, r, b). 7 - b)") auto

declare slidingwindow_carry.simps [simp del] slidingwindow_inner.simps [simp del]

definition contract256_slidingwindow_modm :: "bignum256modm \<Rightarrow> nat \<Rightarrow> int list" where
  "contract256_slidingwindow_modm s windowsize =
     (let m = 2 ^ (windowsize - 1) - 1
      in foldl (\<lambda>r j. if r ! j = 0 then r else slidingwindow_inner m j r 1)
               (slidingwindow_bits s) [0..<soplen])"

section \<open>Helpers of the batch verification\<close>

text \<open>
  Each is a \<open>switch\<close> on \<open>limbsize\<close> whose cases fall through: it processes the limbs
  \<open>0..limbsize\<close>, the first of them without a borrow; a \<open>limbsize\<close> above 4 takes no case
  of the comparisons and only the last statement of the subtraction, at index 0.
\<close>

definition batch_borrow :: "u64 \<Rightarrow> u64 \<Rightarrow> u64 \<Rightarrow> u64" where
  "batch_borrow a b carry = drop_bit 63 (a - b - carry)"

fun batch_carry :: "u64 list \<Rightarrow> u64 list \<Rightarrow> nat \<Rightarrow> u64" where
  "batch_carry a b 0 = 0"
| "batch_carry a b (Suc i) = batch_borrow (a ! i) (b ! i) (batch_carry a b i)"

definition lt256_modm_batch :: "bignum256modm \<Rightarrow> bignum256modm \<Rightarrow> nat \<Rightarrow> bool" where
  "lt256_modm_batch a b limbsize =
     (if limbsize \<le> 4 then batch_carry (limb_list a) (limb_list b) (limbsize + 1) \<noteq> 0 else False)"

definition lte256_modm_batch :: "bignum256modm \<Rightarrow> bignum256modm \<Rightarrow> nat \<Rightarrow> bool" where
  "lte256_modm_batch a b limbsize =
     (if limbsize \<le> 4 then batch_carry (limb_list b) (limb_list a) (limbsize + 1) = 0 else True)"

definition sub256_modm_batch :: "bignum256modm \<Rightarrow> bignum256modm \<Rightarrow> bignum256modm \<Rightarrow> nat \<Rightarrow> bignum256modm" where
  "sub256_modm_batch out a b limbsize =
     (let xs = limb_list a; ys = limb_list b;
          n = (if limbsize \<le> 4 then limbsize else 0);
          limb = (\<lambda>i old. if i < n then (xs ! i - ys ! i - batch_carry xs ys i) AND 0xffffffffffffff
                          else if i = n then xs ! i - ys ! i - batch_carry xs ys i
                          else old)
      in case out of Sc o0 o1 o2 o3 o4 \<Rightarrow> Sc (limb 0 o0) (limb 1 o1) (limb 2 o2) (limb 3 o3) (limb 4 o4))"

definition iszero256_modm_batch :: "bignum256modm \<Rightarrow> bool" where
  "iszero256_modm_batch a = list_all (\<lambda>x. x = 0) (limb_list a)"

definition isone256_modm_batch :: "bignum256modm \<Rightarrow> bool" where
  "isone256_modm_batch a = (limb_list a ! 0 = 1 \<and> list_all (\<lambda>x. x = 0) (tl (limb_list a)))"

definition isatmost128bits256_modm_batch :: "bignum256modm \<Rightarrow> bool" where
  "isatmost128bits256_modm_batch a =
     (case a of Sc x0 x1 x2 x3 x4 \<Rightarrow> (x4 OR x3 OR (x2 AND 0xffffffffff0000)) = 0)"

end
