(* ===== verification/Modm_Correct.thy ===== *)
theory Modm_Correct
  imports Modm
begin

unbundle bit_operations_syntax

text \<open>
  Correctness of the scalar arithmetic: the value of a limb vector, and for every operation the
  residue modulo the group order it computes.  \<open>sc_limbs b x\<close> bounds the limbs (the last one by
  \<open>b\<close>), \<open>reduced x\<close> says that \<open>x\<close> is the canonical vector of a residue.
\<close>

definition ell :: int where
  "ell = 2 ^ 252 + 27742317777372353535851937790883648493"

fun sval :: "bignum256modm \<Rightarrow> int" where
  "sval (Sc x0 x1 x2 x3 x4) =
     uint x0 + 2 ^ 56 * uint x1 + 2 ^ 112 * uint x2 + 2 ^ 168 * uint x3 + 2 ^ 224 * uint x4"

fun sc_limbs :: "int \<Rightarrow> bignum256modm \<Rightarrow> bool" where
  "sc_limbs b (Sc x0 x1 x2 x3 x4) \<longleftrightarrow>
     uint x0 < 2 ^ 56 \<and> uint x1 < 2 ^ 56 \<and> uint x2 < 2 ^ 56 \<and> uint x3 < 2 ^ 56 \<and> uint x4 < b"

lemmas modm_consts = modm_m0_def modm_m1_def modm_m2_def modm_m3_def modm_m4_def
lemmas modm_mu_consts = modm_mu0_def modm_mu1_def modm_mu2_def modm_mu3_def modm_mu4_def

lemma sval_modm_m: "sval modm_m = ell"
  by (simp add: modm_m_def modm_consts ell_def)

lemma sval_modm_mu: "sval modm_mu = 2 ^ 512 div ell"
proof -
  have "sval modm_mu = 1852673427797059126777135760139006525645217721299241702126143248052143860224795"
    by (simp add: modm_mu_def modm_mu_consts)
  moreover have "2 ^ 512 div ell = 1852673427797059126777135760139006525645217721299241702126143248052143860224795"
    by (rule int_div_pos_eq [where r = 1627715501170711445284395025044413883736156588369414752970002579683115011841]) (simp_all add: ell_def)
  ultimately show ?thesis by (simp only:)
qed


lemma lt_modm_val:
  assumes "uint a < 2 ^ 62" "uint b < 2 ^ 62"
  shows "lt_modm a b = of_bool (uint a < uint b)"
proof (cases "uint a < uint b")
  case True
  define A B where "A = uint a" "B = uint b"
  have "uint (a - b) = A - B + 2 ^ 64" "0 \<le> A" "A < B" "B < 2 ^ 62"
    using True uint_nonneg [of a] uint64_lt [of b] assms by (simp_all add: uint_sub_if' A_B_def)
  then have "uint (a - b) div 2 ^ 63 = 1" by simp
  then show ?thesis using True by (simp add: lt_modm_def word_uint_eq_iff bitval)
next
  case False
  define A B where "A = uint a" "B = uint b"
  have "uint (a - b) = A - B" "0 \<le> B" "B \<le> A" "A < 2 ^ 62"
    using False assms by (simp_all add: nowrap A_B_def)
  then have "uint (a - b) div 2 ^ 63 = 0" by simp
  then show ?thesis using False by (simp add: lt_modm_def word_uint_eq_iff bitval)
qed

lemma uint_shift_bool:
  assumes "w \<le> 60"
  shows "uint (push_bit w (of_bool c :: u64)) = 2 ^ w * of_bool c"
proof -
  have "(2::int) ^ w \<le> 2 ^ 60" using assms by (intro power_increasing) auto
  then have "(2::int) ^ w < 2 ^ 64" by simp
  then have "(2::int) ^ w mod 18446744073709551616 = 2 ^ w" by simp
  then show ?thesis by (simp only: uint_push_bit) simp
qed

lemma borrow_range:
  fixes R M W :: int
  assumes "0 \<le> R" "0 \<le> M" "R < 2 ^ 61" "M < 2 ^ 61" "W \<le> 2 ^ 60" "M + of_bool p \<le> R + W"
  shows "0 \<le> R - (M + of_bool p) + W * of_bool (R < M + of_bool p)"
    and "R - (M + of_bool p) + W * of_bool (R < M + of_bool p) < 2 ^ 64"
  using assms by (auto simp: of_bool_def)

lemma borrow_limb_correct:
  assumes "uint r < 2 ^ 61" "uint m < 2 ^ 61" "uint pb = of_bool p" "w \<le> 60"
    and "uint m + of_bool p \<le> uint r + 2 ^ w"
  obtains t b where "borrow_limb w r m pb = (t, b)"
    "uint b = of_bool (uint r < uint m + of_bool p)"
    "uint t = uint r - uint m - of_bool p + 2 ^ w * of_bool (uint r < uint m + of_bool p)"
proof -
  define c where "c \<longleftrightarrow> uint r < uint m + of_bool p"
  have s: "uint (pb + m) = uint m + of_bool p"
    using assms(1-3) by (cases p) (simp_all add: nowrap)
  have b: "lt_modm r (pb + m) = of_bool c"
    using lt_modm_val [of r "pb + m"] assms(1,2) by (cases p) (simp_all add: s c_def)
  have w: "(2::int) ^ w \<le> 2 ^ 60"
    using assms(4) by (intro power_increasing) auto
  have "uint (r - (pb + m) + push_bit w (of_bool c)) =
      (uint r - (uint m + of_bool p) + 2 ^ w * of_bool c) mod 2 ^ 64"
    by (simp add: uint_word_ariths uint_shift_bool [OF assms(4)] assms(3) mod_simps add.commute)
  also have "\<dots> = uint r - (uint m + of_bool p) + 2 ^ w * of_bool c"
    unfolding c_def using assms(1,2,5) w
    by (intro mod_pos_pos_trivial borrow_range uint_nonneg)
  finally show thesis
    by (intro that [of "r - (pb + m) + push_bit w (of_bool c)" "of_bool c"])
      (simp_all add: borrow_limb_def Let_def b c_def)
qed

lemma borrow_range56:
  fixes r m :: u64
  assumes "uint r < 2 ^ 56" "uint m < 2 ^ 56"
  shows "0 \<le> uint r - uint m - of_bool p + 2 ^ 56 * of_bool (uint r < uint m + of_bool p)"
    and "uint r - uint m - of_bool p + 2 ^ 56 * of_bool (uint r < uint m + of_bool p) < 2 ^ 56"
proof -
  define R M where "R = uint r" "M = uint m"
  have "0 \<le> R" "0 \<le> M" "R < 2 ^ 56" "M < 2 ^ 56" using assms by (simp_all add: R_M_def)
  then show "0 \<le> uint r - uint m - of_bool p + 2 ^ 56 * of_bool (uint r < uint m + of_bool p)"
    and "uint r - uint m - of_bool p + 2 ^ 56 * of_bool (uint r < uint m + of_bool p) < 2 ^ 56"
    unfolding R_M_def [symmetric] by (auto simp: of_bool_def)
qed

lemma borrow_chain_correct:
  assumes "sc_limbs (2 ^ 61) x" "sc_limbs (2 ^ 61) y" "w \<le> 60" "uint (sc4 y) + 1 \<le> uint (sc4 x) + 2 ^ w"
  obtains t b where "borrow_chain w x y = (t, b)" "uint b = of_bool (sval x < sval y)"
    "sval t = sval x - sval y + 2 ^ 224 * 2 ^ w * uint b"
    "uint (sc0 t) < 2 ^ 56" "uint (sc1 t) < 2 ^ 56" "uint (sc2 t) < 2 ^ 56" "uint (sc3 t) < 2 ^ 56"
proof -
  obtain x0 x1 x2 x3 x4 where x: "x = Sc x0 x1 x2 x3 x4" by (cases x)
  obtain y0 y1 y2 y3 y4 where y: "y = Sc y0 y1 y2 y3 y4" by (cases y)
  have X: "uint x0 < 2 ^ 56" "uint x1 < 2 ^ 56" "uint x2 < 2 ^ 56" "uint x3 < 2 ^ 56" "uint x4 < 2 ^ 61"
    using assms(1) by (simp_all add: x)
  have Y: "uint y0 < 2 ^ 56" "uint y1 < 2 ^ 56" "uint y2 < 2 ^ 56" "uint y3 < 2 ^ 56" "uint y4 < 2 ^ 61"
    using assms(2) by (simp_all add: y)
  define c0 where "c0 \<longleftrightarrow> uint x0 < uint y0 + of_bool False"
  define c1 where "c1 \<longleftrightarrow> uint x1 < uint y1 + of_bool c0"
  define c2 where "c2 \<longleftrightarrow> uint x2 < uint y2 + of_bool c1"
  define c3 where "c3 \<longleftrightarrow> uint x3 < uint y3 + of_bool c2"
  define c4 where "c4 \<longleftrightarrow> uint x4 < uint y4 + of_bool c3"
  have step: "M + of_bool p \<le> R + 2 ^ 56" if "M < 2 ^ 56" "0 \<le> R" for M R :: int and p
    using that by (cases p) simp_all
  obtain t0 b0 where 0: "borrow_limb 56 x0 y0 0 = (t0, b0)" "uint b0 = of_bool c0"
    "uint t0 = uint x0 - uint y0 - of_bool False + 2 ^ 56 * of_bool c0"
    unfolding c0_def by (rule borrow_limb_correct [of x0 y0 0 False 56]) (use X Y step [OF Y(1) uint_nonneg [of x0], of False] in simp_all)
  obtain t1 b1 where 1: "borrow_limb 56 x1 y1 b0 = (t1, b1)" "uint b1 = of_bool c1"
    "uint t1 = uint x1 - uint y1 - of_bool c0 + 2 ^ 56 * of_bool c1"
    unfolding c1_def by (rule borrow_limb_correct [of x1 y1 b0 c0 56]) (use X Y step [OF Y(2) uint_nonneg [of x1], of c0] 0 in simp_all)
  obtain t2 b2 where 2: "borrow_limb 56 x2 y2 b1 = (t2, b2)" "uint b2 = of_bool c2"
    "uint t2 = uint x2 - uint y2 - of_bool c1 + 2 ^ 56 * of_bool c2"
    unfolding c2_def by (rule borrow_limb_correct [of x2 y2 b1 c1 56]) (use X Y step [OF Y(3) uint_nonneg [of x2], of c1] 1 in simp_all)
  obtain t3 b3 where 3: "borrow_limb 56 x3 y3 b2 = (t3, b3)" "uint b3 = of_bool c3"
    "uint t3 = uint x3 - uint y3 - of_bool c2 + 2 ^ 56 * of_bool c3"
    unfolding c3_def by (rule borrow_limb_correct [of x3 y3 b2 c2 56]) (use X Y step [OF Y(4) uint_nonneg [of x3], of c2] 2 in simp_all)
  have w4: "uint y4 + of_bool c3 \<le> uint x4 + 2 ^ w" using assms(4) by (cases c3) (simp_all add: x y)
  obtain t4 b4 where 4: "borrow_limb w x4 y4 b3 = (t4, b4)" "uint b4 = of_bool c4"
    "uint t4 = uint x4 - uint y4 - of_bool c3 + 2 ^ w * of_bool c4"
    unfolding c4_def by (rule borrow_limb_correct [of x4 y4 b3 c3 w]) (use X Y assms(3) 3 w4 in simp_all)
  have b0: "0 \<le> uint t0" "uint t0 < 2 ^ 56"
    unfolding 0(3) c0_def using borrow_range56 [OF X(1) Y(1)] by blast+
  have b1: "0 \<le> uint t1" "uint t1 < 2 ^ 56"
    unfolding 1(3) c1_def using borrow_range56 [OF X(2) Y(2)] by blast+
  have b2: "0 \<le> uint t2" "uint t2 < 2 ^ 56"
    unfolding 2(3) c2_def using borrow_range56 [OF X(3) Y(3)] by blast+
  have b3: "0 \<le> uint t3" "uint t3 < 2 ^ 56"
    unfolding 3(3) c3_def using borrow_range56 [OF X(4) Y(4)] by blast+
  have val: "sval (Sc t0 t1 t2 t3 t4) = sval x - sval y + 2 ^ 224 * 2 ^ w * of_bool c4"
    by (simp add: x y 0(3) 1(3) 2(3) 3(3) 4(3) algebra_simps)
  define D where "D = uint x4 - uint y4 - of_bool c3"
  define T where "T = uint t0 + 2 ^ 56 * uint t1 + 2 ^ 112 * uint t2 + 2 ^ 168 * uint t3"
  have diff: "sval x - sval y = T + 2 ^ 224 * D"
    by (simp add: x y T_def D_def 0(3) 1(3) 2(3) 3(3))
  have T: "0 \<le> T" "T < 2 ^ 224"
    using b0 b1 b2 b3 by (simp_all add: T_def)
  have "sval x - sval y < 0 \<longleftrightarrow> D < 0"
    unfolding diff using T by (cases "D < 0") simp_all
  then have dec: "sval x < sval y \<longleftrightarrow> c4" unfolding c4_def D_def by linarith
  show thesis
    by (rule that [of "Sc t0 t1 t2 t3 t4" b4])
      (use b0 b1 b2 b3 val dec 4(2) in \<open>simp_all add: borrow_chain_def x y 0(1) 1(1) 2(1) 3(1) 4(1)\<close>)
qed

lemma mask_select_simps [simp]: "mask_select 0 r t = r" "mask_select (- 1) r t = t"
  by (simp_all add: mask_select_def flip: xor.assoc)

lemma sc_limbs_mono: "sc_limbs b x \<Longrightarrow> b \<le> c \<Longrightarrow> sc_limbs c x"
  by (cases x) auto

lemma sc_limbs_modm_m: "sc_limbs (2 ^ 29) modm_m"
  by (simp add: modm_m_def modm_consts)

lemma sc4_le: "2 ^ 224 * uint (sc4 x) \<le> sval x"
  by (cases x) simp

lemma sc4_less: "sval x < 2 ^ 224 * n \<Longrightarrow> uint (sc4 x) < n"
  using sc4_le [of x] by simp

lemma reduce256_modm_correct:
  assumes "sc_limbs c r" "c \<le> 2 ^ 61"
  shows "sval (reduce256_modm r) = (if sval r < ell then sval r else sval r - ell)"
    and "sc_limbs (2 ^ 61) (reduce256_modm r)"
proof -
  have r: "sc_limbs (2 ^ 61) r" using assms sc_limbs_mono by blast
  obtain t b where t: "borrow_chain 32 r modm_m = (t, b)" "uint b = of_bool (sval r < sval modm_m)"
    "sval t = sval r - sval modm_m + 2 ^ 224 * 2 ^ 32 * uint b"
    "uint (sc0 t) < 2 ^ 56" "uint (sc1 t) < 2 ^ 56" "uint (sc2 t) < 2 ^ 56" "uint (sc3 t) < 2 ^ 56"
    by (rule borrow_chain_correct [of r modm_m 32])
      (use r sc_limbs_modm_m sc_limbs_mono in \<open>auto simp: modm_m_def modm_consts\<close>)
  have b: "b = of_bool (sval r < ell)"
    using t(2) by (simp add: word_uint_eq_iff sval_modm_m)
  have eq: "reduce256_modm r = (if sval r < ell then r else t)"
    by (cases "sval r < ell") (simp_all add: reduce256_modm_def t(1) b Let_def)
  show "sval (reduce256_modm r) = (if sval r < ell then sval r else sval r - ell)"
    using t(2,3) by (auto simp: eq sval_modm_m)
  have "uint (sc4 t) < 2 ^ 61" if "\<not> sval r < ell"
  proof (rule sc4_less)
    have "sval t = sval r - ell" using t(2,3) that by (simp add: sval_modm_m)
    moreover have "sval r < 2 ^ 224 * 2 ^ 61" using r by (cases r) simp
    ultimately show "sval t < 2 ^ 224 * 2 ^ 61" by (simp add: ell_def)
  qed
  then show "sc_limbs (2 ^ 61) (reduce256_modm r)"
    using r t(4-7) by (cases t) (auto simp: eq)
qed

text \<open>\<open>reduced x\<close>: five proper limbs of a residue below the group order.\<close>

definition reduced :: "bignum256modm \<Rightarrow> bool" where
  "reduced x \<longleftrightarrow> sc_limbs (2 ^ 56) x \<and> sval x < ell"

lemma reduced_limbs: "reduced x \<Longrightarrow> sc_limbs (2 ^ 29) x"
  using sc4_less [of x "2 ^ 29"] by (cases x) (auto simp: reduced_def ell_def)

lemma sval_nonneg: "0 \<le> sval x"
  by (cases x) simp

lemma sc_limbs_sc4: "sc_limbs b x \<Longrightarrow> uint (sc4 x) < c \<Longrightarrow> sc_limbs c x"
  by (cases x) auto

lemma ell_pos: "0 < ell"
  by (simp add: ell_def)

lemma reducedI:
  assumes "sc_limbs b x" "sval x < ell"
  shows "reduced x"
proof -
  have "uint (sc4 x) < 2 ^ 56" using sc4_less [of x "2 ^ 56"] assms(2) by (simp add: ell_def)
  then show ?thesis using assms sc_limbs_sc4 by (simp add: reduced_def)
qed

lemma reduce256_modm_reduced:
  assumes "sc_limbs c r" "c \<le> 2 ^ 61" "sval r < 2 * ell"
  shows "reduced (reduce256_modm r)" and "sval (reduce256_modm r) = sval r mod ell"
proof -
  note red = reduce256_modm_correct [OF assms(1,2)]
  show "reduced (reduce256_modm r)"
    by (rule reducedI [OF red(2)]) (use red(1) assms(3) in auto)
  show "sval (reduce256_modm r) = sval r mod ell"
    using red(1) assms(3) sval_nonneg [of r] int_mod_unique [of "sval r" "sval r - ell" ell 1] by auto
qed

lemma split56:
  obtains q r where "uint (x :: u64) = 72057594037927936 * q + r" "0 \<le> r" "r < 72057594037927936"
    "uint (drop_bit 56 x) = q" "uint (x AND 0xffffffffffffff) = r" "0 \<le> q" "q < 256"
proof
  have m: "(0xffffffffffffff :: u64) = mask 56" by (simp add: mask_eq_exp_minus_1)
  show "uint x = 72057594037927936 * (uint x div 72057594037927936) + uint x mod 72057594037927936"
    by simp
  show "uint x div 72057594037927936 < 256"
    using uint64_lt [of x] by linarith
  show "uint (x AND 0xffffffffffffff) = uint x mod 72057594037927936"
    by (simp only: m uint_and_mask) simp
qed (simp_all add: bitval pos_imp_zdiv_nonneg_iff)

lemma add256_limbs:
  assumes "sc_limbs (2 ^ 56) x" "sc_limbs (2 ^ 56) y"
  obtains r where "add256_modm x y = reduce256_modm r" "sc_limbs (2 ^ 61) r" "sval r = sval x + sval y"
proof -
  obtain x0 x1 x2 x3 x4 where x: "x = Sc x0 x1 x2 x3 x4" by (cases x)
  obtain y0 y1 y2 y3 y4 where y: "y = Sc y0 y1 y2 y3 y4" by (cases y)
  have X: "uint x0 < 2 ^ 56" "uint x1 < 2 ^ 56" "uint x2 < 2 ^ 56" "uint x3 < 2 ^ 56" "uint x4 < 2 ^ 56"
    using assms(1) by (simp_all add: x)
  have Y: "uint y0 < 2 ^ 56" "uint y1 < 2 ^ 56" "uint y2 < 2 ^ 56" "uint y3 < 2 ^ 56" "uint y4 < 2 ^ 56"
    using assms(2) by (simp_all add: y)
  define z0 where "z0 = x0 + y0"
  define z1 where "z1 = drop_bit 56 z0 + (x1 + y1)"
  define z2 where "z2 = drop_bit 56 z1 + (x2 + y2)"
  define z3 where "z3 = drop_bit 56 z2 + (x3 + y3)"
  define z4 where "z4 = drop_bit 56 z3 + (x4 + y4)"
  have z0: "uint z0 = uint x0 + uint y0" using X Y by (simp add: z0_def nowrap)
  obtain q0 r0 where 0: "uint z0 = 72057594037927936 * q0 + r0" "0 \<le> r0" "r0 < 72057594037927936"
    "uint (drop_bit 56 z0) = q0" "uint (z0 AND 0xffffffffffffff) = r0" "0 \<le> q0" "q0 < 256" by (rule split56)
  have z1: "uint z1 = q0 + (uint x1 + uint y1)" using X Y 0 by (simp add: z1_def nowrap)
  obtain q1 r1 where 1: "uint z1 = 72057594037927936 * q1 + r1" "0 \<le> r1" "r1 < 72057594037927936"
    "uint (drop_bit 56 z1) = q1" "uint (z1 AND 0xffffffffffffff) = r1" "0 \<le> q1" "q1 < 256" by (rule split56)
  have z2: "uint z2 = q1 + (uint x2 + uint y2)" using X Y 1 by (simp add: z2_def nowrap)
  obtain q2 r2 where 2: "uint z2 = 72057594037927936 * q2 + r2" "0 \<le> r2" "r2 < 72057594037927936"
    "uint (drop_bit 56 z2) = q2" "uint (z2 AND 0xffffffffffffff) = r2" "0 \<le> q2" "q2 < 256" by (rule split56)
  have z3: "uint z3 = q2 + (uint x3 + uint y3)" using X Y 2 by (simp add: z3_def nowrap)
  obtain q3 r3 where 3: "uint z3 = 72057594037927936 * q3 + r3" "0 \<le> r3" "r3 < 72057594037927936"
    "uint (drop_bit 56 z3) = q3" "uint (z3 AND 0xffffffffffffff) = r3" "0 \<le> q3" "q3 < 256" by (rule split56)
  have z4: "uint z4 = q3 + (uint x4 + uint y4)" using X Y 3 by (simp add: z4_def nowrap)
  define r where "r = Sc (z0 AND 0xffffffffffffff) (z1 AND 0xffffffffffffff) (z2 AND 0xffffffffffffff)
    (z3 AND 0xffffffffffffff) z4"
  show thesis
  proof
    show "add256_modm x y = reduce256_modm r"
      by (simp add: add256_modm_def x y Let_def r_def z0_def z1_def z2_def z3_def z4_def)
    show "sc_limbs (2 ^ 61) r" using 0 1 2 3 z4 X Y by (simp add: r_def)
    show "sval r = sval x + sval y"
      using 0(1) 1(1) 2(1) 3(1) z0 z1 z2 z3 z4 by (simp add: r_def x y 0(5) 1(5) 2(5) 3(5))
  qed
qed

lemma add256_modm_correct:
  assumes "sc_limbs (2 ^ 56) x" "sc_limbs (2 ^ 56) y" "sval x + sval y < 2 * ell"
  shows "reduced (add256_modm x y)" and "sval (add256_modm x y) = (sval x + sval y) mod ell"
proof -
  obtain r where r: "add256_modm x y = reduce256_modm r" "sc_limbs (2 ^ 61) r" "sval r = sval x + sval y"
    by (rule add256_limbs [OF assms(1,2)])
  show "reduced (add256_modm x y)" "sval (add256_modm x y) = (sval x + sval y) mod ell"
    using reduce256_modm_reduced [OF r(2)] assms(3) r(3) by (simp_all add: r(1))
qed

lemma neg256_modm_correct:
  assumes "reduced x"
  shows "reduced (neg256_modm x)" and "sval (neg256_modm x) = (- sval x) mod ell"
proof -
  have x4: "uint (sc4 x) < 2 ^ 29" using reduced_limbs [OF assms] by (cases x) simp
  obtain t b where t: "borrow_chain 29 modm_m x = (t, b)" "uint b = of_bool (sval modm_m < sval x)"
    "sval t = sval modm_m - sval x + 2 ^ 224 * 2 ^ 29 * uint b"
    "uint (sc0 t) < 2 ^ 56" "uint (sc1 t) < 2 ^ 56" "uint (sc2 t) < 2 ^ 56" "uint (sc3 t) < 2 ^ 56"
    by (rule borrow_chain_correct [of modm_m x 29])
      (use x4 reduced_limbs [OF assms] sc_limbs_modm_m sc_limbs_mono in \<open>auto simp: modm_m_def modm_consts\<close>)
  have v: "sval t = ell - sval x" using t(2,3) assms by (simp add: sval_modm_m reduced_def)
  have "uint (sc4 t) < 2 ^ 56"
    by (rule sc4_less) (use v sval_nonneg [of x] in \<open>simp add: ell_def\<close>)
  then have "sc_limbs (2 ^ 56) t" using t(4-7) by (cases t) simp
  moreover have "sval t < 2 * ell" using v ell_pos sval_nonneg [of x] by linarith
  ultimately show "reduced (neg256_modm x)" and "sval (neg256_modm x) = (- sval x) mod ell"
    using reduce256_modm_reduced [of "2 ^ 56" t] v by (simp_all add: neg256_modm_def t(1))
qed

lemma sub256_modm_correct:
  assumes "reduced x" "reduced y"
  shows "reduced (sub256_modm x y)" and "sval (sub256_modm x y) = (sval x - sval y) mod ell"
proof -
  note n = neg256_modm_correct [OF assms(2)]
  have "sval x + sval (neg256_modm y) < 2 * ell" using assms(1) n(1) by (simp add: reduced_def)
  then show "reduced (sub256_modm x y)" and "sval (sub256_modm x y) = (sval x - sval y) mod ell"
    using add256_modm_correct [of x "neg256_modm y"] assms(1) n
    by (simp_all add: sub256_modm_def reduced_def mod_simps)
qed


lemma lex_bits:
  fixes X M L G :: int
  assumes "0 \<le> L" "L < b" "0 \<le> G" "G < b"
  shows "b * of_bool (X < M) + L > b * of_bool (X > M) + G \<longleftrightarrow> X < M \<or> (X = M \<and> L > G)"
  using assms by (cases X M rule: linorder_cases) simp_all

lemma lex_value:
  fixes X M l g :: int
  assumes "0 \<le> l" "l < b" "0 \<le> g" "g < b"
  shows "l + b * X < g + b * M \<longleftrightarrow> X < M \<or> (X = M \<and> l < g)"
proof (cases X M rule: linorder_cases)
  case less
  then have "b * (X + 1) \<le> b * M" using assms by (intro mult_left_mono) auto
  then show ?thesis using less assms by (simp add: algebra_simps)
next
  case greater
  then have "b * (M + 1) \<le> b * X" using assms by (intro mult_left_mono) auto
  then show ?thesis using greater assms by (simp add: algebra_simps)
qed simp

lemma lex_eq:
  fixes X M l g :: int
  assumes "0 \<le> l" "l < b" "0 \<le> g" "g < b"
  shows "l + b * X = g + b * M \<longleftrightarrow> X = M \<and> l = g"
  using lex_value [OF assms, of X M] lex_value [OF assms(3,4,1,2), of M X] by linarith

lemma lex_limbs:
  fixes x0 x1 x2 x3 x4 m0 m1 m2 m3 m4 :: int
  assumes "0 \<le> x0" "0 \<le> x1" "0 \<le> x2" "0 \<le> x3" "0 \<le> m0" "0 \<le> m1" "0 \<le> m2" "0 \<le> m3"
    and "x0 < 2 ^ 56" "x1 < 2 ^ 56" "x2 < 2 ^ 56" "x3 < 2 ^ 56"
    and "m0 < 2 ^ 56" "m1 < 2 ^ 56" "m2 < 2 ^ 56" "m3 < 2 ^ 56"
  shows "16 * of_bool (x4 < m4) + (8 * of_bool (x3 < m3) + (4 * of_bool (x2 < m2)
        + (2 * of_bool (x1 < m1) + of_bool (x0 < m0))))
      > (16 * of_bool (x4 > m4) + (8 * of_bool (x3 > m3) + (4 * of_bool (x2 > m2)
        + (2 * of_bool (x1 > m1) + of_bool (x0 > m0)))) :: int)
    \<longleftrightarrow> x0 + 2 ^ 56 * (x1 + 2 ^ 56 * (x2 + 2 ^ 56 * (x3 + 2 ^ 56 * x4)))
      < m0 + 2 ^ 56 * (m1 + 2 ^ 56 * (m2 + 2 ^ 56 * (m3 + 2 ^ 56 * m4)))"
proof -
  have ob: "0 \<le> (of_bool P :: int)" "of_bool P \<le> (1 :: int)" for P by simp_all
  let ?L1 = "2 * of_bool (x1 < m1) + of_bool (x0 < m0) :: int"
  let ?G1 = "2 * of_bool (x1 > m1) + of_bool (x0 > m0) :: int"
  let ?L2 = "4 * of_bool (x2 < m2) + ?L1" let ?G2 = "4 * of_bool (x2 > m2) + ?G1"
  let ?L3 = "8 * of_bool (x3 < m3) + ?L2" let ?G3 = "8 * of_bool (x3 > m3) + ?G2"
  have L1: "0 \<le> ?L1" "?L1 < 4" "0 \<le> ?G1" "?G1 < 4" using ob [of "x1 < m1"] ob [of "x1 > m1"] ob [of "x0 < m0"] ob [of "x0 > m0"] by linarith+
  have L2: "0 \<le> ?L2" "?L2 < 8" "0 \<le> ?G2" "?G2 < 8" using L1 ob [of "x2 < m2"] ob [of "x2 > m2"] by linarith+
  have L3: "0 \<le> ?L3" "?L3 < 16" "0 \<le> ?G3" "?G3 < 16" using L2 ob [of "x3 < m3"] ob [of "x3 > m3"] by linarith+
  have 1: "?L1 > ?G1 \<longleftrightarrow> x1 < m1 \<or> (x1 = m1 \<and> x0 < m0)" by (auto simp: of_bool_def)
  show ?thesis
    unfolding lex_bits [OF L3] lex_bits [OF L2] lex_bits [OF L1] 1
      lex_value [OF assms(1,9,5,13)] lex_value [OF assms(2,10,6,14)] lex_value [OF assms(3,11,7,15)]
      lex_value [OF assms(4,12,8,16)]
      lex_eq [OF assms(2,10,6,14)] lex_eq [OF assms(3,11,7,15)] lex_eq [OF assms(4,12,8,16)]
    by auto
qed

lemma limb_list_nth:
  "limb_list (Sc x0 x1 x2 x3 x4) ! 0 = x0" "limb_list (Sc x0 x1 x2 x3 x4) ! 1 = x1"
  "limb_list (Sc x0 x1 x2 x3 x4) ! 2 = x2" "limb_list (Sc x0 x1 x2 x3 x4) ! 3 = x3"
  "limb_list (Sc x0 x1 x2 x3 x4) ! 4 = x4"
  by simp_all

lemma is_reduced256_modm_correct:
  assumes "sc_limbs (2 ^ 56) x"
  shows "is_reduced256_modm x \<longleftrightarrow> sval x < ell"
proof -
  obtain x0 x1 x2 x3 x4 where x: "x = Sc x0 x1 x2 x3 x4" by (cases x)
  have X: "uint x0 < 2 ^ 56" "uint x1 < 2 ^ 56" "uint x2 < 2 ^ 56" "uint x3 < 2 ^ 56" "uint x4 < 2 ^ 56"
    using assms by (simp_all add: x)
  have M: "uint modm_m0 < 2 ^ 56" "uint modm_m1 < 2 ^ 56" "uint modm_m2 < 2 ^ 56" "uint modm_m3 < 2 ^ 56"
    by (simp_all add: modm_consts)
  have bits: "push_bit 1 (push_bit 1 (push_bit 1 (push_bit 1 (push_bit 1 0 OR of_bool a) OR of_bool b) OR of_bool c)
      OR of_bool d) OR of_bool e
    = (16 * of_bool a + (8 * of_bool b + (4 * of_bool c + (2 * of_bool d + of_bool e))) :: u64)" for a b c d e
    by (cases a; cases b; cases c; cases d; cases e) simp_all
  have val: "uint (16 * of_bool a + (8 * of_bool b + (4 * of_bool c + (2 * of_bool d + of_bool e))) :: u64)
    = 16 * of_bool a + (8 * of_bool b + (4 * of_bool c + (2 * of_bool d + of_bool e)))" for a b c d e
    by (cases a; cases b; cases c; cases d; cases e) simp_all
  have "is_reduced256_modm x \<longleftrightarrow>
      uint x0 + 2 ^ 56 * (uint x1 + 2 ^ 56 * (uint x2 + 2 ^ 56 * (uint x3 + 2 ^ 56 * uint x4)))
      < uint modm_m0 + 2 ^ 56 * (uint modm_m1 + 2 ^ 56 * (uint modm_m2 + 2 ^ 56 * (uint modm_m3 + 2 ^ 56 * uint modm_m4)))"
    unfolding lex_limbs [OF uint_nonneg uint_nonneg uint_nonneg uint_nonneg uint_nonneg uint_nonneg uint_nonneg
        uint_nonneg X(1-4) M, symmetric]
    unfolding is_reduced256_modm_def x modm_m_def foldl.simps split Let_def limb_list_nth bits word_less_def
    by (simp only: val)
  then show ?thesis
    unfolding sval_modm_m [symmetric] by (simp add: x modm_m_def add.assoc)
qed

end
