(* ===== verification/Modm_Barrett.thy ===== *)
theory Modm_Barrett
  imports Modm_Correct
begin

unbundle bit_operations_syntax

text \<open>
  Barrett reduction and multiplication modulo the group order.  The code computes the quotient
  estimate from the columns 3 to 8 of \<open>mu * q1\<close> only; the dropped columns and the truncated
  estimate together cost less than three multiples of the order, which the final two
  conditional subtractions remove.
\<close>

section \<open>Columns\<close>

lemma uint_or_disjoint:
  assumes "uint (a :: u64) < 2 ^ n" "uint b = 2 ^ n * q" "n < 64"
  shows "uint (a OR b) = uint a + uint b"
proof -
  have "push_bit n (drop_bit n b) = b"
  proof -
    have "take_bit n b = 0"
      by (subst word_uint_eq_iff, subst unsigned_take_bit_eq) (simp add: take_bit_eq_mod assms(2))
    then show ?thesis using bits_ident [of n b] by simp
  qed
  then have "uint (a OR b) = uint a + uint (drop_bit n b) * 2 ^ n mod 2 ^ 64"
    using uint64_or_push_bit [OF assms(1,3), of "drop_bit n b"] by simp
  moreover have "uint (drop_bit n b) * 2 ^ n = uint b" by (simp add: bitval assms(2))
  ultimately show ?thesis using uint64_lt [of b] by simp
qed

lemma split_column:
  fixes t :: u128
  assumes "uint t < 2 ^ 120" "s + k = 56"
  obtains q h l where "uint t = 2 ^ 56 * q + 2 ^ s * h + l" "0 \<le> q" "0 \<le> h" "h < 2 ^ k" "0 \<le> l" "l < 2 ^ s"
    "uint (shr128 t 56) = q"
    "uint (drop_bit s (lo128 t) AND mask k) = h"
    "uint (push_bit k (lo128 t) AND mask 56) = 2 ^ k * l"
    "uint (lo128 t AND mask 56) = 2 ^ s * h + l"
proof -
  define T where "T = uint t"
  have T: "0 \<le> T" by (simp add: T_def)
  have pw: "(2::int) ^ 56 = 2 ^ s * 2 ^ k" using assms(2) by (simp flip: power_add)
  obtain q m where 1: "T = 2 ^ 56 * q + m" "0 \<le> m" "m < 2 ^ 56" "T div 2 ^ 56 = q" "T mod 2 ^ 56 = m" "0 \<le> q"
    by (rule int_split [of "2 ^ 56" T]) (simp_all add: T)
  obtain h l where 2: "m = 2 ^ s * h + l" "0 \<le> l" "l < 2 ^ s" "m div 2 ^ s = h" "m mod 2 ^ s = l" "0 \<le> h"
    by (rule int_split [of "2 ^ s" m]) (simp_all add: 1)
  have h: "h < 2 ^ k" using int_div_less [of "2 ^ s" m "2 ^ k"] 1(3) 2(4) pw by simp
  have lm: "T mod 2 ^ s = l"
    using 1(5) 2(5) mod_mod_cancel [of "2 ^ s" "2 ^ 56" T] by (simp only: pw dvd_triv_left)
  show thesis
  proof
    show "uint t = 2 ^ 56 * q + 2 ^ s * h + l" using 1(1) 2(1) by (simp add: T_def)
    show "uint (shr128 t 56) = q"
    proof -
      have "T div 2 ^ 56 < 2 ^ 64" by (rule int_div_less) (use assms(1) in \<open>simp_all add: T_def\<close>)
      then show ?thesis using uint_shr128 [of t 56] 1(4) by (simp add: T_def)
    qed
    show "uint (lo128 t AND mask 56) = 2 ^ s * h + l"
    proof -
      have "T mod 2 ^ 64 mod 2 ^ 56 = T mod 2 ^ 56" by (rule mod_mod_cancel) (simp add: le_imp_power_dvd)
      then show ?thesis using 1(5) 2(1) by (simp only: uint_and_mask uint_lo128 T_def)
    qed
    show "uint (drop_bit s (lo128 t) AND mask k) = h"
    proof -
      have m: "T mod 2 ^ 64 mod 2 ^ 56 = m" using 1(5) mod_mod_cancel [of "2 ^ 56" "2 ^ 64" T] by (simp add: le_imp_power_dvd)
      have "T mod 2 ^ 64 mod (2 ^ s * 2 ^ k) = 2 ^ s * (T mod 2 ^ 64 div 2 ^ s mod 2 ^ k) + T mod 2 ^ 64 mod 2 ^ s"
        by (rule zmod_zmult2_eq) simp
      then have "m div 2 ^ s = T mod 2 ^ 64 div 2 ^ s mod 2 ^ k"
        unfolding pw [symmetric] m by simp
      then have "T mod 2 ^ 64 div 2 ^ s mod 2 ^ k = h" using 2(4) by simp
      then show ?thesis by (simp only: uint_and_mask uint_lo128 T_def uint_drop_bit)
    qed
    show "uint (push_bit k (lo128 t) AND mask 56) = 2 ^ k * l"
    proof -
      have "(T mod 2 ^ 64 * 2 ^ k) mod 2 ^ 64 mod 2 ^ 56 = (T * 2 ^ k) mod 2 ^ 56"
        by (simp add: mod_mod_cancel le_imp_power_dvd mod_simps)
      also have "\<dots> = 2 ^ k * (T mod 2 ^ s)"
        by (simp only: pw mult.commute [of "2 ^ s"] mult.commute [of T] mod_mult_mult1)
      finally show ?thesis using lm by (simp only: uint_and_mask uint_lo128 T_def uint_push_bit) simp
    qed
  qed (use 1 2 h in simp_all)
qed

lemma mask_numerals:
  "(mask 16 :: u64) = 0xffff" "(mask 32 :: u64) = 0xffffffff" "(mask 40 :: u64) = 0xffffffffff"
  "(mask 56 :: u64) = 0xffffffffffffff"
  by (simp_all add: mask_eq_exp_minus_1)

text \<open>The two splittings the code uses: bits 40..55 and 24..55 of a column.\<close>

lemma split_16:
  fixes t :: u128
  assumes "uint t < 2 ^ 120"
  obtains q h l where "uint t = 72057594037927936 * q + 1099511627776 * h + l"
    "0 \<le> q" "0 \<le> h" "h < 65536" "0 \<le> l" "l < 1099511627776"
    "uint (shr128 t 56) = q" "uint (drop_bit 40 (lo128 t) AND 0xffff) = h"
    "uint (push_bit 16 (lo128 t) AND 0xffffffffffffff) = 65536 * l"
    "uint (lo128 t AND 0xffffffffffffff) = 1099511627776 * h + l"
proof (rule split_column [of t 40 16])
  fix q h l
  assume "uint t = 2 ^ 56 * q + 2 ^ 40 * h + l" "0 \<le> q" "0 \<le> h" "h < 2 ^ 16" "0 \<le> l" "l < 2 ^ 40"
    "uint (shr128 t 56) = q" "uint (drop_bit 40 (lo128 t) AND mask 16) = h"
    "uint (push_bit 16 (lo128 t) AND mask 56) = 2 ^ 16 * l" "uint (lo128 t AND mask 56) = 2 ^ 40 * h + l"
  then show thesis by (intro that [of q h l]) (simp_all only: mask_numerals, simp_all)
qed (use assms in simp_all)

lemma split_32:
  fixes t :: u128
  assumes "uint t < 2 ^ 120"
  obtains q h l where "uint t = 72057594037927936 * q + 16777216 * h + l"
    "0 \<le> q" "0 \<le> h" "h < 4294967296" "0 \<le> l" "l < 16777216"
    "uint (shr128 t 56) = q" "uint (drop_bit 24 (lo128 t) AND 0xffffffff) = h"
    "uint (push_bit 32 (lo128 t) AND 0xffffffffffffff) = 4294967296 * l"
    "uint (lo128 t AND 0xffffffffffffff) = 16777216 * h + l"
proof (rule split_column [of t 24 32])
  fix q h l
  assume "uint t = 2 ^ 56 * q + 2 ^ 24 * h + l" "0 \<le> q" "0 \<le> h" "h < 2 ^ 32" "0 \<le> l" "l < 2 ^ 24"
    "uint (shr128 t 56) = q" "uint (drop_bit 24 (lo128 t) AND mask 32) = h"
    "uint (push_bit 32 (lo128 t) AND mask 56) = 2 ^ 32 * l" "uint (lo128 t AND mask 56) = 2 ^ 24 * h + l"
  then show thesis by (intro that [of q h l]) (simp_all only: mask_numerals, simp_all)
qed (use assms in simp_all)

lemma or_16: "uint (a :: u64) < 65536 \<Longrightarrow> uint b = 65536 * l \<Longrightarrow> uint (a OR b) = uint a + 65536 * l"
  using uint_or_disjoint [of a 16 b l] by simp

lemma or_32: "uint (a :: u64) < 4294967296 \<Longrightarrow> uint b = 4294967296 * l \<Longrightarrow> uint (a OR b) = uint a + 4294967296 * l"
  using uint_or_disjoint [of a 32 b l] by simp

lemma mul56_bound:
  assumes "uint r < 2 ^ 56" "uint s < 2 ^ 56"
  shows "uint (mul64x64_128 r s) < 2 ^ 112"
proof -
  have "uint r * uint s \<le> (2 ^ 56 - 1) * (2 ^ 56 - 1)"
    using assms by (intro mult_mono) auto
  then show ?thesis by (simp add: bitval)
qed

lemma column_sum5:
  assumes "uint a < 2 ^ 112" "uint b < 2 ^ 112" "uint c < 2 ^ 112" "uint d < 2 ^ 112" "uint e < 2 ^ 112"
  shows "uint (add128_64 a f + b + c + d + e) = uint a + uint f + uint b + uint c + uint d + uint e"
    and "uint (add128_64 a f + b + c + d) = uint a + uint f + uint b + uint c + uint d"
    and "uint (add128_64 a f + b + c) = uint a + uint f + uint b + uint c"
    and "uint (add128_64 a f + b) = uint a + uint f + uint b"
    and "uint (add128_64 a f) = uint a + uint f"
    and "uint (a + b + c + d) = uint a + uint b + uint c + uint d"
  using assms uint64_lt [of f] by (simp_all add: uint_add128_64 nowrap)

lemma barrett_q3_correct:
  assumes "sc_limbs (2 ^ 40) q1"
  obtains D R where "sval modm_mu * sval q1 = D + 2 ^ 264 * sval (barrett_q3 q1) + R"
    "0 \<le> D" "D < 2 ^ 226" "0 \<le> R" "R < 2 ^ 264" "sc_limbs (2 ^ 56) (barrett_q3 q1)"
proof -
  obtain a0 a1 a2 a3 a4 where q1: "q1 = Sc a0 a1 a2 a3 a4" by (cases q1)
  have A: "uint a0 < 2 ^ 56" "uint a1 < 2 ^ 56" "uint a2 < 2 ^ 56" "uint a3 < 2 ^ 56" "uint a4 < 2 ^ 56"
    and A4: "uint a4 < 2 ^ 40"
    using assms by (simp_all add: q1)
  have M: "uint modm_mu0 < 2 ^ 56" "uint modm_mu1 < 2 ^ 56" "uint modm_mu2 < 2 ^ 56" "uint modm_mu3 < 2 ^ 56"
    "uint modm_mu4 < 2 ^ 56"
    by (simp_all add: modm_mu_consts)
  let ?m = mul64x64_128
  note P0 = A [THEN mul56_bound [OF M(1)]]
  note P1 = A [THEN mul56_bound [OF M(2)]]
  note P2 = A [THEN mul56_bound [OF M(3)]]
  note P3 = A [THEN mul56_bound [OF M(4)]]
  note P4 = A [THEN mul56_bound [OF M(5)]]
  define c3 where "c3 = ?m modm_mu0 a3 + ?m modm_mu3 a0 + ?m modm_mu1 a2 + ?m modm_mu2 a1"
  define c4 where "c4 = add128_64 (?m modm_mu0 a4) (shr128 c3 56) + ?m modm_mu4 a0 + ?m modm_mu3 a1
    + ?m modm_mu1 a3 + ?m modm_mu2 a2"
  define c5 where "c5 = add128_64 (?m modm_mu4 a1) (shr128 c4 56) + ?m modm_mu1 a4 + ?m modm_mu2 a3 + ?m modm_mu3 a2"
  define c6 where "c6 = add128_64 (?m modm_mu4 a2) (shr128 c5 56) + ?m modm_mu2 a4 + ?m modm_mu3 a3"
  define c7 where "c7 = add128_64 (?m modm_mu4 a3) (shr128 c6 56) + ?m modm_mu3 a4"
  define c8 where "c8 = add128_64 (?m modm_mu4 a4) (shr128 c7 56)"
  have c3: "uint c3 = uint (?m modm_mu0 a3) + uint (?m modm_mu3 a0) + uint (?m modm_mu1 a2) + uint (?m modm_mu2 a1)"
    unfolding c3_def by (rule column_sum5(6) [OF P0(4) P3(1) P1(3) P2(2) P0(1)])
  have c4: "uint c4 = uint (?m modm_mu0 a4) + uint (shr128 c3 56) + uint (?m modm_mu4 a0) + uint (?m modm_mu3 a1)
      + uint (?m modm_mu1 a3) + uint (?m modm_mu2 a2)"
    unfolding c4_def by (rule column_sum5(1) [OF P0(5) P4(1) P3(2) P1(4) P2(3)])
  have c5: "uint c5 = uint (?m modm_mu4 a1) + uint (shr128 c4 56) + uint (?m modm_mu1 a4) + uint (?m modm_mu2 a3)
      + uint (?m modm_mu3 a2)"
    unfolding c5_def by (rule column_sum5(2) [OF P4(2) P1(5) P2(4) P3(3) P0(1)])
  have c6: "uint c6 = uint (?m modm_mu4 a2) + uint (shr128 c5 56) + uint (?m modm_mu2 a4) + uint (?m modm_mu3 a3)"
    unfolding c6_def by (rule column_sum5(3) [OF P4(3) P2(5) P3(4) P0(1) P0(1)])
  have c7: "uint c7 = uint (?m modm_mu4 a3) + uint (shr128 c6 56) + uint (?m modm_mu3 a4)"
    unfolding c7_def by (rule column_sum5(4) [OF P4(4) P3(5) P0(1) P0(1) P0(1)])
  have c8: "uint c8 = uint (?m modm_mu4 a4) + uint (shr128 c7 56)"
    unfolding c8_def by (rule column_sum5(5) [OF P4(5) P0(1) P0(1) P0(1) P0(1)])
  note f_lt = uint64_lt [of "shr128 c3 56"] uint64_lt [of "shr128 c4 56"] uint64_lt [of "shr128 c5 56"]
    uint64_lt [of "shr128 c6 56"] uint64_lt [of "shr128 c7 56"]
  have B: "uint c3 < 2 ^ 120" "uint c4 < 2 ^ 120" "uint c5 < 2 ^ 120" "uint c6 < 2 ^ 120" "uint c7 < 2 ^ 120"
      "uint c8 < 2 ^ 120"
    using P0 P1 P2 P3 P4 f_lt by (simp_all add: c3 c4 c5 c6 c7 c8)
  obtain f3 h3 l3 where s3: "uint c3 = 72057594037927936 * f3 + 1099511627776 * h3 + l3"
    "0 \<le> f3" "0 \<le> h3" "h3 < 65536" "0 \<le> l3" "l3 < 1099511627776" "uint (shr128 c3 56) = f3"
    using B(1) by (rule split_16)
  obtain f4 h4 l4 where s4: "uint c4 = 72057594037927936 * f4 + 1099511627776 * h4 + l4"
    "0 \<le> f4" "0 \<le> h4" "h4 < 65536" "0 \<le> l4" "l4 < 1099511627776" "uint (shr128 c4 56) = f4"
    "uint (drop_bit 40 (lo128 c4) AND 0xffff) = h4" "uint (push_bit 16 (lo128 c4) AND 0xffffffffffffff) = 65536 * l4"
    using B(2) by (rule split_16)
  obtain f5 h5 l5 where s5: "uint c5 = 72057594037927936 * f5 + 1099511627776 * h5 + l5"
    "0 \<le> f5" "0 \<le> h5" "h5 < 65536" "0 \<le> l5" "l5 < 1099511627776" "uint (shr128 c5 56) = f5"
    "uint (drop_bit 40 (lo128 c5) AND 0xffff) = h5" "uint (push_bit 16 (lo128 c5) AND 0xffffffffffffff) = 65536 * l5"
    using B(3) by (rule split_16)
  obtain f6 h6 l6 where s6: "uint c6 = 72057594037927936 * f6 + 1099511627776 * h6 + l6"
    "0 \<le> f6" "0 \<le> h6" "h6 < 65536" "0 \<le> l6" "l6 < 1099511627776" "uint (shr128 c6 56) = f6"
    "uint (drop_bit 40 (lo128 c6) AND 0xffff) = h6" "uint (push_bit 16 (lo128 c6) AND 0xffffffffffffff) = 65536 * l6"
    using B(4) by (rule split_16)
  obtain f7 h7 l7 where s7: "uint c7 = 72057594037927936 * f7 + 1099511627776 * h7 + l7"
    "0 \<le> f7" "0 \<le> h7" "h7 < 65536" "0 \<le> l7" "l7 < 1099511627776" "uint (shr128 c7 56) = f7"
    "uint (drop_bit 40 (lo128 c7) AND 0xffff) = h7" "uint (push_bit 16 (lo128 c7) AND 0xffffffffffffff) = 65536 * l7"
    using B(5) by (rule split_16)
  obtain f8 h8 l8 where s8: "uint c8 = 72057594037927936 * f8 + 1099511627776 * h8 + l8"
    "0 \<le> f8" "0 \<le> h8" "h8 < 65536" "0 \<le> l8" "l8 < 1099511627776" "uint (shr128 c8 56) = f8"
    "uint (drop_bit 40 (lo128 c8) AND 0xffff) = h8" "uint (push_bit 16 (lo128 c8) AND 0xffffffffffffff) = 65536 * l8"
    using B(6) by (rule split_16)
  have f8: "f8 < 2 ^ 24"
  proof -
    have "uint (?m modm_mu4 a4) = uint modm_mu4 * uint a4" by (simp add: bitval)
    then have "uint (?m modm_mu4 a4) < 2 ^ 77" using A4 by (simp add: modm_mu4_def)
    then show ?thesis using c8 s8 f_lt(5) by simp
  qed
  then have f8w: "uint (push_bit 16 (shr128 c8 56)) = 65536 * f8"
    using s8(2,7) by (simp add: uint_push_bit)
  define q where "q = Sc ((drop_bit 40 (lo128 c4) AND 0xffff) OR (push_bit 16 (lo128 c5) AND 0xffffffffffffff))
    ((drop_bit 40 (lo128 c5) AND 0xffff) OR (push_bit 16 (lo128 c6) AND 0xffffffffffffff))
    ((drop_bit 40 (lo128 c6) AND 0xffff) OR (push_bit 16 (lo128 c7) AND 0xffffffffffffff))
    ((drop_bit 40 (lo128 c7) AND 0xffff) OR (push_bit 16 (lo128 c8) AND 0xffffffffffffff))
    ((drop_bit 40 (lo128 c8) AND 0xffff) OR push_bit 16 (shr128 c8 56))"
  have eq: "barrett_q3 q1 = q"
    by (simp only: barrett_q3_def q1 bignum256modm.case Let_def q_def c3_def c4_def c5_def c6_def c7_def c8_def)
  have o: "uint (sc0 q) = h4 + 65536 * l5" "uint (sc1 q) = h5 + 65536 * l6" "uint (sc2 q) = h6 + 65536 * l7"
    "uint (sc3 q) = h7 + 65536 * l8" "uint (sc4 q) = h8 + 65536 * f8"
    using s4(4,8) s5(4,8,9) s6(4,8,9) s7(4,8,9) s8(4,8,9) f8w by (simp_all add: q_def or_16)
  have q: "sval q = h4 + 65536 * l5 + 2 ^ 56 * (h5 + 65536 * l6) + 2 ^ 112 * (h6 + 65536 * l7)
      + 2 ^ 168 * (h7 + 65536 * l8) + 2 ^ 224 * (h8 + 65536 * f8)"
    using o by (cases q) simp
  have lim: "sc_limbs (2 ^ 56) q"
    using o s4 s5 s6 s7 s8 f8 by (cases q) simp
  define D where "D = uint modm_mu0 * uint a0 + 2 ^ 56 * (uint modm_mu0 * uint a1 + uint modm_mu1 * uint a0)
    + 2 ^ 112 * (uint modm_mu0 * uint a2 + uint modm_mu1 * uint a1 + uint modm_mu2 * uint a0)"
  have cols: "sval modm_mu * sval q1 = D
      + 2 ^ 168 * (uint (?m modm_mu0 a3) + uint (?m modm_mu3 a0) + uint (?m modm_mu1 a2) + uint (?m modm_mu2 a1))
      + 2 ^ 224 * (uint (?m modm_mu0 a4) + uint (?m modm_mu4 a0) + uint (?m modm_mu3 a1) + uint (?m modm_mu1 a3)
        + uint (?m modm_mu2 a2))
      + 2 ^ 280 * (uint (?m modm_mu4 a1) + uint (?m modm_mu1 a4) + uint (?m modm_mu2 a3) + uint (?m modm_mu3 a2))
      + 2 ^ 336 * (uint (?m modm_mu4 a2) + uint (?m modm_mu2 a4) + uint (?m modm_mu3 a3))
      + 2 ^ 392 * (uint (?m modm_mu4 a3) + uint (?m modm_mu3 a4)) + 2 ^ 448 * uint (?m modm_mu4 a4)"
    by (simp add: modm_mu_def q1 D_def bitval algebra_simps)
  define R where "R = 2 ^ 168 * (1099511627776 * h3 + l3) + 2 ^ 224 * l4"
  show thesis
  proof
    show "sval modm_mu * sval q1 = D + 2 ^ 264 * sval (barrett_q3 q1) + R"
      using cols c3 c4 c5 c6 c7 c8 s3(1,7) s4(1,7) s5(1,7) s6(1,7) s7(1,7) s8(1)
      by (simp add: eq q R_def)
    show "0 \<le> D" by (simp add: D_def)
    show "D < 2 ^ 226" using A by (simp add: D_def modm_mu_consts)
    show "0 \<le> R" "R < 2 ^ 264" using s3 s4 by (simp_all add: R_def)
    show "sc_limbs (2 ^ 56) (barrett_q3 q1)" using lim eq by simp
  qed
qed

lemma lo128_mask40: "uint (lo128 t AND 0xffffffffff) = uint t mod 2 ^ 40"
proof -
  have "uint t mod 2 ^ 64 mod 2 ^ 40 = uint t mod 2 ^ 40" by (rule mod_mod_cancel) (simp add: le_imp_power_dvd)
  then show ?thesis by (simp only: mask_numerals(3) [symmetric] uint_and_mask uint_lo128)
qed

lemma barrett_r2_correct:
  assumes "sc_limbs (2 ^ 56) q"
  obtains K where "ell * sval q = sval (barrett_r2 q) + 2 ^ 264 * K" "sc_limbs (2 ^ 40) (barrett_r2 q)"
proof -
  obtain a0 a1 a2 a3 a4 where q: "q = Sc a0 a1 a2 a3 a4" by (cases q)
  have A: "uint a0 < 2 ^ 56" "uint a1 < 2 ^ 56" "uint a2 < 2 ^ 56" "uint a3 < 2 ^ 56" "uint a4 < 2 ^ 56"
    using assms by (simp_all add: q)
  have M: "uint modm_m0 < 2 ^ 56" "uint modm_m1 < 2 ^ 56" "uint modm_m2 < 2 ^ 56" "uint modm_m3 < 2 ^ 56"
    "uint modm_m4 < 2 ^ 56"
    by (simp_all add: modm_consts)
  let ?m = mul64x64_128
  note P0 = A [THEN mul56_bound [OF M(1)]]
  note P1 = A [THEN mul56_bound [OF M(2)]]
  note P2 = A [THEN mul56_bound [OF M(3)]]
  note P3 = A [THEN mul56_bound [OF M(4)]]
  note P4 = A [THEN mul56_bound [OF M(5)]]
  define c0 where "c0 = ?m modm_m0 a0"
  define c1 where "c1 = add128_64 (?m modm_m0 a1) (shr128 c0 56) + ?m modm_m1 a0"
  define c2 where "c2 = add128_64 (?m modm_m0 a2) (shr128 c1 56) + ?m modm_m2 a0 + ?m modm_m1 a1"
  define c3 where "c3 = add128_64 (?m modm_m0 a3) (shr128 c2 56) + ?m modm_m3 a0 + ?m modm_m1 a2 + ?m modm_m2 a1"
  define c4 where "c4 = add128_64 (?m modm_m0 a4) (shr128 c3 56) + ?m modm_m4 a0 + ?m modm_m3 a1
    + ?m modm_m1 a3 + ?m modm_m2 a2"
  have c1: "uint c1 = uint (?m modm_m0 a1) + uint (shr128 c0 56) + uint (?m modm_m1 a0)"
    unfolding c1_def by (rule column_sum5(4) [OF P0(2) P1(1) P0(1) P0(1) P0(1)])
  have c2: "uint c2 = uint (?m modm_m0 a2) + uint (shr128 c1 56) + uint (?m modm_m2 a0) + uint (?m modm_m1 a1)"
    unfolding c2_def by (rule column_sum5(3) [OF P0(3) P2(1) P1(2) P0(1) P0(1)])
  have c3: "uint c3 = uint (?m modm_m0 a3) + uint (shr128 c2 56) + uint (?m modm_m3 a0) + uint (?m modm_m1 a2)
      + uint (?m modm_m2 a1)"
    unfolding c3_def by (rule column_sum5(2) [OF P0(4) P3(1) P1(3) P2(2) P0(1)])
  have c4: "uint c4 = uint (?m modm_m0 a4) + uint (shr128 c3 56) + uint (?m modm_m4 a0) + uint (?m modm_m3 a1)
      + uint (?m modm_m1 a3) + uint (?m modm_m2 a2)"
    unfolding c4_def by (rule column_sum5(1) [OF P0(5) P4(1) P3(2) P1(4) P2(3)])
  note f_lt = uint64_lt [of "shr128 c0 56"] uint64_lt [of "shr128 c1 56"] uint64_lt [of "shr128 c2 56"]
    uint64_lt [of "shr128 c3 56"]
  have B: "uint c0 < 2 ^ 120" "uint c1 < 2 ^ 120" "uint c2 < 2 ^ 120" "uint c3 < 2 ^ 120" "uint c4 < 2 ^ 120"
    using P0 P1 P2 P3 P4 f_lt by (simp_all add: c0_def c1 c2 c3 c4)
  obtain f0 h0 l0 where s0: "uint c0 = 72057594037927936 * f0 + 1099511627776 * h0 + l0"
    "0 \<le> f0" "0 \<le> h0" "h0 < 65536" "0 \<le> l0" "l0 < 1099511627776" "uint (shr128 c0 56) = f0"
    "uint (lo128 c0 AND 0xffffffffffffff) = 1099511627776 * h0 + l0"
    using B(1) by (rule split_16)
  obtain f1 h1 l1 where s1: "uint c1 = 72057594037927936 * f1 + 1099511627776 * h1 + l1"
    "0 \<le> f1" "0 \<le> h1" "h1 < 65536" "0 \<le> l1" "l1 < 1099511627776" "uint (shr128 c1 56) = f1"
    "uint (lo128 c1 AND 0xffffffffffffff) = 1099511627776 * h1 + l1"
    using B(2) by (rule split_16)
  obtain f2 h2 l2 where s2: "uint c2 = 72057594037927936 * f2 + 1099511627776 * h2 + l2"
    "0 \<le> f2" "0 \<le> h2" "h2 < 65536" "0 \<le> l2" "l2 < 1099511627776" "uint (shr128 c2 56) = f2"
    "uint (lo128 c2 AND 0xffffffffffffff) = 1099511627776 * h2 + l2"
    using B(3) by (rule split_16)
  obtain f3 h3 l3 where s3: "uint c3 = 72057594037927936 * f3 + 1099511627776 * h3 + l3"
    "0 \<le> f3" "0 \<le> h3" "h3 < 65536" "0 \<le> l3" "l3 < 1099511627776" "uint (shr128 c3 56) = f3"
    "uint (lo128 c3 AND 0xffffffffffffff) = 1099511627776 * h3 + l3"
    using B(4) by (rule split_16)
  obtain k l4 where s4: "uint c4 = 2 ^ 40 * k + l4" "0 \<le> l4" "l4 < 2 ^ 40" "uint c4 mod 2 ^ 40 = l4"
    by (rule int_split [of "2 ^ 40" "uint c4"]) simp_all
  have l4: "uint (lo128 c4 AND 0xffffffffff) = l4" using s4(4) by (simp only: lo128_mask40)
  define r where "r = Sc (lo128 c0 AND 0xffffffffffffff) (lo128 c1 AND 0xffffffffffffff)
    (lo128 c2 AND 0xffffffffffffff) (lo128 c3 AND 0xffffffffffffff) (lo128 c4 AND 0x0000ffffffffff)"
  have eq: "barrett_r2 q = r"
    by (simp only: barrett_r2_def q bignum256modm.case Let_def r_def c0_def c1_def c2_def c3_def c4_def)
  define H where "H = uint (?m modm_m1 a4) + uint (?m modm_m2 a3) + uint (?m modm_m3 a2) + uint (?m modm_m4 a1)
    + 2 ^ 56 * (uint (?m modm_m2 a4) + uint (?m modm_m3 a3) + uint (?m modm_m4 a2))
    + 2 ^ 112 * (uint (?m modm_m3 a4) + uint (?m modm_m4 a3)) + 2 ^ 168 * uint (?m modm_m4 a4)"
  have cols: "sval modm_m * sval q = uint c0
      + 2 ^ 56 * (uint (?m modm_m0 a1) + uint (?m modm_m1 a0))
      + 2 ^ 112 * (uint (?m modm_m0 a2) + uint (?m modm_m2 a0) + uint (?m modm_m1 a1))
      + 2 ^ 168 * (uint (?m modm_m0 a3) + uint (?m modm_m3 a0) + uint (?m modm_m1 a2) + uint (?m modm_m2 a1))
      + 2 ^ 224 * (uint (?m modm_m0 a4) + uint (?m modm_m4 a0) + uint (?m modm_m3 a1) + uint (?m modm_m1 a3)
        + uint (?m modm_m2 a2)) + 2 ^ 280 * H"
    by (simp add: modm_m_def q c0_def H_def bitval algebra_simps)
  show thesis
  proof
    show "ell * sval q = sval (barrett_r2 q) + 2 ^ 264 * (k + 2 ^ 16 * H)"
      unfolding sval_modm_m [symmetric]
      using cols c1 c2 c3 c4 s0(1,7) s1(1,7) s2(1,7) s3(1,7) s4(1)
      by (simp add: eq r_def s0(8) s1(8) s2(8) s3(8) l4)
    show "sc_limbs (2 ^ 40) (barrett_r2 q)"
      using s0 s1 s2 s3 s4 l4 by (simp add: eq r_def)
  qed
qed

lemma barrett_sub_correct:
  assumes "sc_limbs (2 ^ 40) x" "sc_limbs (2 ^ 40) y"
  shows "sval (barrett_sub x y) = (sval x - sval y) mod 2 ^ 264" and "sc_limbs (2 ^ 56) (barrett_sub x y)"
proof -
  have lt: "sval x < 2 ^ 264" "sval y < 2 ^ 264" using assms by (cases x; cases y; simp)+
  have "uint (sc4 y) < 1099511627776" using assms(2) by (cases y) simp
  then have "uint (sc4 y) + 1 \<le> uint (sc4 x) + 1099511627776" using uint_nonneg [of "sc4 x"] by linarith
  then have y4: "uint (sc4 y) + 1 \<le> uint (sc4 x) + 2 ^ 40" by simp
  obtain t b where t: "borrow_chain 40 x y = (t, b)" "uint b = of_bool (sval x < sval y)"
    "sval t = sval x - sval y + 2 ^ 224 * 2 ^ 40 * uint b"
    "uint (sc0 t) < 2 ^ 56" "uint (sc1 t) < 2 ^ 56" "uint (sc2 t) < 2 ^ 56" "uint (sc3 t) < 2 ^ 56"
    by (rule borrow_chain_correct [of x y 40]) (use y4 assms sc_limbs_mono in auto)
  have v: "sval t = (sval x - sval y) mod 2 ^ 264"
    using t(2,3) lt sval_nonneg [of x] sval_nonneg [of y]
      int_mod_unique [of "sval x - sval y" "sval t" "2 ^ 264" "- uint b"] by (auto simp: of_bool_def split: if_splits)
  then show "sval (barrett_sub x y) = (sval x - sval y) mod 2 ^ 264" by (simp add: barrett_sub_def t(1))
  have "uint (sc4 t) < 2 ^ 56" by (rule sc4_less) (use v in \<open>simp add: pos_mod_bound less_trans\<close>)
  then show "sc_limbs (2 ^ 56) (barrett_sub x y)" using t(4-7) by (cases t) (simp add: barrett_sub_def t(1))
qed

lemma barrett_reduce256_modm_correct:
  assumes "sc_limbs (2 ^ 40) q1" "sc_limbs (2 ^ 40) r1"
    and "x = 2 ^ 248 * sval q1 + lo" "0 \<le> lo" "lo < 2 ^ 248" "x mod 2 ^ 264 = sval r1"
  shows "reduced (barrett_reduce256_modm q1 r1)" and "sval (barrett_reduce256_modm q1 r1) = x mod ell"
proof -
  obtain D R where q3: "sval modm_mu * sval q1 = D + 2 ^ 264 * sval (barrett_q3 q1) + R"
    "0 \<le> D" "D < 2 ^ 226" "0 \<le> R" "R < 2 ^ 264" "sc_limbs (2 ^ 56) (barrett_q3 q1)"
    by (rule barrett_q3_correct [OF assms(1)])
  obtain K where r2: "ell * sval (barrett_q3 q1) = sval (barrett_r2 (barrett_q3 q1)) + 2 ^ 264 * K"
    "sc_limbs (2 ^ 40) (barrett_r2 (barrett_q3 q1))"
    by (rule barrett_r2_correct [OF q3(6)])
  define Q where "Q = sval (barrett_q3 q1)"
  define q where "q = sval q1"
  have q: "0 \<le> q" "q < 2 ^ 264" using assms(1) sval_nonneg [of q1] by (cases q1; simp add: q_def)+
  have "sval modm_mu = 2 ^ 512 div ell" by (rule sval_modm_mu)
  then have mu: "(2 ^ 512 div ell) * q = D + 2 ^ 264 * Q + R" using q3(1) by (simp add: Q_def q_def)
  have "0 \<le> x - Q * ell \<and> x - Q * ell < 3 * ell"
    using mu q q3(2-5) assms(3-5) by (simp add: ell_def q_def [symmetric])
  then have range: "0 \<le> x - Q * ell" "x - Q * ell < 3 * ell" by auto
  define r where "r = barrett_sub r1 (barrett_r2 (barrett_q3 q1))"
  note sub = barrett_sub_correct [OF assms(2) r2(2), folded r_def]
  have "x - Q * ell = sval r1 - sval (barrett_r2 (barrett_q3 q1)) + 2 ^ 264 * (x div 2 ^ 264 - K)"
    using r2(1) assms(6) mult_div_mod_eq [of "2 ^ 264" x] by (simp add: Q_def algebra_simps)
  then have "sval r = (x - Q * ell) mod 2 ^ 264"
    by (simp only: sub(1) mod_mult_self2)
  then have r: "sval r = x - Q * ell" using range by (simp add: ell_def)
  note red = reduce256_modm_correct [OF sub(2)]
  have "sval (reduce256_modm r) < 2 * ell" using red(1) r range by simp
  moreover have "sval (reduce256_modm r) mod ell = x mod ell"
  proof -
    have "x = (x - Q * ell) + ell * Q" by simp
    then have "x mod ell = (x - Q * ell) mod ell" by (metis mod_mult_self2)
    then show ?thesis using red(1) r by simp
  qed
  ultimately show "reduced (barrett_reduce256_modm q1 r1)" and "sval (barrett_reduce256_modm q1 r1) = x mod ell"
    using reduce256_modm_reduced [OF red(2)]
    by (simp_all add: barrett_reduce256_modm_def Let_def r_def)
qed

lemma mul256_modm_correct:
  assumes "sc_limbs (2 ^ 32) x" "sc_limbs (2 ^ 32) y"
  shows "reduced (mul256_modm x y)" and "sval (mul256_modm x y) = (sval x * sval y) mod ell"
proof -
  obtain x0 x1 x2 x3 x4 where x: "x = Sc x0 x1 x2 x3 x4" by (cases x)
  obtain y0 y1 y2 y3 y4 where y: "y = Sc y0 y1 y2 y3 y4" by (cases y)
  have X: "uint x0 < 2 ^ 56" "uint x1 < 2 ^ 56" "uint x2 < 2 ^ 56" "uint x3 < 2 ^ 56" "uint x4 < 2 ^ 56"
    using assms(1) by (simp_all add: x)
  have Y: "uint y0 < 2 ^ 56" "uint y1 < 2 ^ 56" "uint y2 < 2 ^ 56" "uint y3 < 2 ^ 56" "uint y4 < 2 ^ 56"
    using assms(2) by (simp_all add: y)
  let ?m = mul64x64_128
  note P0 = Y [THEN mul56_bound [OF X(1)]]
  note P1 = Y [THEN mul56_bound [OF X(2)]]
  note P2 = Y [THEN mul56_bound [OF X(3)]]
  note P3 = Y [THEN mul56_bound [OF X(4)]]
  note P4 = Y [THEN mul56_bound [OF X(5)]]
  define c0 where "c0 = ?m x0 y0"
  define c1 where "c1 = add128_64 (?m x0 y1) (shr128 c0 56) + ?m x1 y0"
  define c2 where "c2 = add128_64 (?m x0 y2) (shr128 c1 56) + ?m x2 y0 + ?m x1 y1"
  define c3 where "c3 = add128_64 (?m x0 y3) (shr128 c2 56) + ?m x3 y0 + ?m x1 y2 + ?m x2 y1"
  define c4 where "c4 = add128_64 (?m x0 y4) (shr128 c3 56) + ?m x4 y0 + ?m x3 y1 + ?m x1 y3 + ?m x2 y2"
  define c5 where "c5 = add128_64 (?m x4 y1) (shr128 c4 56) + ?m x1 y4 + ?m x2 y3 + ?m x3 y2"
  define c6 where "c6 = add128_64 (?m x4 y2) (shr128 c5 56) + ?m x2 y4 + ?m x3 y3"
  define c7 where "c7 = add128_64 (?m x4 y3) (shr128 c6 56) + ?m x3 y4"
  define c8 where "c8 = add128_64 (?m x4 y4) (shr128 c7 56)"
  have c1: "uint c1 = uint (?m x0 y1) + uint (shr128 c0 56) + uint (?m x1 y0)"
    unfolding c1_def by (rule column_sum5(4) [OF P0(2) P1(1) P0(1) P0(1) P0(1)])
  have c2: "uint c2 = uint (?m x0 y2) + uint (shr128 c1 56) + uint (?m x2 y0) + uint (?m x1 y1)"
    unfolding c2_def by (rule column_sum5(3) [OF P0(3) P2(1) P1(2) P0(1) P0(1)])
  have c3: "uint c3 = uint (?m x0 y3) + uint (shr128 c2 56) + uint (?m x3 y0) + uint (?m x1 y2) + uint (?m x2 y1)"
    unfolding c3_def by (rule column_sum5(2) [OF P0(4) P3(1) P1(3) P2(2) P0(1)])
  have c4: "uint c4 = uint (?m x0 y4) + uint (shr128 c3 56) + uint (?m x4 y0) + uint (?m x3 y1) + uint (?m x1 y3)
      + uint (?m x2 y2)"
    unfolding c4_def by (rule column_sum5(1) [OF P0(5) P4(1) P3(2) P1(4) P2(3)])
  have c5: "uint c5 = uint (?m x4 y1) + uint (shr128 c4 56) + uint (?m x1 y4) + uint (?m x2 y3) + uint (?m x3 y2)"
    unfolding c5_def by (rule column_sum5(2) [OF P4(2) P1(5) P2(4) P3(3) P0(1)])
  have c6: "uint c6 = uint (?m x4 y2) + uint (shr128 c5 56) + uint (?m x2 y4) + uint (?m x3 y3)"
    unfolding c6_def by (rule column_sum5(3) [OF P4(3) P2(5) P3(4) P0(1) P0(1)])
  have c7: "uint c7 = uint (?m x4 y3) + uint (shr128 c6 56) + uint (?m x3 y4)"
    unfolding c7_def by (rule column_sum5(4) [OF P4(4) P3(5) P0(1) P0(1) P0(1)])
  have c8: "uint c8 = uint (?m x4 y4) + uint (shr128 c7 56)"
    unfolding c8_def by (rule column_sum5(5) [OF P4(5) P0(1) P0(1) P0(1) P0(1)])
  note f_lt = uint64_lt [of "shr128 c0 56"] uint64_lt [of "shr128 c1 56"] uint64_lt [of "shr128 c2 56"]
    uint64_lt [of "shr128 c3 56"] uint64_lt [of "shr128 c4 56"] uint64_lt [of "shr128 c5 56"]
    uint64_lt [of "shr128 c6 56"] uint64_lt [of "shr128 c7 56"]
  have B: "uint c0 < 2 ^ 120" "uint c1 < 2 ^ 120" "uint c2 < 2 ^ 120" "uint c3 < 2 ^ 120" "uint c4 < 2 ^ 120"
      "uint c5 < 2 ^ 120" "uint c6 < 2 ^ 120" "uint c7 < 2 ^ 120" "uint c8 < 2 ^ 120"
    using P0 P1 P2 P3 P4 f_lt by (simp_all add: c0_def c1 c2 c3 c4 c5 c6 c7 c8)
  obtain f0 h0 l0 where s0: "uint c0 = 72057594037927936 * f0 + 16777216 * h0 + l0"
    "0 \<le> f0" "0 \<le> h0" "h0 < 4294967296" "0 \<le> l0" "l0 < 16777216" "uint (shr128 c0 56) = f0"
    "uint (lo128 c0 AND 0xffffffffffffff) = 16777216 * h0 + l0"
    using B(1) by (rule split_32)
  obtain f1 h1 l1 where s1: "uint c1 = 72057594037927936 * f1 + 16777216 * h1 + l1"
    "0 \<le> f1" "0 \<le> h1" "h1 < 4294967296" "0 \<le> l1" "l1 < 16777216" "uint (shr128 c1 56) = f1"
    "uint (lo128 c1 AND 0xffffffffffffff) = 16777216 * h1 + l1"
    using B(2) by (rule split_32)
  obtain f2 h2 l2 where s2: "uint c2 = 72057594037927936 * f2 + 16777216 * h2 + l2"
    "0 \<le> f2" "0 \<le> h2" "h2 < 4294967296" "0 \<le> l2" "l2 < 16777216" "uint (shr128 c2 56) = f2"
    "uint (lo128 c2 AND 0xffffffffffffff) = 16777216 * h2 + l2"
    using B(3) by (rule split_32)
  obtain f3 h3 l3 where s3: "uint c3 = 72057594037927936 * f3 + 16777216 * h3 + l3"
    "0 \<le> f3" "0 \<le> h3" "h3 < 4294967296" "0 \<le> l3" "l3 < 16777216" "uint (shr128 c3 56) = f3"
    "uint (lo128 c3 AND 0xffffffffffffff) = 16777216 * h3 + l3"
    using B(4) by (rule split_32)
  obtain f4 h4 l4 where s4: "uint c4 = 72057594037927936 * f4 + 16777216 * h4 + l4"
    "0 \<le> f4" "0 \<le> h4" "h4 < 4294967296" "0 \<le> l4" "l4 < 16777216" "uint (shr128 c4 56) = f4"
    "uint (drop_bit 24 (lo128 c4) AND 0xffffffff) = h4"
    using B(5) by (rule split_32)
  obtain f5 h5 l5 where s5: "uint c5 = 72057594037927936 * f5 + 16777216 * h5 + l5"
    "0 \<le> f5" "0 \<le> h5" "h5 < 4294967296" "0 \<le> l5" "l5 < 16777216" "uint (shr128 c5 56) = f5"
    "uint (drop_bit 24 (lo128 c5) AND 0xffffffff) = h5" "uint (push_bit 32 (lo128 c5) AND 0xffffffffffffff) = 4294967296 * l5"
    using B(6) by (rule split_32)
  obtain f6 h6 l6 where s6: "uint c6 = 72057594037927936 * f6 + 16777216 * h6 + l6"
    "0 \<le> f6" "0 \<le> h6" "h6 < 4294967296" "0 \<le> l6" "l6 < 16777216" "uint (shr128 c6 56) = f6"
    "uint (drop_bit 24 (lo128 c6) AND 0xffffffff) = h6" "uint (push_bit 32 (lo128 c6) AND 0xffffffffffffff) = 4294967296 * l6"
    using B(7) by (rule split_32)
  obtain f7 h7 l7 where s7: "uint c7 = 72057594037927936 * f7 + 16777216 * h7 + l7"
    "0 \<le> f7" "0 \<le> h7" "h7 < 4294967296" "0 \<le> l7" "l7 < 16777216" "uint (shr128 c7 56) = f7"
    "uint (drop_bit 24 (lo128 c7) AND 0xffffffff) = h7" "uint (push_bit 32 (lo128 c7) AND 0xffffffffffffff) = 4294967296 * l7"
    using B(8) by (rule split_32)
  obtain f8 h8 l8 where s8: "uint c8 = 72057594037927936 * f8 + 16777216 * h8 + l8"
    "0 \<le> f8" "0 \<le> h8" "h8 < 4294967296" "0 \<le> l8" "l8 < 16777216" "uint (shr128 c8 56) = f8"
    "uint (drop_bit 24 (lo128 c8) AND 0xffffffff) = h8" "uint (push_bit 32 (lo128 c8) AND 0xffffffffffffff) = 4294967296 * l8"
    using B(9) by (rule split_32)
  obtain g4 e4 where e4: "h4 = 65536 * g4 + e4" "0 \<le> e4" "e4 < 65536" "h4 div 65536 = g4" "h4 mod 65536 = e4" "0 \<le> g4"
    by (rule int_split [of 65536 h4]) (use s4 in simp_all)
  have m4: "uint (lo128 c4 AND 0xffffffffff) = 16777216 * e4 + l4"
  proof -
    have "uint c4 = 16777216 * e4 + l4 + 2 ^ 40 * (65536 * f4 + g4)" using s4(1) e4(1) by simp
    then have "uint c4 mod 2 ^ 40 = 16777216 * e4 + l4"
      by (rule int_mod_unique) (use s4 e4 in simp_all)
    then show ?thesis by (simp only: lo128_mask40)
  qed
  define r1 where "r1 = Sc (lo128 c0 AND 0xffffffffffffff) (lo128 c1 AND 0xffffffffffffff)
    (lo128 c2 AND 0xffffffffffffff) (lo128 c3 AND 0xffffffffffffff) (lo128 c4 AND 0x0000ffffffffff)"
  define q1 where "q1 = Sc ((drop_bit 24 (lo128 c4) AND 0xffffffff) OR (push_bit 32 (lo128 c5) AND 0xffffffffffffff))
    ((drop_bit 24 (lo128 c5) AND 0xffffffff) OR (push_bit 32 (lo128 c6) AND 0xffffffffffffff))
    ((drop_bit 24 (lo128 c6) AND 0xffffffff) OR (push_bit 32 (lo128 c7) AND 0xffffffffffffff))
    ((drop_bit 24 (lo128 c7) AND 0xffffffff) OR (push_bit 32 (lo128 c8) AND 0xffffffffffffff))
    ((drop_bit 24 (lo128 c8) AND 0xffffffff) OR push_bit 32 (shr128 c8 56))"
  have eq: "mul256_modm x y = barrett_reduce256_modm q1 r1"
    by (simp only: mul256_modm_def x y bignum256modm.case Let_def q1_def r1_def c0_def c1_def c2_def c3_def c4_def
        c5_def c6_def c7_def c8_def)
  define T where "T = 16777216 * h0 + l0 + 2 ^ 56 * (16777216 * h1 + l1) + 2 ^ 112 * (16777216 * h2 + l2)
    + 2 ^ 168 * (16777216 * h3 + l3)"
  define Q where "Q = h4 + 4294967296 * l5 + 2 ^ 56 * (h5 + 4294967296 * l6) + 2 ^ 112 * (h6 + 4294967296 * l7)
    + 2 ^ 168 * (h7 + 4294967296 * l8) + 2 ^ 224 * (h8 + 4294967296 * f8)"
  have prod: "sval x * sval y = T + 2 ^ 224 * l4 + 2 ^ 248 * Q"
  proof -
    have "sval x * sval y = uint c0 + 2 ^ 56 * (uint (?m x0 y1) + uint (?m x1 y0))
      + 2 ^ 112 * (uint (?m x0 y2) + uint (?m x2 y0) + uint (?m x1 y1))
      + 2 ^ 168 * (uint (?m x0 y3) + uint (?m x3 y0) + uint (?m x1 y2) + uint (?m x2 y1))
      + 2 ^ 224 * (uint (?m x0 y4) + uint (?m x4 y0) + uint (?m x3 y1) + uint (?m x1 y3) + uint (?m x2 y2))
      + 2 ^ 280 * (uint (?m x4 y1) + uint (?m x1 y4) + uint (?m x2 y3) + uint (?m x3 y2))
      + 2 ^ 336 * (uint (?m x4 y2) + uint (?m x2 y4) + uint (?m x3 y3))
      + 2 ^ 392 * (uint (?m x4 y3) + uint (?m x3 y4)) + 2 ^ 448 * uint (?m x4 y4)"
      by (simp add: x y c0_def bitval algebra_simps)
    then show ?thesis
      using c1 c2 c3 c4 c5 c6 c7 c8 s0(1,7) s1(1,7) s2(1,7) s3(1,7) s4(1,7) s5(1,7) s6(1,7) s7(1,7) s8(1)
      by (simp add: T_def Q_def)
  qed
  have T: "0 \<le> T" "T < 2 ^ 224" using s0 s1 s2 s3 by (simp_all add: T_def)
  have "sval x \<le> 2 ^ 256 - 1" "sval y \<le> 2 ^ 256 - 1" using assms by (simp_all add: x y)
  then have "sval x * sval y \<le> (2 ^ 256 - 1) * (2 ^ 256 - 1)"
    using sval_nonneg by (intro mult_mono) auto
  then have f8: "f8 < 256"
    using prod T s4 s5 s6 s7 s8(2-6) by (simp add: Q_def)
  then have f8w: "uint (push_bit 32 (shr128 c8 56)) = 4294967296 * f8"
    using s8(2,7) by (simp add: uint_push_bit)
  have o: "uint (sc0 q1) = h4 + 4294967296 * l5" "uint (sc1 q1) = h5 + 4294967296 * l6"
    "uint (sc2 q1) = h6 + 4294967296 * l7" "uint (sc3 q1) = h7 + 4294967296 * l8" "uint (sc4 q1) = h8 + 4294967296 * f8"
    using s4(4,8) s5(4,8,9) s6(4,8,9) s7(4,8,9) s8(4,8,9) f8w by (simp_all add: q1_def or_32)
  have q1: "sval q1 = Q" using o by (cases q1) (simp add: Q_def)
  have q1l: "sc_limbs (2 ^ 40) q1"
    using o s4 s5 s6 s7 s8 f8 by (cases q1) simp
  have r1: "sval r1 = T + 2 ^ 224 * (16777216 * e4 + l4)"
    by (simp add: r1_def T_def s0(8) s1(8) s2(8) s3(8) m4)
  have r1l: "sc_limbs (2 ^ 40) r1"
    using s0 s1 s2 s3 s4 e4 by (simp add: r1_def m4)
  obtain g where g: "Q = 65536 * g + e4"
    by (rule that [of "g4 + 65536 * l5 + 2 ^ 40 * (h5 + 4294967296 * l6) + 2 ^ 96 * (h6 + 4294967296 * l7)
      + 2 ^ 152 * (h7 + 4294967296 * l8) + 2 ^ 208 * (h8 + 4294967296 * f8)"]) (simp add: Q_def e4(1))
  have "sval x * sval y mod 2 ^ 264 = sval r1"
    by (rule int_mod_unique [where q = g]) (use prod g T s4 e4 in \<open>simp_all add: r1\<close>)
  moreover have "sval x * sval y = 2 ^ 248 * sval q1 + (T + 2 ^ 224 * l4)" by (simp add: prod q1)
  ultimately show "reduced (mul256_modm x y)" "sval (mul256_modm x y) = (sval x * sval y) mod ell"
    using barrett_reduce256_modm_correct [OF q1l r1l, of "sval x * sval y" "T + 2 ^ 224 * l4"] T s4
    by (simp_all add: eq)
qed
end
