(* ===== verification/Modm_Bytes.thy ===== *)
theory Modm_Bytes
  imports Modm_Barrett
begin

unbundle bit_operations_syntax

text \<open>
  The byte conversions of scalars: raw expansion and contraction are inverse to each other, the
  reducing expansion computes the little-endian value of its input modulo the group order.
\<close>

lemma mask56: "(0xffffffffffffff :: u64) = mask 56" and mask40: "(0xffffffffff :: u64) = mask 40"
  and mask32: "(0xffffffff :: u64) = mask 32"
  by (simp_all add: mask_eq_exp_minus_1)

lemma expand_raw256_modm_correct:
  assumes "length bs = 32"
  shows "sval (expand_raw256_modm bs) = le_val bs" and "sc_limbs (2 ^ 32) (expand_raw256_modm bs)"
proof -
  define X0 where "X0 = U8TO64_LE bs"
  define X1 where "X1 = U8TO64_LE (drop 8 bs)"
  define X2 where "X2 = U8TO64_LE (drop 16 bs)"
  define X3 where "X3 = U8TO64_LE (drop 24 bs)"
  have X: "le_val bs = uint X0 + 2 ^ 64 * uint X1 + 2 ^ 128 * uint X2 + 2 ^ 192 * uint X3"
    using assms le_val_chunks [of bs 4]
    by (simp add: X0_def X1_def X2_def X3_def uint_U8TO64_LE lessThan_Suc numeral_eq_Suc)
  have eq: "expand_raw256_modm bs =
      Sc (X0 AND mask 56) ((drop_bit 56 X0 OR push_bit 8 X1) AND mask 56)
         ((drop_bit 48 X1 OR push_bit 16 X2) AND mask 56) ((drop_bit 40 X2 OR push_bit 24 X3) AND mask 56)
         (drop_bit 32 X3 AND mask 32)"
    by (simp only: expand_raw256_modm_def Let_def X0_def X1_def X2_def X3_def mask56 mask32)
  have lt: "uint (x AND mask n) < 2 ^ n" for x :: u64 and n
    by (simp add: uint_and_mask)
  show "sc_limbs (2 ^ 32) (expand_raw256_modm bs)"
    using lt by (simp only: eq sc_limbs.simps)
  obtain q0 r0 where 0: "uint X0 = 2 ^ 56 * q0 + r0" "0 \<le> r0" "r0 < 2 ^ 56" "uint X0 div 2 ^ 56 = q0" "uint X0 mod 2 ^ 56 = r0" "0 \<le> q0"
    by (rule int_split [of "2 ^ 56" "uint X0"]) auto
  obtain q1 r1 where 1: "uint X1 = 2 ^ 48 * q1 + r1" "0 \<le> r1" "r1 < 2 ^ 48" "uint X1 div 2 ^ 48 = q1" "uint X1 mod 2 ^ 48 = r1" "0 \<le> q1"
    by (rule int_split [of "2 ^ 48" "uint X1"]) auto
  obtain q2 r2 where 2: "uint X2 = 2 ^ 40 * q2 + r2" "0 \<le> r2" "r2 < 2 ^ 40" "uint X2 div 2 ^ 40 = q2" "uint X2 mod 2 ^ 40 = r2" "0 \<le> q2"
    by (rule int_split [of "2 ^ 40" "uint X2"]) auto
  obtain q3 r3 where 3: "uint X3 = 2 ^ 32 * q3 + r3" "0 \<le> r3" "r3 < 2 ^ 32" "uint X3 div 2 ^ 32 = q3" "uint X3 mod 2 ^ 32 = r3" "0 \<le> q3"
    by (rule int_split [of "2 ^ 32" "uint X3"]) auto
  have l1: "uint ((drop_bit 56 X0 OR push_bit 8 X1) AND mask 56) = q0 + 2 ^ 8 * r1"
    by (rule trans [OF shift_concat_mask]) (use 0 1 in simp_all)
  have l2: "uint ((drop_bit 48 X1 OR push_bit 16 X2) AND mask 56) = q1 + 2 ^ 16 * r2"
    by (rule trans [OF shift_concat_mask]) (use 1 2 in simp_all)
  have l3: "uint ((drop_bit 40 X2 OR push_bit 24 X3) AND mask 56) = q2 + 2 ^ 24 * r3"
    by (rule trans [OF shift_concat_mask]) (use 2 3 in simp_all)
  have l4: "uint (drop_bit 32 X3 AND mask 32) = q3"
    using 3 uint64_lt [of X3] by (simp only: uint_and_mask uint_drop_bit) simp
  show "sval (expand_raw256_modm bs) = le_val bs"
    unfolding eq sval.simps l1 l2 l3 l4 unfolding X uint_and_mask 0(5) by (simp add: 0(1) 1(1) 2(1) 3(1))
qed

lemma expand256_words:
  assumes "length work = 64"
  defines "X \<equiv> \<lambda>i. U8TO64_LE (drop (8 * i) work)"
  shows "le_val work = uint (X 0) + 2 ^ 64 * uint (X 1) + 2 ^ 128 * uint (X 2) + 2 ^ 192 * uint (X 3)
    + 2 ^ 256 * uint (X 4) + 2 ^ 320 * uint (X 5) + 2 ^ 384 * uint (X 6) + 2 ^ 448 * uint (X 7)"
proof -
  have "le_val work = (\<Sum>i<8. 2 ^ (64 * i) * uint (X i))"
    unfolding le_val_chunks [of work 8, simplified, OF assms(1)] X_def
    by (intro sum.cong refl) (use assms(1) in \<open>simp add: uint_U8TO64_LE\<close>)
  then show ?thesis by (simp add: numeral_eq_Suc)
qed

definition expand256_low :: "(nat \<Rightarrow> u64) \<Rightarrow> bignum256modm" where
  "expand256_low X =
     Sc (X 0 AND mask 56) ((drop_bit 56 (X 0) OR push_bit 8 (X 1)) AND mask 56)
        ((drop_bit 48 (X 1) OR push_bit 16 (X 2)) AND mask 56)
        ((drop_bit 40 (X 2) OR push_bit 24 (X 3)) AND mask 56)
        ((drop_bit 32 (X 3) OR push_bit 32 (X 4)) AND mask 40)"

definition expand256_high :: "(nat \<Rightarrow> u64) \<Rightarrow> bignum256modm" where
  "expand256_high X =
     Sc ((drop_bit 56 (X 3) OR push_bit 8 (X 4)) AND mask 56)
        ((drop_bit 48 (X 4) OR push_bit 16 (X 5)) AND mask 56)
        ((drop_bit 40 (X 5) OR push_bit 24 (X 6)) AND mask 56)
        ((drop_bit 32 (X 6) OR push_bit 32 (X 7)) AND mask 56)
        (drop_bit 24 (X 7))"

lemma expand256_modm_eq:
  fixes inp len
  defines "X \<equiv> \<lambda>i. U8TO64_LE (drop (8 * i) (expand256_work inp len))"
  shows "expand256_modm inp len =
    (if len < 32 then expand256_low X else barrett_reduce256_modm (expand256_high X) (expand256_low X))"
  by (simp add: expand256_modm_def Let_def X_def expand256_low_def expand256_high_def mask56 mask40)

lemma expand256_parts:
  fixes X :: "nat \<Rightarrow> u64"
  defines "x \<equiv> uint (X 0) + 2 ^ 64 * uint (X 1) + 2 ^ 128 * uint (X 2) + 2 ^ 192 * uint (X 3)
    + 2 ^ 256 * uint (X 4) + 2 ^ 320 * uint (X 5) + 2 ^ 384 * uint (X 6) + 2 ^ 448 * uint (X 7)"
  obtains lo hi where "x = 2 ^ 248 * sval (expand256_high X) + lo" "0 \<le> lo" "lo < 2 ^ 248"
    "x = sval (expand256_low X) + 2 ^ 264 * hi"
    "sc_limbs (2 ^ 40) (expand256_low X)" "sc_limbs (2 ^ 40) (expand256_high X)"
proof -
  have lt: "uint (x AND mask n) < 2 ^ n" for x :: u64 and n
    by (simp add: uint_and_mask)
  obtain q0 r0 where 0: "uint (X 0) = 2 ^ 56 * q0 + r0" "0 \<le> r0" "r0 < 2 ^ 56" "uint (X 0) div 2 ^ 56 = q0" "uint (X 0) mod 2 ^ 56 = r0" "0 \<le> q0"
    by (rule int_split [of "2 ^ 56" "uint (X 0)"]) auto
  obtain q1 r1 where 1: "uint (X 1) = 2 ^ 48 * q1 + r1" "0 \<le> r1" "r1 < 2 ^ 48" "uint (X 1) div 2 ^ 48 = q1" "uint (X 1) mod 2 ^ 48 = r1" "0 \<le> q1"
    by (rule int_split [of "2 ^ 48" "uint (X 1)"]) auto
  obtain q2 r2 where 2: "uint (X 2) = 2 ^ 40 * q2 + r2" "0 \<le> r2" "r2 < 2 ^ 40" "uint (X 2) div 2 ^ 40 = q2" "uint (X 2) mod 2 ^ 40 = r2" "0 \<le> q2"
    by (rule int_split [of "2 ^ 40" "uint (X 2)"]) auto
  obtain q3 r3 where 3: "uint (X 3) = 2 ^ 32 * q3 + r3" "0 \<le> r3" "r3 < 2 ^ 32" "uint (X 3) div 2 ^ 32 = q3" "uint (X 3) mod 2 ^ 32 = r3" "0 \<le> q3"
    by (rule int_split [of "2 ^ 32" "uint (X 3)"]) auto
  obtain p3 s3 where e3: "q3 = 2 ^ 24 * p3 + s3" "0 \<le> s3" "s3 < 2 ^ 24" "q3 div 2 ^ 24 = p3" "q3 mod 2 ^ 24 = s3" "0 \<le> p3"
    by (rule int_split [of "2 ^ 24" q3]) (use 3 in auto)
  have d3: "uint (X 3) div 2 ^ 56 = p3"
    using zdiv_zmult2_eq [of "2 ^ 24" "uint (X 3)" "2 ^ 32"] 3(4) e3(4) by simp
  obtain q4 r4 where 4: "uint (X 4) = 2 ^ 48 * q4 + r4" "0 \<le> r4" "r4 < 2 ^ 48" "uint (X 4) div 2 ^ 48 = q4" "uint (X 4) mod 2 ^ 48 = r4" "0 \<le> q4"
    by (rule int_split [of "2 ^ 48" "uint (X 4)"]) auto
  obtain p4 s4 where e4: "r4 = 2 ^ 8 * p4 + s4" "0 \<le> s4" "s4 < 2 ^ 8" "r4 div 2 ^ 8 = p4" "r4 mod 2 ^ 8 = s4" "0 \<le> p4"
    by (rule int_split [of "2 ^ 8" r4]) (use 4 in auto)
  have m4: "uint (X 4) mod 2 ^ 8 = s4"
    using mod_mod_cancel [of "2 ^ 8" "2 ^ 48" "uint (X 4)"] 4(5) e4(5) by simp
  obtain q5 r5 where 5: "uint (X 5) = 2 ^ 40 * q5 + r5" "0 \<le> r5" "r5 < 2 ^ 40" "uint (X 5) div 2 ^ 40 = q5" "uint (X 5) mod 2 ^ 40 = r5" "0 \<le> q5"
    by (rule int_split [of "2 ^ 40" "uint (X 5)"]) auto
  obtain q6 r6 where 6: "uint (X 6) = 2 ^ 32 * q6 + r6" "0 \<le> r6" "r6 < 2 ^ 32" "uint (X 6) div 2 ^ 32 = q6" "uint (X 6) mod 2 ^ 32 = r6" "0 \<le> q6"
    by (rule int_split [of "2 ^ 32" "uint (X 6)"]) auto
  obtain q7 r7 where 7: "uint (X 7) = 2 ^ 24 * q7 + r7" "0 \<le> r7" "r7 < 2 ^ 24" "uint (X 7) div 2 ^ 24 = q7" "uint (X 7) mod 2 ^ 24 = r7" "0 \<le> q7"
    by (rule int_split [of "2 ^ 24" "uint (X 7)"]) auto
  have l1: "uint ((drop_bit 56 (X 0) OR push_bit 8 (X 1)) AND mask 56) = q0 + 2 ^ 8 * r1"
    by (rule trans [OF shift_concat_mask]) (use 0(4) 1(5) in simp_all)
  have l2: "uint ((drop_bit 48 (X 1) OR push_bit 16 (X 2)) AND mask 56) = q1 + 2 ^ 16 * r2"
    by (rule trans [OF shift_concat_mask]) (use 1(4) 2(5) in simp_all)
  have l3: "uint ((drop_bit 40 (X 2) OR push_bit 24 (X 3)) AND mask 56) = q2 + 2 ^ 24 * r3"
    by (rule trans [OF shift_concat_mask]) (use 2(4) 3(5) in simp_all)
  have l4: "uint ((drop_bit 32 (X 3) OR push_bit 32 (X 4)) AND mask 40) = q3 + 2 ^ 32 * s4"
    by (rule trans [OF shift_concat_mask]) (use 3(4) m4 in simp_all)
  have h1: "uint ((drop_bit 56 (X 3) OR push_bit 8 (X 4)) AND mask 56) = p3 + 2 ^ 8 * r4"
    by (rule trans [OF shift_concat_mask]) (use d3 4(5) in simp_all)
  have h2: "uint ((drop_bit 48 (X 4) OR push_bit 16 (X 5)) AND mask 56) = q4 + 2 ^ 16 * r5"
    by (rule trans [OF shift_concat_mask]) (use 4(4) 5(5) in simp_all)
  have h3: "uint ((drop_bit 40 (X 5) OR push_bit 24 (X 6)) AND mask 56) = q5 + 2 ^ 24 * r6"
    by (rule trans [OF shift_concat_mask]) (use 5(4) 6(5) in simp_all)
  have h4: "uint ((drop_bit 32 (X 6) OR push_bit 32 (X 7)) AND mask 56) = q6 + 2 ^ 32 * r7"
    by (rule trans [OF shift_concat_mask]) (use 6(4) 7(5) in simp_all)
  note l = l1 l2 l3 l4 and h = h1 h2 h3 h4
  have low: "sval (expand256_low X) = r0 + 2 ^ 56 * (q0 + 2 ^ 8 * r1) + 2 ^ 112 * (q1 + 2 ^ 16 * r2)
      + 2 ^ 168 * (q2 + 2 ^ 24 * r3) + 2 ^ 224 * (q3 + 2 ^ 32 * s4)"
    unfolding expand256_low_def sval.simps l unfolding uint_and_mask 0(5) ..
  have high: "sval (expand256_high X) = p3 + 2 ^ 8 * r4 + 2 ^ 56 * (q4 + 2 ^ 16 * r5) + 2 ^ 112 * (q5 + 2 ^ 24 * r6)
      + 2 ^ 168 * (q6 + 2 ^ 32 * r7) + 2 ^ 224 * q7"
    unfolding expand256_high_def sval.simps h uint_drop_bit 7(4) ..
  show thesis
  proof
    show "x = 2 ^ 248 * sval (expand256_high X) + (uint (X 0) + 2 ^ 64 * uint (X 1) + 2 ^ 128 * uint (X 2)
        + 2 ^ 192 * (2 ^ 32 * s3 + r3))"
      by (simp add: x_def high 3(1) e3(1) 4(1) 5(1) 6(1) 7(1) del: One_nat_def)
    show "0 \<le> uint (X 0) + 2 ^ 64 * uint (X 1) + 2 ^ 128 * uint (X 2) + 2 ^ 192 * (2 ^ 32 * s3 + r3)"
      using 3(2) e3(2) by simp
    show "uint (X 0) + 2 ^ 64 * uint (X 1) + 2 ^ 128 * uint (X 2) + 2 ^ 192 * (2 ^ 32 * s3 + r3) < 2 ^ 248"
      using uint64_lt [of "X 0"] uint64_lt [of "X 1"] uint64_lt [of "X 2"] 3(3) e3(3) by simp
    show "x = sval (expand256_low X) + 2 ^ 264 * (p4 + 2 ^ 40 * q4 + 2 ^ 56 * uint (X 5) + 2 ^ 120 * uint (X 6)
        + 2 ^ 184 * uint (X 7))"
      by (simp add: x_def low 0(1) 1(1) 2(1) 3(1) 4(1) e4(1) del: One_nat_def)
    show "sc_limbs (2 ^ 40) (expand256_low X)"
      unfolding expand256_low_def sc_limbs.simps using lt by blast
    show "sc_limbs (2 ^ 40) (expand256_high X)"
      unfolding expand256_high_def sc_limbs.simps uint_drop_bit 7(4)
      by (intro conjI lt) (use 7(1,2) uint64_lt [of "X 7"] in simp)
  qed
qed

lemma expand256_modm_correct:
  assumes "len \<le> 64" "len \<le> length inp"
  shows "reduced (expand256_modm inp len)" and "sval (expand256_modm inp len) = le_val (take len inp) mod ell"
proof -
  define work where "work = expand256_work inp len"
  define X where "X = (\<lambda>i. U8TO64_LE (drop (8 * i) work))"
  have wl: "length work = 64" using assms by (simp add: work_def expand256_work_def)
  have z: "le_val (replicate n 0) = 0" for n by (induction n) auto
  have wv: "le_val work = le_val (take len inp)"
    by (simp add: work_def expand256_work_def le_val_append z)
  have words: "le_val work = uint (X 0) + 2 ^ 64 * uint (X 1) + 2 ^ 128 * uint (X 2) + 2 ^ 192 * uint (X 3)
    + 2 ^ 256 * uint (X 4) + 2 ^ 320 * uint (X 5) + 2 ^ 384 * uint (X 6) + 2 ^ 448 * uint (X 7)"
    unfolding X_def by (rule expand256_words [OF wl])
  obtain lo hi where p: "le_val work = 2 ^ 248 * sval (expand256_high X) + lo" "0 \<le> lo" "lo < 2 ^ 248"
    "le_val work = sval (expand256_low X) + 2 ^ 264 * hi"
    "sc_limbs (2 ^ 40) (expand256_low X)" "sc_limbs (2 ^ 40) (expand256_high X)"
    unfolding words by (rule expand256_parts [of X])
  have low: "sval (expand256_low X) < 2 ^ 264" using p(5) by (cases "expand256_low X") simp
  have eq: "expand256_modm inp len =
    (if len < 32 then expand256_low X else barrett_reduce256_modm (expand256_high X) (expand256_low X))"
    unfolding X_def work_def by (rule expand256_modm_eq)
  have "reduced (expand256_modm inp len) \<and> sval (expand256_modm inp len) = le_val work mod ell"
  proof (cases "len < 32")
    case True
    have "le_val work < 256 ^ len" using le_val_bound [of "take len inp"] assms(2) wv by simp
    also have "\<dots> \<le> 256 ^ 31" using True by (intro power_increasing) auto
    finally have small: "le_val work < 256 ^ 31" .
    have "hi = 0"
    proof -
      have "0 \<le> le_val work" by (rule le_val_nonneg)
      then have "0 \<le> hi \<and> hi < 1" using small low sval_nonneg [of "expand256_low X"] p(4) by simp
      then show ?thesis by simp
    qed
    then have "sval (expand256_low X) = le_val work" using p(4) by simp
    moreover have "le_val work < ell" using small by (simp add: ell_def)
    ultimately show ?thesis using True reducedI [OF p(5)] le_val_nonneg [of work] by (simp add: eq)
  next
    case False
    have "le_val work mod 2 ^ 264 = sval (expand256_low X)"
      by (rule int_mod_unique [OF p(4)]) (use low sval_nonneg in auto)
    then show ?thesis
      using False barrett_reduce256_modm_correct [OF p(6,5,1-3)] by (simp add: eq)
  qed
  then show "reduced (expand256_modm inp len)" "sval (expand256_modm inp len) = le_val (take len inp) mod ell"
    using wv by simp_all
qed

lemma uint_contract_word:
  fixes a b :: u64
  assumes "uint a < 2 ^ 56" "s < 56"
  shows "uint (drop_bit s a OR push_bit (56 - s) b) = uint a div 2 ^ s + 2 ^ (56 - s) * (uint b mod 2 ^ (8 + s))"
proof -
  have p: "(2::int) ^ (56 - s) * 2 ^ (8 + s) = 2 ^ 64" "(2::int) ^ s * 2 ^ (56 - s) = 2 ^ 56"
    using assms(2) by (simp_all flip: power_add)
  have lo: "uint (drop_bit s a) < 2 ^ (56 - s)"
    unfolding uint_drop_bit by (rule int_div_less) (use assms(1) p(2) in simp_all)
  have hi: "(uint b * 2 ^ (56 - s)) mod 2 ^ 64 = 2 ^ (56 - s) * (uint b mod 2 ^ (8 + s))"
    by (simp only: p(1) [symmetric] mult.commute [of "uint b"] mod_mult_mult1)
  show ?thesis
    using uint64_or_push_bit [OF lo, of b] hi by (simp add: bitval)
qed

lemma contract256_modm_correct:
  assumes "sc_limbs (2 ^ 32) x"
  shows "contract256_modm x = le_bytes 32 (sval x)"
proof -
  obtain t0 t1 t2 t3 t4 where x: "x = Sc t0 t1 t2 t3 t4" by (cases x)
  have b: "uint t0 < 2 ^ 56" "uint t1 < 2 ^ 56" "uint t2 < 2 ^ 56" "uint t3 < 2 ^ 56" "uint t4 < 2 ^ 32"
    using assms by (simp_all add: x)
  obtain q1 r1 where 1: "uint t1 = 2 ^ 8 * q1 + r1" "0 \<le> r1" "r1 < 2 ^ 8"
      "uint t1 div 2 ^ 8 = q1" "uint t1 mod 2 ^ 8 = r1" "0 \<le> q1"
    by (rule int_split [of "2 ^ 8" "uint t1"]) auto
  obtain q2 r2 where 2: "uint t2 = 2 ^ 16 * q2 + r2" "0 \<le> r2" "r2 < 2 ^ 16"
      "uint t2 div 2 ^ 16 = q2" "uint t2 mod 2 ^ 16 = r2" "0 \<le> q2"
    by (rule int_split [of "2 ^ 16" "uint t2"]) auto
  obtain q3 r3 where 3: "uint t3 = 2 ^ 24 * q3 + r3" "0 \<le> r3" "r3 < 2 ^ 24"
      "uint t3 div 2 ^ 24 = q3" "uint t3 mod 2 ^ 24 = r3" "0 \<le> q3"
    by (rule int_split [of "2 ^ 24" "uint t3"]) auto
  have w0: "uint (t0 OR push_bit 56 t1) = uint t0 + 2 ^ 56 * r1"
    using uint_contract_word [OF b(1), of 0 t1] unfolding 1(5) [symmetric] by simp
  have w1: "uint (drop_bit 8 t1 OR push_bit 48 t2) = q1 + 2 ^ 48 * r2"
    using uint_contract_word [OF b(2), of 8 t2] unfolding 1(4) [symmetric] 2(5) [symmetric] by simp
  have w2: "uint (drop_bit 16 t2 OR push_bit 40 t3) = q2 + 2 ^ 40 * r3"
    using uint_contract_word [OF b(3), of 16 t3] unfolding 2(4) [symmetric] 3(5) [symmetric] by simp
  have w3: "uint (drop_bit 24 t3 OR push_bit 32 t4) = q3 + 2 ^ 32 * uint t4"
    using uint_contract_word [OF b(4), of 24 t4] b(5) unfolding 3(4) [symmetric] by simp
  note w = w0 w1 w2 w3
  have v: "le_val (U64TO8_LE u) = uint u" for u
    using uint64_lt [of u] by (simp add: U64TO8_LE_le_bytes le_val_le_bytes)
  have "le_val (contract256_modm x) = sval x"
    unfolding x contract256_modm.simps le_val_append v w by (simp add: 1(1) 2(1) 3(1))
  moreover have "length (contract256_modm x) = 32" by (simp add: x)
  ultimately show ?thesis using le_bytes_le_val [of "contract256_modm x"] by simp
qed

lemma length_contract256_modm [simp]: "length (contract256_modm x) = 32"
  by (cases x) simp

lemma contract_expand_raw: "length bs = 32 \<Longrightarrow> contract256_modm (expand_raw256_modm bs) = bs"
  using contract256_modm_correct expand_raw256_modm_correct le_bytes_le_val [of bs] by simp

end
