(* ===== verification/Modm_Recode.thy ===== *)
theory Modm_Recode
  imports Modm_Correct
begin

unbundle bit_operations_syntax

text \<open>
  The signed recodings.  \<open>digits_val b ds\<close> is the value of a digit list in base \<open>b\<close>, least
  significant digit first.
\<close>

fun digits_val :: "int \<Rightarrow> int list \<Rightarrow> int" where
  "digits_val b [] = 0"
| "digits_val b (d # ds) = d + b * digits_val b ds"

lemma digits_val_append: "digits_val b (xs @ ys) = digits_val b xs + b ^ length xs * digits_val b ys"
  by (induction xs) (auto simp: algebra_simps)

lemma digits_val_update:
  "i < length ds \<Longrightarrow> digits_val b (ds[i := x]) = digits_val b ds + b ^ i * (x - ds ! i)"
proof (induction ds arbitrary: i)
  case (Cons d ds)
  show ?case
  proof (cases i)
    case (Suc k)
    then have "digits_val b (ds[k := x]) = digits_val b ds + b ^ k * (x - ds ! k)"
      using Cons by simp
    then show ?thesis using Suc by (simp add: distrib_left mult.assoc)
  qed simp
qed simp

lemma schar_id: "- 128 \<le> x \<Longrightarrow> x < 128 \<Longrightarrow> schar x = x"
  by (simp add: schar_def int_word_sint)

section \<open>Digits of the limbs\<close>

lemma uint_and_small: "uint ((v :: u64) AND 15) = uint v mod 16" "uint (v AND 1) = uint v mod 2"
  using uint_and_mask [of v 4] uint_and_mask [of v 1] by (simp_all add: mask_eq_exp_minus_1)

lemma base_digits_val:
  fixes x :: int
  shows "digits_val (2 ^ w) (map (\<lambda>j. x div 2 ^ (w * j) mod 2 ^ w) [0..<m]) = x mod 2 ^ (w * m)"
proof (induction m)
  case (Suc m)
  have "x mod 2 ^ (w * Suc m) = x mod (2 ^ (w * m) * 2 ^ w)" by (simp add: power_add mult.commute)
  also have "\<dots> = x mod 2 ^ (w * m) + 2 ^ (w * m) * (x div 2 ^ (w * m) mod 2 ^ w)"
    by (subst zmod_zmult2_eq) simp_all
  finally show ?case using Suc by (simp add: digits_val_append power_mult)
qed simp

lemma limb_quads_val: "digits_val 16 (limb_quads m v) = uint v mod 2 ^ (4 * m)"
  using base_digits_val [of 4 "uint v" m] by (simp add: limb_quads_def uint_and_small bitval)

lemma limb_bits_val: "digits_val 2 (limb_bits m v) = uint v mod 2 ^ m"
  using base_digits_val [of 1 "uint v" m] by (simp add: limb_bits_def uint_and_small bitval)

lemma length_limb_quads [simp]: "length (limb_quads m v) = m"
  and length_limb_bits [simp]: "length (limb_bits m v) = m"
  by (simp_all add: limb_quads_def limb_bits_def)

lemma window4_quads_val:
  assumes "sc_limbs (2 ^ 32) s"
  shows "digits_val 16 (window4_quads s) = sval s" and "length (window4_quads s) = 64"
  using assms by (cases s, simp add: digits_val_append limb_quads_val)+

lemma slidingwindow_bits_val:
  assumes "sc_limbs (2 ^ 32) s"
  shows "digits_val 2 (slidingwindow_bits s) = sval s" and "length (slidingwindow_bits s) = 256"
  using assms by (cases s, simp add: digits_val_append limb_bits_val)+

lemma window4_quads_range: "d \<in> set (window4_quads s) \<Longrightarrow> 0 \<le> d \<and> d < 16"
  by (cases s) (auto simp: limb_quads_def uint_and_small)

lemma slidingwindow_bits_range: "d \<in> set (slidingwindow_bits s) \<Longrightarrow> d = 0 \<or> d = 1"
proof -
  have "uint v mod 2 = 0 \<or> uint v mod 2 = 1" for v :: u64 by auto
  then show "d \<in> set (slidingwindow_bits s) \<Longrightarrow> d = 0 \<or> d = 1"
    by (cases s) (auto simp: limb_bits_def uint_and_small)
qed

section \<open>The 4-bit window\<close>

text \<open>The state after the positions below \<open>i\<close> are done.\<close>

definition window4_inv :: "int \<Rightarrow> nat \<Rightarrow> int list \<times> int \<Rightarrow> bool" where
  "window4_inv V i st \<longleftrightarrow>
     length (fst st) = 64 \<and> digits_val 16 (fst st) + 16 ^ i * snd st = V \<and>
     (snd st = 0 \<or> snd st = 1) \<and> 0 \<le> fst st ! i \<and> fst st ! i + snd st \<le> 16 \<and>
     (\<forall>k<i. - 8 \<le> fst st ! k \<and> fst st ! k < 8) \<and> (\<forall>k. i < k \<and> k < 64 \<longrightarrow> 0 \<le> fst st ! k \<and> fst st ! k < 16)"

lemma window4_step_inv:
  assumes "window4_inv V i (r, c)" "i < 63"
  shows "window4_inv V (i + 1) (window4_step (r, c) i)"
proof -
  have r: "length r = 64" "digits_val 16 r + 16 ^ i * c = V" "c = 0 \<or> c = 1" "0 \<le> r ! i" "r ! i + c \<le> 16"
    "\<And>k. k < i \<Longrightarrow> - 8 \<le> r ! k \<and> r ! k < 8" "\<And>k. i < k \<Longrightarrow> k < 64 \<Longrightarrow> 0 \<le> r ! k \<and> r ! k < 16"
    using assms(1) by (auto simp: window4_inv_def)
  define d where "d = r ! i + c"
  define e where "e = r ! (i + 1)"
  have e1: "r ! Suc i = e" by (simp add: e_def)
  have d: "0 \<le> d" "d \<le> 16" using r by (auto simp: d_def)
  have e: "0 \<le> e" "e < 16" using r(7) [of "i + 1"] assms(2) by (auto simp: e_def)
  define c' where "c' = d mod 16 div 8"
  have c': "c' = 0 \<or> c' = 1" using d by (auto simp: c'_def)
  define x where "x = d mod 16 - c' * 16"
  define y where "y = e + d div 16"
  have step: "window4_step (r, c) i = (r[i := x, i + 1 := y], c')"
    using assms(2) r(1) d e c'
    by (simp add: window4_step_def Let_def schar_id d_def [symmetric] e1 x_def y_def c'_def [symmetric]
        list_update_swap [of "Suc i" i])
  have dx: "d = x + 16 * (c' + d div 16)" using c' by (simp add: x_def)
  have x: "- 8 \<le> x" "x < 8" unfolding x_def c'_def by presburger+
  have y: "0 \<le> y" "y + c' \<le> 16"
  proof -
    show "0 \<le> y" using d e by (simp add: y_def)
    show "y + c' \<le> 16"
    proof (cases "d = 16")
      case False
      then have "d div 16 = 0" using d by simp
      then show ?thesis using e c' by (auto simp: y_def)
    qed (use e in \<open>simp add: y_def c'_def\<close>)
  qed
  have val: "digits_val 16 (r[i := x, i + 1 := y]) + 16 ^ (i + 1) * c' = V"
  proof -
    have "digits_val 16 (r[i := x, i + 1 := y]) = digits_val 16 r + 16 ^ i * (x - r ! i) + 16 ^ (i + 1) * (y - e)"
      using assms(2) r(1) by (simp add: digits_val_update e_def)
    also have "\<dots> + 16 ^ (i + 1) * c' = digits_val 16 r + 16 ^ i * (x - r ! i + 16 * (d div 16) + 16 * c')"
      by (simp add: y_def algebra_simps)
    also have "x - r ! i + 16 * (d div 16) + 16 * c' = c" using dx by (simp add: d_def)
    finally show ?thesis using r(2) by simp
  qed
  show ?thesis
    unfolding window4_inv_def step fst_conv snd_conv
    using r(1,6,7) x y val c' assms(2) by (auto simp: nth_list_update less_Suc_eq)
qed

lemma window4_loop_inv:
  assumes "window4_inv V 0 st" "n \<le> 63"
  shows "window4_inv V n (foldl window4_step st [0..<n])"
  using assms(2)
proof (induction n)
  case (Suc n)
  then show ?case using window4_step_inv [of V n "fst (foldl window4_step st [0..<n])" "snd (foldl window4_step st [0..<n])"]
    by simp
qed (use assms in simp)

lemma digits_val_top:
  assumes "\<And>d. d \<in> set ds \<Longrightarrow> 0 \<le> d \<and> d < b" "ds \<noteq> []" "0 < b"
  shows "0 \<le> digits_val b ds" and "b ^ (length ds - 1) * last ds \<le> digits_val b ds"
proof -
  have nn: "0 \<le> digits_val b xs" if "\<And>d. d \<in> set xs \<Longrightarrow> 0 \<le> d" for xs
    using that assms(3) by (induction xs) auto
  then show "0 \<le> digits_val b ds" using assms(1) by simp
  have "digits_val b (butlast ds @ [last ds]) = digits_val b (butlast ds) + b ^ (length ds - 1) * last ds"
    by (simp add: digits_val_append)
  moreover have "0 \<le> digits_val b (butlast ds)" using nn assms(1) by (meson in_set_butlastD)
  ultimately show "b ^ (length ds - 1) * last ds \<le> digits_val b ds" using assms(2) by simp
qed

lemma contract256_window4_modm_correct:
  assumes "sc_limbs (2 ^ 32) s" "sval s < 2 ^ 255"
  shows "digits_val 16 (contract256_window4_modm s) = sval s"
    and "length (contract256_window4_modm s) = 64"
    and "k < 63 \<Longrightarrow> - 8 \<le> contract256_window4_modm s ! k \<and> contract256_window4_modm s ! k < 8"
    and "0 \<le> contract256_window4_modm s ! 63 \<and> contract256_window4_modm s ! 63 \<le> 8"
proof -
  note q = window4_quads_val [OF assms(1)]
  have rng: "0 \<le> window4_quads s ! k \<and> window4_quads s ! k < 16" if "k < 64" for k
    using that q(2) by (intro window4_quads_range [of _ s]) simp
  have first: "0 \<le> window4_quads s ! 0" "window4_quads s ! 0 \<le> 16" using rng [of 0] by linarith+
  have "window4_inv (sval s) 0 (window4_quads s, 0)"
    using q rng first by (auto simp: window4_inv_def)
  then have inv: "window4_inv (sval s) 63 (foldl window4_step (window4_quads s, 0) [0..<63])"
    by (rule window4_loop_inv) simp
  obtain r c where rc: "foldl window4_step (window4_quads s, 0) [0..<63] = (r, c)" by fastforce
  have r: "length r = 64" "digits_val 16 r + 16 ^ 63 * c = sval s" "c = 0 \<or> c = 1" "0 \<le> r ! 63" "r ! 63 + c \<le> 16"
    "\<And>k. k < 63 \<Longrightarrow> - 8 \<le> r ! k \<and> r ! k < 8"
    using inv by (auto simp: window4_inv_def rc)
  have eq: "contract256_window4_modm s = r[63 := r ! 63 + c]"
    using r(3-5) schar_id [of "r ! 63 + c"] by (auto simp: contract256_window4_modm_def rc)
  show "digits_val 16 (contract256_window4_modm s) = sval s"
    using r by (simp add: eq digits_val_update)
  show "length (contract256_window4_modm s) = 64" using r by (simp add: eq)
  show "k < 63 \<Longrightarrow> - 8 \<le> contract256_window4_modm s ! k \<and> contract256_window4_modm s ! k < 8"
    using r by (simp add: eq)
  have "r ! 63 + c \<le> 8"
  proof -
    have low: "- 8 * (\<Sum>k<n. 16 ^ k) \<le> digits_val 16 (take n r)" if "n \<le> 63" for n
      using that
    proof (induction n)
      case (Suc n)
      then have "digits_val 16 (take (Suc n) r) = digits_val 16 (take n r) + 16 ^ n * r ! n"
        using r(1) by (simp add: take_Suc_conv_app_nth digits_val_append)
      moreover have "16 ^ n * (- 8) \<le> 16 ^ n * r ! n" using r(6) [of n] Suc.prems by (intro mult_left_mono) auto
      ultimately show ?case using Suc by simp
    qed simp
    have "r = take 63 r @ [r ! 63]" using r(1) by (simp add: take_Suc_conv_app_nth [symmetric])
    then have "digits_val 16 r = digits_val 16 (take 63 r) + 16 ^ 63 * r ! 63"
      using r(1) digits_val_append [of 16 "take 63 r" "[r ! 63]"] by simp
    moreover have "- 8 * (\<Sum>k<63. (16::int) ^ k) = - 8 * ((16 ^ 63 - 1) div 15)"
      by (simp add: eval_nat_numeral)
    ultimately have "16 ^ 63 * (r ! 63 + c) \<le> sval s + 8 * ((16 ^ 63 - 1) div 15)"
      using low [of 63] r(2) by (simp add: algebra_simps)
    then show ?thesis using assms(2) by simp
  qed
  then show "0 \<le> contract256_window4_modm s ! 63 \<and> contract256_window4_modm s ! 63 \<le> 8"
    using r by (auto simp: eq)
qed

section \<open>The sliding window\<close>

text \<open>
  \<open>sliding_inv V m j b r\<close>: position \<open>j\<close> is being worked on and has absorbed the bits up to
  \<open>j + b - 1\<close>.  The positions below \<open>j\<close> hold finished digits, the ones from \<open>j + b\<close> on are still bits, and the
  bits above \<open>j\<close> are worth at most \<open>2\<^sup>2\<^sup>5\<^sup>5\<close>, so that the carry never runs off the end.
\<close>

definition upper :: "nat \<Rightarrow> int list \<Rightarrow> int" where
  "upper j r = 2 ^ j * digits_val 2 (drop j r)"

definition sliding_digit :: "int \<Rightarrow> int \<Rightarrow> bool" where
  "sliding_digit m d \<longleftrightarrow> d = 0 \<or> (odd d \<and> - m \<le> d \<and> d \<le> m)"

definition sliding_inv :: "int \<Rightarrow> int \<Rightarrow> nat \<Rightarrow> nat \<Rightarrow> int list \<Rightarrow> bool" where
  "sliding_inv V m j b r \<longleftrightarrow>
     length r = 256 \<and> digits_val 2 r = V \<and> (\<forall>k<j. sliding_digit m (r ! k)) \<and>
     odd (r ! j) \<and> - m \<le> r ! j \<and> r ! j \<le> m \<and>
     (\<forall>k. j < k \<and> k < j + b \<longrightarrow> k < 256 \<longrightarrow> r ! k = 0) \<and> (\<forall>k. j + b \<le> k \<and> k < 256 \<longrightarrow> r ! k = 0 \<or> r ! k = 1) \<and>
     upper (j + 1) r \<le> 2 ^ 255 \<and> 2 ^ j * r ! j + upper (j + 1) r \<le> 2 ^ 255"

lemma upper_step: "j < length r \<Longrightarrow> upper j r = 2 ^ j * r ! j + upper (j + 1) r"
  by (simp add: upper_def Cons_nth_drop_Suc [symmetric] algebra_simps)

lemma upper_end [simp]: "length r \<le> j \<Longrightarrow> upper j r = 0"
  by (simp add: upper_def)

lemma upper_update_below: "k < j \<Longrightarrow> upper j (r[k := x]) = upper j r"
  by (simp add: upper_def)

lemma upper_update: "j \<le> k \<Longrightarrow> k < length r \<Longrightarrow> upper j (r[k := x]) = upper j r + 2 ^ k * (x - r ! k)"
proof -
  assume k: "j \<le> k" "k < length r"
  have "digits_val 2 ((drop j r)[k - j := x]) = digits_val 2 (drop j r) + 2 ^ (k - j) * (x - drop j r ! (k - j))"
    by (rule digits_val_update) (use k in simp)
  moreover have "drop j (r[k := x]) = (drop j r)[k - j := x]" using k by (simp add: drop_update_swap)
  moreover have "(2::int) ^ j * 2 ^ (k - j) = 2 ^ k" using k by (simp flip: power_add)
  ultimately show ?thesis using k by (simp add: upper_def distrib_left mult.assoc [symmetric])
qed

lemma upper_zeros:
  assumes "\<And>k. i \<le> k \<Longrightarrow> k < j \<Longrightarrow> k < length r \<Longrightarrow> r ! k = 0" "i \<le> j"
  shows "upper i r = upper j r"
  using assms(2,1)
proof (induction "j - i" arbitrary: i)
  case (Suc n)
  show ?case
  proof (cases "i < length r")
    case True
    have "upper i r = upper (i + 1) r" using upper_step [OF True] Suc.prems(2) [of i] True Suc.hyps(2) by simp
    also have "\<dots> = upper j r" by (rule Suc.hyps(1)) (use Suc.hyps(2) Suc.prems in auto)
    finally show ?thesis .
  qed (use Suc.prems in simp)
qed simp

lemma upper_multiple: "\<exists>n. upper j r = 2 ^ j * n"
  by (auto simp: upper_def)

text \<open>The carry loop adds \<open>2\<^sup>k\<close> to the bits from \<open>k\<close> on, when the sum fits.\<close>

lemma slidingwindow_carry_correct:
  assumes "length r = 256" "\<And>i. k \<le> i \<Longrightarrow> i < 256 \<Longrightarrow> r ! i = 0 \<or> r ! i = 1"
    and "upper k r + 2 ^ k < 2 ^ 256" "k \<le> 256"
  defines "r' \<equiv> slidingwindow_carry r k"
  shows "length r' = 256 \<and> upper k r' = upper k r + 2 ^ k \<and> (\<forall>i<k. r' ! i = r ! i) \<and>
    (\<forall>i. k \<le> i \<and> i < 256 \<longrightarrow> r' ! i = 0 \<or> r' ! i = 1) \<and> (r ! k = 1 \<longrightarrow> r' ! k = 0)"
  using assms(1-4) unfolding r'_def
proof (induction r k rule: slidingwindow_carry.induct)
  case (1 r k)
  have k: "k < 256"
  proof (rule ccontr)
    assume "\<not> k < 256"
    then have "k = 256" using "1.prems"(4) by simp
    then show False using "1.prems"(1,3) by simp
  qed
  show ?case
  proof (cases "r ! k = 0")
    case True
    then have "slidingwindow_carry r k = r[k := 1]"
      using k by (simp add: slidingwindow_carry.simps [of r k] soplen_def)
    then show ?thesis
      using True "1.prems"(1,2) k upper_update [of k k r 1] by (auto simp: nth_list_update)
  next
    case False
    then have one: "r ! k = 1" using "1.prems"(2) [of k] k by auto
    have eq: "slidingwindow_carry r k = slidingwindow_carry (r[k := 0]) (k + 1)"
      using k False by (simp add: slidingwindow_carry.simps [of r k] soplen_def)
    have up: "upper k r = 2 ^ k + upper (k + 1) r" using upper_step [of k r] "1.prems"(1) k one by simp
    let ?c = "slidingwindow_carry (r[k := 0]) (k + 1)"
    have IH: "length ?c = 256 \<and> upper (k + 1) ?c = upper (k + 1) (r[k := 0]) + 2 ^ (k + 1) \<and>
      (\<forall>i<k + 1. ?c ! i = r[k := 0] ! i) \<and> (\<forall>i. k + 1 \<le> i \<and> i < 256 \<longrightarrow> ?c ! i = 0 \<or> ?c ! i = 1) \<and>
      (r[k := 0] ! (k + 1) = 1 \<longrightarrow> ?c ! (k + 1) = 0)"
      by (rule "1.IH") (use k False "1.prems" up in \<open>auto simp: soplen_def upper_update_below\<close>)
    then have ck: "?c ! k = 0" using k "1.prems"(1) by simp
    have "upper k ?c = upper k r + 2 ^ k"
      using upper_step [of k ?c] IH ck up k by (simp add: upper_update_below)
    moreover have "?c ! i = r ! i" if "i < k" for i using IH that by simp
    moreover have "?c ! i = 0 \<or> ?c ! i = 1" if "k \<le> i" "i < 256" for i
      using IH that ck by (cases "i = k") auto
    ultimately show ?thesis using IH ck unfolding eq by blast
  qed
qed

lemma digits_val_split: "k \<le> length r \<Longrightarrow> digits_val 2 r = digits_val 2 (take k r) + upper k r"
  using digits_val_append [of 2 "take k r" "drop k r"] by (simp add: upper_def)

text \<open>What holds when position \<open>j\<close> is reached.\<close>

definition sliding_reached :: "int \<Rightarrow> int \<Rightarrow> nat \<Rightarrow> int list \<Rightarrow> bool" where
  "sliding_reached V m j r \<longleftrightarrow>
     length r = 256 \<and> digits_val 2 r = V \<and> (\<forall>k<j. sliding_digit m (r ! k)) \<and>
     (\<forall>k. j \<le> k \<and> k < 256 \<longrightarrow> r ! k = 0 \<or> r ! k = 1) \<and> upper j r \<le> 2 ^ 255"

lemma sliding_inv_reached:
  assumes "sliding_inv V m j b r" "j < 256"
  shows "sliding_reached V m (j + 1) r"
  using assms unfolding sliding_inv_def sliding_reached_def sliding_digit_def
  by (auto simp: less_Suc_eq) (metis not_le_imp_less Suc_le_lessD)

lemma sliding_merge:
  assumes "sliding_inv V m j b r" "1 \<le> b" "j + b < 256" "m \<le> 127" "r ! j + r ! (j + b) * 2 ^ b \<le> m"
  shows "sliding_inv V m j (b + 1) (r[j := schar (r ! j + r ! (j + b) * 2 ^ b), j + b := 0])"
proof -
  have r: "length r = 256" "digits_val 2 r = V" "\<And>k. k < j \<Longrightarrow> sliding_digit m (r ! k)" "odd (r ! j)"
    "- m \<le> r ! j" "r ! j \<le> m" "\<And>k. j < k \<Longrightarrow> k < j + b \<Longrightarrow> k < 256 \<Longrightarrow> r ! k = 0"
    "\<And>k. j + b \<le> k \<Longrightarrow> k < 256 \<Longrightarrow> r ! k = 0 \<or> r ! k = 1"
    "upper (j + 1) r \<le> 2 ^ 255" "2 ^ j * r ! j + upper (j + 1) r \<le> 2 ^ 255"
    using assms(1) by (auto simp: sliding_inv_def)
  define x where "x = r ! j + r ! (j + b) * 2 ^ b"
  have bit: "r ! (j + b) = 0 \<or> r ! (j + b) = 1" using r(8) assms(3) by simp
  have p: "0 < (2::int) ^ b" by simp
  have x: "- m \<le> x" using bit
  proof
    assume "r ! (j + b) = 1"
    then have "x = r ! j + 2 ^ b" by (simp add: x_def)
    then show ?thesis using r(5) p by linarith
  qed (use r(5) in \<open>simp add: x_def\<close>)
  have x: "- m \<le> x" "x \<le> m" "odd x" using x bit r(4) assms(2,5) by (auto simp: x_def)
  have sx: "schar x = x" using x assms(4) by (intro schar_id) auto
  let ?r = "r[j := x, j + b := 0]"
  have jb: "j \<noteq> j + b" using assms(2) by simp
  have up: "upper (j + 1) ?r = upper (j + 1) r - 2 ^ (j + b) * r ! (j + b)"
    using upper_update [of "j + 1" "j + b" "r[j := x]" 0] assms(2,3) r(1) by (simp add: upper_update_below)
  have "0 \<le> 2 ^ (j + b) * r ! (j + b)" using bit by auto
  then have bound: "upper (j + 1) ?r \<le> 2 ^ 255" using up r(9) by linarith
  have val: "digits_val 2 ?r = V"
    using assms(2,3) r(1,2) by (simp add: digits_val_update x_def power_add algebra_simps)
  have tot: "2 ^ j * x + upper (j + 1) ?r = 2 ^ j * r ! j + upper (j + 1) r"
    using up by (simp add: x_def power_add algebra_simps)
  show ?thesis
    unfolding sliding_inv_def x_def [symmetric] sx
    using r(1,3) x val tot bound r(7,8,10) bit assms(2,3) jb
    by (auto simp: nth_list_update less_Suc_eq)
qed

lemma sliding_subtract:
  assumes "sliding_inv V m j b r" "1 \<le> b" "j + b < 256" "m \<le> 127"
    and "\<not> r ! j + r ! (j + b) * 2 ^ b \<le> m" "r ! j - r ! (j + b) * 2 ^ b \<ge> - m"
  shows "sliding_inv V m j (b + 1)
    (slidingwindow_carry (r[j := schar (r ! j - r ! (j + b) * 2 ^ b)]) (j + b))"
proof -
  have r: "length r = 256" "digits_val 2 r = V" "\<And>k. k < j \<Longrightarrow> sliding_digit m (r ! k)" "odd (r ! j)"
    "- m \<le> r ! j" "r ! j \<le> m" "\<And>k. j < k \<Longrightarrow> k < j + b \<Longrightarrow> k < 256 \<Longrightarrow> r ! k = 0"
    "\<And>k. j + b \<le> k \<Longrightarrow> k < 256 \<Longrightarrow> r ! k = 0 \<or> r ! k = 1"
    "upper (j + 1) r \<le> 2 ^ 255" "2 ^ j * r ! j + upper (j + 1) r \<le> 2 ^ 255"
    using assms(1) by (auto simp: sliding_inv_def)
  have bit: "r ! (j + b) = 1" using r(6) r(8) [of "j + b"] assms(3,5) by auto
  define x where "x = r ! j - 2 ^ b"
  have pos: "0 < r ! j" using assms(5,6) bit by simp
  have "0 < (2::int) ^ b" by simp
  then have "x \<le> m" using r(6) unfolding x_def by linarith
  then have x: "- m \<le> x" "x \<le> m" "odd x" using assms(2,6) bit r(4) by (auto simp: x_def)
  have sx: "schar x = x" using x assms(4) by (intro schar_id) auto
  let ?r = "r[j := x]"
  have up: "upper (j + b) ?r = upper (j + 1) r"
    using upper_zeros [of "j + 1" "j + b" r] r(1,7) assms(2) by (simp add: upper_update_below)
  have fit: "upper (j + b) ?r + 2 ^ (j + b) \<le> 2 ^ 255"
  proof -
    obtain n where n: "upper (j + b) ?r = 2 ^ (j + b) * n" using upper_multiple by blast
    have p: "(2::int) ^ 255 = 2 ^ (j + b) * 2 ^ (255 - (j + b))"
      using assms(3) by (simp flip: power_add)
    have "0 < 2 ^ j * r ! j" using pos by simp
    then have "2 ^ (j + b) * n < 2 ^ (j + b) * 2 ^ (255 - (j + b))" using r(10) up n p by linarith
    then have "n < 2 ^ (255 - (j + b))" by simp
    then have "2 ^ (j + b) * (n + 1) \<le> 2 ^ (j + b) * 2 ^ (255 - (j + b))" by (intro mult_left_mono) auto
    then show ?thesis using n p by (simp add: algebra_simps)
  qed
  let ?c = "slidingwindow_carry ?r (j + b)"
  have c: "length ?c = 256 \<and> upper (j + b) ?c = upper (j + b) ?r + 2 ^ (j + b) \<and> (\<forall>i<j + b. ?c ! i = ?r ! i) \<and>
    (\<forall>i. j + b \<le> i \<and> i < 256 \<longrightarrow> ?c ! i = 0 \<or> ?c ! i = 1) \<and> (?r ! (j + b) = 1 \<longrightarrow> ?c ! (j + b) = 0)"
    by (rule slidingwindow_carry_correct) (use r(1,8) assms(2,3) fit in auto)
  have take: "take (j + b) ?c = take (j + b) ?r" using c r(1) by (intro nth_equalityI) auto
  have val: "digits_val 2 ?c = V"
    using digits_val_split [of "j + b" ?c] digits_val_split [of "j + b" ?r] c take assms(3) r(1,2)
      digits_val_update [of j r 2 x] by (simp add: x_def power_add)
  have cj: "?c ! j = x" "\<And>k. k < j \<Longrightarrow> ?c ! k = r ! k" "\<And>k. j < k \<Longrightarrow> k < j + b \<Longrightarrow> ?c ! k = 0" "?c ! (j + b) = 0"
    using c r(1,7) bit assms(2,3) by (auto simp: nth_list_update)
  have upc: "upper (j + 1) ?c = upper (j + b) ?c"
    by (rule upper_zeros) (use cj(3) assms(2) in auto)
  have tot: "2 ^ j * x + upper (j + 1) ?c = 2 ^ j * r ! j + upper (j + 1) r"
    using upc c up by (simp add: x_def power_add algebra_simps)
  have "schar (r ! j - r ! (j + b) * 2 ^ b) = x" using sx bit by (simp add: x_def)
  then show ?thesis
    unfolding sliding_inv_def
    using c cj r(3,10) x val tot upc fit assms(2,3) by (auto simp: less_Suc_eq)
qed

lemma slidingwindow_inner_correct:
  assumes "sliding_inv V m j b r" "1 \<le> b" "j < 256" "m \<le> 127"
  shows "sliding_reached V m (j + 1) (slidingwindow_inner m j r b)"
  using assms
proof (induction m j r b rule: slidingwindow_inner.induct)
  case (1 m j r b)
  note simp = slidingwindow_inner.simps [of m j r b]
  show ?case
  proof (cases "b < soplen - j \<and> b \<le> 6")
    case False
    then have "slidingwindow_inner m j r b = r" using simp by auto
    then show ?thesis using sliding_inv_reached "1.prems" by simp
  next
    case True
    then have jb: "j + b < 256" unfolding soplen_def by linarith
    consider (merge) "r ! j + r ! (j + b) * 2 ^ b \<le> m"
      | (subtract) "\<not> r ! j + r ! (j + b) * 2 ^ b \<le> m" "r ! j - r ! (j + b) * 2 ^ b \<ge> - m"
      | (stop) "\<not> r ! j + r ! (j + b) * 2 ^ b \<le> m" "\<not> r ! j - r ! (j + b) * 2 ^ b \<ge> - m"
      by blast
    then show ?thesis
    proof cases
      case merge
      then have "slidingwindow_inner m j r b =
          slidingwindow_inner m j (r[j := schar (r ! j + r ! (j + b) * 2 ^ b), j + b := 0]) (b + 1)"
        using simp True by simp
      then show ?thesis
        using "1.IH"(1) [OF True merge sliding_merge [OF "1.prems"(1,2) jb "1.prems"(4) merge]] "1.prems" by simp
    next
      case subtract
      then have "slidingwindow_inner m j r b = slidingwindow_inner m j
            (slidingwindow_carry (r[j := schar (r ! j - r ! (j + b) * 2 ^ b)]) (j + b)) (b + 1)"
        using simp True by simp
      then show ?thesis
        using "1.IH"(2) [OF True subtract sliding_subtract [OF "1.prems"(1,2) jb "1.prems"(4) subtract]] "1.prems" by simp
    next
      case stop
      have "r ! (j + b) \<noteq> 0" using stop "1.prems"(1) by (auto simp: sliding_inv_def)
      then have "slidingwindow_inner m j r b = r" using simp True stop by simp
      then show ?thesis using sliding_inv_reached "1.prems" by simp
    qed
  qed
qed

lemma sliding_step:
  assumes "sliding_reached V m j r" "j < 256" "1 \<le> m" "m \<le> 127"
  shows "sliding_reached V m (j + 1) (if r ! j = 0 then r else slidingwindow_inner m j r 1)"
proof (cases "r ! j = 0")
  case True
  then show ?thesis
    using assms upper_step [of j r] by (auto simp: sliding_reached_def sliding_digit_def less_Suc_eq)
next
  case False
  then have one: "r ! j = 1" using assms(1,2) by (auto simp: sliding_reached_def)
  have "0 < (2::int) ^ j" by simp
  then have up: "upper (j + 1) r \<le> 2 ^ 255"
    using assms(1,2) upper_step [of j r] one by (simp only: sliding_reached_def mult_1_right) linarith
  have "sliding_inv V m j 1 r"
    using assms upper_step [of j r] up one by (auto simp: sliding_reached_def sliding_inv_def)
  then show ?thesis using False slidingwindow_inner_correct [of V m j 1 r] assms by simp
qed

lemma contract256_slidingwindow_modm_correct:
  assumes "sc_limbs (2 ^ 32) s" "sval s < 2 ^ 255" "2 \<le> w" "w \<le> 8"
  shows "length (contract256_slidingwindow_modm s w) = 256"
    and "digits_val 2 (contract256_slidingwindow_modm s w) = sval s"
    and "d \<in> set (contract256_slidingwindow_modm s w) \<Longrightarrow> sliding_digit (2 ^ (w - 1) - 1) d"
proof -
  define m :: int where "m = 2 ^ (w - 1) - 1"
  have "(2::int) ^ 1 \<le> 2 ^ (w - 1)" "(2::int) ^ (w - 1) \<le> 2 ^ 7" using assms(3,4) by (intro power_increasing; simp)+
  then have m: "1 \<le> m" "m \<le> 127" by (simp_all add: m_def)
  let ?f = "\<lambda>r j. if r ! j = 0 then r else slidingwindow_inner m j r 1"
  have "sliding_reached (sval s) m n (foldl ?f (slidingwindow_bits s) [0..<n])" if "n \<le> 256" for n
    using that
  proof (induction n)
    case 0
    show ?case
      using slidingwindow_bits_val [OF assms(1)] slidingwindow_bits_range [of _ s] assms(2)
      by (auto simp: sliding_reached_def upper_def in_set_conv_nth)
  next
    case (Suc n)
    then show ?case using sliding_step [of "sval s" m n] m by simp
  qed
  from this [of 256] have "sliding_reached (sval s) m 256 (contract256_slidingwindow_modm s w)"
    unfolding contract256_slidingwindow_modm_def soplen_def Let_def m_def [symmetric] by simp
  then show "length (contract256_slidingwindow_modm s w) = 256"
    and "digits_val 2 (contract256_slidingwindow_modm s w) = sval s"
    and "d \<in> set (contract256_slidingwindow_modm s w) \<Longrightarrow> sliding_digit (2 ^ (w - 1) - 1) d"
    by (auto simp: sliding_reached_def m_def in_set_conv_nth)
qed
end
