(* ===== verification/Arith_Properties.thy ===== *)
theory Arith_Properties
  imports Field_Pow Modm_Bytes Modm_Recode
begin

unbundle bit_operations_syntax

text \<open>
  The headline properties of the two arithmetic layers: the field \<open>GF(2\<^sup>2\<^sup>5\<^sup>5 - 19)\<close> in
  five 51-bit limbs and the integers modulo the group order in five 56-bit limbs.  Each is
  followed by an instance at concrete limbs that meets its bounds.
\<close>

section \<open>Field elements\<close>

text \<open>
  C19: the field multiplication.  For factors whose limbs are below \<open>2\<^sup>5\<^sup>4\<close> no 128-bit column
  wraps, the product's limbs are carried to below \<open>2\<^sup>5\<^sup>1 + 2\<^sup>1\<^sup>8\<close>, and the limbs stand for the
  product in the field.
\<close>

theorem curve25519_mul_refines:
  assumes "loose a" "loose b"
  shows "tight (curve25519_mul a b) \<and> feval (curve25519_mul a b) = fp_mul (feval a) (feval b)"
  using assms by (simp add: fe_bound fe_val)

theorem curve25519_mul_refines_witness:
  "loose (Fe (2 ^ 53) 1 2 3 (2 ^ 53)) \<and> loose (Fe 5 6 7 8 (2 ^ 54 - 1)) \<and>
   tight (curve25519_mul (Fe (2 ^ 53) 1 2 3 (2 ^ 53)) (Fe 5 6 7 8 (2 ^ 54 - 1)))"
proof -
  have *: "loose (Fe (2 ^ 53) 1 2 3 (2 ^ 53))" "loose (Fe 5 6 7 8 (2 ^ 54 - 1))"
    by (simp_all add: loose_def)
  with curve25519_mul_refines [OF *] show ?thesis by simp
qed

text \<open>
  C20: additions and subtractions.  On the limb ranges the point formulas produce, the
  unreduced and the reducing forms of addition, subtraction and negation neither wrap nor
  borrow, land in the range the next operation needs, and compute the field operation.
\<close>

theorem curve25519_additive_refines:
  assumes "tight a" "tight b" "basic c" "basic d"
  shows "basic (curve25519_add a b) \<and> feval (curve25519_add a b) = fp_add (feval a) (feval b) \<and>
    basic (curve25519_sub a b) \<and> feval (curve25519_sub a b) = fp_sub (feval a) (feval b) \<and>
    tight (curve25519_neg a) \<and> feval (curve25519_neg a) = fp_neg (feval a) \<and>
    loose (curve25519_add_after_basic c d) \<and>
    feval (curve25519_add_after_basic c d) = fp_add (feval c) (feval d) \<and>
    loose (curve25519_sub_after_basic c d) \<and>
    feval (curve25519_sub_after_basic c d) = fp_sub (feval c) (feval d) \<and>
    tight (curve25519_add_reduce c d) \<and> feval (curve25519_add_reduce c d) = fp_add (feval c) (feval d) \<and>
    tight (curve25519_sub_reduce c d) \<and> feval (curve25519_sub_reduce c d) = fp_sub (feval c) (feval d)"
  using assms by (simp add: fe_bound fe_val)

theorem curve25519_additive_refines_witness:
  "feval (curve25519_sub (Fe 3 0 0 0 0) (Fe 5 0 0 0 0)) = 2 ^ 255 - 21 \<and>
   feval (curve25519_sub_reduce (Fe 3 0 0 0 0) (Fe 5 0 0 0 0)) = 2 ^ 255 - 21"
proof -
  have *: "tight (Fe 3 0 0 0 0)" "tight (Fe 5 0 0 0 0)"
    by (simp_all add: tight_def)
  have v: "feval (Fe 3 0 0 0 0) = 3" "feval (Fe 5 0 0 0 0) = 5"
    by (simp_all add: feval_def p25519_def)
  show ?thesis
    using curve25519_additive_refines [OF * tight_basic [OF *(1)] tight_basic [OF *(2)]]
    by (simp add: v fp_sub_def p25519_def)
qed

text \<open>
  C21: the canonical encoding.  Expanding 32 bytes drops the top bit and contracting gives the
  little-endian bytes of the unique residue below \<open>p\<close>; two limb vectors contract to the same
  bytes exactly when they represent the same field element.
\<close>

theorem curve25519_contract_canonical:
  assumes "length bs = 32" "loose a" "loose b"
  shows "curve25519_contract (curve25519_expand bs) = le_bytes 32 (le_val bs mod 2 ^ 255 mod p25519) \<and>
    (curve25519_contract a = curve25519_contract b \<longleftrightarrow> feval a = feval b)"
proof
  show "curve25519_contract (curve25519_expand bs) = le_bytes 32 (le_val bs mod 2 ^ 255 mod p25519)"
    using assms by (simp add: fe_bound fe_val tight_loose)
  have "0 \<le> feval x \<and> feval x < 256 ^ 32" for x
    using fp_range [of "fval x"] by (simp add: feval_def)
  then show "curve25519_contract a = curve25519_contract b \<longleftrightarrow> feval a = feval b"
    using assms by (simp add: fe_val le_bytes_inject)
qed

theorem curve25519_contract_canonical_witness:
  "curve25519_contract (Fe 0 0 0 0 0) =
   curve25519_contract (Fe 0x7ffffffffffed 0x7ffffffffffff 0x7ffffffffffff 0x7ffffffffffff 0x7ffffffffffff)"
proof -
  have "length (replicate 32 (0::u8)) = 32" by simp
  moreover have "loose (Fe 0 0 0 0 0)"
    "loose (Fe 0x7ffffffffffed 0x7ffffffffffff 0x7ffffffffffff 0x7ffffffffffff 0x7ffffffffffff)"
    by (simp_all add: loose_def)
  ultimately show ?thesis
    using curve25519_contract_canonical [of "replicate 32 0"] by (simp add: feval_def p25519_def)
qed

section \<open>Scalars modulo the group order\<close>

text \<open>
  C22: scalar multiplication modulo the group order.  The Barrett reduction of
  \<open>mul256_modm\<close>, with its approximate quotient and at most two corrective subtractions,
  gives the fully reduced product for any factors below \<open>2\<^sup>2\<^sup>5\<^sup>6\<close>.
\<close>

theorem mul256_modm_refines:
  assumes "sc_limbs (2 ^ 32) x" "sc_limbs (2 ^ 32) y"
  shows "reduced (mul256_modm x y) \<and> sval (mul256_modm x y) = (sval x * sval y) mod ell"
  using mul256_modm_correct [OF assms] by blast

theorem mul256_modm_refines_witness:
  "sval (mul256_modm (Sc 0 0 0 0 0x10000000) (Sc 16 0 0 0 0)) = 2 ^ 256 mod ell"
proof -
  have "sc_limbs (2 ^ 32) (Sc 0 0 0 0 0x10000000)" "sc_limbs (2 ^ 32) (Sc 16 0 0 0 0)"
    by simp_all
  from mul256_modm_refines [OF this] show ?thesis by simp
qed

text \<open>
  C23: additive arithmetic of scalars.  Addition, negation and subtraction of canonical
  scalars are canonical and exact modulo the group order; addition also accepts summands
  that are not canonical while the sum stays below twice the order.
\<close>

theorem additive_modm_refines:
  assumes "reduced x" "reduced y" "sc_limbs (2 ^ 56) v" "sc_limbs (2 ^ 56) w" "sval v + sval w < 2 * ell"
  shows "reduced (add256_modm v w) \<and> sval (add256_modm v w) = (sval v + sval w) mod ell \<and>
    reduced (neg256_modm x) \<and> sval (neg256_modm x) = (- sval x) mod ell \<and>
    reduced (sub256_modm x y) \<and> sval (sub256_modm x y) = (sval x - sval y) mod ell"
  using add256_modm_correct [OF assms(3-5)] neg256_modm_correct [OF assms(1)]
    sub256_modm_correct [OF assms(1,2)] by blast

theorem additive_modm_refines_witness:
  "sval (sub256_modm (Sc 1 0 0 0 0) (Sc 3 0 0 0 0)) = ell - 2"
proof -
  have "reduced (Sc 1 0 0 0 0)" "reduced (Sc 3 0 0 0 0)" "sc_limbs (2 ^ 56) (Sc 1 0 0 0 0)"
    "sval (Sc 1 0 0 0 0) + sval (Sc 1 0 0 0 0) < 2 * ell"
    by (simp_all add: reduced_def ell_def)
  from additive_modm_refines [OF this(1,2,3,3,4)] show ?thesis by (simp add: ell_def)
qed

text \<open>
  C24: the canonicity test behind the rejection of malleable signatures.  The branch-free
  comparison of \<open>is_reduced256_modm\<close> on the expansion of 32 bytes holds exactly when their
  little-endian value is below the group order.
\<close>

theorem is_reduced256_modm_exact:
  assumes "length bs = 32"
  shows "is_reduced256_modm (expand_raw256_modm bs) \<longleftrightarrow> le_val bs < ell"
proof -
  note e = expand_raw256_modm_correct [OF assms]
  have "sc_limbs (2 ^ 56) (expand_raw256_modm bs)"
    using e(2) by (cases "expand_raw256_modm bs") auto
  then show ?thesis
    using is_reduced256_modm_correct e(1) by simp
qed

theorem is_reduced256_modm_exact_witness:
  "\<not> is_reduced256_modm (expand_raw256_modm (replicate 32 255)) \<and>
   is_reduced256_modm (expand_raw256_modm (1 # replicate 31 0))"
proof -
  have "le_val (replicate 32 255) \<ge> ell" "le_val (1 # replicate 31 0) < ell"
    by (simp_all add: ell_def le_val_replicate_255)
  then show ?thesis
    using is_reduced256_modm_exact [of "replicate 32 255"] is_reduced256_modm_exact [of "1 # replicate 31 0"]
    by simp
qed

text \<open>
  C25: reduction of byte strings.  \<open>expand256_modm\<close> of up to 64 bytes is the canonical scalar of
  their value modulo the order, whichever of its two paths runs, and contracting it writes
  that residue as 32 little-endian bytes.
\<close>

theorem expand256_modm_reduces:
  assumes "len \<le> 64" "len \<le> length inp"
  shows "reduced (expand256_modm inp len) \<and>
    sval (expand256_modm inp len) = le_val (take len inp) mod ell \<and>
    contract256_modm (expand256_modm inp len) = le_bytes 32 (le_val (take len inp) mod ell)"
proof -
  note e = expand256_modm_correct [OF assms]
  have "sc_limbs (2 ^ 32) (expand256_modm inp len)"
    using reduced_limbs [OF e(1)] by (cases "expand256_modm inp len") auto
  then show ?thesis
    using e by (simp add: contract256_modm_correct)
qed

theorem expand256_modm_reduces_witness:
  "sval (expand256_modm (replicate 64 0 @ [1]) 64) = 0 \<and> sval (expand256_modm [7] 1) = 7"
  using expand256_modm_reduces [of 64 "replicate 64 0 @ [1]"] expand256_modm_reduces [of 1 "[7]"]
  by (simp add: ell_def)

text \<open>
  C26: the signed radix-16 recoding.  The 64 digits have the scalar as their value, the lower 63 lie in
  \<open>[-8, 8)\<close> and the top one in \<open>[0, 8]\<close>, so every absolute value indexes a table of nine
  entries.
\<close>

theorem contract256_window4_modm_digits:
  assumes "sc_limbs (2 ^ 32) s" "sval s < 2 ^ 255"
  shows "length (contract256_window4_modm s) = 64 \<and>
    digits_val 16 (contract256_window4_modm s) = sval s \<and>
    (\<forall>d\<in>set (contract256_window4_modm s). \<bar>d\<bar> \<le> 8)"
proof -
  note w = contract256_window4_modm_correct [OF assms]
  have "\<forall>d\<in>set (contract256_window4_modm s). \<bar>d\<bar> \<le> 8"
  proof
    fix d assume "d \<in> set (contract256_window4_modm s)"
    then obtain k where k: "k < 64" "d = contract256_window4_modm s ! k"
      using w(2) by (auto simp: in_set_conv_nth)
    show "\<bar>d\<bar> \<le> 8"
      using w(3) [of k] w(4) k by (cases "k = 63") auto
  qed
  with w(1,2) show ?thesis by blast
qed

theorem contract256_window4_modm_digits_witness:
  "digits_val 16 (contract256_window4_modm (Sc 0xff 0 0 0 0)) = 255"
proof -
  have "sc_limbs (2 ^ 32) (Sc 0xff 0 0 0 0)" "sval (Sc 0xff 0 0 0 0) < 2 ^ 255" by simp_all
  from contract256_window4_modm_digits [OF this] show ?thesis by simp
qed

text \<open>
  C27: the sliding-window recoding.  For every window size the code may use, the 256 signed
  digits have the scalar as their value and each is zero or odd with absolute value below \<open>2\<^sup>w\<^sup>-\<^sup>1\<close>,
  so that half of it indexes a table of \<open>2\<^sup>w\<^sup>-\<^sup>2\<close> odd multiples.
\<close>

theorem contract256_slidingwindow_modm_digits:
  assumes "sc_limbs (2 ^ 32) s" "sval s < 2 ^ 255" "2 \<le> w" "w \<le> 8"
  shows "length (contract256_slidingwindow_modm s w) = 256 \<and>
    digits_val 2 (contract256_slidingwindow_modm s w) = sval s \<and>
    (\<forall>d\<in>set (contract256_slidingwindow_modm s w). d = 0 \<or> (odd d \<and> \<bar>d\<bar> \<le> 2 ^ (w - 1) - 1))"
proof -
  note w = contract256_slidingwindow_modm_correct [OF assms]
  have "\<forall>d\<in>set (contract256_slidingwindow_modm s w). d = 0 \<or> (odd d \<and> \<bar>d\<bar> \<le> 2 ^ (w - 1) - 1)"
    using w(3) by (fastforce simp: sliding_digit_def)
  with w(1,2) show ?thesis by blast
qed

theorem contract256_slidingwindow_modm_digits_witness:
  "digits_val 2 (contract256_slidingwindow_modm (Sc 1000 0 0 0 0) 5) = 1000"
proof -
  have "sc_limbs (2 ^ 32) (Sc 1000 0 0 0 0)" "sval (Sc 1000 0 0 0 0) < 2 ^ 255" "(2::nat) \<le> 5" "(5::nat) \<le> 8"
    by simp_all
  from contract256_slidingwindow_modm_digits [OF this] show ?thesis by simp
qed

end
