(* ===== verification/Merlin.thy ===== *)
theory Merlin
  imports Portable "HOL-Library.Monad_Syntax"
begin

unbundle bit_operations_syntax

text \<open>
  Merlin transcripts over Strobe-128 over Keccak-f[1600] (\<open>merlin.c\<close>, \<open>merlin.h\<close>).  The C
  structure overlays 25 lanes with 200 bytes; the model keeps the bytes and converts to
  little-endian lanes around the permutation.  A failing \<open>assert\<close> is \<open>None\<close>.
\<close>

section \<open>Keccak-f[1600]\<close>

definition rho :: "nat list" where
  "rho = [1, 3, 6, 10, 15, 21, 28, 36, 45, 55, 2, 14, 27, 41, 56, 8, 25, 43, 62, 18, 39, 61, 20, 44]"

definition pi_lane :: "nat list" where
  "pi_lane = [10, 7, 11, 17, 18, 3, 5, 16, 8, 21, 24, 4, 15, 23, 19, 13, 12, 2, 20, 14, 22, 9, 6, 1]"

definition RC :: "u64 list" where
  "RC = [0x1, 0x8082, 0x800000000000808a, 0x8000000080008000, 0x808b, 0x80000001,
         0x8000000080008081, 0x8000000000008009, 0x8a, 0x88, 0x80008009, 0x8000000a,
         0x8000808b, 0x800000000000008b, 0x8000000000008089, 0x8000000000008003,
         0x8000000000008002, 0x8000000000000080, 0x800a, 0x800000008000000a,
         0x8000000080008081, 0x8000000000008080, 0x80000001, 0x8000000080008008]"

definition rol :: "u64 \<Rightarrow> nat \<Rightarrow> u64" where
  "rol x s = push_bit s x OR drop_bit (64 - s) x"

definition keccak_theta :: "u64 list \<Rightarrow> u64 list" where
  "keccak_theta a =
     (let b = map (\<lambda>x. foldl (\<lambda>acc y. acc XOR a ! (x + y)) 0 [0, 5, 10, 15, 20]) [0..<5]
      in map (\<lambda>i. a ! i XOR (b ! ((i mod 5 + 4) mod 5) XOR rol (b ! ((i mod 5 + 1) mod 5)) 1)) [0..<25])"

definition keccak_rho_pi :: "u64 list \<Rightarrow> u64 list" where
  "keccak_rho_pi a =
     fst (foldl (\<lambda>(a, t) x. (a[pi_lane ! x := rol t (rho ! x)], a ! (pi_lane ! x))) (a, a ! 1) [0..<24])"

definition keccak_chi :: "u64 list \<Rightarrow> u64 list" where
  "keccak_chi a =
     foldl (\<lambda>a y. let b = map (\<lambda>x. a ! (y + x)) [0..<5]
                  in foldl (\<lambda>a x. a[y + x := b ! x XOR (NOT (b ! ((x + 1) mod 5)) AND b ! ((x + 2) mod 5))])
                       a [0..<5])
       a [0, 5, 10, 15, 20]"

definition keccak_iota :: "nat \<Rightarrow> u64 list \<Rightarrow> u64 list" where
  "keccak_iota i a = a[0 := a ! 0 XOR RC ! i]"

definition keccak_round :: "u64 list \<Rightarrow> nat \<Rightarrow> u64 list" where
  "keccak_round a i = keccak_iota i (keccak_chi (keccak_rho_pi (keccak_theta a)))"

definition lanes_of_bytes :: "bytes \<Rightarrow> u64 list" where
  "lanes_of_bytes bs = map (\<lambda>i. U8TO64_LE (drop (8 * i) bs)) [0..<25]"

definition bytes_of_lanes :: "u64 list \<Rightarrow> bytes" where
  "bytes_of_lanes a = concat (map U64TO8_LE a)"

definition keccakf :: "bytes \<Rightarrow> bytes" where
  "keccakf state_bytes = bytes_of_lanes (foldl keccak_round (lanes_of_bytes state_bytes) [0..<24])"

section \<open>Strobe-128\<close>

record merlin_strobe128 =
  state_bytes :: bytes
  pos :: u8
  pos_begin :: u8
  cur_flags :: u8

definition STROBE_R :: u8 where "STROBE_R = 166"
definition FLAG_I :: u8 where "FLAG_I = 1"
definition FLAG_A :: u8 where "FLAG_A = push_bit 1 1"
definition FLAG_C :: u8 where "FLAG_C = push_bit 2 1"
definition FLAG_T :: u8 where "FLAG_T = push_bit 3 1"
definition FLAG_M :: u8 where "FLAG_M = push_bit 4 1"
definition FLAG_K :: u8 where "FLAG_K = push_bit 5 1"

definition xor_byte :: "nat \<Rightarrow> u8 \<Rightarrow> bytes \<Rightarrow> bytes" where
  "xor_byte i v bs = bs[i := bs ! i XOR v]"

definition strobe128_run_f :: "merlin_strobe128 \<Rightarrow> merlin_strobe128" where
  "strobe128_run_f ctx =
     (let st = state_bytes ctx;
          st = xor_byte (unat (pos ctx)) (pos_begin ctx) st;
          st = xor_byte (unat (pos ctx) + 1) 0x04 st;
          st = xor_byte (unat STROBE_R + 1) 0x80 st
      in ctx\<lparr>state_bytes := keccakf st, pos := 0, pos_begin := 0\<rparr>)"

text \<open>The tail the three duplex loops share: advance \<open>pos\<close> and run the permutation at the rate.\<close>

definition strobe128_advance :: "merlin_strobe128 \<Rightarrow> merlin_strobe128" where
  "strobe128_advance ctx =
     (let ctx = ctx\<lparr>pos := pos ctx + 1\<rparr>
      in if pos ctx = STROBE_R then strobe128_run_f ctx else ctx)"

fun strobe128_absorb :: "merlin_strobe128 \<Rightarrow> bytes \<Rightarrow> merlin_strobe128" where
  "strobe128_absorb ctx [] = ctx"
| "strobe128_absorb ctx (d # data) =
     strobe128_absorb
       (strobe128_advance (ctx\<lparr>state_bytes := xor_byte (unat (pos ctx)) d (state_bytes ctx)\<rparr>)) data"

fun strobe128_overwrite :: "merlin_strobe128 \<Rightarrow> bytes \<Rightarrow> merlin_strobe128" where
  "strobe128_overwrite ctx [] = ctx"
| "strobe128_overwrite ctx (d # data) =
     strobe128_overwrite
       (strobe128_advance (ctx\<lparr>state_bytes := (state_bytes ctx)[unat (pos ctx) := d]\<rparr>)) data"

fun strobe128_squeeze :: "merlin_strobe128 \<Rightarrow> nat \<Rightarrow> merlin_strobe128 \<times> bytes" where
  "strobe128_squeeze ctx 0 = (ctx, [])"
| "strobe128_squeeze ctx (Suc data_len) =
     (let d = state_bytes ctx ! unat (pos ctx);
          (ctx', data) = strobe128_squeeze
            (strobe128_advance (ctx\<lparr>state_bytes := (state_bytes ctx)[unat (pos ctx) := 0]\<rparr>)) data_len
      in (ctx', d # data))"

definition strobe128_begin_op :: "merlin_strobe128 \<Rightarrow> u8 \<Rightarrow> bool \<Rightarrow> merlin_strobe128 option" where
  "strobe128_begin_op ctx flags is_more =
     (if is_more then if cur_flags ctx = flags then Some ctx else None
      else if flags AND FLAG_T \<noteq> 0 then None
      else
        let old_begin = pos_begin ctx;
            ctx = ctx\<lparr>pos_begin := pos ctx + 1, cur_flags := flags\<rparr>;
            ctx = strobe128_absorb ctx [old_begin, flags];
            force_f = (flags AND (FLAG_C OR FLAG_K) \<noteq> 0)
        in Some (if force_f \<and> pos ctx \<noteq> 0 then strobe128_run_f ctx else ctx))"

definition strobe128_meta_ad :: "merlin_strobe128 \<Rightarrow> bytes \<Rightarrow> bool \<Rightarrow> merlin_strobe128 option" where
  "strobe128_meta_ad ctx data is_more =
     do { ctx \<leftarrow> strobe128_begin_op ctx (FLAG_M OR FLAG_A) is_more; Some (strobe128_absorb ctx data) }"

definition strobe128_ad :: "merlin_strobe128 \<Rightarrow> bytes \<Rightarrow> bool \<Rightarrow> merlin_strobe128 option" where
  "strobe128_ad ctx data is_more =
     do { ctx \<leftarrow> strobe128_begin_op ctx FLAG_A is_more; Some (strobe128_absorb ctx data) }"

definition strobe128_prf :: "merlin_strobe128 \<Rightarrow> nat \<Rightarrow> bool \<Rightarrow> (merlin_strobe128 \<times> bytes) option" where
  "strobe128_prf ctx data_len is_more =
     do { ctx \<leftarrow> strobe128_begin_op ctx (FLAG_I OR FLAG_A OR FLAG_C) is_more;
          Some (strobe128_squeeze ctx data_len) }"

definition strobe128_key :: "merlin_strobe128 \<Rightarrow> bytes \<Rightarrow> bool \<Rightarrow> merlin_strobe128 option" where
  "strobe128_key ctx data is_more =
     do { ctx \<leftarrow> strobe128_begin_op ctx (FLAG_C OR FLAG_A) is_more; Some (strobe128_overwrite ctx data) }"

definition strobe128_init :: "bytes \<Rightarrow> merlin_strobe128 option" where
  "strobe128_init label =
     (let init = [1, 168, 1, 0, 1, 96, 83, 84, 82, 79, 66, 69, 118, 49, 46, 48, 46, 50];
          ctx = \<lparr>state_bytes = keccakf (init @ replicate 182 0), pos = 0, pos_begin = 0, cur_flags = 0\<rparr>
      in strobe128_meta_ad ctx label False)"

section \<open>Transcripts\<close>

text \<open>
  A \<open>merlin_transcript\<close> holds just a Strobe context.  String literals are their ASCII codes;
  \<open>(uint8_t*)&message_len_bytes, 4\<close> are the four low bytes of the 64-bit length.
\<close>

type_synonym merlin_transcript = merlin_strobe128

definition ascii :: "string \<Rightarrow> bytes" where
  "ascii s = map of_char s"

definition length_bytes4 :: "nat \<Rightarrow> bytes" where
  "length_bytes4 n = take 4 (U64TO8_LE (word_of_nat n))"

definition merlin_transcript_commit_bytes ::
    "merlin_transcript \<Rightarrow> bytes \<Rightarrow> bytes \<Rightarrow> merlin_transcript option" where
  "merlin_transcript_commit_bytes mctx label message =
     do { sctx \<leftarrow> strobe128_meta_ad mctx label False;
          sctx \<leftarrow> strobe128_meta_ad sctx (length_bytes4 (length message)) True;
          strobe128_ad sctx message False }"

definition merlin_transcript_init :: "bytes \<Rightarrow> merlin_transcript option" where
  "merlin_transcript_init label =
     do { sctx \<leftarrow> strobe128_init (ascii ''Merlin v1.0'');
          merlin_transcript_commit_bytes sctx (ascii ''dom-sep'') label }"

definition merlin_transcript_challenge_bytes ::
    "merlin_transcript \<Rightarrow> bytes \<Rightarrow> nat \<Rightarrow> (merlin_transcript \<times> bytes) option" where
  "merlin_transcript_challenge_bytes mctx label buffer_len =
     do { sctx \<leftarrow> strobe128_meta_ad mctx label False;
          sctx \<leftarrow> strobe128_meta_ad sctx (length_bytes4 buffer_len) True;
          strobe128_prf sctx buffer_len False }"

section \<open>The transcript RNG\<close>

record merlin_rng =
  rng_sctx :: merlin_strobe128
  finalized :: bool

definition merlin_rng_init :: "merlin_transcript \<Rightarrow> merlin_rng" where
  "merlin_rng_init mctx = \<lparr>rng_sctx = mctx, finalized = False\<rparr>"

definition merlin_rng_commit_witness_bytes :: "merlin_rng \<Rightarrow> bytes \<Rightarrow> bytes \<Rightarrow> merlin_rng option" where
  "merlin_rng_commit_witness_bytes mrng label witness =
     (if finalized mrng then None
      else do { sctx \<leftarrow> strobe128_meta_ad (rng_sctx mrng) label False;
                sctx \<leftarrow> strobe128_meta_ad sctx (length_bytes4 (length witness)) True;
                sctx \<leftarrow> strobe128_key sctx witness False;
                Some (mrng\<lparr>rng_sctx := sctx\<rparr>) })"

definition merlin_rng_finalize :: "merlin_rng \<Rightarrow> bytes \<Rightarrow> merlin_rng option" where
  "merlin_rng_finalize mrng entropy =
     (if finalized mrng then None
      else do { sctx \<leftarrow> strobe128_meta_ad (rng_sctx mrng) (ascii ''rng'') False;
                sctx \<leftarrow> strobe128_key sctx (take 32 entropy) False;
                Some (mrng\<lparr>rng_sctx := sctx, finalized := True\<rparr>) })"

definition merlin_rng_random_bytes :: "merlin_rng \<Rightarrow> nat \<Rightarrow> (merlin_rng \<times> bytes) option" where
  "merlin_rng_random_bytes mrng buffer_len =
     (if \<not> finalized mrng then None
      else do { sctx \<leftarrow> strobe128_meta_ad (rng_sctx mrng) (length_bytes4 buffer_len) False;
                (sctx, buffer) \<leftarrow> strobe128_prf sctx buffer_len False;
                Some (mrng\<lparr>rng_sctx := sctx\<rparr>, buffer) })"

text \<open>\<open>entropy\<close> is what \<open>sr25519_randombytes(entropy, 32)\<close> delivers.\<close>

definition merlin_commit_witness_bytes ::
    "bytes \<Rightarrow> merlin_transcript \<Rightarrow> nat \<Rightarrow> bytes \<Rightarrow> bytes \<Rightarrow> bytes option" where
  "merlin_commit_witness_bytes entropy mctx dest_len label witness =
     do { mrng \<leftarrow> merlin_rng_commit_witness_bytes (merlin_rng_init mctx) label witness;
          mrng \<leftarrow> merlin_rng_finalize mrng entropy;
          (mrng, dest) \<leftarrow> merlin_rng_random_bytes mrng dest_len;
          Some dest }"

definition merlin_rng_wipe :: "merlin_rng \<Rightarrow> merlin_rng" where
  "merlin_rng_wipe mrng =
     mrng\<lparr>rng_sctx := \<lparr>state_bytes = replicate 200 0, pos = 0, pos_begin = 0, cur_flags = 0\<rparr>\<rparr>"

end
