(* ===== verification/Keccak_Correct.thy ===== *)
theory Keccak_Correct
  imports Merlin
begin

unbundle bit_operations_syntax

text \<open>
  The permutation against its standard.  \<open>fips_round\<close> writes out the five step mappings of
  FIPS 202 on a 5 by 5 array of lanes: the rotation offsets come from the walk
  \<open>(x, y) \<mapsto> (y, 2x + 3y)\<close> and the round constants from the linear feedback shift register,
  not from tables.  The code keeps the lanes in one list, moves them in place along the cycle
  \<open>pi\<close>, and uses literal tables \<open>rho\<close>, \<open>pi\<close> and \<open>RC\<close>; the theory shows that it computes the
  same permutation.
\<close>

section \<open>The standard\<close>

definition fips_theta_column :: "(nat \<Rightarrow> nat \<Rightarrow> u64) \<Rightarrow> nat \<Rightarrow> u64" where
  "fips_theta_column A x = A x 0 XOR A x 1 XOR A x 2 XOR A x 3 XOR A x 4"

definition fips_theta :: "(nat \<Rightarrow> nat \<Rightarrow> u64) \<Rightarrow> nat \<Rightarrow> nat \<Rightarrow> u64" where
  "fips_theta A x y =
     A x y XOR fips_theta_column A ((x + 4) mod 5) XOR word_rotl 1 (fips_theta_column A ((x + 1) mod 5))"

fun fips_rho_walk :: "nat \<Rightarrow> nat \<times> nat" where
  "fips_rho_walk 0 = (1, 0)"
| "fips_rho_walk (Suc t) = (let (x, y) = fips_rho_walk t in (y, (2 * x + 3 * y) mod 5))"

definition fips_rho_offset :: "nat \<Rightarrow> nat \<Rightarrow> nat" where
  "fips_rho_offset x y =
     (case find (\<lambda>t. fips_rho_walk t = (x, y)) [0..<24] of
        None \<Rightarrow> 0
      | Some t \<Rightarrow> (t + 1) * (t + 2) div 2 mod 64)"

definition fips_rho :: "(nat \<Rightarrow> nat \<Rightarrow> u64) \<Rightarrow> nat \<Rightarrow> nat \<Rightarrow> u64" where
  "fips_rho A x y = word_rotl (fips_rho_offset x y) (A x y)"

definition fips_pi :: "(nat \<Rightarrow> nat \<Rightarrow> u64) \<Rightarrow> nat \<Rightarrow> nat \<Rightarrow> u64" where
  "fips_pi A x y = A ((x + 3 * y) mod 5) x"

definition fips_chi :: "(nat \<Rightarrow> nat \<Rightarrow> u64) \<Rightarrow> nat \<Rightarrow> nat \<Rightarrow> u64" where
  "fips_chi A x y = A x y XOR (NOT (A ((x + 1) mod 5) y) AND A ((x + 2) mod 5) y)"

definition fips_lfsr_step :: "bool list \<Rightarrow> bool list" where
  "fips_lfsr_step R =
     (let R = False # R;
          R = R[0 := (R ! 0 \<noteq> R ! 8)];
          R = R[4 := (R ! 4 \<noteq> R ! 8)];
          R = R[5 := (R ! 5 \<noteq> R ! 8)];
          R = R[6 := (R ! 6 \<noteq> R ! 8)]
      in take 8 R)"

definition fips_rc :: "nat \<Rightarrow> bool" where
  "fips_rc t = hd ((fips_lfsr_step ^^ (t mod 255)) [True, False, False, False, False, False, False, False])"

definition fips_round_constant :: "nat \<Rightarrow> u64" where
  "fips_round_constant i =
     foldl (\<lambda>w j. if fips_rc (j + 7 * i) then set_bit (2 ^ j - 1) w else w) 0 [0..<7]"

definition fips_iota :: "nat \<Rightarrow> (nat \<Rightarrow> nat \<Rightarrow> u64) \<Rightarrow> nat \<Rightarrow> nat \<Rightarrow> u64" where
  "fips_iota i A x y = (if x = 0 \<and> y = 0 then A 0 0 XOR fips_round_constant i else A x y)"

definition fips_round :: "nat \<Rightarrow> (nat \<Rightarrow> nat \<Rightarrow> u64) \<Rightarrow> nat \<Rightarrow> nat \<Rightarrow> u64" where
  "fips_round i A = fips_iota i (fips_chi (fips_pi (fips_rho (fips_theta A))))"

definition fips_keccak_f :: "nat \<Rightarrow> (nat \<Rightarrow> nat \<Rightarrow> u64) \<Rightarrow> nat \<Rightarrow> nat \<Rightarrow> u64" where
  "fips_keccak_f n A = foldl (\<lambda>A i. fips_round i A) A [0..<n]"

section \<open>The code against the standard\<close>

text \<open>The lane list of the code as an array.\<close>

definition lane_array :: "u64 list \<Rightarrow> nat \<Rightarrow> nat \<Rightarrow> u64" where
  "lane_array a x y = a ! (5 * y + x)"

lemma rol_rotl:
  assumes "s < 64"
  shows "rol x s = word_rotl s x"
proof (rule bit_word_eqI)
  fix n assume "n < LENGTH(64)"
  then have n: "n < 64" by simp
  have "(n + 64 - s) mod 64 = (if s \<le> n then n - s else 64 + n - s)"
    using assms n by (auto simp: mod_if)
  moreover have "\<not> bit x (64 + n - s)" if "s \<le> n"
    using bit_imp_le_length [of x "64 + n - s"] that by auto
  ultimately show "bit (rol x s) n = bit (word_rotl s x) n"
    using assms n by (auto simp: rol_def bit_word_rotl_iff bit_or_iff bit_push_bit_iff bit_drop_bit_eq)
qed

fun lfsr_bits :: "nat \<Rightarrow> bool list \<Rightarrow> bool list" where
  "lfsr_bits 0 R = []"
| "lfsr_bits (Suc n) R = hd R # lfsr_bits n (fips_lfsr_step R)"

lemma lfsr_bits_nth: "t < n \<Longrightarrow> lfsr_bits n R ! t = hd ((fips_lfsr_step ^^ t) R)"
  by (induction n R arbitrary: t rule: lfsr_bits.induct)
     (auto simp: nth_Cons funpow_swap1 split: nat.split)

definition round_constant_of :: "bool list \<Rightarrow> nat \<Rightarrow> u64" where
  "round_constant_of bits i = foldl (\<lambda>w j. if bits ! (j + 7 * i) then set_bit (2 ^ j - 1) w else w) 0 [0..<7]"

lemma fips_round_constant_bits:
  assumes "i < 24"
  shows "fips_round_constant i =
    round_constant_of (lfsr_bits 168 [True, False, False, False, False, False, False, False]) i"
  unfolding fips_round_constant_def round_constant_of_def
  by (rule foldl_cong) (use assms in \<open>auto simp: fips_rc_def lfsr_bits_nth\<close>)

lemma RC_bits: "RC = map (round_constant_of (lfsr_bits 168 [True, False, False, False, False, False, False, False])) [0..<24]"
  by code_simp

lemma RC_fips: "i < 24 \<Longrightarrow> RC ! i = fips_round_constant i"
  by (simp add: RC_bits fips_round_constant_bits del: upt.simps)

lemma rho_offsets:
  "map (\<lambda>i. fips_rho_offset (i mod 5) (i div 5)) [0..<25] =
    [0, 1, 62, 28, 27, 36, 44, 6, 55, 20, 3, 10, 43, 25, 39, 41, 45, 15, 21, 8, 18, 2, 61, 56, 14]"
  by code_simp

lemma rho_offset:
  "x < 5 \<Longrightarrow> y < 5 \<Longrightarrow> fips_rho_offset x y =
    [0, 1, 62, 28, 27, 36, 44, 6, 55, 20, 3, 10, 43, 25, 39, 41, 45, 15, 21, 8, 18, 2, 61, 56, 14] ! (5 * y + x)"
  using arg_cong [OF rho_offsets, of "\<lambda>xs. xs ! (5 * y + x)"] by (simp del: upt.simps)

lemma less_5: "x < 5 \<longleftrightarrow> x = 0 \<or> x = 1 \<or> x = 2 \<or> x = 3 \<or> x = (4::nat)"
  by auto

lemma theta_lane:
  "x < 5 \<Longrightarrow> y < 5 \<Longrightarrow> lane_array (keccak_theta a) x y = fips_theta (lane_array a) x y"
  by (simp add: lane_array_def keccak_theta_def Let_def fips_theta_def fips_theta_column_def rol_rotl
      add.commute xor.assoc del: upt.simps)

lemma length_25:
  assumes "length (a :: 'a list) = 25"
  obtains a0 a1 a2 a3 a4 a5 a6 a7 a8 a9 a10 a11 a12 a13 a14 a15 a16 a17 a18 a19 a20 a21 a22 a23 a24 where "a = [a0, a1, a2, a3, a4, a5, a6, a7, a8, a9, a10, a11, a12, a13, a14, a15, a16, a17, a18, a19, a20, a21, a22, a23, a24]"
  using assms by (auto simp: length_Suc_conv numeral_eq_Suc)

lemma rho_pi_list:
  "keccak_rho_pi [a0, a1, a2, a3, a4, a5, a6, a7, a8, a9, a10, a11, a12, a13, a14, a15, a16, a17, a18, a19, a20, a21, a22, a23, a24] =
    [a0, rol a6 44, rol a12 43, rol a18 21, rol a24 14, rol a3 28, rol a9 20, rol a10 3, rol a16 45, rol a22 61, rol a1 1, rol a7 6, rol a13 25, rol a19 8, rol a20 18, rol a4 27, rol a5 36, rol a11 10, rol a17 15, rol a23 56, rol a2 62, rol a8 55, rol a14 39, rol a15 41, rol a21 2]"
  by (simp add: keccak_rho_pi_def pi_lane_def rho_def upt_rec)

lemma rotl_0: "word_rotl 0 (x :: u64) = x"
  by (rule bit_word_eqI) (simp add: bit_word_rotl_iff)

lemma rho_pi_lane:
  assumes "length a = 25" "x < 5" "y < 5"
  shows "lane_array (keccak_rho_pi a) x y = fips_pi (fips_rho (lane_array a)) x y"
proof -
  obtain a0 a1 a2 a3 a4 a5 a6 a7 a8 a9 a10 a11 a12 a13 a14 a15 a16 a17 a18 a19 a20 a21 a22 a23 a24 where a: "a = [a0, a1, a2, a3, a4, a5, a6, a7, a8, a9, a10, a11, a12, a13, a14, a15, a16, a17, a18, a19, a20, a21, a22, a23, a24]"
    using assms(1) by (rule length_25)
  show ?thesis
    using assms(2,3) unfolding less_5 a
    by (elim disjE) (simp_all add: lane_array_def rho_pi_list fips_pi_def fips_rho_def rho_offset rol_rotl rotl_0)
qed

lemma chi_list:
  "keccak_chi [a0, a1, a2, a3, a4, a5, a6, a7, a8, a9, a10, a11, a12, a13, a14, a15, a16, a17, a18, a19, a20, a21, a22, a23, a24] =
    [a0 XOR (NOT a1 AND a2), a1 XOR (NOT a2 AND a3), a2 XOR (NOT a3 AND a4),
     a3 XOR (NOT a4 AND a0), a4 XOR (NOT a0 AND a1), a5 XOR (NOT a6 AND a7),
     a6 XOR (NOT a7 AND a8), a7 XOR (NOT a8 AND a9), a8 XOR (NOT a9 AND a5),
     a9 XOR (NOT a5 AND a6), a10 XOR (NOT a11 AND a12), a11 XOR (NOT a12 AND a13),
     a12 XOR (NOT a13 AND a14), a13 XOR (NOT a14 AND a10), a14 XOR (NOT a10 AND a11),
     a15 XOR (NOT a16 AND a17), a16 XOR (NOT a17 AND a18), a17 XOR (NOT a18 AND a19),
     a18 XOR (NOT a19 AND a15), a19 XOR (NOT a15 AND a16), a20 XOR (NOT a21 AND a22),
     a21 XOR (NOT a22 AND a23), a22 XOR (NOT a23 AND a24), a23 XOR (NOT a24 AND a20),
     a24 XOR (NOT a20 AND a21)]"
  by (simp add: keccak_chi_def upt_rec)

lemma chi_lane:
  assumes "length a = 25" "x < 5" "y < 5"
  shows "lane_array (keccak_chi a) x y = fips_chi (lane_array a) x y"
proof -
  obtain a0 a1 a2 a3 a4 a5 a6 a7 a8 a9 a10 a11 a12 a13 a14 a15 a16 a17 a18 a19 a20 a21 a22 a23 a24 where a: "a = [a0, a1, a2, a3, a4, a5, a6, a7, a8, a9, a10, a11, a12, a13, a14, a15, a16, a17, a18, a19, a20, a21, a22, a23, a24]"
    using assms(1) by (rule length_25)
  show ?thesis
    using assms(2,3) unfolding less_5 a
    by (elim disjE) (simp_all add: lane_array_def chi_list fips_chi_def)
qed

lemma length_keccak_theta [simp]: "length (keccak_theta a) = 25"
  by (simp add: keccak_theta_def Let_def)

lemma length_foldl_pair:
  "(\<And>b t x. length (fst (f (b, t) x)) = length b) \<Longrightarrow> length (fst (foldl f (a, t) xs)) = length a"
  by (induction xs arbitrary: a t) (simp_all, metis prod.collapse)

lemma length_foldl_update: "(\<And>b x. length (f b x) = length b) \<Longrightarrow> length (foldl f a xs) = length a"
  by (induction xs arbitrary: a) simp_all

lemma length_keccak_rho_pi [simp]: "length (keccak_rho_pi a) = length a"
  unfolding keccak_rho_pi_def by (rule length_foldl_pair) simp

lemma length_keccak_chi [simp]: "length (keccak_chi a) = length a"
  unfolding keccak_chi_def Let_def by (intro length_foldl_update) simp

lemma length_keccak_round [simp]: "length (keccak_round a i) = 25"
  by (simp add: keccak_round_def keccak_iota_def)

lemma fips_pi_cong:
  "(\<And>x y. x < 5 \<Longrightarrow> y < 5 \<Longrightarrow> A x y = B x y) \<Longrightarrow> x < 5 \<Longrightarrow> y < 5 \<Longrightarrow> fips_pi (fips_rho A) x y = fips_pi (fips_rho B) x y"
  by (simp add: fips_pi_def fips_rho_def)

lemma fips_chi_cong:
  "(\<And>x y. x < 5 \<Longrightarrow> y < 5 \<Longrightarrow> A x y = B x y) \<Longrightarrow> x < 5 \<Longrightarrow> y < 5 \<Longrightarrow> fips_chi A x y = fips_chi B x y"
  by (simp add: fips_chi_def)

lemma fips_theta_cong:
  "(\<And>x y. x < 5 \<Longrightarrow> y < 5 \<Longrightarrow> A x y = B x y) \<Longrightarrow> x < 5 \<Longrightarrow> y < 5 \<Longrightarrow> fips_theta A x y = fips_theta B x y"
  by (simp add: fips_theta_def fips_theta_column_def)

lemma round_lane:
  assumes "i < 24" "x < 5" "y < 5"
  shows "lane_array (keccak_round a i) x y = fips_round i (lane_array a) x y"
proof -
  have pi: "lane_array (keccak_rho_pi (keccak_theta a)) x y = fips_pi (fips_rho (fips_theta (lane_array a))) x y"
    if "x < 5" "y < 5" for x y
    using that by (simp add: rho_pi_lane fips_pi_cong [OF theta_lane])
  have chi: "lane_array (keccak_chi (keccak_rho_pi (keccak_theta a))) x y
      = fips_chi (fips_pi (fips_rho (fips_theta (lane_array a)))) x y" if "x < 5" "y < 5" for x y
    using that by (simp add: chi_lane fips_chi_cong [OF pi])
  then show ?thesis
    using assms chi [of 0 0] chi [of x y]
    by (auto simp: keccak_round_def keccak_iota_def fips_round_def fips_iota_def lane_array_def RC_fips nth_list_update)
qed

lemma fips_round_cong:
  "(\<And>x y. x < 5 \<Longrightarrow> y < 5 \<Longrightarrow> A x y = B x y) \<Longrightarrow> x < 5 \<Longrightarrow> y < 5 \<Longrightarrow> fips_round i A x y = fips_round i B x y"
proof -
  assume AB: "\<And>x y. x < 5 \<Longrightarrow> y < 5 \<Longrightarrow> A x y = B x y" and xy: "x < 5" "y < 5"
  have "fips_chi (fips_pi (fips_rho (fips_theta A))) x y = fips_chi (fips_pi (fips_rho (fips_theta B))) x y"
    if "x < 5" "y < 5" for x y
    using that by (intro fips_chi_cong fips_pi_cong fips_theta_cong AB)
  with xy show ?thesis
    by (simp add: fips_round_def fips_iota_def)
qed

lemma keccak_rounds:
  "n \<le> 24 \<Longrightarrow> x < 5 \<Longrightarrow> y < 5 \<Longrightarrow>
    lane_array (foldl keccak_round a [0..<n]) x y = fips_keccak_f n (lane_array a) x y"
proof (induction n arbitrary: x y)
  case (Suc n)
  have "lane_array (foldl keccak_round a [0..<Suc n]) x y =
      fips_round n (lane_array (foldl keccak_round a [0..<n])) x y"
    using Suc.prems by (simp add: round_lane)
  also have "\<dots> = fips_round n (fips_keccak_f n (lane_array a)) x y"
    by (rule fips_round_cong) (use Suc in simp_all)
  finally show ?case
    by (simp add: fips_keccak_f_def)
qed (simp add: fips_keccak_f_def)

lemma length_lanes_of_bytes [simp]: "length (lanes_of_bytes bs) = 25"
  by (simp add: lanes_of_bytes_def)

lemma length_keccak_rounds [simp]: "length a = 25 \<Longrightarrow> length (foldl keccak_round a is) = 25"
  by (induction "is" arbitrary: a) simp_all

lemma keccakf_lanes:
  "keccakf st = concat (map (\<lambda>i. U64TO8_LE (fips_keccak_f 24 (lane_array (lanes_of_bytes st)) (i mod 5) (i div 5)))
    [0..<25])"
proof -
  let ?a = "foldl keccak_round (lanes_of_bytes st) [0..<24]"
  have "?a = map (\<lambda>i. lane_array ?a (i mod 5) (i div 5)) [0..<25]"
    by (rule nth_equalityI) (simp_all add: lane_array_def del: upt.simps)
  also have "\<dots> = map (\<lambda>i. fips_keccak_f 24 (lane_array (lanes_of_bytes st)) (i mod 5) (i div 5)) [0..<25]"
    by (rule map_cong) (auto simp: keccak_rounds simp del: upt.simps)
  finally show ?thesis
    by (simp add: keccakf_def bytes_of_lanes_def o_def del: upt.simps)
qed

lemma fips_keccak_f_cong:
  "(\<And>x y. x < 5 \<Longrightarrow> y < 5 \<Longrightarrow> A x y = B x y) \<Longrightarrow> x < 5 \<Longrightarrow> y < 5 \<Longrightarrow>
    fips_keccak_f n A x y = fips_keccak_f n B x y"
  by (induction n arbitrary: x y) (auto simp: fips_keccak_f_def intro: fips_round_cong)

lemma length_keccakf [simp]: "length (keccakf st) = 200"
  by (simp add: keccakf_lanes length_concat o_def sum_list_triv)

text \<open>
  C28: the permutation of the transcript is the one of FIPS 202.  Lane \<open>(x, y)\<close> of the
  little-endian state after \<open>keccakf\<close> is lane \<open>(x, y)\<close> of the standard's 24 rounds, for every
  200-byte state.
\<close>

theorem keccakf_is_fips202:
  "keccakf st =
     concat (map (\<lambda>i. U64TO8_LE (fips_keccak_f 24 (\<lambda>x y. U8TO64_LE (drop (8 * (5 * y + x)) st)) (i mod 5) (i div 5)))
       [0..<25])"
proof -
  have "fips_keccak_f 24 (lane_array (lanes_of_bytes st)) (i mod 5) (i div 5) =
      fips_keccak_f 24 (\<lambda>x y. U8TO64_LE (drop (8 * (5 * y + x)) st)) (i mod 5) (i div 5)" if "i < 25" for i
    by (rule fips_keccak_f_cong) (use that in \<open>simp_all add: lane_array_def lanes_of_bytes_def del: upt.simps\<close>)
  then show ?thesis
    unfolding keccakf_lanes by (intro arg_cong [of _ _ concat] map_cong) simp_all
qed

end
