(* ===== verification/Returns.thy ===== *)
theory Returns
  imports Prelude "HOL-Library.Monad_Syntax"
begin

text \<open>
  Total correctness of computations in the option monad, where \<open>None\<close> is a failed assertion:
  \<open>returns P m\<close> says that \<open>m\<close> delivers a value and that the value satisfies \<open>P\<close>.  The rules
  follow the monadic structure of the definitions; \<open>ok_intros\<close> collects the contracts
  of the operations.
\<close>

definition returns :: "('a \<Rightarrow> bool) \<Rightarrow> 'a option \<Rightarrow> bool" where
  "returns P m \<longleftrightarrow> (\<exists>x. m = Some x \<and> P x)"

named_theorems ok_intros

lemma returns_Some [simp]: "returns P (Some x) \<longleftrightarrow> P x"
  by (simp add: returns_def)

lemma returns_None [simp]: "\<not> returns P None"
  by (simp add: returns_def)

lemma returns_bind: "returns P m \<Longrightarrow> (\<And>x. P x \<Longrightarrow> returns Q (f x)) \<Longrightarrow> returns Q (Option.bind m f)"
  by (auto simp: returns_def)

lemma returns_weaken: "returns P m \<Longrightarrow> (\<And>x. P x \<Longrightarrow> Q x) \<Longrightarrow> returns Q m"
  by (auto simp: returns_def)

lemma returnsE:
  assumes "returns P m"
  obtains x where "m = Some x" "P x"
  using assms by (auto simp: returns_def)

lemma returns_the: "returns P m \<Longrightarrow> m = Some x \<Longrightarrow> P x"
  by (simp add: returns_def)

lemma returns_if: "(b \<Longrightarrow> returns P m) \<Longrightarrow> (\<not> b \<Longrightarrow> returns P n) \<Longrightarrow> returns P (if b then m else n)"
  by simp

end
