(* ===== verification/Merlin_Correct.thy ===== *)
theory Merlin_Correct
  imports Keccak_Correct Returns
begin

unbundle bit_operations_syntax

text \<open>
  Strobe and Merlin.  \<open>strobe_wf\<close> is the invariant of a context: 200 bytes of state and a
  position below the rate, which keeps every array access of the code in range and the
  8-bit position from wrapping.  The three byte loops of the duplex are instances of one
  locale; the transcript and its random generator are shown to run without a failed
  assertion, and the interface the signature code relies on is the locale \<open>transcript\<close>.
\<close>

section \<open>The duplex loops\<close>

definition strobe_wf :: "merlin_strobe128 \<Rightarrow> bool" where
  "strobe_wf ctx \<longleftrightarrow> length (state_bytes ctx) = 200 \<and> pos ctx < STROBE_R"

text \<open>\<open>put\<close> combined with \<open>data\<close> into the state from position \<open>p\<close> on.\<close>

definition put_block :: "(u8 \<Rightarrow> u8 \<Rightarrow> u8) \<Rightarrow> nat \<Rightarrow> bytes \<Rightarrow> bytes \<Rightarrow> bytes" where
  "put_block put p data st =
     take p st @ map2 put (take (length data) (drop p st)) data @ drop (p + length data) st"

lemma put_block_Nil [simp]: "put_block put p [] st = st"
  by (simp add: put_block_def)

lemma length_put_block [simp]: "p + length data \<le> length st \<Longrightarrow> length (put_block put p data st) = length st"
  by (simp add: put_block_def)

lemma put_block_Cons:
  assumes "p + Suc (length data) \<le> length st"
  shows "put_block put p (d # data) st = put_block put (Suc p) data (st[p := put (st ! p) d])"
proof -
  have "drop p st = st ! p # drop (Suc p) st"
    using assms by (simp add: Cons_nth_drop_Suc)
  moreover have "take (Suc p) (st[p := put (st ! p) d]) = take p st @ [put (st ! p) d]"
    using assms by (simp add: take_Suc_conv_app_nth)
  ultimately show ?thesis
    using assms by (simp add: put_block_def)
qed

lemma nth_put_block:
  assumes "p + length data \<le> length st" "i < length st"
  shows "put_block put p data st ! i =
    (if p \<le> i \<and> i < p + length data then put (st ! i) (data ! (i - p)) else st ! i)"
  using assms by (auto simp: put_block_def nth_append)

lemma strobe128_run_f_wf [simp]: "strobe_wf (strobe128_run_f ctx)"
  by (simp add: strobe_wf_def strobe128_run_f_def Let_def STROBE_R_def)

lemma strobe128_advance_wf:
  assumes "strobe_wf ctx"
  shows "strobe_wf (strobe128_advance ctx)"
proof (cases "pos ctx + 1 = STROBE_R")
  case True
  then show ?thesis by (simp add: strobe128_advance_def)
next
  case False
  have "uint (pos ctx) < 166"
    using assms by (simp add: strobe_wf_def STROBE_R_def word_less_def)
  moreover from this have "uint (pos ctx + 1) = uint (pos ctx) + 1"
    by (simp add: uint_add_lem [THEN iffD1])
  ultimately have "pos ctx + 1 < STROBE_R"
    using False by (auto simp: STROBE_R_def word_less_def word_uint_eq_iff)
  with False assms show ?thesis
    by (simp add: strobe128_advance_def strobe_wf_def)
qed

locale duplex_loop =
  fixes loop :: "merlin_strobe128 \<Rightarrow> bytes \<Rightarrow> merlin_strobe128"
    and put :: "u8 \<Rightarrow> u8 \<Rightarrow> u8"
  assumes loop_Nil: "loop ctx [] = ctx"
    and loop_Cons: "loop ctx (d # data) =
      loop (strobe128_advance
        (ctx\<lparr>state_bytes := (state_bytes ctx)[unat (pos ctx) := put (state_bytes ctx ! unat (pos ctx)) d]\<rparr>)) data"
begin

lemma wf: "strobe_wf ctx \<Longrightarrow> strobe_wf (loop ctx data)"
proof (induction data arbitrary: ctx)
  case (Cons d data)
  have "strobe_wf (ctx\<lparr>state_bytes := (state_bytes ctx)[unat (pos ctx) := v]\<rparr>)" for v
    using Cons.prems by (simp add: strobe_wf_def)
  then show ?case
    by (simp add: loop_Cons Cons.IH strobe128_advance_wf)
qed (simp add: loop_Nil)

lemma append: "loop ctx (xs @ ys) = loop (loop ctx xs) ys"
  by (induction xs arbitrary: ctx) (simp_all add: loop_Nil loop_Cons)

text \<open>Data that does not reach the rate is combined with the state in one piece.\<close>

lemma within:
  assumes "strobe_wf ctx" "unat (pos ctx) + length data < 166"
  shows "loop ctx data =
    ctx\<lparr>state_bytes := put_block put (unat (pos ctx)) data (state_bytes ctx),
        pos := pos ctx + of_nat (length data)\<rparr>"
  using assms
proof (induction data arbitrary: ctx)
  case (Cons d data)
  let ?st = "(state_bytes ctx)[unat (pos ctx) := put (state_bytes ctx ! unat (pos ctx)) d]"
  let ?ctx = "ctx\<lparr>state_bytes := ?st, pos := pos ctx + 1\<rparr>"
  have u: "unat (pos ctx + 1) = unat (pos ctx) + 1"
    using Cons.prems(2) by (simp add: unat_add_lem [THEN iffD1])
  then have "pos ctx + 1 \<noteq> STROBE_R"
    using Cons.prems(2) by (auto simp: STROBE_R_def)
  then have "strobe128_advance (ctx\<lparr>state_bytes := ?st\<rparr>) = ?ctx"
    by (simp add: strobe128_advance_def)
  moreover have "strobe_wf ?ctx"
    using Cons.prems u by (simp add: strobe_wf_def STROBE_R_def word_less_nat_alt)
  ultimately show ?case
    using Cons.IH [of ?ctx] Cons.prems u
    by (simp add: loop_Cons strobe_wf_def put_block_Cons add.commute add.left_commute)
qed (simp add: loop_Nil)

text \<open>Data that reaches the rate exactly fills the block and runs the permutation.\<close>

lemma full_block:
  assumes "strobe_wf ctx" "unat (pos ctx) + length data = 166"
  shows "loop ctx data =
    strobe128_run_f (ctx\<lparr>state_bytes := put_block put (unat (pos ctx)) data (state_bytes ctx), pos := STROBE_R\<rparr>)"
proof -
  obtain init d where data: "data = init @ [d]"
    using assms by (cases data rule: rev_cases) (auto simp: strobe_wf_def STROBE_R_def word_less_nat_alt)
  let ?p = "unat (pos ctx)" and ?n = "length init"
  let ?st = "put_block put ?p init (state_bytes ctx)"
  have len: "length (state_bytes ctx) = 200" and n: "?p + ?n = 165"
    using assms data by (simp_all add: strobe_wf_def)
  have pos: "unat (pos ctx + of_nat ?n) = 165"
    using n by (simp add: unat_word_ariths unat_of_nat)
  then have "pos ctx + of_nat ?n + 1 = STROBE_R"
    by (simp add: STROBE_R_def word_unat_eq_iff unat_word_ariths)
  moreover have "loop ctx data = strobe128_advance (ctx\<lparr>pos := pos ctx + of_nat ?n,
      state_bytes := ?st[165 := put (?st ! 165) d]\<rparr>)"
    using within [OF assms(1), of init] n pos by (simp add: data append loop_Cons loop_Nil)
  moreover have "?st[165 := put (?st ! 165) d] = put_block put ?p data (state_bytes ctx)"
    by (rule nth_equalityI) (use len n data in \<open>auto simp: nth_put_block nth_list_update nth_append\<close>)
  ultimately show ?thesis
    by (simp add: strobe128_advance_def)
qed

end

interpretation absorb: duplex_loop strobe128_absorb "\<lambda>old d. old XOR d"
  by unfold_locales (simp_all add: xor_byte_def)

interpretation overwrite: duplex_loop strobe128_overwrite "\<lambda>old d. d"
  by unfold_locales simp_all

interpretation squeeze: duplex_loop "\<lambda>ctx data. fst (strobe128_squeeze ctx (length data))" "\<lambda>old d. 0"
  by unfold_locales (simp_all add: Let_def split: prod.split)

text \<open>The bytes a squeeze returns: those of the state, as far as the block reaches.\<close>

lemma length_squeeze [simp]: "length (snd (strobe128_squeeze ctx n)) = n"
  by (induction ctx n rule: strobe128_squeeze.induct) (simp_all add: Let_def case_prod_beta)

lemma squeeze_wf: "strobe_wf ctx \<Longrightarrow> strobe_wf (fst (strobe128_squeeze ctx n))"
  using squeeze.wf [of ctx "replicate n 0"] by simp

lemma squeeze_append:
  "strobe128_squeeze ctx (m + n) =
    (let (ctx, xs) = strobe128_squeeze ctx m; (ctx, ys) = strobe128_squeeze ctx n in (ctx, xs @ ys))"
  by (induction ctx m rule: strobe128_squeeze.induct) (simp_all add: Let_def split: prod.split)

section \<open>Operations\<close>

lemma cur_flags_step [simp]:
  "cur_flags (strobe128_run_f c) = cur_flags c" "cur_flags (strobe128_advance c) = cur_flags c"
  by (simp_all add: strobe128_run_f_def strobe128_advance_def Let_def)

lemma cur_flags_absorb [simp]: "cur_flags (strobe128_absorb c d) = cur_flags c"
  by (induction c d rule: strobe128_absorb.induct) simp_all

lemma strobe128_begin_op_new:
  assumes "strobe_wf ctx" "flags AND FLAG_T = 0"
  shows "returns (\<lambda>c. strobe_wf c \<and> cur_flags c = flags) (strobe128_begin_op ctx flags False)"
proof -
  have "strobe_wf (strobe128_absorb (ctx\<lparr>pos_begin := pos ctx + 1, cur_flags := flags\<rparr>) [pos_begin ctx, flags])"
    by (rule absorb.wf) (use assms(1) in \<open>simp add: strobe_wf_def\<close>)
  then show ?thesis
    using assms(2) by (simp add: strobe128_begin_op_def Let_def del: strobe128_absorb.simps)
qed

lemma no_flag_T:
  "(FLAG_M OR FLAG_A) AND FLAG_T = 0" "FLAG_A AND FLAG_T = 0"
  "(FLAG_I OR FLAG_A OR FLAG_C) AND FLAG_T = 0" "(FLAG_C OR FLAG_A) AND FLAG_T = 0"
  by (simp_all add: FLAG_M_def FLAG_A_def FLAG_T_def FLAG_I_def FLAG_C_def)

text \<open>A context in the middle of a metadata operation, which may be continued.\<close>

definition in_meta :: "merlin_strobe128 \<Rightarrow> bool" where
  "in_meta c \<longleftrightarrow> strobe_wf c \<and> cur_flags c = FLAG_M OR FLAG_A"

lemma in_meta_wf: "in_meta c \<Longrightarrow> strobe_wf c"
  by (simp add: in_meta_def)

lemma strobe128_meta_ad_new: "strobe_wf ctx \<Longrightarrow> returns in_meta (strobe128_meta_ad ctx data False)"
  unfolding strobe128_meta_ad_def
  by (rule returns_bind [OF strobe128_begin_op_new]) (simp_all add: no_flag_T in_meta_def absorb.wf)

lemma strobe128_meta_ad_more: "in_meta ctx \<Longrightarrow> returns in_meta (strobe128_meta_ad ctx data True)"
  by (simp add: strobe128_meta_ad_def strobe128_begin_op_def in_meta_def absorb.wf)

lemma strobe128_ad_new: "strobe_wf ctx \<Longrightarrow> returns strobe_wf (strobe128_ad ctx data False)"
  unfolding strobe128_ad_def
  by (rule returns_bind [OF strobe128_begin_op_new]) (simp_all add: no_flag_T absorb.wf)

lemma strobe128_key_new: "strobe_wf ctx \<Longrightarrow> returns strobe_wf (strobe128_key ctx data False)"
  unfolding strobe128_key_def
  by (rule returns_bind [OF strobe128_begin_op_new]) (simp_all add: no_flag_T overwrite.wf)

lemma strobe128_prf_new:
  "strobe_wf ctx \<Longrightarrow> returns (\<lambda>(c, bs). strobe_wf c \<and> length bs = n) (strobe128_prf ctx n False)"
  unfolding strobe128_prf_def
  by (rule returns_bind [OF strobe128_begin_op_new]) (simp_all add: no_flag_T squeeze_wf case_prod_beta)

lemma strobe128_init_ok: "returns in_meta (strobe128_init label)"
  unfolding strobe128_init_def Let_def
  by (rule strobe128_meta_ad_new) (simp add: strobe_wf_def STROBE_R_def)

text \<open>Continuing a metadata operation is the same as one operation on the joined data.\<close>

lemma meta_ad_continue:
  "Option.bind (strobe128_meta_ad ctx xs False) (\<lambda>c. strobe128_meta_ad c ys True) = strobe128_meta_ad ctx (xs @ ys) False"
proof (cases "strobe128_begin_op ctx (FLAG_M OR FLAG_A) False")
  case (Some c)
  moreover from this have "cur_flags c = FLAG_M OR FLAG_A"
    by (auto simp: strobe128_begin_op_def Let_def no_flag_T split: if_splits simp del: strobe128_absorb.simps)
  ultimately show ?thesis
    by (simp add: strobe128_meta_ad_def strobe128_begin_op_def absorb.append)
qed (simp add: strobe128_meta_ad_def)

section \<open>The transcript interface\<close>

text \<open>A list of labelled commitments, one after the other.\<close>

definition commit_all :: "('t \<Rightarrow> bytes \<Rightarrow> bytes \<Rightarrow> 't option) \<Rightarrow> 't \<Rightarrow> (bytes \<times> bytes) list \<Rightarrow> 't option" where
  "commit_all commit t ms = foldl (\<lambda>m (label, message). Option.bind m (\<lambda>t. commit t label message)) (Some t) ms"

locale transcript =
  fixes ready :: "'t \<Rightarrow> bool"
    and new :: "bytes \<Rightarrow> 't option"
    and commit :: "'t \<Rightarrow> bytes \<Rightarrow> bytes \<Rightarrow> 't option"
    and challenge :: "'t \<Rightarrow> bytes \<Rightarrow> nat \<Rightarrow> ('t \<times> bytes) option"
  assumes new_ok: "returns ready (new label)"
    and commit_ok: "ready t \<Longrightarrow> returns ready (commit t label message)"
    and challenge_ok: "ready t \<Longrightarrow> returns (\<lambda>(t, bs). ready t \<and> length bs = n) (challenge t label n)"
begin

lemma foldl_commit_ok:
  "returns ready m \<Longrightarrow>
    returns ready (foldl (\<lambda>m (label, message). Option.bind m (\<lambda>t. commit t label message)) m ms)"
proof (induction ms arbitrary: m)
  case (Cons lm ms)
  obtain label message where lm: "lm = (label, message)" by (cases lm)
  have "returns ready (Option.bind m (\<lambda>t. commit t label message))"
    by (rule returns_bind [OF Cons.prems commit_ok])
  then show ?case
    using Cons.IH by (simp add: lm)
qed simp

lemma commit_all_ok: "ready t \<Longrightarrow> returns ready (commit_all commit t ms)"
  unfolding commit_all_def by (rule foldl_commit_ok) simp

lemma run_ok:
  "returns (\<lambda>(t, bs). ready t \<and> length bs = n)
    (Option.bind (new domain) (\<lambda>t. Option.bind (commit_all commit t ms) (\<lambda>t. challenge t label n)))"
  by (intro returns_bind [OF new_ok] returns_bind [OF commit_all_ok] challenge_ok)

end

lemma merlin_transcript_commit_bytes_ok:
  "strobe_wf t \<Longrightarrow> returns strobe_wf (merlin_transcript_commit_bytes t label message)"
  unfolding merlin_transcript_commit_bytes_def
  by (intro returns_bind [OF strobe128_meta_ad_new] returns_bind [OF strobe128_meta_ad_more] strobe128_ad_new)
    (simp_all add: in_meta_wf)

lemma merlin_transcript_challenge_bytes_ok:
  "strobe_wf t \<Longrightarrow>
    returns (\<lambda>(t, bs). strobe_wf t \<and> length bs = n) (merlin_transcript_challenge_bytes t label n)"
  unfolding merlin_transcript_challenge_bytes_def
  by (intro returns_bind [OF strobe128_meta_ad_new] returns_bind [OF strobe128_meta_ad_more] strobe128_prf_new)
    (simp_all add: in_meta_wf)

lemma merlin_transcript_init_ok: "returns strobe_wf (merlin_transcript_init label)"
  unfolding merlin_transcript_init_def
  by (intro returns_bind [OF strobe128_init_ok] merlin_transcript_commit_bytes_ok in_meta_wf)

interpretation merlin: transcript strobe_wf merlin_transcript_init merlin_transcript_commit_bytes
    merlin_transcript_challenge_bytes
  by unfold_locales
    (rule merlin_transcript_init_ok, erule merlin_transcript_commit_bytes_ok,
     erule merlin_transcript_challenge_bytes_ok)

declare merlin.new_ok [ok_intros] merlin.commit_ok [ok_intros] merlin.challenge_ok [ok_intros]

section \<open>The witness generator\<close>

text \<open>
  The generator moves from collecting witnesses to delivering bytes once it is finalised;
  every operation asserts the phase it belongs to.
\<close>

definition rng_wf :: "merlin_rng \<Rightarrow> bool" where
  "rng_wf r \<longleftrightarrow> strobe_wf (rng_sctx r)"

lemma merlin_rng_init_ok: "strobe_wf t \<Longrightarrow> rng_wf (merlin_rng_init t) \<and> \<not> finalized (merlin_rng_init t)"
  by (simp add: rng_wf_def merlin_rng_init_def)

lemma merlin_rng_commit_ok:
  "rng_wf r \<Longrightarrow> \<not> finalized r \<Longrightarrow>
    returns (\<lambda>r. rng_wf r \<and> \<not> finalized r) (merlin_rng_commit_witness_bytes r label witness)"
  unfolding merlin_rng_commit_witness_bytes_def rng_wf_def
  by simp (intro returns_bind [OF strobe128_meta_ad_new] returns_bind [OF strobe128_meta_ad_more]
      returns_bind [OF strobe128_key_new], simp_all add: in_meta_wf)

lemma merlin_rng_finalize_ok:
  "rng_wf r \<Longrightarrow> \<not> finalized r \<Longrightarrow> returns (\<lambda>r. rng_wf r \<and> finalized r) (merlin_rng_finalize r entropy)"
  unfolding merlin_rng_finalize_def rng_wf_def
  by simp (intro returns_bind [OF strobe128_meta_ad_new] returns_bind [OF strobe128_key_new],
      simp_all add: in_meta_wf)

lemma merlin_rng_random_ok:
  "rng_wf r \<Longrightarrow> finalized r \<Longrightarrow>
    returns (\<lambda>(r, bs). rng_wf r \<and> finalized r \<and> length bs = n) (merlin_rng_random_bytes r n)"
  unfolding merlin_rng_random_bytes_def rng_wf_def
  by simp (intro returns_bind [OF strobe128_meta_ad_new] returns_bind [OF strobe128_prf_new],
      auto simp: in_meta_wf)

inductive rng_reachable :: "merlin_transcript \<Rightarrow> merlin_rng \<Rightarrow> bool" for t where
  init: "rng_reachable t (merlin_rng_init t)"
| commit: "rng_reachable t r \<Longrightarrow> merlin_rng_commit_witness_bytes r label witness = Some r' \<Longrightarrow> rng_reachable t r'"
| finalize: "rng_reachable t r \<Longrightarrow> merlin_rng_finalize r entropy = Some r' \<Longrightarrow> rng_reachable t r'"
| random: "rng_reachable t r \<Longrightarrow> merlin_rng_random_bytes r n = Some (r', bs) \<Longrightarrow> rng_reachable t r'"
| wipe: "rng_reachable t r \<Longrightarrow> rng_reachable t (merlin_rng_wipe r)"

lemma rng_reachable_wf:
  assumes "rng_reachable t r" "strobe_wf t"
  shows "rng_wf r"
  using assms
proof (induction rule: rng_reachable.induct)
  case init
  then show ?case by (simp add: merlin_rng_init_ok)
next
  case (commit r label witness r')
  then have "\<not> finalized r" by (auto simp: merlin_rng_commit_witness_bytes_def)
  with commit merlin_rng_commit_ok [of r label witness] show ?case by (simp add: returns_the)
next
  case (finalize r entropy r')
  then have "\<not> finalized r" by (auto simp: merlin_rng_finalize_def)
  with finalize merlin_rng_finalize_ok [of r entropy] show ?case by (simp add: returns_the)
next
  case (random r n r' bs)
  then have "finalized r" by (auto simp: merlin_rng_random_bytes_def split: if_splits)
  with random merlin_rng_random_ok [of r n] show ?case by (simp add: returns_the)
next
  case (wipe r)
  show ?case by (simp add: rng_wf_def merlin_rng_wipe_def strobe_wf_def STROBE_R_def)
qed

section \<open>Properties\<close>

text \<open>
  C29: absorbing.  Although \<open>strobe128_absorb\<close> works byte by byte with an 8-bit position, on a
  well-formed context it is block-wise absorption at the rate of 166 bytes: data that stays
  below the rate is combined with the state by exclusive or in one piece, and data that
  reaches it fills the block, runs the permutation once and continues with the rest.
\<close>

theorem strobe128_absorb_blockwise:
  assumes "strobe_wf ctx"
  shows "(unat (pos ctx) + length data < 166 \<longrightarrow>
      strobe128_absorb ctx data =
        ctx\<lparr>state_bytes := put_block (\<lambda>old d. old XOR d) (unat (pos ctx)) data (state_bytes ctx),
            pos := pos ctx + of_nat (length data)\<rparr>) \<and>
    (unat (pos ctx) + length data = 166 \<longrightarrow>
      strobe128_absorb ctx (data @ rest) =
        strobe128_absorb (strobe128_run_f
          (ctx\<lparr>state_bytes := put_block (\<lambda>old d. old XOR d) (unat (pos ctx)) data (state_bytes ctx),
               pos := STROBE_R\<rparr>)) rest)"
  using absorb.within [OF assms, of data] absorb.full_block [OF assms, of data] by (simp add: absorb.append)

theorem strobe128_absorb_blockwise_witness:
  "strobe128_absorb \<lparr>state_bytes = replicate 200 0, pos = 164, pos_begin = 0, cur_flags = 0\<rparr> [1, 2, 3] =
   strobe128_absorb (strobe128_run_f
     \<lparr>state_bytes = (replicate 200 0)[164 := 1, 165 := 2], pos = 166, pos_begin = 0, cur_flags = 0\<rparr>) [3]"
proof -
  let ?ctx = "\<lparr>state_bytes = replicate 200 0, pos = 164, pos_begin = 0, cur_flags = 0\<rparr> :: merlin_strobe128"
  have wf: "strobe_wf ?ctx"
    by (simp add: strobe_wf_def STROBE_R_def)
  have "put_block (\<lambda>old d. old XOR d) 164 [1, 2] (replicate 200 0) = (replicate 200 0)[164 := 1, 165 := 2]"
    by (simp add: put_block_Cons)
  then show ?thesis
    using strobe128_absorb_blockwise [OF wf, of "[1, 2]" "[3]"] by (simp add: STROBE_R_def)
qed

text \<open>
  C30: transcripts never fail.  A new transcript is well-formed, every commitment and every
  challenge on a well-formed transcript passes the assertions of the Strobe layer, keeps it
  well-formed (200 bytes, position below the rate), and a challenge delivers exactly the
  requested number of bytes; so does any protocol run composed of them.
\<close>

theorem merlin_transcript_safe:
  assumes "strobe_wf t"
  shows "returns strobe_wf (merlin_transcript_init label) \<and>
    returns strobe_wf (merlin_transcript_commit_bytes t label message) \<and>
    returns (\<lambda>(t', bs). strobe_wf t' \<and> length bs = n) (merlin_transcript_challenge_bytes t label n) \<and>
    returns (\<lambda>(t', bs). strobe_wf t' \<and> length bs = n)
      (Option.bind (merlin_transcript_init domain)
        (\<lambda>t. Option.bind (commit_all merlin_transcript_commit_bytes t ms) (\<lambda>t. merlin_transcript_challenge_bytes t label n)))"
  using assms by (simp add: merlin.new_ok merlin.commit_ok merlin.challenge_ok merlin.run_ok)

theorem merlin_transcript_safe_witness:
  "returns strobe_wf (merlin_transcript_commit_bytes
     \<lparr>state_bytes = replicate 200 0, pos = 165, pos_begin = 3, cur_flags = 0\<rparr> [1] [2])"
proof -
  have "strobe_wf \<lparr>state_bytes = replicate 200 0, pos = 165, pos_begin = 3, cur_flags = 0\<rparr>"
    by (simp add: strobe_wf_def STROBE_R_def)
  from merlin_transcript_safe [OF this, of "[1]" "[2]"] show ?thesis by blast
qed

text \<open>
  C32: the life cycle of the witness generator.  Along every sequence of operations started from
  a well-formed transcript the generator is well-formed; before it is finalised, committing and
  finalising succeed and drawing fails its assertion; afterwards drawing delivers the
  requested number of bytes while committing and finalising fail theirs.
\<close>

theorem merlin_rng_life_cycle:
  assumes "strobe_wf t" "rng_reachable t r"
  shows "rng_wf r \<and>
    (if finalized r
     then merlin_rng_commit_witness_bytes r label witness = None \<and> merlin_rng_finalize r entropy = None \<and>
       returns (\<lambda>(r', bs). rng_wf r' \<and> finalized r' \<and> length bs = n) (merlin_rng_random_bytes r n)
     else merlin_rng_random_bytes r n = None \<and>
       returns (\<lambda>r'. rng_wf r' \<and> \<not> finalized r') (merlin_rng_commit_witness_bytes r label witness) \<and>
       returns (\<lambda>r'. rng_wf r' \<and> finalized r') (merlin_rng_finalize r entropy))"
proof -
  have wf: "rng_wf r" using rng_reachable_wf [OF assms(2,1)] .
  show ?thesis
  proof (cases "finalized r")
    case True
    then show ?thesis
      using wf merlin_rng_random_ok [OF wf]
      by (simp add: merlin_rng_commit_witness_bytes_def merlin_rng_finalize_def)
  next
    case False
    then show ?thesis
      using wf merlin_rng_commit_ok [OF wf] merlin_rng_finalize_ok [OF wf]
      by (simp add: merlin_rng_random_bytes_def)
  qed
qed

theorem merlin_rng_life_cycle_witness:
  "merlin_rng_random_bytes
     (merlin_rng_init \<lparr>state_bytes = replicate 200 0, pos = 0, pos_begin = 0, cur_flags = 0\<rparr>) 32 = None"
proof -
  let ?t = "\<lparr>state_bytes = replicate 200 0, pos = 0, pos_begin = 0, cur_flags = 0\<rparr> :: merlin_strobe128"
  have "strobe_wf ?t" by (simp add: strobe_wf_def STROBE_R_def)
  from merlin_rng_life_cycle [OF this rng_reachable.init, where n = 32] show ?thesis
    by (simp add: merlin_rng_init_def)
qed

end
