(* ===== verification/Strobe_Duplex.thy ===== *)
theory Strobe_Duplex
  imports Merlin_Correct
begin

unbundle bit_operations_syntax

text \<open>
  Merlin transcripts against a specification of the protocol.  The specification works on a duplex: the 200 bytes of
  the sponge, the position in the block and the position where the current operation began, as plain numbers.  It absorbs whole
  blocks, writes the operation bytes and the length as literal little-endian bytes, and knows nothing of the flags, the 8-bit
  counters and the byte loops of the code; \<open>strobe_abs\<close> maps a context of the code to its duplex.
\<close>

section \<open>The specification\<close>

type_synonym duplex = "bytes \<times> nat \<times> nat"

text \<open>The padding of Strobe at rate 166, then Keccak-f.\<close>

definition duplex_permute :: "duplex \<Rightarrow> duplex" where
  "duplex_permute d = (case d of (st, p, b) \<Rightarrow>
     (keccakf (map (\<lambda>i. st ! i XOR (if i = p then of_nat b else 0) XOR (if i = p + 1 then 0x04 else 0) XOR
        (if i = 167 then 0x80 else 0)) [0..<200]), 0, 0))"

fun duplex_absorb :: "duplex \<Rightarrow> bytes \<Rightarrow> duplex" where
  "duplex_absorb (st, p, b) data =
     (if p < 166 \<and> 166 - p \<le> length data
      then duplex_absorb (duplex_permute (put_block (\<lambda>old d. old XOR d) p (take (166 - p) data) st, 166, b)) (drop (166 - p) data)
      else (put_block (\<lambda>old d. old XOR d) p data st, p + length data, b))"

declare duplex_absorb.simps [simp del]

text \<open>Every operation begins with two bytes: where the previous one began, and its code.\<close>

definition duplex_begin :: "u8 \<Rightarrow> duplex \<Rightarrow> duplex" where
  "duplex_begin flags d = (case d of (st, p, b) \<Rightarrow> duplex_absorb (st, p, p + 1) [of_nat b, flags])"

text \<open>
  A commitment is a metadata operation (\<open>0x12\<close>) with the label and the 32-bit little-endian length, and an
  associated-data operation (\<open>0x02\<close>) with the message.  A challenge has the same metadata, with the number of bytes wanted, and
  then a PRF operation (\<open>0x07\<close>), which permutes unless a block has just begun, hands out the first bytes and erases them.
\<close>

definition duplex_commit :: "bytes \<Rightarrow> bytes \<Rightarrow> duplex \<Rightarrow> duplex" where
  "duplex_commit label message d =
     duplex_absorb (duplex_begin 0x02 (duplex_absorb (duplex_begin 0x12 d) (label @ le_bytes 4 (int (length message))))) message"

definition duplex_challenge :: "bytes \<Rightarrow> nat \<Rightarrow> duplex \<Rightarrow> duplex \<times> bytes" where
  "duplex_challenge label n d =
     (let d = duplex_begin 0x07 (duplex_absorb (duplex_begin 0x12 d) (label @ le_bytes 4 (int n)));
          (st, p, b) = (if fst (snd d) = 0 then d else duplex_permute d)
      in ((replicate n 0 @ drop n st, n, b), take n st))"

definition duplex_init :: "bytes \<Rightarrow> duplex" where
  "duplex_init label =
     duplex_commit (map of_char ''dom-sep'') label
       (duplex_absorb
         (duplex_begin 0x12 (keccakf ([1, 168, 1, 0, 1, 96] @ map of_char ''STROBEv1.0.2'' @ replicate 182 0), 0, 0))
         (map of_char ''Merlin v1.0''))"

text \<open>The duplex of a context.\<close>

definition strobe_abs :: "merlin_strobe128 \<Rightarrow> duplex" where
  "strobe_abs ctx = (state_bytes ctx, unat (pos ctx), unat (pos_begin ctx))"

section \<open>The code refines it\<close>

lemma strobe128_run_f_refines:
  assumes "length (state_bytes ctx) = 200" "pos ctx \<le> STROBE_R"
  shows "strobe_abs (strobe128_run_f ctx) = duplex_permute (strobe_abs ctx)"
proof -
  have "unat (pos ctx) \<le> 166" using assms(2) by (simp add: word_le_nat_alt STROBE_R_def)
  then have "xor_byte (unat STROBE_R + 1) 0x80 (xor_byte (unat (pos ctx) + 1) 0x04
      (xor_byte (unat (pos ctx)) (pos_begin ctx) (state_bytes ctx))) =
    map (\<lambda>i. state_bytes ctx ! i XOR (if i = unat (pos ctx) then of_nat (unat (pos_begin ctx)) else 0) XOR
      (if i = unat (pos ctx) + 1 then 0x04 else 0) XOR (if i = 167 then 0x80 else 0)) [0..<200]"
    by (intro nth_equalityI) (use assms(1) in \<open>auto simp: xor_byte_def nth_list_update STROBE_R_def xor.assoc\<close>)
  then show ?thesis
    by (simp add: strobe_abs_def duplex_permute_def strobe128_run_f_def)
qed

lemma strobe128_absorb_refines:
  "strobe_wf ctx \<Longrightarrow> strobe_abs (strobe128_absorb ctx data) = duplex_absorb (strobe_abs ctx) data"
proof (induction "length data" arbitrary: ctx data rule: less_induct)
  case less
  let ?k = "166 - unat (pos ctx)"
  have p: "unat (pos ctx) < 166" and len: "length (state_bytes ctx) = 200"
    using less.prems by (simp_all add: strobe_wf_def STROBE_R_def word_less_nat_alt)
  show ?case
  proof (cases "?k \<le> length data")
    case True
    let ?ctx = "ctx\<lparr>state_bytes := put_block (\<lambda>old d. old XOR d) (unat (pos ctx)) (take ?k data) (state_bytes ctx), pos := STROBE_R\<rparr>"
    have "strobe128_absorb ctx data = strobe128_absorb (strobe128_absorb ctx (take ?k data)) (drop ?k data)"
      by (simp flip: absorb.append)
    also have "strobe128_absorb ctx (take ?k data) = strobe128_run_f ?ctx"
      by (rule absorb.full_block) (use less.prems True p in simp_all)
    finally have "strobe_abs (strobe128_absorb ctx data) = duplex_absorb (strobe_abs (strobe128_run_f ?ctx)) (drop ?k data)"
      using less.hyps [of "drop ?k data" "strobe128_run_f ?ctx"] True p by simp
    moreover have "strobe_abs (strobe128_run_f ?ctx) = duplex_permute (strobe_abs ?ctx)"
      by (rule strobe128_run_f_refines) (use len p True in simp_all)
    ultimately show ?thesis
      using True p by (simp add: strobe_abs_def duplex_absorb.simps [of _ "unat (pos ctx)"] STROBE_R_def)
  next
    case False
    then have "unat (pos ctx) + length data < 166" by simp
    moreover from this have "unat (pos ctx + of_nat (length data)) = unat (pos ctx) + length data"
      by (simp add: unat_word_ariths unat_of_nat)
    ultimately show ?thesis
      using absorb.within [OF less.prems, of data] False by (simp add: strobe_abs_def duplex_absorb.simps)
  qed
qed

lemma strobe128_begin_op_refines:
  assumes "strobe_wf ctx" "flags AND FLAG_T = 0"
  obtains c where "strobe128_begin_op ctx flags False = Some c" "strobe_wf c" "cur_flags c = flags"
    "strobe_abs c = (let d = duplex_begin flags (strobe_abs ctx)
      in if flags AND (FLAG_C OR FLAG_K) \<noteq> 0 \<and> fst (snd d) \<noteq> 0 then duplex_permute d else d)"
proof -
  let ?ctx = "ctx\<lparr>pos_begin := pos ctx + 1, cur_flags := flags\<rparr>"
  define c where "c = strobe128_absorb ?ctx [pos_begin ctx, flags]"
  have wf: "strobe_wf ?ctx" using assms(1) by (simp add: strobe_wf_def)
  then have c: "strobe_wf c" "cur_flags c = flags" unfolding c_def by (simp_all add: absorb.wf del: strobe128_absorb.simps)
  have "unat (pos ctx + 1) = unat (pos ctx) + 1"
    using assms(1) by (simp add: strobe_wf_def STROBE_R_def word_less_nat_alt unat_word_ariths)
  then have abs: "strobe_abs c = duplex_begin flags (strobe_abs ctx)"
    unfolding c_def strobe128_absorb_refines [OF wf] by (simp add: duplex_begin_def strobe_abs_def)
  have run: "strobe_abs (strobe128_run_f c) = duplex_permute (strobe_abs c)"
    by (rule strobe128_run_f_refines) (use c(1) in \<open>simp_all add: strobe_wf_def less_imp_le\<close>)
  have zero: "fst (snd (strobe_abs c)) \<noteq> 0 \<longleftrightarrow> pos c \<noteq> 0" by (simp add: strobe_abs_def unat_eq_zero)
  show ?thesis
    by (rule that [of "if flags AND (FLAG_C OR FLAG_K) \<noteq> 0 \<and> pos c \<noteq> 0 then strobe128_run_f c else c"])
      (use assms(2) c run zero in \<open>simp_all add: strobe128_begin_op_def c_def [symmetric] abs [symmetric] del: strobe128_absorb.simps\<close>)
qed

lemma length_bytes4_le: "length_bytes4 n = le_bytes 4 (int n)"
proof -
  have "length_bytes4 n = take 4 (le_bytes (4 + 4) (int n mod 256 ^ (4 + 4)))"
    by (simp add: length_bytes4_def U64TO8_LE_le_bytes unsigned_of_nat take_bit_eq_mod zmod_int)
  also have "\<dots> = take 4 (le_bytes (4 + 4) (int n))" by (simp only: le_bytes_mod)
  finally show ?thesis by (simp only: le_bytes_append) simp
qed

lemma flag_literals: "FLAG_M OR FLAG_A = 0x12" "FLAG_A = 0x02" "FLAG_I OR FLAG_A OR FLAG_C = 0x07"
  "0x12 AND (FLAG_C OR FLAG_K) = 0" "0x02 AND (FLAG_C OR FLAG_K) = 0" "0x07 AND (FLAG_C OR FLAG_K) \<noteq> 0"
  by (simp_all add: FLAG_M_def FLAG_A_def FLAG_I_def FLAG_C_def FLAG_K_def)

lemma strobe128_meta_ad_refines:
  assumes "strobe_wf ctx"
  obtains c where "strobe128_meta_ad ctx data False = Some c" "strobe_wf c"
    "strobe_abs c = duplex_absorb (duplex_begin 0x12 (strobe_abs ctx)) data"
proof (rule strobe128_begin_op_refines [OF assms no_flag_T(1)])
  fix c assume "strobe128_begin_op ctx (FLAG_M OR FLAG_A) False = Some c" "strobe_wf c"
    "strobe_abs c = (let d = duplex_begin (FLAG_M OR FLAG_A) (strobe_abs ctx)
      in if (FLAG_M OR FLAG_A) AND (FLAG_C OR FLAG_K) \<noteq> 0 \<and> fst (snd d) \<noteq> 0 then duplex_permute d else d)"
  then show ?thesis
    by (intro that [of "strobe128_absorb c data"])
      (simp_all add: strobe128_meta_ad_def absorb.wf strobe128_absorb_refines flag_literals(1,4))
qed

lemma framed_meta_refines:
  assumes "strobe_wf t"
  obtains c where "Option.bind (strobe128_meta_ad t label False) (\<lambda>c. strobe128_meta_ad c (length_bytes4 n) True) = Some c"
    "strobe_wf c" "strobe_abs c = duplex_absorb (duplex_begin 0x12 (strobe_abs t)) (label @ le_bytes 4 (int n))"
  unfolding meta_ad_continue length_bytes4_le by (rule strobe128_meta_ad_refines [OF assms])

lemma strobe128_squeeze_bytes:
  "strobe_wf ctx \<Longrightarrow> unat (pos ctx) + n < 166 \<Longrightarrow>
    snd (strobe128_squeeze ctx n) = take n (drop (unat (pos ctx)) (state_bytes ctx))"
proof (induction n arbitrary: ctx)
  case (Suc n)
  let ?st = "(state_bytes ctx)[unat (pos ctx) := 0]"
  have u: "unat (pos ctx + 1) = unat (pos ctx) + 1"
    using Suc.prems(2) by (simp add: unat_word_ariths)
  then have "pos ctx + 1 \<noteq> STROBE_R" using Suc.prems(2) by (auto simp: STROBE_R_def)
  then have adv: "strobe128_advance (ctx\<lparr>state_bytes := ?st\<rparr>) = ctx\<lparr>state_bytes := ?st, pos := pos ctx + 1\<rparr>"
    by (simp add: strobe128_advance_def)
  moreover have "strobe_wf (ctx\<lparr>state_bytes := ?st, pos := pos ctx + 1\<rparr>)"
    using Suc.prems u by (simp add: strobe_wf_def STROBE_R_def word_less_nat_alt)
  ultimately have "snd (strobe128_squeeze ctx (Suc n)) =
      state_bytes ctx ! unat (pos ctx) # take n (drop (Suc (unat (pos ctx))) (state_bytes ctx))"
    using Suc.IH [of "ctx\<lparr>state_bytes := ?st, pos := pos ctx + 1\<rparr>"] Suc.prems(2) u
    by (simp add: Let_def case_prod_beta)
  moreover have "unat (pos ctx) < length (state_bytes ctx)" using Suc.prems by (simp add: strobe_wf_def)
  ultimately show ?case by (simp add: Cons_nth_drop_Suc [symmetric])
qed simp

lemma strobe128_squeeze_refines:
  assumes "strobe_wf ctx" "pos ctx = 0" "n < 166"
  shows "map_prod strobe_abs id (strobe128_squeeze ctx n) =
    ((replicate n 0 @ drop n (state_bytes ctx), n, unat (pos_begin ctx)), take n (state_bytes ctx))"
proof -
  have "put_block (\<lambda>old d. 0) 0 (replicate n 0) (state_bytes ctx) = replicate n 0 @ drop n (state_bytes ctx)"
    by (rule nth_equalityI) (use assms in \<open>auto simp: strobe_wf_def nth_put_block nth_append\<close>)
  then have "strobe_abs (fst (strobe128_squeeze ctx n)) = (replicate n 0 @ drop n (state_bytes ctx), n, unat (pos_begin ctx))"
    using squeeze.within [OF assms(1), of "replicate n 0"] assms(2,3) by (simp add: strobe_abs_def unat_of_nat)
  moreover have "snd (strobe128_squeeze ctx n) = take n (state_bytes ctx)"
    using strobe128_squeeze_bytes [OF assms(1), of n] assms(2,3) by simp
  ultimately show ?thesis by (simp add: map_prod_def case_prod_beta)
qed

lemma merlin_transcript_commit_refines:
  assumes "strobe_wf t"
  shows "map_option strobe_abs (merlin_transcript_commit_bytes t label message) = Some (duplex_commit label message (strobe_abs t))"
proof -
  obtain c where c: "Option.bind (strobe128_meta_ad t label False) (\<lambda>c. strobe128_meta_ad c (length_bytes4 (length message)) True) = Some c"
    "strobe_wf c" "strobe_abs c = duplex_absorb (duplex_begin 0x12 (strobe_abs t)) (label @ le_bytes 4 (int (length message)))"
    by (rule framed_meta_refines [OF assms])
  obtain b where b: "strobe128_begin_op c FLAG_A False = Some b" "strobe_wf b" "strobe_abs b = duplex_begin 0x02 (strobe_abs c)"
    by (rule strobe128_begin_op_refines [OF c(2) no_flag_T(2)]) (simp add: flag_literals(2,5))
  have "merlin_transcript_commit_bytes t label message = strobe128_ad c message False"
    using c(1) by (auto simp: merlin_transcript_commit_bytes_def split: bind_splits)
  then show ?thesis
    using b by (simp add: strobe128_ad_def strobe128_absorb_refines duplex_commit_def c(3))
qed

lemma merlin_transcript_challenge_refines:
  assumes "strobe_wf t" "n < 166"
  shows "map_option (map_prod strobe_abs id) (merlin_transcript_challenge_bytes t label n) = Some (duplex_challenge label n (strobe_abs t))"
proof -
  obtain c where c: "Option.bind (strobe128_meta_ad t label False) (\<lambda>c. strobe128_meta_ad c (length_bytes4 n) True) = Some c"
    "strobe_wf c" "strobe_abs c = duplex_absorb (duplex_begin 0x12 (strobe_abs t)) (label @ le_bytes 4 (int n))"
    by (rule framed_meta_refines [OF assms(1)])
  obtain b where b: "strobe128_begin_op c (FLAG_I OR FLAG_A OR FLAG_C) False = Some b" "strobe_wf b"
    "strobe_abs b = (let d = duplex_begin 0x07 (strobe_abs c) in if fst (snd d) \<noteq> 0 then duplex_permute d else d)"
    by (rule strobe128_begin_op_refines [OF c(2) no_flag_T(3)]) (simp add: flag_literals(3,6))
  have "fst (snd (strobe_abs b)) = 0" by (simp add: b(3) Let_def duplex_permute_def split: prod.split)
  then have zero: "pos b = 0" by (simp add: strobe_abs_def unat_eq_zero)
  have "merlin_transcript_challenge_bytes t label n = strobe128_prf c n False"
    using c(1) by (auto simp: merlin_transcript_challenge_bytes_def split: bind_splits)
  then show ?thesis
    using b(1,3) strobe128_squeeze_refines [OF b(2) zero assms(2)]
    by (auto simp: strobe128_prf_def duplex_challenge_def c(3) [symmetric] strobe_abs_def [of b] Let_def split: prod.split)
qed

lemma merlin_transcript_init_refines:
  "map_option strobe_abs (merlin_transcript_init label) = Some (duplex_init label)"
proof -
  let ?st = "keccakf ([1, 168, 1, 0, 1, 96] @ map of_char ''STROBEv1.0.2'' @ replicate 182 0)"
  let ?t = "\<lparr>state_bytes = ?st, pos = 0, pos_begin = 0, cur_flags = 0\<rparr> :: merlin_strobe128"
  have init: "strobe128_init l = strobe128_meta_ad ?t l False" for l by (simp add: strobe128_init_def)
  have "strobe_wf ?t" by (simp add: strobe_wf_def STROBE_R_def)
  then obtain c where c: "strobe128_init (map of_char ''Merlin v1.0'') = Some c" "strobe_wf c"
    "strobe_abs c = duplex_absorb (duplex_begin 0x12 (strobe_abs ?t)) (map of_char ''Merlin v1.0'')"
    unfolding init by (rule strobe128_meta_ad_refines)
  have "merlin_transcript_init label = merlin_transcript_commit_bytes c (map of_char ''dom-sep'') label"
    unfolding merlin_transcript_init_def ascii_def c(1) by simp
  moreover have "strobe_abs c = duplex_absorb (duplex_begin 0x12 (?st, 0, 0)) (map of_char ''Merlin v1.0'')"
    unfolding c(3) by (simp only: strobe_abs_def merlin_strobe128.simps unat_0)
  ultimately show ?thesis
    unfolding duplex_init_def using merlin_transcript_commit_refines [OF c(2)] by (simp only:)
qed

section \<open>Properties\<close>

text \<open>
  C31: the framing of transcripts.  On a well-formed context a new transcript, a commitment and a challenge of up to 165 bytes are
  those of the specification: the protocol names, the label and the 32-bit little-endian length form one metadata
  operation although two calls write them, the message or the drawn bytes follow in an operation of their own, and no
  assertion fails.
\<close>

theorem merlin_commit_framing:
  assumes "strobe_wf t" "n < 166"
  shows "map_option strobe_abs (merlin_transcript_init label) = Some (duplex_init label) \<and>
    map_option strobe_abs (merlin_transcript_commit_bytes t label message) = Some (duplex_commit label message (strobe_abs t)) \<and>
    map_option (map_prod strobe_abs id) (merlin_transcript_challenge_bytes t label n) = Some (duplex_challenge label n (strobe_abs t))"
  using assms by (intro conjI merlin_transcript_init_refines merlin_transcript_commit_refines merlin_transcript_challenge_refines)

theorem merlin_commit_framing_witness:
  "map_option strobe_abs (merlin_transcript_commit_bytes
      \<lparr>state_bytes = replicate 200 0, pos = 0, pos_begin = 0, cur_flags = 0\<rparr> [1] [9, 8]) =
    Some ([0, 0x12, 1, 2, 0, 0, 0, 1, 2, 9, 8] @ replicate 189 0, 11, 8)"
proof -
  let ?t = "\<lparr>state_bytes = replicate 200 0, pos = 0, pos_begin = 0, cur_flags = 0\<rparr> :: merlin_strobe128"
  have "strobe_wf ?t" by (simp add: strobe_wf_def STROBE_R_def)
  from merlin_commit_framing [OF this, of 32 "[1]" "[9, 8]"]
  have run: "map_option strobe_abs (merlin_transcript_commit_bytes ?t [1] [9, 8]) =
      Some (duplex_commit [1] [9, 8] (replicate 200 0, 0, 0))"
    by (simp add: strobe_abs_def)
  have bytes: "le_bytes 4 2 = [2, 0, 0, 0]" "replicate 5 (0 :: u8) = [0, 0, 0, 0, 0]"
    by (simp_all add: eval_nat_numeral)
  have spec: "duplex_commit [1] [9, 8] (replicate 200 0, 0, 0) = ([0, 0x12, 1, 2, 0, 0, 0, 1, 2, 9, 8] @ replicate 189 0, 11, 8)"
    by (simp add: duplex_commit_def duplex_begin_def duplex_absorb.simps put_block_def bytes)
  show ?thesis using run spec by simp
qed
end
