(* ===== verification/Edwards.thy ===== *)
theory Edwards
  imports Field_Pow Modm
begin

unbundle bit_operations_syntax

text \<open>
  Points of the twisted Edwards curve \<open>-x\<^sup>2 + y\<^sup>2 = 1 + d x\<^sup>2 y\<^sup>2\<close>: the structures of
  \<open>ed25519-donna.h\<close>, the curve constants of \<open>ed25519-donna-64bit-tables.h\<close> and the operations of
  \<open>ed25519-donna-impl-base.h\<close>.  A C function that fills a structure through a pointer is a
  function that returns it; a local that is reassigned is a shadowing \<open>let\<close>.
\<close>

section \<open>Structures and constants\<close>

record ge25519 =
  ge_x :: bignum25519
  ge_y :: bignum25519
  ge_z :: bignum25519
  ge_t :: bignum25519

record ge25519_p1p1 =
  pp_x :: bignum25519
  pp_y :: bignum25519
  pp_z :: bignum25519
  pp_t :: bignum25519

record ge25519_niels =
  n_ysubx :: bignum25519
  n_xaddy :: bignum25519
  n_t2d :: bignum25519

record ge25519_pniels =
  pn_ysubx :: bignum25519
  pn_xaddy :: bignum25519
  pn_z :: bignum25519
  pn_t2d :: bignum25519

definition ge25519_basepoint :: ge25519 where
  "ge25519_basepoint =
     \<lparr>ge_x = Fe 0x00062d608f25d51a 0x000412a4b4f6592a 0x00075b7171a4b31d 0x0001ff60527118fe 0x000216936d3cd6e5,
      ge_y = Fe 0x0006666666666658 0x0004cccccccccccc 0x0001999999999999 0x0003333333333333 0x0006666666666666,
      ge_z = Fe 0x0000000000000001 0 0 0 0,
      ge_t = Fe 0x00068ab3a5b7dda3 0x00000eea2a5eadbb 0x0002af8df483c27e 0x000332b375274732 0x00067875f0fd78b7\<rparr>"

definition ge25519_ecd :: bignum25519 where
  "ge25519_ecd = Fe 0x00034dca135978a3 0x0001a8283b156ebd 0x0005e7a26001c029 0x000739c663a03cbb 0x00052036cee2b6ff"

definition ge25519_ec2d :: bignum25519 where
  "ge25519_ec2d = Fe 0x00069b9426b2f159 0x00035050762add7a 0x0003cf44c0038052 0x0006738cc7407977 0x0002406d9dc56dff"

definition ge25519_sqrtneg1 :: bignum25519 where
  "ge25519_sqrtneg1 = Fe 0x00061b274a0ea0b0 0x0000d5a5fc8f189d 0x0007ef5e9cbd0c60 0x00078595a6804c9e 0x0002b8324804fc1d"

text \<open>
  \<open>ed25519_verify\<close>, the constant-time comparison: the or of the bytewise differences is a
  \<open>size_t\<close>, and \<open>(differentbits - 1) >> 8\<close> has its low bit set only when it was zero.
\<close>

fun ed25519_verify_loop :: "bytes \<Rightarrow> bytes \<Rightarrow> nat \<Rightarrow> u64 \<Rightarrow> u64" where
  "ed25519_verify_loop x y 0 differentbits = differentbits"
| "ed25519_verify_loop x y (Suc len) differentbits =
     ed25519_verify_loop (tl x) (tl y) len (differentbits OR ucast (hd x XOR hd y))"

definition ed25519_verify :: "bytes \<Rightarrow> bytes \<Rightarrow> nat \<Rightarrow> u64" where
  "ed25519_verify x y len = 1 AND drop_bit 8 (ed25519_verify_loop x y len 0 - 1)"

section \<open>Conversions\<close>

text \<open>
  \<open>ge25519_p1p1_to_partial\<close> leaves the field \<open>t\<close> of its target as it was, so the old target
  is an argument.
\<close>

definition ge25519_p1p1_to_partial :: "ge25519 \<Rightarrow> ge25519_p1p1 \<Rightarrow> ge25519" where
  "ge25519_p1p1_to_partial r p =
     r\<lparr>ge_x := curve25519_mul (pp_x p) (pp_t p),
       ge_y := curve25519_mul (pp_y p) (pp_z p),
       ge_z := curve25519_mul (pp_z p) (pp_t p)\<rparr>"

definition ge25519_p1p1_to_full :: "ge25519_p1p1 \<Rightarrow> ge25519" where
  "ge25519_p1p1_to_full p =
     \<lparr>ge_x = curve25519_mul (pp_x p) (pp_t p),
      ge_y = curve25519_mul (pp_y p) (pp_z p),
      ge_z = curve25519_mul (pp_z p) (pp_t p),
      ge_t = curve25519_mul (pp_x p) (pp_y p)\<rparr>"

definition ge25519_full_to_pniels :: "ge25519 \<Rightarrow> ge25519_pniels" where
  "ge25519_full_to_pniels r =
     \<lparr>pn_ysubx = curve25519_sub (ge_y r) (ge_x r),
      pn_xaddy = curve25519_add (ge_y r) (ge_x r),
      pn_z = curve25519_copy (ge_z r),
      pn_t2d = curve25519_mul (ge_t r) ge25519_ec2d\<rparr>"

section \<open>Adding and doubling\<close>

definition ge25519_add_p1p1 :: "ge25519 \<Rightarrow> ge25519 \<Rightarrow> ge25519_p1p1" where
  "ge25519_add_p1p1 p q =
     (let a = curve25519_sub (ge_y p) (ge_x p);
          b = curve25519_add (ge_y p) (ge_x p);
          t = curve25519_sub (ge_y q) (ge_x q);
          u = curve25519_add (ge_y q) (ge_x q);
          a = curve25519_mul a t;
          b = curve25519_mul b u;
          c = curve25519_mul (ge_t p) (ge_t q);
          c = curve25519_mul c ge25519_ec2d;
          d = curve25519_mul (ge_z p) (ge_z q);
          d = curve25519_add d d
      in \<lparr>pp_x = curve25519_sub b a,
          pp_y = curve25519_add b a,
          pp_z = curve25519_add_after_basic d c,
          pp_t = curve25519_sub_after_basic d c\<rparr>)"

definition ge25519_double_p1p1 :: "ge25519 \<Rightarrow> ge25519_p1p1" where
  "ge25519_double_p1p1 p =
     (let a = curve25519_square (ge_x p);
          b = curve25519_square (ge_y p);
          c = curve25519_square (ge_z p);
          c = curve25519_add_reduce c c;
          rx = curve25519_add (ge_x p) (ge_y p);
          rx = curve25519_square rx;
          ry = curve25519_add b a;
          rz = curve25519_sub b a;
          rx = curve25519_sub_after_basic rx ry;
          rt = curve25519_sub_after_basic c rz
      in \<lparr>pp_x = rx, pp_y = ry, pp_z = rz, pp_t = rt\<rparr>)"

text \<open>
  The two mixed additions read the operand and write the result as an array of field
  elements, with \<open>signbit\<close> (0 or 1) in the index.
\<close>

definition p1p1_of_array :: "bignum25519 list \<Rightarrow> ge25519_p1p1" where
  "p1p1_of_array rb = \<lparr>pp_x = rb ! 0, pp_y = rb ! 1, pp_z = rb ! 2, pp_t = rb ! 3\<rparr>"

definition ge25519_nielsadd2_p1p1 :: "ge25519 \<Rightarrow> ge25519_niels \<Rightarrow> u8 \<Rightarrow> ge25519_p1p1" where
  "ge25519_nielsadd2_p1p1 p q signbit =
     (let qb = [n_ysubx q, n_xaddy q, n_t2d q];
          s = unat signbit; s1 = unat (signbit XOR 1);
          a = curve25519_sub (ge_y p) (ge_x p);
          b = curve25519_add (ge_y p) (ge_x p);
          a = curve25519_mul a (qb ! s);
          rx = curve25519_mul b (qb ! s1);
          ry = curve25519_add rx a;
          rx = curve25519_sub rx a;
          c = curve25519_mul (ge_t p) (n_t2d q);
          rt = curve25519_add_reduce (ge_z p) (ge_z p);
          rz = curve25519_copy rt;
          rb = [rx, ry, rz, rt];
          rb = rb[2 + s := curve25519_add (rb ! (2 + s)) c];
          rb = rb[2 + s1 := curve25519_sub (rb ! (2 + s1)) c]
      in p1p1_of_array rb)"

definition ge25519_pnielsadd_p1p1 :: "ge25519 \<Rightarrow> ge25519_pniels \<Rightarrow> u8 \<Rightarrow> ge25519_p1p1" where
  "ge25519_pnielsadd_p1p1 p q signbit =
     (let qb = [pn_ysubx q, pn_xaddy q, pn_z q, pn_t2d q];
          s = unat signbit; s1 = unat (signbit XOR 1);
          a = curve25519_sub (ge_y p) (ge_x p);
          b = curve25519_add (ge_y p) (ge_x p);
          a = curve25519_mul a (qb ! s);
          rx = curve25519_mul b (qb ! s1);
          ry = curve25519_add rx a;
          rx = curve25519_sub rx a;
          c = curve25519_mul (ge_t p) (pn_t2d q);
          rt = curve25519_mul (ge_z p) (pn_z q);
          rt = curve25519_add_reduce rt rt;
          rz = curve25519_copy rt;
          rb = [rx, ry, rz, rt];
          rb = rb[2 + s := curve25519_add (rb ! (2 + s)) c];
          rb = rb[2 + s1 := curve25519_sub (rb ! (2 + s1)) c]
      in p1p1_of_array rb)"

definition ge25519_double_partial :: "ge25519 \<Rightarrow> ge25519 \<Rightarrow> ge25519" where
  "ge25519_double_partial r p = ge25519_p1p1_to_partial r (ge25519_double_p1p1 p)"

definition ge25519_double :: "ge25519 \<Rightarrow> ge25519" where
  "ge25519_double p = ge25519_p1p1_to_full (ge25519_double_p1p1 p)"

definition ge25519_add :: "ge25519 \<Rightarrow> ge25519 \<Rightarrow> ge25519" where
  "ge25519_add p q = ge25519_p1p1_to_full (ge25519_add_p1p1 p q)"

definition ge25519_nielsadd2 :: "ge25519 \<Rightarrow> ge25519_niels \<Rightarrow> ge25519" where
  "ge25519_nielsadd2 r q =
     (let a = curve25519_sub (ge_y r) (ge_x r);
          b = curve25519_add (ge_y r) (ge_x r);
          a = curve25519_mul a (n_ysubx q);
          e = curve25519_mul b (n_xaddy q);
          h = curve25519_add e a;
          e = curve25519_sub e a;
          c = curve25519_mul (ge_t r) (n_t2d q);
          f = curve25519_add (ge_z r) (ge_z r);
          g = curve25519_add_after_basic f c;
          f = curve25519_sub_after_basic f c
      in \<lparr>ge_x = curve25519_mul e f, ge_y = curve25519_mul h g,
          ge_z = curve25519_mul g f, ge_t = curve25519_mul e h\<rparr>)"

definition ge25519_pnielsadd :: "ge25519 \<Rightarrow> ge25519_pniels \<Rightarrow> ge25519_pniels" where
  "ge25519_pnielsadd p q =
     (let a = curve25519_sub (ge_y p) (ge_x p);
          b = curve25519_add (ge_y p) (ge_x p);
          a = curve25519_mul a (pn_ysubx q);
          x = curve25519_mul b (pn_xaddy q);
          y = curve25519_add x a;
          x = curve25519_sub x a;
          c = curve25519_mul (ge_t p) (pn_t2d q);
          t = curve25519_mul (ge_z p) (pn_z q);
          t = curve25519_add t t;
          z = curve25519_add_after_basic t c;
          t = curve25519_sub_after_basic t c;
          r_xaddy = curve25519_mul x t;
          r_ysubx = curve25519_mul y z;
          r_z = curve25519_mul z t;
          r_t2d = curve25519_mul x y;
          y = curve25519_copy r_ysubx;
          r_ysubx = curve25519_sub r_ysubx r_xaddy;
          r_xaddy = curve25519_add r_xaddy y;
          r_t2d = curve25519_mul r_t2d ge25519_ec2d
      in \<lparr>pn_ysubx = r_ysubx, pn_xaddy = r_xaddy, pn_z = r_z, pn_t2d = r_t2d\<rparr>)"

section \<open>Pack and unpack\<close>

definition ge25519_pack :: "ge25519 \<Rightarrow> bytes" where
  "ge25519_pack p =
     (let zi = curve25519_recip (ge_z p);
          tx = curve25519_mul (ge_x p) zi;
          ty = curve25519_mul (ge_y p) zi;
          r = curve25519_contract ty;
          parity = curve25519_contract tx
      in r[31 := (r ! 31) XOR push_bit 7 (parity ! 0 AND 1)])"

text \<open>
  \<open>ge25519_unpack_negative_vartime\<close> returns 0 when neither candidate root works (the target
  is then partly written, and no caller reads it): \<open>None\<close>.
\<close>

definition ge25519_unpack_negative_vartime :: "bytes \<Rightarrow> ge25519 option" where
  "ge25519_unpack_negative_vartime p =
     (let zero = replicate 32 (0 :: u8);
          one = Fe 1 0 0 0 0;
          parity = drop_bit 7 (p ! 31);
          ry = curve25519_expand p;
          rz = curve25519_copy one;
          num = curve25519_square ry;
          den = curve25519_mul num ge25519_ecd;
          num = curve25519_sub_reduce num rz;
          den = curve25519_add den rz;
          t = curve25519_square den;
          d3 = curve25519_mul t den;
          rx = curve25519_square d3;
          rx = curve25519_mul rx den;
          rx = curve25519_mul rx num;
          rx = curve25519_pow_two252m3 rx;
          rx = curve25519_mul rx d3;
          rx = curve25519_mul rx num;
          t = curve25519_square rx;
          t = curve25519_mul t den;
          root = curve25519_sub_reduce t num;
          check = curve25519_contract root;
          rx = (if ed25519_verify check zero 32 = 0
                then let t = curve25519_add_reduce t num; check = curve25519_contract t
                     in if ed25519_verify check zero 32 = 0 then None
                        else Some (curve25519_mul rx ge25519_sqrtneg1)
                else Some rx)
      in case rx of
           None \<Rightarrow> None
         | Some rx \<Rightarrow>
             let check = curve25519_contract rx;
                 rx = (if check ! 0 AND 1 = parity then curve25519_neg (curve25519_copy rx) else rx)
             in Some \<lparr>ge_x = rx, ge_y = ry, ge_z = rz, ge_t = curve25519_mul rx ry\<rparr>)"

section \<open>Scalar multiplications\<close>

definition S1_SWINDOWSIZE :: nat where "S1_SWINDOWSIZE = 5"
definition S1_TABLE_SIZE :: nat where "S1_TABLE_SIZE = 2 ^ (S1_SWINDOWSIZE - 2)"
definition S2_SWINDOWSIZE :: nat where "S2_SWINDOWSIZE = 7"
definition S2_TABLE_SIZE :: nat where "S2_TABLE_SIZE = 2 ^ (S2_SWINDOWSIZE - 2)"

definition ge25519_neutral :: ge25519 where
  "ge25519_neutral = \<lparr>ge_x = Fe 0 0 0 0 0, ge_y = Fe 1 0 0 0 0, ge_z = Fe 1 0 0 0 0, ge_t = Fe 0 0 0 0 0\<rparr>"

text \<open>The sign of a digit as the code extracts it, \<open>(unsigned char)d >> 7\<close>.\<close>

definition digit_signbit :: "int \<Rightarrow> u8" where
  "digit_signbit d = drop_bit 7 (word_of_int d)"

text \<open>The table of odd multiples \<open>p1, 3 p1, 5 p1, \<dots>\<close> built from the double \<open>d1\<close>.\<close>

fun odd_multiples :: "ge25519 \<Rightarrow> ge25519_pniels \<Rightarrow> nat \<Rightarrow> ge25519_pniels list" where
  "odd_multiples d1 q 0 = []"
| "odd_multiples d1 q (Suc n) = q # odd_multiples d1 (ge25519_pnielsadd d1 q) n"

text \<open>
  The main loop runs from index \<open>i - 1\<close> down to 0; its state is the accumulator \<open>r\<close> and the
  temporary \<open>t\<close>, whose last value supplies the extended coordinate of the result.  \<open>t\<close> is
  uninitialised before the first iteration: its value is the argument \<open>t_uninit\<close>, which
  reaches the result only when both digit arrays are zero.
\<close>

definition double_scalarmult_step ::
    "ge25519_pniels list \<Rightarrow> ge25519_niels list \<Rightarrow> int \<Rightarrow> int \<Rightarrow> ge25519 \<Rightarrow> ge25519 \<times> ge25519_p1p1" where
  "double_scalarmult_step pre1 table d1 d2 r =
     (let t = ge25519_double_p1p1 r;
          (r, t) = (if d1 \<noteq> 0
                    then let r = ge25519_p1p1_to_full t
                         in (r, ge25519_pnielsadd_p1p1 r (pre1 ! (nat \<bar>d1\<bar> div 2)) (digit_signbit d1))
                    else (r, t));
          (r, t) = (if d2 \<noteq> 0
                    then let r = ge25519_p1p1_to_full t
                         in (r, ge25519_nielsadd2_p1p1 r (table ! (nat \<bar>d2\<bar> div 2)) (digit_signbit d2))
                    else (r, t))
      in (ge25519_p1p1_to_partial r t, t))"

fun double_scalarmult_loop ::
    "ge25519_pniels list \<Rightarrow> ge25519_niels list \<Rightarrow> int list \<Rightarrow> int list \<Rightarrow> nat
      \<Rightarrow> ge25519 \<times> ge25519_p1p1 \<Rightarrow> ge25519 \<times> ge25519_p1p1" where
  "double_scalarmult_loop pre1 table slide1 slide2 0 st = st"
| "double_scalarmult_loop pre1 table slide1 slide2 (Suc i) st =
     double_scalarmult_loop pre1 table slide1 slide2 i
       (double_scalarmult_step pre1 table (slide1 ! i) (slide2 ! i) (fst st))"

text \<open>\<open>while ((i >= 0) && !(slide1[i] | slide2[i])) i--\<close>: the number of positions left.\<close>

fun skip_zero_digits :: "int list \<Rightarrow> int list \<Rightarrow> nat \<Rightarrow> nat" where
  "skip_zero_digits slide1 slide2 0 = 0"
| "skip_zero_digits slide1 slide2 (Suc i) =
     (if slide1 ! i = 0 \<and> slide2 ! i = 0 then skip_zero_digits slide1 slide2 i else Suc i)"

definition ge25519_double_scalarmult_vartime ::
    "ge25519_niels list \<Rightarrow> ge25519_p1p1 \<Rightarrow> ge25519 \<Rightarrow> bignum256modm \<Rightarrow> bignum256modm \<Rightarrow> ge25519" where
  "ge25519_double_scalarmult_vartime table t_uninit p1 s1 s2 =
     (let slide1 = contract256_slidingwindow_modm s1 S1_SWINDOWSIZE;
          slide2 = contract256_slidingwindow_modm s2 S2_SWINDOWSIZE;
          d1 = ge25519_double p1;
          pre1 = odd_multiples d1 (ge25519_full_to_pniels p1) S1_TABLE_SIZE;
          (r, t) = double_scalarmult_loop pre1 table slide1 slide2
                     (skip_zero_digits slide1 slide2 256) (ge25519_neutral, t_uninit)
      in r\<lparr>ge_t := curve25519_mul (pp_x t) (pp_y t)\<rparr>)"

definition ge25519_windowb_equal :: "u32 \<Rightarrow> u32 \<Rightarrow> u32" where
  "ge25519_windowb_equal b c = drop_bit 31 ((b XOR c) - 1)"

text \<open>
  The constant-time table lookup.  \<open>b\<close> is a \<open>signed char\<close>; \<open>(b + mask) ^ mask\<close> is its
  absolute value, computed in \<open>uint32_t\<close>.
\<close>

definition ge25519_scalarmult_base_choose_niels :: "bytes list \<Rightarrow> nat \<Rightarrow> int \<Rightarrow> ge25519_niels" where
  "ge25519_scalarmult_base_choose_niels table pos b =
     (let sign = (ucast (digit_signbit b) :: u32);
          mask = NOT (sign - 1);
          u = (word_of_int b + mask) XOR mask;
          packed = (replicate 96 0)[0 := 1, 32 := 1];
          packed = foldl (\<lambda>packed i.
                     curve25519_move_conditional_bytes packed (table ! (pos * 8 + i))
                       (ucast (ge25519_windowb_equal u (word_of_nat i + 1)))) packed [0..<8];
          ysubx = curve25519_expand packed;
          xaddy = curve25519_expand (drop 32 packed);
          t2d = curve25519_expand (drop 64 packed);
          (ysubx, xaddy) = curve25519_swap_conditional ysubx xaddy (ucast sign);
          neg = curve25519_neg t2d;
          (t2d, neg) = curve25519_swap_conditional t2d neg (ucast sign)
      in \<lparr>n_ysubx = ysubx, n_xaddy = xaddy, n_t2d = t2d\<rparr>)"

definition base_niels_add :: "bytes list \<Rightarrow> int list \<Rightarrow> ge25519 \<Rightarrow> nat \<Rightarrow> ge25519" where
  "base_niels_add table b r i =
     ge25519_nielsadd2 r (ge25519_scalarmult_base_choose_niels table (i div 2) (b ! i))"

definition ge25519_scalarmult_base_niels :: "bytes list \<Rightarrow> bignum256modm \<Rightarrow> ge25519" where
  "ge25519_scalarmult_base_niels basepoint_table s =
     (let b = contract256_window4_modm s;
          t = ge25519_scalarmult_base_choose_niels basepoint_table 0 (b ! 1);
          r = \<lparr>ge_x = curve25519_sub_reduce (n_xaddy t) (n_ysubx t),
               ge_y = curve25519_add_reduce (n_xaddy t) (n_ysubx t),
               ge_z = Fe 2 0 0 0 0,
               ge_t = curve25519_copy (n_t2d t)\<rparr>;
          r = foldl (base_niels_add basepoint_table b) r (map (\<lambda>k. 2 * k + 3) [0..<31]);
          r = ge25519_double_partial r r;
          r = ge25519_double_partial r r;
          r = ge25519_double_partial r r;
          r = ge25519_double r;
          t = ge25519_scalarmult_base_choose_niels basepoint_table 0 (b ! 0);
          t = t\<lparr>n_t2d := curve25519_mul (n_t2d t) ge25519_ecd\<rparr>;
          r = ge25519_nielsadd2 r t
      in foldl (base_niels_add basepoint_table b) r (map (\<lambda>k. 2 * k + 2) [0..<31]))"

end
