(* ===== verification/Base_Tables.thy ===== *)
theory Base_Tables
  imports Edwards
begin

text \<open>
  The two tables of multiples of the base point that the scalar multiplications index:
  \<open>ge25519_niels_sliding_multiples\<close> (\<open>ed25519-donna-64bit-tables.h\<close>), 32 points in limbs, and
  \<open>ge25519_niels_base_multiples\<close> (\<open>ed25519-donna-basepoint-table.h\<close>), 256 rows of 96 bytes.  A row
  is written here as the number whose little-endian bytes it lists.
\<close>

definition ge25519_niels_sliding_multiples :: "ge25519_niels list" where
  "ge25519_niels_sliding_multiples = [
    \<lparr>n_ysubx = Fe 0x03905d740913e 0x0ba2817d673a2 0x23e2827f4e67c 0x133d2e0c21a34 0x44fd2f9298f81,
      n_xaddy = Fe 0x493c6f58c3b85 0x0df7181c325f7 0x0f50b0b3e4cb7 0x5329385a44c32 0x07cf9d3a33d4b,
      n_t2d = Fe 0x11205877aaa68 0x479955893d579 0x50d66309b67a0 0x2d42d0dbee5ee 0x6f117b689f0c6\<rparr>,
    \<lparr>n_ysubx = Fe 0x11fe8a4fcd265 0x7bcb8374faacc 0x52f5af4ef4d4f 0x5314098f98d10 0x2ab91587555bd,
      n_xaddy = Fe 0x5b0a84cee9730 0x61d10c97155e4 0x4059cc8096a10 0x47a608da8014f 0x7a164e1b9a80f,
      n_t2d = Fe 0x6933f0dd0d889 0x44386bb4c4295 0x3cb6d3162508c 0x26368b872a2c6 0x5a2826af12b9b\<rparr>,
    \<lparr>n_ysubx = Fe 0x182c3a447d6ba 0x22964e536eff2 0x192821f540053 0x2f9f19e788e5c 0x154a7e73eb1b5,
      n_xaddy = Fe 0x2bc4408a5bb33 0x078ebdda05442 0x2ffb112354123 0x375ee8df5862d 0x2945ccf146e20,
      n_t2d = Fe 0x3dbf1812a8285 0x0fa17ba3f9797 0x6f69cb49c3820 0x34d5a0db3858d 0x43aabe696b3bb\<rparr>,
    \<lparr>n_ysubx = Fe 0x72c9aaa3221b1 0x267774474f74d 0x064b0e9b28085 0x3f04ef53b27c9 0x1d6edd5d2e531,
      n_xaddy = Fe 0x25cd0944ea3bf 0x75673b81a4d63 0x150b925d1c0d4 0x13f38d9294114 0x461bea69283c9,
      n_t2d = Fe 0x36dc801b8b3a2 0x0e0a7d4935e30 0x1deb7cecc0d7d 0x053a94e20dd2c 0x7a9fbb1c6a0f9\<rparr>,
    \<lparr>n_ysubx = Fe 0x6217e039d8064 0x6dea408337e6d 0x57ac112628206 0x647cb65e30473 0x49c05a51fadc9,
      n_xaddy = Fe 0x6678aa6a8632f 0x5ea3788d8b365 0x21bd6d6994279 0x7ace75919e4e3 0x34b9ed338add7,
      n_t2d = Fe 0x4e8bf9045af1b 0x514e33a45e0d6 0x7533c5b8bfe0f 0x583557b7e14c9 0x73c172021b008\<rparr>,
    \<lparr>n_ysubx = Fe 0x75b0249864348 0x52ee11070262b 0x237ae54fb5acd 0x3bfd1d03aaab5 0x18ab598029d5c,
      n_xaddy = Fe 0x700848a802ade 0x1e04605c4e5f7 0x5c0d01b9767fb 0x7d7889f42388b 0x4275aae2546d8,
      n_t2d = Fe 0x32cc5fd6089e9 0x426505c949b05 0x46a18880c7ad2 0x4a4221888ccda 0x3dc65522b53df\<rparr>,
    \<lparr>n_ysubx = Fe 0x7013b327fbf93 0x1336eeded6a0d 0x2b565a2bbf3af 0x253ce89591955 0x0267882d17602,
      n_xaddy = Fe 0x0c222a2007f6d 0x356b79bdb77ee 0x41ee81efe12ce 0x120a9bd07097d 0x234fd7eec346f,
      n_t2d = Fe 0x0a119732ea378 0x63bf1ba8e2a6c 0x69f94cc90df9a 0x431d1779bfc48 0x497ba6fdaa097\<rparr>,
    \<lparr>n_ysubx = Fe 0x3cd86468ccf0b 0x48553221ac081 0x6c9464b4e0a6e 0x75fba84180403 0x43b5cd4218d05,
      n_xaddy = Fe 0x6cc0313cfeaa0 0x1a313848da499 0x7cb534219230a 0x39596dedefd60 0x61e22917f12de,
      n_t2d = Fe 0x2762f9bd0b516 0x1c6e7fbddcbb3 0x75909c3ace2bd 0x42101972d3ec9 0x511d61210ae4d\<rparr>,
    \<lparr>n_ysubx = Fe 0x386484420de87 0x2d6b25db68102 0x650b4962873c0 0x4081cfd271394 0x71a7fe6fe2482,
      n_xaddy = Fe 0x676ef950e9d81 0x1b81ae089f258 0x63c4922951883 0x2f1d54d9b3237 0x6d325924ddb85,
      n_t2d = Fe 0x182b8a5c8c854 0x73fcbe5406d8e 0x5de3430cff451 0x554b967ac8c41 0x4746c4b6559ee\<rparr>,
    \<lparr>n_ysubx = Fe 0x546c864741147 0x3a1df99092690 0x1ca8cc9f4d6bb 0x36b7fc9cd3b03 0x219663497db5e,
      n_xaddy = Fe 0x77b3c6dc69a2b 0x4edf13ec2fa6e 0x4e85ad77beac8 0x7dba2b28e7bda 0x5c9a51de34fe9,
      n_t2d = Fe 0x0f1cf79f10e67 0x43ccb0a2b7ea2 0x05089dfff776a 0x1dd84e1d38b88 0x4804503c60822\<rparr>,
    \<lparr>n_ysubx = Fe 0x021d23a36d175 0x4fd3373c6476d 0x20e291eeed02a 0x62f2ecf2e7210 0x771e098858de4,
      n_xaddy = Fe 0x49ed02ca37fc7 0x474c2b5957884 0x5b8388e816683 0x4b6c454b76be4 0x553398a516506,
      n_t2d = Fe 0x2f5d278451edf 0x730b133997342 0x6965420eb6975 0x308a3bfa516cf 0x5a5ed1d68ff5a\<rparr>,
    \<lparr>n_ysubx = Fe 0x5e0c558527359 0x3395b73afd75c 0x072afa4e4b970 0x62214329e0f6d 0x019b60135fefd,
      n_xaddy = Fe 0x5122afe150e83 0x4afc966bb0232 0x1c478833c8268 0x17839c3fc148f 0x44acb897d8bf9,
      n_t2d = Fe 0x068145e134b83 0x1e4860982c3cc 0x068fb5f13d799 0x7c9283744547e 0x150c49fde6ad2\<rparr>,
    \<lparr>n_ysubx = Fe 0x1863c9cdca868 0x3770e295a1709 0x0d85a3720fd13 0x5e0ff1f71ab06 0x78a6d7791e05f,
      n_xaddy = Fe 0x3f29509471138 0x729eeb4ca31cf 0x69c22b575bfbc 0x4910857bce212 0x6b2b5a075bb99,
      n_t2d = Fe 0x7704b47a0b976 0x2ae82e91aab17 0x50bd6429806cd 0x68055158fd8ea 0x725c7ffc4ad55\<rparr>,
    \<lparr>n_ysubx = Fe 0x02bf71cd098c0 0x49dabcc6cd230 0x40a6533f905b2 0x573efac2eb8a4 0x4cd54625f855f,
      n_xaddy = Fe 0x26715d1cf99b2 0x2205441a69c88 0x448427dcd4b54 0x1d191e88abdc5 0x794cc9277cb1f,
      n_t2d = Fe 0x6c426c2ac5053 0x5a65ece4b095e 0x0c44086f26bb6 0x7429568197885 0x7008357b6fcc8\<rparr>,
    \<lparr>n_ysubx = Fe 0x39fbb82584a34 0x47a568f257a03 0x14d88091ead91 0x2145b18b1ce24 0x13a92a3669d6d,
      n_xaddy = Fe 0x0672738773f01 0x752bf799f6171 0x6b4a6dae33323 0x7b54696ead1dc 0x06ef7e9851ad0,
      n_t2d = Fe 0x3771cc0577de5 0x3ca06bb8b9952 0x00b81c5d50390 0x43512340780ec 0x3c296ddf8a2af\<rparr>,
    \<lparr>n_ysubx = Fe 0x34d2ebb1f2541 0x0e815b723ff9d 0x286b416e25443 0x0bdfe38d1bee8 0x0a892c7007477,
      n_xaddy = Fe 0x515f9d914a713 0x73191ff2255d5 0x54f5cc2a4bdef 0x3dd57fc118bcf 0x7a99d393490c7,
      n_t2d = Fe 0x2ed2436bda3e8 0x02afd00f291ea 0x0be7381dea321 0x3e952d4b2b193 0x286762d28302f\<rparr>,
    \<lparr>n_ysubx = Fe 0x58e2bce2ef5bd 0x68ce8f78c6f8a 0x6ee26e39261b2 0x33d0aa50bcf9d 0x7686f2a3d6f17,
      n_xaddy = Fe 0x036093ce35b25 0x3b64d7552e9cf 0x71ee0fe0b8460 0x69d0660c969e5 0x32f1da046a9d9,
      n_t2d = Fe 0x512a66d597c6a 0x0609a70a57551 0x026c08a3c464c 0x4531fc8ee39e1 0x561305f8a9ad2\<rparr>,
    \<lparr>n_ysubx = Fe 0x2cc28e7b0c0d5 0x77b60eb8a6ce4 0x4042985c277a6 0x636657b46d3eb 0x030a1aef2c57c,
      n_xaddy = Fe 0x4978dec92aed1 0x069adae7ca201 0x11ee923290f55 0x69641898d916c 0x00aaec53e35d4,
      n_t2d = Fe 0x1f773003ad2aa 0x005642cc10f76 0x03b48f82cfca6 0x2403c10ee4329 0x20be9c1c24065\<rparr>,
    \<lparr>n_ysubx = Fe 0x0e44ae2025e60 0x5f97b9727041c 0x5683472c0ecec 0x188882eb1ce7c 0x69764c545067e,
      n_xaddy = Fe 0x387d8249673a6 0x5bea8dc927c2a 0x5bd8ed5650ef0 0x0ef0e3fcd40e1 0x750ab3361f0ac,
      n_t2d = Fe 0x23283a2f81037 0x477aff97e23d1 0x0b8958dbcbb68 0x0205b97e8add6 0x54f96b3fb7075\<rparr>,
    \<lparr>n_ysubx = Fe 0x5afc616b11ecd 0x39f4aec8f22ef 0x3b39e1625d92e 0x5f85bd4508873 0x78e6839fbe85d,
      n_xaddy = Fe 0x5f20429669279 0x08fafae4941f5 0x15d83c4eb7688 0x1cf379eca4146 0x3d7fe9c52bb75,
      n_t2d = Fe 0x32df737b8856b 0x0608342f14e06 0x3967889d74175 0x1211907fba550 0x70f268f350088\<rparr>,
    \<lparr>n_ysubx = Fe 0x4112070dcf355 0x7dcff9c22e464 0x54ada60e03325 0x25cd98eef769a 0x404e56c039b8c,
      n_xaddy = Fe 0x64583b1805f47 0x22c1baf832cd0 0x132c01bd4d717 0x4ecf4c3a75b8f 0x7c0d345cfad88,
      n_t2d = Fe 0x71f4b8c78338a 0x62cfc16bc2b23 0x17cf51280d9aa 0x3bbae5e20a95a 0x20d754762aaec\<rparr>,
    \<lparr>n_ysubx = Fe 0x4feb135b9f543 0x63bd192ad93ae 0x44e2ea612cdf7 0x670f4991583ab 0x38b8ada8790b4,
      n_xaddy = Fe 0x7c36fc73bb758 0x4a6c797734bd1 0x0ef248ab3950e 0x63154c9a53ec8 0x2b8f1e46f3cee,
      n_t2d = Fe 0x04a9cdf51f95d 0x5d963fbd596b8 0x22d9b68ace54a 0x4a98e8836c599 0x049aeb32ceba1\<rparr>,
    \<lparr>n_ysubx = Fe 0x67d3c63dcfe7e 0x112f0adc81aee 0x53df04c827165 0x2fe5b33b430f0 0x51c665e0c8d62,
      n_xaddy = Fe 0x07d0b75fc7931 0x16f4ce4ba754a 0x5ace4c03fbe49 0x27e0ec12a159c 0x795ee17530f67,
      n_t2d = Fe 0x25b0a52ecbd81 0x5dc0695fce4a9 0x3b928c575047d 0x23bf3512686e5 0x6cd19bf49dc54\<rparr>,
    \<lparr>n_ysubx = Fe 0x7619052179ca3 0x0c16593f0afd0 0x265c4795c7428 0x31c40515d5442 0x7520f3db40b2e,
      n_xaddy = Fe 0x6612165afc386 0x1171aa36203ff 0x2642ea820a8aa 0x1f3bb7b313f10 0x5e01b3a7429e4,
      n_t2d = Fe 0x50be3d39357a1 0x3ab33d294a7b6 0x4c479ba59edb3 0x4c30d184d326f 0x71092c9ccef3c\<rparr>,
    \<lparr>n_ysubx = Fe 0x0523f0364918c 0x687f56d638a7b 0x20796928ad013 0x5d38405a54f33 0x0ea15b03d0257,
      n_xaddy = Fe 0x3d8ac74051dcf 0x10ab6f543d0ad 0x5d0f3ac0fda90 0x5ef1d2573e5e4 0x4173a5bb7137a,
      n_t2d = Fe 0x56e31f0f9218a 0x5635f88e102f8 0x2cbc5d969a5b8 0x533fbc98b347a 0x5fc565614a4e3\<rparr>,
    \<lparr>n_ysubx = Fe 0x6570dc46d7ae5 0x18a9f1b91e26d 0x436b6183f42ab 0x550acaa4f8198 0x62711c414c454,
      n_xaddy = Fe 0x2e1e67790988e 0x1e38b9ae44912 0x648fbb4075654 0x28df1d840cd72 0x3214c7409d466,
      n_t2d = Fe 0x1827406651770 0x4d144f286c265 0x17488f0ee9281 0x19e6cdb5c760c 0x5bea94073ecb8\<rparr>,
    \<lparr>n_ysubx = Fe 0x5bf0912c89be4 0x62fadcaf38c83 0x25ec196b3ce2c 0x77655ff4f017b 0x3aacd5c148f61,
      n_xaddy = Fe 0x0ce63f343d2f8 0x1e0a87d1e368e 0x045edbc019eea 0x6979aed28d0d1 0x4ad0785944f1b,
      n_t2d = Fe 0x63b34c3318301 0x0e0e62d04d0b1 0x676a233726701 0x29e9a042d9769 0x3aff0cb1d9028\<rparr>,
    \<lparr>n_ysubx = Fe 0x5c7eb3a20405e 0x5fdb5aad930f8 0x4a757e63b8c47 0x28e9492972456 0x110e7e86f4cd2,
      n_xaddy = Fe 0x6430bf4c53505 0x264c3e4507244 0x74c9f19a39270 0x73f84f799bc47 0x2ccf9f732bd99,
      n_t2d = Fe 0x0d89ed603f5e4 0x51e1604018af8 0x0b8eedc4a2218 0x51ba98b9384d0 0x05c557e0b9693\<rparr>,
    \<lparr>n_ysubx = Fe 0x1ce311fc97e6f 0x6023f3fb5db1f 0x7b49775e8fc98 0x3ad70adbf5045 0x6e154c178fe98,
      n_xaddy = Fe 0x6bbb089c20eb0 0x6df41fb0b9eee 0x51087ed87e16f 0x102db5c9fa731 0x289fef0841861,
      n_t2d = Fe 0x16336fed69abf 0x4f066b929f9ec 0x4e9ff9e6c5b93 0x18c89bc4bb2ba 0x6afbf642a95ca\<rparr>,
    \<lparr>n_ysubx = Fe 0x0de0c62f5d2c1 0x49601cf734fb5 0x6b5c38263f0f6 0x4623ef5b56d06 0x0db4b851b9503,
      n_xaddy = Fe 0x55070f913a8cc 0x765619eac2bbc 0x3ab5225f47459 0x76ced14ab5b48 0x12c093cedb801,
      n_t2d = Fe 0x47f9308b8190f 0x414235c621f82 0x31f5ff41a5a76 0x6736773aab96d 0x33aa8799c6635\<rparr>,
    \<lparr>n_ysubx = Fe 0x7f51ebd085cf2 0x12cfa67e3f5e1 0x1800cf1e3d46a 0x54337615ff0a8 0x233c6f29e8e21,
      n_xaddy = Fe 0x0f588fc156cb1 0x363414da4f069 0x7296ad9b68aea 0x4d3711316ae43 0x212cd0c1c8d58,
      n_t2d = Fe 0x4d5107f18c781 0x64a4fd3a51a5e 0x4f4cd0448bb37 0x671d38543151e 0x1db7778911914\<rparr>,
    \<lparr>n_ysubx = Fe 0x352397c6bc26f 0x18a7aa0227bbe 0x5e68cc1ea5f8b 0x6fe3e3a7a1d5f 0x31ad97ad26e2a,
      n_xaddy = Fe 0x14769dd701ab6 0x28339f1b4b667 0x4ab214b8ae37b 0x25f0aefa0b0fe 0x7ae2ca8a017d2,
      n_t2d = Fe 0x017ed0920b962 0x187e33b53b6fd 0x55829907a1463 0x641f248e0a792 0x1ed1fc53a6622\<rparr>]"

definition niels_base_rows_0 :: "int list" where
  "niels_base_rows_0 = [
    0x4f0ebe1faf16eccacdd49d1cc957c6fa41e13f00eea2a5eadbbd15674b6fbb5907cf9d3a33d4ba65270b4898643d42c2cf932dc6fb8c0e192fbc93c6f58c3b8544fd2f9298f81267a5c18434688f8a09fd399f05d140beb39d103905d740913e,
    0x49314f0a165ed1b83bcabe10e6076826baf3599383ee48056e347eaadad36802590c063fa87d2e2e5aa69a65e1d607029f469d967a0ff5b59224e7fc933c71d76bb595a669c92555e09e236bb16e37aa8f2b810c4e60acf68a99a56042b4d5a8,
    0x549a04b963bb2a21d7de6f075b722a4eb84e6b17f62df8959bf211f4f16748347a164e1b9a80f8f4c11b50029f016732025a8430e8864b8aaf25b0a84cee97302ab91587555bda628131f31a214bd6bd3bd353fde5c1ba7d56611fe8a4fcd265,
    0x44f079b1b0e64c18e42974d58cf852c0e32bc63d6dba0f94bf1e45ece51426b0680e910321e58727ca348d3dfb0a92656765c6f47dfd2538287351b98efc099f27933f4c7445a49ac3e8e3cd06a05073327e89715660faa995fe050a056818bf,
    0x68b8ac5938b27a9862c1d4a10e6d8ff35f729d0a00124d7ec832a179e7d003b32945ccf146e206ebdd1beb0c5abfec448d5048c3c75eed02a212bc4408a5bb33154a7e73eb1b55f3e33cf11cb864a087d50014d14b2729b77f9182c3a447d6ba,
    0x7865dfa21354c09f050ab5329fcfb988175f2428f8fb91378f9dad91689de3a451e57bb6a2cc38bd8065b668da59a7369b27158900c8af883a0ceeeb7715713138b64c41ae417884bb085ce7204553b9575be28427d22739499806b67b7d8ca4,
    0x233cef623a2cbc3737d05b8b13ab7568a528c6543d3549c8217a8aacab0fda36461bea69283c927e71b2528228542e497470353ab39dc0d26b1a5cd0944ea3bf1d6edd5d2e5317e09dea764f92192c3a6ca021533bba23a7ba6f2c9aaa3221b1,
    0x589eb3d9dbefd5c22c1185367167b3268be19cda689857eadf7de835a834a37e0915e76061bce52fb1339c665ed9c3236cb30377e288702c59b7596604dd3e8f3a9024a1320e01c32c2741ac6e3c23fb963d7680e1b558f9e2a75dedf39234d9,
    0x10c697112e864bb0b4739ea4694d3f26fb53d680928d7f696c4444172106e4c76dd37d49a00eef3952dfb76ba8637a5851d0b696768931152eccdd0e632f9c1d30d76d6f03d315b9850c1fe95b42d1c4a865c49f0bc6823aed5b635449aa515e,
    0x566d78634586e22ca0b63dedcc1268f56f5873ecb459747e3f13e128cc58660403bf9baf550806ef7464d3a63b11eddc6a3d4ae37a2042470ca62aa08358c80525e61cabed66fe090e00dfc846304590265d4fad19ad7ea26493c4277dbe5fde,
    0x14829cea83fc526c2fc3f2b67b61131e593e5e84c9c800573cd746166985f7d414fba5f34793b22a680ae240731aee586c64112af31667c3a1054285c65a2fd033975bca5ecc35d91cb5ec0f7f7fd2dbbc8e56d5a89bc4511637a49f9cc10834,
    0x373767475c651f0433a4bc83a9be81953495638ced3b30cf24b8b3ae52afdedd05fc3bc4535d7b7ebf6556cece1d4f80e656ddb940a477e321e70b2f4e71ecb82fd9c71e5f7581739e0c5d613c85e88b6c744e30aa4eb5a7ff437b8497dd95c2,
    0x02521cf67a635a566f52d7b89aa29a5006409ff7bac3a77e0fa778f1e1415b8a6bf5905730907c8c9e38140c8910bc60ef12144016c15535634095cb142465901fbea56c3b18f9994363f05215f03baeb307166f96f4d0272fba99fd40d1add9,
    0x12b5fe2fa048edb6aad7d1f9a091f2851dde87dab49738583c69232d963ddb34001753d9f7cd6cc44af8224d00ac824ae8f894b196079aceb1146720772f5ee43fa00a7e71382cedd4618688bfe107ce8f98e75c0fdf5a66513fee0b0a9d5294,
    0x0fcec10f01e0215161a808b5eeff6b66c12351f1bee49c991f5af604aea6ae056f7e93c20796c7b88c409dc0751c8bc34b66d323504b8913df2b7c26ad6f1e92749b76f96fb1206fd2047261ff28c56173b9826badf35bed71f0fbc496fce34d,
    0x41bb887b726d1213f760b0f91e06d939ce0f7a7c246299b408b1b7548c1af8f0413779166feab90a6cc8067e820c214d2b020e7493d8de0a3df2d29dc4244e454901aa7183c511f302441c5a887fd0d221fcaea231ad777e644d58a649fe1e44]"

definition niels_base_rows_1 :: "int list" where
  "niels_base_rows_1 = [
    0x3ee7300f2685d4640d61ade219d59e3c736bae3a5bdd42603301b5994bbc89890a871e070c6a9e1ddae2c90c354afae764889d3d0a85b4c87e234c597c6691ae4eb728c12fcdbdf77c3a8a18a13b603e1d48dad415b52b2540e87d44744346be,
    0x148cf58d34c9ec8071ec621026bb81579d3e749a91546f3c3fdad0148ef0d6e07d47c6a2cfb89030a1065e1de3052b74e5c6fa59639c46d743fa7947841e751813815762979125c23c99975d92e187ca8016115c610b1eacf5d255e49e7dd6b7,
    0x4104dd02fe9c677b39115291219d3c528c21949c20290c98b1aa681f8c933966278febad4eaea1b99fd10b6d6960a88d56c345bb88f3487fe2572f7d9ae4756d3ff2fa1ebd5dbbd45ca1bc2a89611854469984bef6840aa946a492f67934f027,
    0x591b67d9bffec8b8695e290658aa2b8f12eff984cd2f7cc0f190a474a0846a760165b5a48efca4816524c12a409e2af521a8b6c90ce44f3581214e06db096ab82c863b00afaf53d594cb6101fa52b666a1fa0c3398a33ab572b2bf5e1124422a,
    0x49f5fbba496cbebf3d7eabe7190baa24e16253b46116a861d232102d3aeb92ef489b4f867030128b61081136c29f05ede465e5faa18c641e99b9b3719f18b55d3de02ec7ca8f7bcb727033c09ef01c885979515eabf3ec8a312f0d1c80b49bfa,
    0x20989e89fe2742c69f031a6018acf6d172541140e0418b517288d1d47c1764b606a1a6c28867515b91a352f6515763eb8a4d86acc5884741155d628c1e9c572e5604a86dcbfa6e7492c294c1307c0d1cdc40dd70bc6473eb30949a108a5bcfd4,
    0x5bd7454308303dccf7cb46fa16c035cec5e6c8cf98246f8dc94b2d35874ec552730b9950f70595d3640a4c1661cbf45a5621dc077acb2bdf1674278b85eaec2e0403ed1d0ca67e29a279d864d207e3a032857c2ca54fd892499777fd3a2dcc7f,
    0x740dca6d58f0e0d2182360779bd5477004ec21d6211952ee0961f467c6ca62be5bb7db123067f82c9d1e3da8ada3d762c64c89a2bdcdddc985c4932115e7792a133a78007380ad8366b8b66e4fc072367f6b54656335c1817f9ad19528b24cc2,
    0x699468bdbd96bbaf31903d77257ef7f9307b0130cf0c5879790f18757b53a47d2c03f5256c2b03d9dbaa99eae3d9079fb7b5270ec281439d231a8c570478433c161d25fa963ea38d05710b2ab95459c4c3fffaf306ec08b7df48ee0752cfce4e,
    0x5b605c447f032823b04589af461c3111703778b5dca15da0376e134b925112e1293e1c4e6c4a2e3a9b48246634fdea2f485064c22fc0d2ccd8dd3de66aa91948525219a473905785d31ffdda4a47b37f7cef0114a47fd6f7bd1f2f46f4dafecf,
    0x5e607b2518a43790c6cf144178cff66810d06e7f40c9a4070a4522b2dfc0c7402f12fef4cc5abdd55542ef161e1de61a866a579e75e349623be9fec6f0e7f04c24a76dcea8aeb3ee0001256502e2ef77e7f0100c923b8fccb965805920c47c89,
    0x397cba8862460375d5220eb02e25a4a818b14964017c0006fd527f6b08039d51201f33139e457068d24526802e0f26dbe3c42d40aed3e400a02c431ca596cf145067acab6ccdd5f7e1b3ff4f66e61d6e35cfa74fc36258a258b31d8f6cdf1818,
    0x331a189219971a76d06bc31b1ea283b3f5ac9b71f9d4cf08d87dd986513a2fa7771b4022c1e1c252ffa9c0f885a8fdd5a6619420dde12af17815c3fbc81379e72339d320766e6c3a222fd491721d5e26e23aa18de9a9797630c13093f05959b2,
    0x612436341f08b111fc9d71844a6250c85068343bee9ce987f22b3842524b10681ac9619ff649a67b84edc1c11180f7c45bcbe28868074a9e26512f3a9d7572af31167c6b83bdfe21e3d4e81b9041d91c9c36c7de61c775cff5166f45fb4f80c6,
    0x45fe70f50524306ce8c83391b646f227dafe409ab72d6d102c382f53696149381522aa3178d904457f8bf1b8a3a06ba49ddfb7009bd3fd358b6349e31a2d263846ebe2309e5eff40793d2c67d00f9bbc09fea5f16c07dc20d99d41db874e898d,
    0x1d81592d60bd38c6deb8de4643d1bc7da82219c376a5caac084f4a4401a308fd16619f6db57a22456fbb45d2f5c9d4b805f007c83f630ca262f24920c8951491428d1623a0e392d407fb51cf3d0b8fd45b68d076ef0e2f20da4875a6960c0b8c]"

definition niels_base_rows_2 :: "int list" where
  "niels_base_rows_2 = [
    0x7cd682353cffe366f62a4a20b3e41170071c34f9d51ed16076d20db67178b2523a5f6d51b0af8e7c3a70e77c1d330f9b6ff0678bd168bab28765b69f7b85c5e820234a7789ecdcf07f193f2d4cce0f7d17e02f6aebabdc5761368756a60dac5f,
    0x21dcb8a606a8281282cfae8af4ab419dfa496b4115c577abd16bb0cf4a4650303ef0253b2b2cd8ff5759389d336025d942d92d183cd7e3d3a665cd6068acf4f32838c8863bdc0943d9921012e96e60002a846a32ba403b6e0be1a45bd887fab6,
    0x3a4276232ac196dd57bbba997dae20ab6eb02da6b9e165c7706e380d309fe18b5d840dbf6c6f678bb2cc023743f3d97f8203607e629e18899a8d00fabe7731ba0bc3d08194a31dab125b4d4c12ee2f9c2540096ed42aa3cb5c6004468c9d9fc8,
    0x39f264fd41500b1ee7300919303e3e89860984e91b3a7924cf61d99a45b5b5fd0770c9e824e1a9f980acffc075aa15fe5fcfc41fc6282dbd3bf8c172db447ecb1ff177cea16debd1be9f00219c58e45d898a19e3dfb9e5454b42432c8a7084fa,
    0x22f9800ab19ce2720419a93d2e1cfe834d103356a125c0bbe72b89f8ce3193dd65c621272c35f14ec3c908942ca6f1ffa46dfce1dfe01929d19b4aabfe097be11712d73468889840a0e91b8e93597ba9bd94376a2b9c139ca7ad3417dbe7e29c,
    0x508214fa574bd1abfbd291ddadda539223006f6fb000b807fa2758aa99c94c8c4171a4d38598cab4640f64b987bdf37bb912cebe34a5494142029fdd9a6efdac13f416cd647626e5553d48b05f24248fe3e9c022a5504715605a368a3e9ef8cb,
    0x5d9fd15f8de7f49412248c90f3115e651dae21df1dfd54a6548111f693ae50763a7758a4c86cb44727c576756c683a5ab2102888bcf3c965461a15bb53d003d622f960ec6faba74bcbde26462c14af94a65a6739511d77c4c20269153ed6fe4b,
    0x450d81ce906fba03d77832b53a660188998ab7cb6c46d1256d470115ea86c20c3bc187fa47eb98d8e164ba772e9c16d48e3a9028432e96153f244d2aeed7521e332f35914f8fbed3a9e18fc5ccaee24b6a379aefd7c7b533031408d36d63727f,
    0x7d7fbcefe2007233b1a3974b5f3a6419c525c20afb288af880d19024a0d71fcd4cbad279663ab10897bdc55be7f4ed29f86d18f5ee1c63edd074d8961cae743f2de25d4ba6345be16f56d155e88f5cb2aa4f21d7413c8e836e7bb6a1a6205275,
    0x7ccdd084387a0307ba029cad5c1c0c17d0d058241ad17a63199297d86a7b37684f9cd196dcd8d4d780c61d36421c3058c781a29a2a9105abcd7c5dc5f3c290945975435e87b75a8df68a2fbc1b03762c866c68c4d5739f16faef1e6a266b2801,
    0x27398308da2d63e68c52545b53fdbbd1d4d8c33565d8facd9213189a5e849aa73593ca848190ca44a88dec86620bda18cdae007a1ab32a999b0c84186760cc93428bd0ed61d0cf53a9c0c1b4fb68c677ae153d50948240bddca6422c6d260417,
    0x7f985498c05bca80a22c8830aa5dda0ce4dfe8d3e3baaefbc77fc745d6cd30be572c2945492c33fdffb9d9b5cd27daf70fa25866d57d1bdeb9a10e4c0a702453269597aebe8c3355bb07ab1a79da03efbd50f3603278ccc942c38d28435ed413,
    0x2f1273f1596473daa920c01e0e6fac7046179b60db276bcb8a08c938aac10c8530f2653cd69b12e7eec24fbc873fa0c208045a45cf4dfba6d35615520fbf636376c2ec470a31f3043da3c39f23fc921c8005ad1b7b54a2883849ce889f0be117,
    0x22dfcd9cbfe9e69cacacc011454dde49747d06867e9b858c0666b517a751b13b38ac1997edc5f784ead1a69ebc59616206d6b5a4f1d442e730488bd755a70bc05d9e572ad85b69f241d98a8287728f2efd5274904a6aab9f4739fc7c8ae01e11,
    0x4c303f307ff00a1766083dff6578f8154ea3cd822e6dac0e7edb34d10aba913b0fe9877824cde472797cb29413f5cd322ee3baecd259f96956ec59b4103be0a16b2916c05448c1c78f6b258c322a961fad8e665facbb43338ddbd2e0c30d0cd9,
    0x191a2af74277e8d2afe62fda1b57e0abbd07e5cd58e44b2056a8d7efe9c136b0416b151ab706a1d5130a155fc2e2a7f8ecd27aa46fbbec9329fc03580dd945000d61b8f78b2ab7c4c6c6e78c1e6a5cbfc5d377b739773bead30a3bd617b28c85]"

definition niels_base_rows_3 :: "int list" where
  "niels_base_rows_3 = [
    0x71afa699b11155e375320f1583e47f22231094e69f0bfd10013575ed6701b430237e7dbe00545b93f052210eb7a0da24ded303d4a63607d69fe62b434f460efb7e2e0e450b5cc908b8b9c36fb5b23ee72b9725ce2072eddece16f74bc53c1431,
    0x4c4d6f3347e15808b6dae0836bba15e3bf960c225ecec119e430c71848f8188000731fbc78f89a1c9b84bf5fb2c9be9551e87a1f3b38ef10ea423c1c473b50d6021142e9c2b1c28e0f435ffda9f759fec65839eaafa141e665ce6f9b3953b61d,
    0x6a6fb99ebf0d49695080f58239241276a2f61e5a18d1462c1fd2c93c37e8876f38bf9500a88f9fa86ec7b6c4779176be6b916227b0b9f51b2f0cddfc988f1970193fddaaa7e47a22dbde712bf7ee0cdf6c75f5a651403c1418f7eccfc17d1fc9,
    0x022183510be8dcba2a87d8a5c3bb588a0f364b9d9ff82c08f94cdfb1a305bdd1136fda9f42c5eb1090a92a831dcf5d8c939d7010f286ff8eeeb122b5b6e423c675f76914a31896ead71d11378f71acc12416bb38f893f09d6a46c1bb560855eb,
    0x3171b26aaf1edc920d7b4848bb477ca0722b5a3d7f0e4413b5d3c3d187978af81387c441fd40426c22bbfe52be927ad3b063de9ec47da45f9d5a710143307a7f6a071ce17b806c030d13a6e610211e3da08ed880ca7c58304af766385ead2d14,
    0x48daa596fb924aaafce0dd4c410f030efb73e0e9ba0a032d2322204f3a1563416c514a63344243e9d4a1f89353ddbd58a6bf14d61770a4f1a60db7d8b28a47d1221fd4873cf0835a4f55fe37a4875150ff7bb84c2275e119a92f319097564ca8,
    0x1c4f73f2c6a57f0adcc2e77d4935d66a1ddcbbf37b56a01b0cf9688596fc905858c837fa0e8a79a9cdf5b88f346277ac9941f9e3ef41820614f61d5dc84c9793676dd6fccad84af731afc708d21e17cea847254b2e38aca06eca8e665ca59cc7,
    0x5fe162848ce21fd39fdf9ee51f8c78dc572696234b02dcca1b91db4991b42bb370459adb7daf675ceb1d79c9781cc7e573dfc9b4c3c1cf61b36e706efc7c3484795ac80d1bf64c42f421c3832fe33848829d4ce054c663ad0e7a4fbd305fa0bb,
    0x60c52eef2bb9a4e43eacbbcd484f9067fac6d18e99daf4671a1c87ab074eb78e2b44c043677daa35dc0bffab21687891b8dedd70687df2e72879852d5d7cb2084789d446fc9172329300cfd23b50f22d49be7dc70d71cd4f4e59214fe194961a,
    0x63755bd3a976f413794513e4708e85d198699ef4ed1781e0aa8ae84b3ec2a05b70d77248d9b6676defbc4056ba492eb244c7699b54a48cab702bc5c27cae6d1110bc9c312ccfcaab0e4c16b0d53028f5b06b9237c9f3551a0b5d89bc3bfd8bf1,
    0x70c2dd8a7ad166e7cfa86230d43c4956f0b44e7e77b460a5029402d36eb419a92763751737c52a56508e5b9c0fa1020f5dda7d5ec165bbd83dc7101897f1acb70d8cc1c48bc16f849ff9f1fdbe69b890356f75909ee63569b55fa03e2ad10853,
    0x4179215c735a4f41f89fd4d9a0e4db2e6ac83a67087886d079e7f7bee448cd6432b8613816a53ce5e40982e00d85256474252f0ad776817a91d4967db8ed7e132e0fac63639484959733c1f367e09b5cee2e7ea946c6518d656194509f6fec0e,
    0x24bb2312a99524899bc1b7e12b389123c12029879833502daf826c422e3622f431fa85662241c286278b141fb3d38e1fb7ef7eb6559dd6dce4ae33b9286bcd34700344a30cd99d76e13be033a906d90297fb8ac347d39c708c7094e7d7dced2a,
    0x16acd79718531d764004197ba79ac19330b822a159226579a9da8aa132621edf0d1d2af9ffeb5d168945df99a3ba1bad687284c304fa679441f80c2af5f85c6b0fee3e871e1880088ebd434376cfbcd23cb49418461b4948b1a8ed1732de67c3,
    0x78da0fc61073f3eb877bf6d3b9a4de2761ae2cea3a911513487ed94c192fe69a164ed34b1816170016e24e62a342f50494e19ead5f90febac959c6c57887b6ad123e0ef6b93023093ecea07916b3963763462a36a432245a72df72af2d9b1d3d,
    0x134610a6ab7da7602aeb1d2a666eec170b28789c66e54dafdfc8468d19267cb8054aa4b316b38ddd1100f1584801797371f77e151ae9e7e6a29f80f1680c3a942d25deeb256b173a2419afbc06c28bdd2c47e31870f01a8e5bf15d28e52bc66a]"

definition niels_base_rows_4 :: "int list" where
  "niels_base_rows_4 = [
    0x0ad725db29ecb2ba3a1af517aa7da41536bca7681251ad29969ee405055ce6a1654878cba97cc9fbb1b73bbcdabc06e5548991878faa60f1cd2a65e777d1f5152102fdba2b20d65009207a1d717af1b95397da89e575f51b51138ec78df6b0fe,
    0x0bccbb72a2a86561870a6eadd0945110cd2bef118998483bc32d36360415171e4f675f5302399fd977afc6624312aefa537d5268e7f5ffd7fec7bc0c9b056f854aefcffb71a036501af07a0bf7d15ed7b67544b570ce1bc5dc4267b1834e2457,
    0x2d42e2108ead47014f73cc9f789eaefc07f68c48572d33f21586fa31636863c26678fd69108f37c23bc7f6c5507031b0e0397b82fee89f7e186d5e4c50fe12964024f0ab59d6b73eb092e031bb5b6df286e7e63565147dcd185e962feab1a9c8,
    0x745d2ffa9c0cf1e07bff0cb1bc3135b08671b6ec311b1b808138ba651c5b2b47420bf3a79b423c6e1bb687ae752ae09f914e690b131e064c21717b0d0f537593676b2608b8d2d322eba13f07084550106155985d313f4c6a97f5131594dfd29b,
    0x58ded861278ec1f77dc41549dab7ca0532351cb5ceb1dab05b725d871932994a06e15be54c1dc839d3c209c3c8756afab1db8827997bb3d06036df5721d34e6a1ae23ceb960cf5d0d511c70edf0155dbea5b260826479d81bf525a1e2bc9c8bd,
    0x120633b4947cfe54ea3d7a3ff1a671cb04e05517d4ff481177ed3eeec3efc57a08ba696b531d5bd833809107f12d157348eeef8ef52c598c2dfb5ba8b6c2c9a82ff39de85485f6f95ce382f8bc26c3a8c8c976c5cc454e49d8173793f266c55c,
    0x2d873ede7af6da9f583381fd5a76847c575d3de4b05c51a3ff7944c05ce997f407433be3cb393bdee11e761911ea79c6de237b6d7e6fbe0682bd31474912100a35d30a99b4d5918570be739594f0a4c04ee7b13cecebfae80b94987891610042,
    0x4b1443362d07960d04202cb8a29aba2caa6f0a259dce46930deabdf4974c23c10543618a0160025318a275d3bae21d6ca20d59175015e1f5aa6202e14e5df9812e773654707fa7b6b093fee6f5a64806fab8b7eef4aa81d9157a316443373409,
    0x0c2a1c4bcda28dc9b21ef18b4e5a1364a81042e8a4488bc4c6317bd320324ce417038418eaf66f5c2747aff47812196530f6269264c635fb967c54e91c529ccb582f446752da63f73ef06dfc713eaf1c44157e25f50c2f7eccc4b7c7b66e1f7a,
    0x0404a5ca0afbafc3a50c3a791cbc5fa412bb628ac35a24f0d0ec1524d396463d5a6a9b30a314dc83c63bd212d55cc5ab0d6d907dbe1c8d22edc4814869bd69457c558bd1c6f64877d15b0272fbb2d28fb2269e3edb87c059d24dc7d06f1f0447,
    0x76579a29e822d016efd4bef154d56fea9c7745bcd1005c2a117fdb2d1a5d9a9c39527516e7f8ee9804343fd83d5d6967b5c6f728e350598b62bc9e1b2a416fd146395bfdcadd9633574b046b668fd2deccbad0cb5b265ee88c1f40070aa743d6,
    0x1160920961548059313916d7a9b0d253fb8bd37ef6b54b53684bd5da8bf1b64502c514bb2a2777c1b5512887750d35ced832284993de80e1333cb51352b434f243a384dc9e05bdb13ed65f11ec224c1b23cd51a2bca9a37f45b68e7e49c02a17,
    0x7f182d06e7ce2a9a71dee19ff9a699fbd603037ac8ab8961d4b49b461af67bbe2f637d7491e6e0427dc21bf9d4f1802175c02ca7655c35637a385616369b4dcd351e125bc5698e0be9ef63ca453d5559da529f4c8413598fb44d166929dacfaa,
    0x556d1c8312ad71bd4adca1c6c96b46848b35fed4918313e11c7d6bbb4f7a577744acc043241c5217d358254d7f46903caa58e8f4d484b8d809454b728e21752267d4ac8c343e93b0095519d347cd0edacb5a4a5515edc5437a7c8e64ab0168ec,
    0x577e14a34bee84bd022c3809f7ccebd24c4369559bdc1d430c49c9877ea52da4097abe38cc8c7f05f8b2d0556a99465d0faff82310a3f3dd81f06756b11be821746c6c6d1d824eff4f21f3cb0773646e31f7073e15a3fa3417ef40e30c8d3982,
    0x21398e0ca16353fd670b958cb4bd42ecf3c3053e5fad31d8b63d1d354d296ec6705304b8fb009295124a5977c0c8d1fff46a4fda060f221194fecebebd4dd72b60fa7ee96fd78f42c1e13e826b6d00e9f2fafa103791a5f5f0e268ac61a73b0a]"

definition niels_base_rows_5 :: "int list" where
  "niels_base_rows_5 = [
    0x4a07e14e5e8957cc65053299d9506eeecb2b125472c78036656777e9c7d965611bbfb284e98f7d4ed2ceaa6161b7a0235eac72135c8dad722798aaf9b4b756015aa3ed9d95a232e68f93b503a53db36e5ae2ba0bad48c0b489f5058a382b33f3,
    0x1921a316baebd006780205810badd6d929982621216109b26e4fde0115f65be550af7aed84afa08119928d32a7c86aadfd38dade6447f017240b58cdc477a49b3f0bac391d313402bba5edde925c77fda315d76f3c6ec7714ee412cb980df999,
    0x6093dccbc2950e64786004c312c5dd87758879330fedbe93dccbe37a354444837b049deca062c7f53e9a0bac255c0ed9566a0eef60b1c19cd75aad9ad9f3c18b6458df41e273aeb00738f1d436c24df72c296beb4f76b3bd89422f7edfb870fc,
    0x363e999ddd97bd18f7b4de82b2216130a4c1596d93a88baaee7ab6e7a128b0716e3180c98b647d90973376abb62d06953199c2b6780fb8546bdeeebe6084034b57d1ea084827a97c43b9f2e1718f453b36d0a5d8b3e739331ff39a8585e0706d,
    0x079bfa9b08792413b78d7009c14fb466b04bb030fe208d1f5c31de4bcc2af3c6231f979bc6f9b35590cb3c6e3cefe931769b7255babcaf602f1848dce24baec648ee9b78693a052bb42f6801b58cd330976eb35508e4c8cf96a843c135ee1fc4,
    0x575ee92a4a0bff5672b2df349810219959590a4296d0cdc2854e5ee65b167bec1ef4fb159470636bd76dac63d10854750aa08b7877f63952f3c9ed80a2d54245038c77f684817194ed3cf12d0b356480843964233da95ab0e3903a51da300df4,
    0x050eca52651e4e38fe2b85d9567197f571bc989b056652c0518db967eaf93ac5200a1e7e382f581b389e3b262b8906c2c3af1227a533b9d85d46bc450aa4d80143d4e7112cd3fd0005babd5752f733de30e170c299489dbdd4c080908a182fcf,
    0x1fef24fa800f030b11b2bb8712171709dd262ee02ab4ee7a3af55c0dfdf05d966151c09fa131ae574cb179b534eca79f9b19bbfe153ab49797ac397660e668ea4b0ee6c21c58f4c6fcd97ac9ed847b3de9f5045eff703b9bc3431ade453f0c9c,
    0x72e472930f316dfaf75bbbcd66d94b365c1bff9425107da16aefba9f3452868828005fe6c8340c17dca1896c4de5bae58d90b806c2d2460422d2aff530976b86544d49292fc8613ead200b09fb3a17b20f9495303fd7641837d653fb1aa73196,
    0x00f94051ee0405437b4ad5cdd24a88eca4daf2491434cdbd765305da03dbf7e51fee7f000fe064383c85e79728d044507aaa4d865f6566f007f3f635d32a76275a9d2e8c2733a34cfd9daea603efde02b1502a0b23450ee12695208c9781084f,
    0x1c3520a35ea64bb60d57242bdb1fc1bf8a066b3ae1eec29b87fbfb9cbc08dd1247b7ffd25dd40452ce6998bf6e0b1ec5583ed0cf3db766a7d7ef93bb07af975307d79c7e8beab10db36c316c6e42b83cf21c8b9bb0471b068d356b23c3d330b2,
    0x0621e2c7d330487c21014fe7744ce029cbc0c73c2b5df671692ef1409422e51a38750c3b66d12e55b4956a9e17c709901fbb231d12bcd87ecda86f40216bc0591c3d05775d0ee66f90c3b6019882e3963e61c3a13838219b80d253a6bccba34a,
    0x1583d7783c1cbf860a961438bb51e2efb2d3c363588f2e3ec0bf1d950842a94b5d8e589ca1002e9d25923071e9aaa3b454dfafb9e17ce196b7ae1796b0dbf0f30007d6097bd3a5bc6526483765581e3090ea48c1c69f9adcaf9860cc8259838d,
    0x079c170bd843b3881b53da780c1112fdfcc3f785307c8c6b0d2894265066e80d4958064e83c5580a16e12b5fbe5b87261d1b679ef72cc58f90034704cc9d28c7252a5f2e81ed8f70c9a62a126609167a597c3a1455670174eceea2ef5da27ae1,
    0x51445e14ddcd52f4c22cbddc6d6b2600417bf3a7997b7b9194b625e5f155c1b36768c0d7317b8acc3ca6723ff3c3ef489af7686dbb03573bcdd6cd50c0d5d0566dec05e34ac9fb003579422451b8ea42bee3431e6205e5230506ece464fa6fff,
    0x77b2e3f05d3e99afdf1136c43a5b983f9f9a935e121ceaf9f10c96b37fdfbb2e12e990086e4fd43d4b49f948be30f7a78c53a24f92079129893147ab2bbea45513186f31e39295c8b8bd6927166385db8e67ff6b444bbcb357502b4b3b144951]"

definition niels_base_rows_6 :: "int list" where
  "niels_base_rows_6 = [
    0x3e8fe83d032f0137afa1fd5dc541264390433b02cf8de43ba8368f02389e5fc807a195152e095e8ad17c2f0358fce460a5d19f30c024866bd598639c12ddb0a463b795fc7ad3255d1c7706d917a8f908bc8b61bf4f84f3cb296fa9c59c2ec4de,
    0x0904d07b87779e5eb38847bceb40126060fe8a8b6c7d8a9a6239dbc070cdd19622d60899a6258c86a59d5da51260cde3dfc51a8e33e0373108704c8de8efd13c75ba3b797fac4007de1c5ae161bbfd8494f24270670845492f8b15b90570a294,
    0x56bdaf238db40cac66f13ba7e7c9316ad6947c5bca37d25af834749c5ba295a06240aacebaf72a6c167697ada081f93106952f0cbd2d0c39f4322d6648f940b943e2143fbc1dde072c63cc63ad86cc51cf31db3ec74c8daab4ce1fd4ddba919c,
    0x43b261dc9aeb485988d225821d09357ce045eaf054ac8c1cf4ec7648ffd4ce1f03aa31507e1e57547c9b8591d7a14f5c062a6bb7622386b91310d36cc19d3bb21d24a86d837413189e0e14521d5a5572338568d56eb93d40362ab9e3f53533eb,
    0x27a6c809ae5d3410c49cf4936c824389eacc4646186ce508b4a155cb28d18df202b4d5e242940964028d10ddd54f956794fe7126000bf47b19513d8b6c951364326055cf5b276bc2b02c2ee2603dea33a09ed07dc17a359de55b1e1988bb79bb,
    0x7b1df4b73890f43682891c667a94f0f4a9422044728ce3f159eecdf9390be1d0221503603d8c259979fa592469d7036cdd4a3e576a66cab2cd2c270ac43d69542cb67174ff60a17ef22edfa315f5585a37d3d73a675a5be88ba6ebcd1f0db188,
    0x46cf4c473daf01cf44bae2810ff6c482f3e4aad386ddacd7dbb15d852a18187a68698245d352e03db2aaa88d1fb6a630e3555c9fd49409d45f2e221807f8f58c61fcef2658fc599215eb8fe20d7f7b0e7c6c9e062b551160e492f2e0b3b2a224,
    0x69a198e64f1ce7160a07e7b1e18340305c3b2dd6bfca674a1c2c4525df200d571065aae50d8cc5bb2488c38c5629ceba7c1e7ef8392b4854213c6ea7f149814029387bcd14eb5f4072b1a7f2cbe5cadc0e5eda0116903303426525ed9ec4e5f9,
    0x1420683db54e4cd2e04ecc3bdf273b5e3ca5fbd9415dc7b89d673ffb1398686425b2697bd267f9e470019576ed86a0e747ed5d963c84fb33e1014434dcc5caed7369e6a92493a1bf9df54a66405070b847c9889cc85096679062b2e0d91a78bc,
    0x55cf1eb62d5503175bece14b6f18683f49e48f4f29320ad897e8c7129e062b4f31e83b4161d081c1d3b0da49a66bde536a1b0ce99646ac8b34eebb6fc1cc5ad060b63bebf508a72dfb02d32fccbaac5c620c35005e58c102b478bd1e249dd197,
    0x13c4836799c58a5c9873ae5641347651302557bba77c371a943e6b505c9dc9ec1a56fbaa62ba0133bd831ce34913ee20d73ab9dde799cc363076b5e37df58c52669a6564570891d4e2402fa912c55fa78b9d086d5094819c5879101065c23d58,
    0x1dd56444725fd5ae64b03ac325b73b9632353e15f011abd9606d37836edfe11150bdc87dc8e5b827d4b2e883b8e55365deebc4ec571a4842c4dcfb6a5d8bd08066f80c93a637b60719f83664ecb5b9b6fc13c187c7f13f61423a5d465ab3e1b9,
    0x318c8d9393a9a87bd1e36c6d17996f80389d3183de94a510078f2f31d83946273a3a450f63a305cdf3e38be19fe7977c7d4cea11eae1c3e0c297e60008bac89a0e645912219f732e6e71454349220c8bbc9f6ac471cd7c158fa47ff83362127d,
    0x05bff02328a1138982ec12809d833e89793ef3f4641b1f33bdc06edca6f925e9509a41c325950af655851dfdf35973cdfc921658342d9e3b5d669e29ab1dd398224c7c679a1d5314bc98d3e3ba8598ef0c9f3c497f24db66f2745d032afffe19,
    0x5ff418726271b7a15e82a51434e62a0d9a577fbd1405de081ef38abc234f305f576277cdee01a3ea1f748e6b8f4a52404fe70dc844a5fafe6881a0dd0dc512e4780b8cc3fa2a44a796741049d21a1c88544acf0ad1accf593632137023cae00b,
    0x4ab38a51052cbefa3c57658ac888f7f038669da5acd309e5d9ad0aaf333353d029d4db8ca0a0cb69ac1f26e938781276f35d2a3b432610e1e5db47e813b69540106a03dc25a966befa98894c06bd035da7602025f3e778f5398e080c1789db9d]"

definition niels_base_rows_7 :: "int list" where
  "niels_base_rows_7 = [
    0x104bbd6814049a7b1a4698bb5f6c025cade797759f356b2e0ff2f2f9d956e1483041c6bb04ed2b9b25d56b5d201634c2e82b3efdf7575dced6cfd1ef5fddc09c29cdd1adc088a690f1a80bd5ca0ace1d98c1c0574422ca13da7c2b256768d593,
    0x2570fb17c279161f653c3c318f6d5c317589155abd652e30c8143b3d30ebb079204f2a20fb072df5b7f8024cde20f257e92be69d4cc75681a95d9a5fd67ff1635be8cc57092a714944dc5c4304d2f2de2c811dcdd86f3bc251f0fd3168f1ed67,
    0x08420edd5fcdf0e516d7fcdd235b01d18fbf2cf022d9733a28d8172940de6caa241c5f91de0186687986ea2d88a4c935c8e6fba88f9050d1192ea9550bb8245a3dcb65ea53030acde8c7142a65b52562f5f96f761cd6026c3efa367f2cb61575,
    0x4a7a4f2618991ad71cb608173334a2922954deb68da5dd2d5e7dc116ddbdb5d504d654f321db889c5d9670c7ebb91521b6135b5a276e06850358c34e04f410ce0d9a53efbc1769fde3179617fc39e62b57e118d4e21a3e6ecdff20ab8362fa4a,
    0x4f4bce4dce6bcc51773348b63d02b3f2738e177e9c1576d9a6e8274408a4ffd64a96314223e0ee33dd84856486899ef293da8270718147f224c3b291af372a4b11b50c4cddd31848cdfcf08500e011123df65f346b5c1b8ff4a718025fb15f95,
    0x389e740c9a9ce1d64cae76215f841a7c855ae36dbce2310a427e7079449bac413042cee561595f3748eb409bf26b4fa6e456718fcaec231730e2616ec49d0b6f73fcdd14b71c01e6d21a09d71cea3cf426ea725692f58a9ea71fce5ae2242584,
    0x6539a089154847598c14f6264e8a6c773ef976278e0623083f3e06a6f1d7de6e25c425e5d626369065fc3eaba19b91ede55b0b3227919ce1c9bd78f6570eac2861545379465a678845b3f07d62c6381b97500323e348d0ad64fcb3ae34dcb9ce,
    0x4cabc7bdec33072a59a8af0dfaf2939a4f3fe6e3163b5181d486d1b1cafde0c60f65320ef019bd9048a89fd736ca716919b2bc3c98424f8eddc4dbd414bb4a1911c5e4aac5cd186c624e5ce8f9b99e33c150544125c46845e9d21f74c3d2f773,
    0x0edf493c85b602a6e7d2aec2ae72fd192b2b90d4809074897bd508e39111a1c37ee498165acb2021f2778bfccf65cc9dfe30a72ca1404d9fc08f788f3f78d289639b93f0321c858217dbed2a764fa12ac748c4c03afe4738239e9624089c0a2e,
    0x355bb12ab26176f4aee8bfad04c7d65771a0f35a1480eff84dc22f818b465cf804c00c54d1dfa3691c8fcffacae6bedea090403ff7f5f8356767c4d284764113403b92e3019d4fb44fe41d7422b67f07ea574f0febade20eaecc8158599b5a68,
    0x47c3871bbb1755c41815a929c9b1d1d90f2d60bcf4383298a48859c41b7f6c327518eaf8e052ad8e6f077cbf3bae3f2ded90039db3ceaa11a301dac75a8c73180f9b8132182ec3120a6bc50cfa05e785e5bd84d9eca3b0c3a71e64cc7493bbf4,
    0x473829a74f75d537b514cfcd5d89d665c86445204b685d23824ddd7668deead008fea02ce8d48d5fe53754ea441ae8e062ecc4b0b3a299b0fbe65d50c85066b000b89b85764699dcf762c11a47c3c66bf805b17dc98c5d6e5144539771ec4f48,
    0x7411a6054f8a433fa96c65a78c8eed7bf76a0ab281273e973b48cf217a78820c6c668b4d44e4d39015257390cfe12fb464c2ddceef03588f23d9533aad3902c92078684c4833c6b4355eef24ac47eb0ae63bd7d8b2618df082d2da754679c418,
    0x3add88a5c7cd646057e7cc9bf19575619b81d7020bc882b4b8e6a4d400a2509b1ec9a872458c398f8455ecba1eef35f568713159f392a102579ae53d18b175b47c136574fb8134ffb34c712cdcc2e488044cdc75603af1154d659d32b99dc86d,
    0x5620310cbbd8ece77bf15a3e26783307023b6b6cba7ebd89a3d0a0f11695902961ba1131a406a7201d2ca22af2f66e3a8f7e35985ff659ec85c298d459393046249929fccc879e7485530268beb6d18702dfef6cf66c1fbcab895770b635dcf2,
    0x6daaf723399b9dd5214c8fcfa2989fb8130f1d776c01cd139b5e8f3f1da22ec77ec846f3658cec4da6ec7311abb594dd40e8ff676c8f61936646b5f477e285d637676a2a4d9d97308f6d878fc3f41c22b9dbf806a51222f5528993434934d643]"

definition niels_base_rows_8 :: "int list" where
  "niels_base_rows_8 = [
    0x4468de2d7c2dd693da0fe1fff979c60a3c1bab3f8b48dd0b789814d26adc9cfe2b5449e58eb3bbaa2b1e583b0810c5db29b743e8148be884583b04bfacad8ea21304e9e71627d55100c3e53145747299f7ea38548ebda0b85f3a7562eb3dbe47,
    0x58f29abfe79f2ca888ad8c388d59580fb9066ef7bbae1ff81a94c688deac22ca5da6427e63247352d4a866c5657a772c21113531435d0c284b9ad8c6f86307ce6cce7c6ffb44bd6393a5b6d6447f996233e6dc4c23ddc75451bb355e9419469e,
    0x701f25bb0caec18f83e236233c33289fd2e036134b5589733220024509c6a8886af93724185b48703643d056d50b3ab9b14ce538462c293c4b5a64bf710ecdf6577629c4a7f41e36f0495b0bbe01598254036f9f377e76a5e90ecfab8de73e68,
    0x0e9b9cbb144ef0ec691417f35c229346e84e8b376242abfc0c3f09439b805a35720a5bc050955e5120f5b522ac4e60d6844a06e674bfdbe49d18f6d97cbec1132e0c92bfbdc40be961e3061ff4bca59cf700660e9e25a87dc3a8b0f8e4616ced,
    0x4167a4e6bc593244ccb82f0e68a7fb972eda26fcb5856c3b9e3c1743f2bc8c14366d44191cfd3cde44a8f1bf1c68d791c9c3ab370a723fb98dee9bd55db1beee221104eb3f337bd8d4813152635543bfee81916bdbf90d0efbbad48ffb5720ad,
    0x1176fc6e2dfe65e4ed7485c158808883ce02109ced85a753cdc591ee8681d6cc34b33370cb7ed2f6f12e6e7e2f364eeee967ff14e880d62cc2be2665f8ce8fee7938bb7e2255246a1b4b430321fc06845d1d9d400e7668eb643b9d2876f62700,
    0x4f2fad0116b900d1e2333e23f759829540c085b631165cd660a4c199d30734ea1f6a3e54f26906b621354ffeded7879b98fbcc2aacf440a3db90e28949770eb808fc3a4c677d5f343d4fa502ebe94dc42ddfc9f4b2a58480b4af6cd05b9c619b,
    0x10b89ca6042893b7258e9aaa47285c404a816c94b0935cf69152fcd09fea7d7c3451995f2944ee816f619b39f3b61689e60577aafc129c08962cd91db73bb638445484a4972ef7aba61e6b2d368d04985f541c511857ef6c44beb24194ae4e54,
    0x72214f63cc65c6a722e3b72c3ca60022fd3fe519d752106927f2af18073f3e6a17d2d1d9ef0d4da911776b9c72ff51b6d07caeed6d9c5f65753941be5a45f06e20b878d577b7518e0262bfcb14c3ef1512ebf8c524533f263d5947499718289c,
    0x00ba739e2ae395e6c7ffe45c06fb25a24748c1d10c1420ee24d608328e9505aa1f24ac855a1545b0f2c072bd312f9dc4d605824a4f518f751d9db7b9f43b29c95fdf48c58171cbc9d6fbd0a773761099aba714d72f336795b4e37f405307a693,
    0x05e1296846271945d3dfc90d0228930832f19b4d8b63308048241dc7be0cb93972297de7d518d2265c9f030c26694e50360679d984973bfbae4426f5ea88bb2603283a3e67ad78f3115a3b60f9b49922e5bfb7d345c2a2df592e98de5c8790d6,
    0x006b52076b3ff832c9a75a97f04efa05aa851cab9c2bf08715ae6b8e31489d6878cf25d38258ce4c843566a6f5c8df92bcc80cecd03081d9adbfbbc8242c455039c00c9c13698d9bb02dabae93b5d1e0ceefc8fcf12bb97cba82eeb32d9c495a,
    0x6b2a90af1a6029eddbc9c440d3ee9a814801527f5d85db99de70d4f4b6a55ecb7de2e9561a9f75ced4b36bce2bf4a7ab3407f14c417abc29f5cb7e16b9ce082d4d57e3443bc7612257df39d370516b39b681df18966310e229e0cfe19d95781c,
    0x05b32c2b1cb16790180d4a7bde2968d77065fb753831dc164d43beb22a1062d9465812c8276c2109c647e6f24cee7333d8301b472fb9079b77ebf3245bb2d80a5fd8f4e9d12d3e4aa764ae43e6edd12d5735281de03f5fd16923f4fc9ae61e97,
    0x4fc079d27a7336eba3d16048282b5af3edb351541a2ba4b632b0c524e14dd48231771a48567307e1b6c29d0d340b979d3214286e4333f3ccf7fca42c7ad581953b5556a37b471e99dbbeeff27df9cd61a1cf1aac05dfef83c8c05eccd24da8fd,
    0x3f8612966c87000d4ae75060ebc6c4aff0911dee0113e4353ff9ab860ac473b4241170c2bae3cd086422f74d643e3cb91337cbc9cc94e651dc348b440c86c50d124567cecaf98e92ffffc09c7880e4532497bd6502dfe9a751c938b089bf2f7f]"

definition niels_base_rows_9 :: "int list" where
  "niels_base_rows_9 = [
    0x4041943d9dba306985c15a344f5a24675180d162247af17b0cab2cd55687efb126f57eee878a19d4dc9f350b9f92d0aa29159db373899ddd9c18fcfa36048d13504aa7767973613d7f62865b31ef238c551dcdb2ea718385559a0cc9782a0dde,
    0x1b4f92314359a01244182854e35ff3955e3c5140b23aa47b00c67799d337594f12d931429800d019cb1d4f7a03fbc9e347a6b424648ab7ce4b217743a26caadd1420a1d97684340fd9fa95ee1c77ccc68d749c9c26ea9cafc3c0eeba43ebcc96,
    0x020c526a758f36cbef4572805593eb3d2883ab795fc98523819ed433ac2d90685ff191d56f9a23f6ab82aa4051def4f6251f73d2215f485933cf3030a49866b1239b572a7f132dae20eae43f975f302039cefa912de9696a3e5c109d89150951,
    0x4cfb7d7b304b877bab17ea25f1fb11c9bbc464270e607c9f86a0f7a0647877df452cfe0a5602c50cadc8e18aaec759972c589c9d8e124bb6e931ef59f042cc8902aacc4615313877a9524cdca3e1b074c8f2aaf9dc7ca46c779834f89ed8dbbc,
    0x2f98f71258592dd11301498b3369a7053a4f0e2bb88dcce5b6fb2615cc0a9f265b1d4cbc434d3ac5c343c857ecc970d02b6ecd71df57190de28699c29789ef1214b4622b39075364b8c3aa373ee34c9f54c694d99c6adc8072b43d6cb89b75fe,
    0x298b8ce8aef25ff38d0e1dfbdf34b4e91a0ea8b591b90f62657ada85a9907c5a1d8062e9e7614554cebf890d75835de0fcfe3ef0a9cbd7de2e12ae444f54a7013a6ae249d806aaf99a2acc2182300f675b1ff4a98e8e13200c94a74cb50f9e56,
    0x71d62bdd465e1c6aa293aa9aa4b22573d5a813df63b5fefdc26eecb5836933356ba6271803a7d7dc521636c77738ae703fab07b40bcf79f6837a72ea0a2165de34b8a8404d5ce4859418457a30a7cf6a4b89c92a791570762a927953eff70cb2,
    0x4aebcc4547e9d98cda6d0892e3ac623b398b7c752b298c37a86fe55467d9ca811c333621262b2b3d14571fea3f49f085d77f95cf16b065f5cd2db5dab1f75ef574d5f317f3172ba4e3645ff9f701da5af6db43790a0fa4b46533cc28d378df80,
    0x06e1cd13b19ea319e6ed278ec9673ae058d6582ed43918c12b500f1efe5872df173bd9ddc9a1df2cdbe63a034a58a207806b32535ba85b6e0b408d9e7354b6105d88fbf95a3db7925308129b71d6fba9e7b8bac586c48c7012f0071b276d01c9,
    0x30d0fded2e51307e68cd7830592c633995a8d555c901edf6f7e644395d3d800b7f3a6a1a8d837b130c785f469643bf273baa0b90278d0447472baf629e5b03533080603526e162663fe35e14a04d088e118e32931fab6abe40d0ad516f166f23,
    0x3bca0d2895ca5dfe0e6df501659932ec55c7110d16034caebc9019c0aeb9a02e4615084351c589d95c8de72672fa412ba09572296664bbcf9cb4971e68b847500a9214202c0998686965187f8f499a771bdbe78ef0cc4d9ce0594d1af21233b3,
    0x24ce0930542ca4639121774549f11a5f46305305a48cee832aed460af1cad2024ea8b4038df28241ca2d955f5f7a9fe2f0bc83ada644896f9c688eb69ecc01bf5631deddae8f13cd98183da2130fb54519fc8b3ecff07a6040f031bc3c5d62a4,
    0x491b66dec0dcff6abc3bd33bd17f4d69ae91e4b7d25ffdeaf26e32a763ee1a2e549928a7324f4280b2e064de6492f844d2f7168e36372ea43fcfa155fdf30b8541d4e3c28a06d74b827808fe6e8caf3eb5c468355d8810f21fe890f5fd06c106,
    0x530d4a82eb078a99c13d331b84777063ab27bc01df320c7ac383a821991a73bd4cf6b8b0b7018b678234a3791f7b7ba4ed222caf67e2284b75f04a8ed0da64a108f338d0c85ee4acac0abf52cbf8d947e3d5f8cc7e16db9898f5b13dc7ea32a7,
    0x02a4ec1921e1a1db0fbe044213443b1a81d62c7f61b5cb6b3d66fc3ee20963630db3e7e00cbfbd5b2bacf412c8cfb850257fb2fc4900a8806d6973456c9abf9e65ea753f101770b9c7482323cc84ff8b7e2d78268cab535a004c3630e1f94825,
    0x2ef517885ba8285936bdb6e8df179bacd5e48f5cfc783a0a126d27917915455736d12b5dec067fcf172124851c063578118c861926ee57f2f5c86162f1cf795f3d143c51127809bfcccbe6e88ba07037b8577acc45afa0b85ce6259a3b24b8a2]"

definition niels_base_rows_10 :: "int list" where
  "niels_base_rows_10 = [
    0x7dc43e35dc2aa3e1cf7509a86ee2eed1f393658d24f0ec47f71ab8430a20e10157968290bb3a0095f0f52dc746d5dd25d3f938ad889596b896eebffb305b2f512f1b78fab143a8a6e185d956e980718ab9ef22fbabf041a44637974e8c58aedc,
    0x7f79823f9c30dd2eca704534b201bb4957b3371dce4c6359c1df18c5a907e3d9044fb81d82d50a990f2ed8051f237d3e3576c6995e4efd945a782a5c273e97187ef72016758cc12fc6e08df8ef2079b1c90f9b314bb0535585966665887dd9c3,
    0x071a7d0ace18346c7156ce4389a45d47b0b4f6a0d53a82352eb3d6a15b7d291964a9b0431c06d6f03cbf99557ded5be70827894e0050c8de6a9c1ff068f587ba0a4e0373d784d9b412b54136f590bd33c13670d4b91fa8d88334d239a3b513e8,
    0x6f5a9a7322aca51de951a9a3171798d710db18252f50f37d07f0d7eb04e8295f7c69bcf7617755d39af5621b209d5f360d65950709b15141cc0c355220e144312c3bcc7146ea7e9ccf543002c0ef768b01262905bfa562eed3072daac887ba0b,
    0x6b5d76cbea46bb34fa091f1dd91ef6d9219a224e0fb9a249efa48a85dde50d9a02ab9680ee8d3b244525567a47869c038d9e09408078af9ee729d4eba3d944be494e21a2e147afca4efa47703cc51c9fc49f79c10cfefb9b8ba1000c2f41c6c5,
    0x3f81e38b8f70d0754811f7ed0991d03e24fc72b4d8abe133288e199733b6096216fb869c03dd313e408b3ea2d0fcc746f1e6ae74036936d3e0f941171e7825220ae333f685277354af0169148f42b4776472dc6f5cd01dba8857556cec0cd994,
    0x127c158bf0fa1ebef2d6fd0009eefe1c745ede19c331cfd96f0c0fc5336e249d0ad3e2d34cdedc3dd57c3e8bcbf8eaf774b923c3d74299a40adb7f355f17c82450510fc104f50993a8397ed24b0c4704545cb8a12465874b7f910fcc7ed9affe,
    0x302d92d20539236d8808ac30a9f6653c50352efceb41b0b8fee3b52260c5d9754ed82479d167df956240680b873848a81d9973d3744dfe96dea28fc4ae51b974354ef87d07ef4f689b413fc14b4eaccba44addd452ca3647f6197c422e9879a2,
    0x45b46c51361cba72bf87263b03578a23e9dc1eec24a9f6415453bfd653da8e670edc5f5eb426d0605e1966d4787af6e804e1bf29a4bd6a932dbc6fb6e4e0f17710e5d3b76f1cae4caec7bcb8c268fa86ed62f091a1863dd97813c1a2bca4283d,
    0x4ae619387d8ab5bb087a76659c8324876048811ec25f59b337081bbcfa79db8f5c1c0aef321229df4b594f7bb30e9958ab13645676620e30ce9d4ddd8a7fe3e42177bfa36dcb713b1dbbd54b23a8be84e257f1dc8e8cf450a9402abf314f7fa1,
    0x135529b623b0e6aadf7275107af66569543d0fa8c9ff49526e960933eb61f2b275685abe5ba43d6483ac3448d425904bfce0462a7196313661117e44985bfb831a00d91b17bf3e035eb0eb974a130d607d88eab4b41b40788ddbf6aa5344a32e,
    0x4f7e9c95905f3bdbc01b2d64b33604349a9ad294ac4d4fa80fd4ac20dc8f78115972ea051590a613ec9da63714254aaeb42beb19e80985c1f5c716bce22e83fe79b5b81a65ca3a018732e1f07114759b979f7888cfc11f1118f0dbd7add1d518,
    0x2a0a65314ef9ca75553ce494253c11222c1b3d910cea3e927dac5319ae2349921942eec4a144adc88092499ef1a494668bcd3b1cdbebead771c8443d355299fe31993ad92e638e4c8c2999ae53fbd9c6d8520f3989addc0f62674bbc5781302e,
    0x121a307710aa24b6a83c78cee4a32c8907e24ebc774dffabb119227cc28d5bb6055dc39b6dea1a1360e860e9a8cda6ab2f9ebcac5a35bc3bcf361acd3c1c793a4cf6e218647c2ded5982f3a21155af76db741f0617d0a6352db7937ff7f927c2,
    0x6b89069b20a7a9f7485035de2f64d8e53405d07c6e383801563d992a995b482e527bb94a6ced3a9b289e28231097bcd388bfe077b82b96afd659713ec77483c9333fc76c7a40e52d460546919551d3b1e153fc093034bc2de4db5d5e9f034a97,
    0x102f73bfde04341a02a1ef74e601a94f2b4b421246dcc492caee792603589e050473d308a7639bcf29e6c8d9f6e7a57e068686f8c734c1554082fa8cb5c7db7723bc2103aa73eb73ffadc4ce5072ef05995a89faf9245b4e812aa0416270220d]"

definition niels_base_rows_11 :: "int list" where
  "niels_base_rows_11 = [
    0x7b7ecc19da60d6d06466f8f99202932dd940579e6fc6905f734d8d7b106058ac3f6bd725da4ea12d981f375df55042347ac860292bffff06a2b4dae0b5511c9a36597d25ea5c013db72712da2df7afa9023a8aee5787c690eb18b9ab7f5745c6,
    0x0e7ce2b0cdf066a1a0cab423e2e36ee4492942549189f2986258cb0d078975f503bedc661bf5caba09bbffcd8f2d82db82263654e7a386506dae4a51a77cfa9b4235ad7601743956951d44444ae12bd2dd252e660642906e78c2373c695c690d,
    0x7f0bc810d514dee49abe4eba75e8985dcd65bcf0aa458b6b2abbf64e4870cb0d615256138aeceeb54882d47e7f2fab89f130c051c1fcba2dfea6fedfd94b70f9666e0a5d8fb4674a09db17dd3ae94d48fd361df43c6139adc494643ac48c85a3,
    0x00011b44a31bfde30128013c030321cb29329fad851b3480ba1693313ed081dc1d3a907ddec5ab75311e2edd43ec69579ff6f8ba2ef72e9883ac9dad737213a00d1f8dbcf8eedbf5cbc8dfd94f463c288d67369e57e03035b9006ba426f4136f,
    0x33fad52b2368a066f81669b384e72b91e92bceb8fdd8f68300120753afbd232e63d988a2d285102611a8dd7f9a7966adc1bf725c5852bd6a16561f696a0aa75c3ac48d916e8357e17ae38b38268e4d715d40e38e4dd60dd23fdfa06c3fc66c0c,
    0x631eaf426bae7568c87cd1a4baba9244b8a494cb7a5637cee9b69443903e91313cc355ccb90a71e2a3feb6e6ecf6a56f072b4f7b05a13acb8d2cc8d0c422cfe816c0f429a256dca7b2acfcd2f305e7460af86430333f7735540649c6c5e41e16,
    0x7b04715f91253b268900441a2090a9d714ab352fa1ea514ad6026344858f7b19431f2c7f665f80b553658f2732e45de17280c5fbe2f8055247d975b9a3700de85599648b1ea919b5bc3d97611ef9bf8385dd4b526c16e5a6b3e90410da66fe9f,
    0x16234191336d3bdb4208ce7ee9960394f1d1a197622f3a37b60f26e47dabe67148d0acfa57cde223b09a9558450bf944970ed3dd6d1d9b0bb376c280c4e6bac659b37bf5c2f6583fc0404769b7eb2c4486357c8b7d5c7ab483edbd28acf6ae43,
    0x5721896d248e49fc4000144c3ae20161304242581dd170a12ab7668a53f6ed6a4a25707a203b923151e2d8023dd73dc329cd9bc3063625a0dd499cd61ff386402cdfdfecd5d0500623a0153fe9a4f2b17772ca7b742c0843b9e499def6267ff6,
    0x3ec2ab590288c7a2dcd29b84dd623a3c47ccc2c4dfe205fc997276c6492b0c3d03c935afc4b030fd63e5177ce19393b34baa6fa7b5fe3e08285d5091a1d0da4e578edd74f63c13da5509bce9320646259022629f2bb963b40b6e5517fd181bae,
    0x730548b35ae88f5fbfba69cdbaae5f1e1a020018cb926d5de2abd5e9792c887e0e1bf66c6adbac5e0baea4c6e81eab290f2b87df40f5c2d5a7213a09ae32d1cb2dd5c25a200fcace99a0ddd073cb9b83a98b4deb61391aeda1a0d27be4d87bb9,
    0x7656278950ef981fa78e6fa5373e41ff6698c4b5ec78257fa18a5f8233d48962585a2277d87845dd423f06cb0622702bbf3ef17709353f19805b094ba1d6e3343043443b411db8ca760f4f52ab8c385065a26f1db2115f16c43551a3cba8b8ee,
    0x1e79cb358188f75d527e9ad213de6f33afead107f6dd11bef2612f5c6f136c7c28bbf484b613f6164853e7fc31838a8e3a8cfbb707155fdce17073a3ea86cf9d3f4160a8c1b846a626bf109fab570e8f9bedd2fd0506b6f238c3cf59d51fc8c0,
    0x16d87a411a212214b82c6b40a6c1c96fe5dde1bc871ac80766a6a4d39252d159478ab52d39d1f2f4dc6c2d0c864525e584a50c44299dded977e953d8f5e0818165d7951b3a3b38317ff908e5bcf9defc828b6a7ffe9e10f8013436c3eef7e3f1,
    0x45882fe1534d6d3e77c6569e520de0527d1e50ebacea798fa3344ead1be8f7d61f990b577a5a6dde497ac2736ee9778fe21fafd72ebd99fafba4d5e2d54e058328f87c8165f38ca657c05db1d6f994b7879be3cd0c5a24c1b3bd7e5a42066215,
    0x6739687e7327191bb3be28c3915dc6e1d52143fdca5632996c90d6484a4732c07dcf843ce405f0742699db13bec89af3b5f9f161a38392a2d8ac9929943c6fe4688fe5b8f626f6dd7ddd1857985e128f62b6ed1117aa11a66669345d757983d6]"

definition niels_base_rows_12 :: "int list" where
  "niels_base_rows_12 = [
    0x5a5f887e83674b4b03cc6021feb259601dac6f7321119e9bd40f1953c3b5da767da0b8f68d7e7daba7ebf3be95dbd7c697a05cf41b38a436a66dcc9dc80c1ac046115aba1d4dc0b34cd1eb505cdfa8cba2649f30aafda9e8ef782014385675a6,
    0x6a21e6cd4fd5e9bebd5ad8f83626381167301d5199a13ac0387e3f06eda6e13343e37ae2d5d1c70c9b5302897c2dec32b5c3cb00e6c320649e9628d3a0a643b93669b656e44d1434f70297d4a4bca47ecfceb815350dd0c48f6301cf70a13d11,
    0x0eafb03790e52179ac0349d261a16eb85278f0dc610937e5a6db088d5ef8790b45371b07001e8b36325432d01182b0bd71d30847708d1301ef4129126699b2e3586bf9f1a195ff5769dbbd3c8c82b75558712a2a00d23524f1c6170a3046e65f,
    0x62d5221b7f94678f1d82e5c64f9360aaf3760e9d5ac971429cf289b9bba543ee44ae3344c5435bb32cebdf1eea92396dec02fbe32662cc305140805e0f75ae1d309acc675a02c6611c81f73873486d0c219a41e6820baa11960555c13748042f,
    0x5e72365c7bee093eda9234b7c3ed4c6221f970db99b53040df717edc25b2d7f514f29a5383922037a506708059f7193ddfae7b11fee9144d7585d4263af77a3c5c0efde4bc754562a375052edb4a8631c86bb56c8a0c1a0c524c299c18d0936d,
    0x0e34398f4a06404a446677855e503b476688423a9a881fcdbe5113c555112c4c70b20555cb7349b7acff3dad1f9ebdfd5b9659e5df9f32be7d9339062f08b33e77f1104c47b4eabc9a0a37bbf4191e333779675d0694d95b575bfc074571217f,
    0x780de72ec8d3de97f9967d02fde6949e487b97e1a21ab291e340123dfdb7b29a6f8aded6ca379c3ef43217da73395d6f7de3e10e73f3f64018930b093e4b19285e5405368a362372743fa61fb05b6d8d09b3e84127822f07b67d22d93ecebde8,
    0x467d201bf8dd28672991f7fb7ae5da2e148c1277917b15edaf5bbe1aef5195a71defc6ad32b587a629a17fd7973732928f72eb2a2a8c41aa671feaf300f427720eb28bf671928ce438ac15510a4811b8388ddecf1c7f4d060ae28545089ae7bc,
    0x5a758ca390c5f2938255b3d0f1ef990ef18278bce4af267ab6fd6df6fa9e74cd2ef9c5a5ba384001e41064d22c1f4ec83f624cb2d64498bdbc1ef4bd567ae7a971c43c4f5ba3c797964e01d309a47b013a827becf6a308a295fe919a74ef4fad,
    0x2698ca635126a69c105c3f4a49fb15fd00670d0de1839843980f4a2f57ffe1cc0a738027f639d43fd4e6a829afe8aad38ded36469a8130668ce0918b1d61dc942dbae244b3eb72ece3d400bfa0b487ca3aa8c6d2d57d5003a2b72710d9462495,
    0x6b43fd01cd1fd2173ed3265fc6cd47871ca284a5a806c4f39aa946ac06f4b82b3c004b0c4afa33325e773ef6024da96a9e3f0918e4d253862e3d702f5e3dd90e1fb43dcc49caeb0708a81b91a0291fcc381831f7925cff8be765318832b0ba78,
    0x3db5632fea34bc9eda8ab89699fbf3738f593913c62238c4af2cf6cb9e851e0673420b2d6ff0d9f0bf1427c2072b923f75dc52b9ee0ab990b5c742583e760ef35a68d7105b52f7142868b9ebaa46785a15fdf848df0fffbfc7a75d4b4697c544,
    0x45eafdc1f4d70cc0c7ce2dc16f159aa4e77b437a7e2f92e904e16019e4e55aae59197ea495df2b0eeef03d394c704af8edeaeb873e9a89912e4990b1829825d504321adf49d75f131bf2d131499e72730d17b1f6396759a5f46eee2bf75dd9d8,
    0x26058891266218db60c1207f1557aefabe57007e44c9b339b7a7bfd10a4e8dc63f73ceea5d56d94031a09d1ddc0481c959dbc292bd5c0395b60e4624cfccb1ed5a5eebc80362dade941a36656b222dc64c22faa2cf2f0651698401858045d72b,
    0x62ecb2baa77a9408a5b4d2f26ec19fd336f163469fa5c1ebee3b67d5b82b522a0dedfa10b24443b8ec07cccab4129f085e422c9303ceccad4c818e3cc676e54254ad0c2e4e615d57831b2a7312873551c3d93fde7661e6f459f704a68360ff04,
    0x3ddbc2a131c05d5c02d801513f9594cefa475832942002700dc62d361a3231da61913d5075663f985aad01adc630a14a5fcd5e8579e104a592072836afb628742e59f919a966d8be7482c8d0b96b4c714962357d0eddd7d1e5ed795261152b3d]"

definition niels_base_rows_13 :: "int list" where
  "niels_base_rows_13 = [
    0x61d0633c9bca0d0946af908d263c8c78a5acfda9434937f9538dfdcb41446a8e5ee7fb38d83205f9e54be21831a0391c883abab79b07da21f3aa57a22796bb1478968314ac04b36b028007c7f0f89515039c2a6b8c2f130d9adc0ff9ce5ec54b,
    0x79b9bbb9dd95dedc0e711704150e82cfe88f19aafade6d8d9ad2b953ee80527b5b23ac2df8067bdc637fb4db38c2a909ee84695da6f037fcada328bcf8fc73df6e965fd847aed7f56f1b3280553eec03c5bd6b89780b68bb63744935ffdb2566,
    0x3981f39e58a4faf22eaab98a70e645bae14600acd76ecf67708169fb0c4299541ba811460accb834cd6cba126d445f0aa032a2f8cfbb0816d1997dae8e9f73745065f158c9fd21476c0c6429e5b97a82d26383a868c8c393ebb355406a3126c2,
    0x632d9a1a593f24698844fc73c0ea4e71fa134569f99cbecc856d2782c575974030f4452edcbc1b65e9d2e163c7b4f632e152a5002c40483ac845dfa56de66fde38dc083705acd0fd3a85a94514a93cb51d168f6960e6f45d18fb8a7559230a93,
    0x34fcf74475481f63e19cff9f005f9a65a4538075ed26ccf2dcdad4be511beac73a5a7df28af64ba221908c2d57cf877963f071810d9f693abf09fd11ed0c84a70b24f48847ed4a57bb1d97036e29670b1823c7dfbc54f0d7f6bb6b15b807cba6,
    0x56c088f1ede20a73f56598e5b282a2b0669da5f66895d0c167a2d89ce8c2177d0119a3042fb374b09309c9110a92608e5ceda267190b72f2a5bb1dab78cfaa983d3bdc164dfa63f755de888283f95fa8b8714dcb38d9467dc197e04c789767ca,
    0x6e5e31025969eb650971a5ab5aef31742f49d282eaa78d4f9f4ef82199316ff8038b7ea48359038f9a2169028acf92f0a90be9febae30cbd581b5fac24f38f0209674c6b99108b87f915337625072988d7f388320b75b2fa336d3d1110a86e17,
    0x26549fa4efe3dc99bdc78abdac994f9a05c3df38a22ea610323c0ffde57663d03058ad43d1838620bd1924778c1061a3fb35068987acba3f3304fb0e6306622208f5114789a8dba8b491c1e014cc3e6d4999eddeca5d3e71b16c62f587e593fb,
    0x1fa1d01d861e5d15175322fd31f2c0f12fd515463a1fc1fde07f4e8aea17cea03a10dfe132ce3c853df23ff7a4ba0c47d77fcf04f14a0ea5db468549af3f666e1926e1dc6401e0ffd45574a26474d3d92305b3fc7777a581741d5a461e6bf9d6,
    0x1f426b701b864f448d77cec8ad638932a493da67c5a03ecd06b1e90863139cb373fced18ee9a01e57f13e93efdd5e2622e712bddd1080de938dcac00d1df94ab773563bc6a75cf3399f6f7744e0593201e4656da37f15520cc8055947d599832,
    0x7b6dd61eb772a95522e5646399bb8017be6771cbd444ab6e08b8c1f97f92939b0b76bb1b3fa7e438fa83406f0d9b723eb76b8153575e9c76f17e35c891a125524e1af5271d31b0905875da6bf30f1447f1a3b7b817a22c25efc9264c41911c01,
    0x398d93e5c4c61f50181bb73ebcd65af1843a5d6665aed4e56c14c8e99488545553fa9b659bff6afe866cbe65a0cbb28116fb76dc40143b185730abf9ab01d2c7703e9bceaf1d2f4fad962dbd8dfc5bdb7998fa4f608cd5cfb7adc1e850f33d92,
    0x51caf30c6fcdd90728cdd24781b4e975921718b5cce5d97df306a7235946f1cc699c9c9002c30577283e26e7739ef1383b34aaa030828bb1c3877c60d2e7e3f253b09b5ddf191b13d43f8cf0a10b0376bd9e128715bf0a5f1c4bd16733e248f3,
    0x5fd14fe958eba5ea55ca7521d09c4e220dd1efcc3a34f7aea99ec0cb1f0d01cf12ae29c189f8e99a2b89bc334ce10cc7903378dcc51cb30f737af99a18ac54c75504aa292383fdaa3758563dcf3324cc630e8570a17a7bf3a60ba7427674e00a,
    0x2f59bcbc86b470a41367253ab457ac2975730672dbaf23e5b10d24fe680598297dd73f960725d128e0f0859e884220e8bedfa85136d4565f3c42fe5ebf93cb8e093ff26e586474d14daaf3d64002e346069491b10a7fe993b5dc2ddf2845ab2c,
    0x13e9004a8a768664352b4c82fdb5c86442c54e2d74421d10ed5192e60c07444f2aa55e3d010828b116c2e1631133558585201b3fadd7e71e7041d560b691c3015458b42e2e51af4a7e7748d9be77aad1ad1b911f567d03d783847d429917135f]"

definition niels_base_rows_14 :: "int list" where
  "niels_base_rows_14 = [
    0x2cf8a4e891d5e835e19715574696bdc6a9d13b22d4f06834b9037116297bf48d5f46040898de9e1aecf3b7c036de649fece3a890e0dc506bbb2e00c9193b877f73937e8814bce45e32bc0dcab74ffef7fa38d6c9ae6bf863739d8845832fcedb,
    0x6011aadfc545941d4c21b52c519ebfd4f0ee60be5b3db90b7d09fd8d6a9aef497a6f7f2891d6a4f6d7659c8185978a3024d2381c3950196b2cb5487e17d06ba22049bd6e58252a097cb16a4cc2736a86dd4c09d37c38b5496d93fd8707110f67,
    0x15596b3ae57101f1127e0442189f2352dd1aae3cd47e9092d1ef5528b29879cb69ce18b779340b1e624d0afdb9b6ed99fbd098ca0dff6aaa63ded0c802cbf8906fc5cc1b0b62f9e0d6a1e7f3998f7a5b7c7e8561712890715f67926dcf95f83c,
    0x32fcaa6e4687a36c083ab1a25549d2eb48583f8fa2e926c32cc138bf2a3305f53aa4e241afb6d138292b7d227ef556e50be4158bd9c745df09ff31167e5124ca0d2237687b5f4dda1307deb553f2148aff83123197d6ddcf462739d23f9179a2,
    0x7b4917007ed6629333596a8a0344186de288eb729943731f3f4af345ab6c971c746f6336c2600be9d5b2ecd7f60d964e17e31908f213e3f83207a4732787ccdf4627e9cefebd6a5caac014de22efe4a33e0bd2ed9df0bdf27bc56e8dc57d9af5,
    0x02c70bf52b68ec4c2eabb4be7dd479d99ed0fd42115d187fc20232cda2b4e5541d03620fe08cd37d0ff592d94dd2f8f4aa17905bdf42fc3f54341b28dd53a2dd122ba376f844fd7b476adc447b15ce0c497810d289f3bc142d85fb5cab84b064,
    0x1cc37f43441b2fae9c9cb95849f0d2a93ef000ef076da45db6c8f04adf62a3c06b0697e3feb43a0356cf7d94ee8bbde75be768e07cb73cb5ace532bf458d72e126334f0a409ef5e0e044a61ec1d0815c415c5790074882caa287ec4b5d0b2fbb,
    0x05911b9f6ef7c5d0960746dd8ec67262e9bd0331b1e851edd2d55112e2da6ac83a346f772f19683826e72832844c23341c5b15f818e5656ad76656f1c9ceaeb96c6809c10380314afb18abdb5c45ac19d061c4c0e506a922508f565a5cc7324f,
    0x675f4de13381749d5737ff98b40946f2624aef08a3afbf0c36a770ba3b73bd08555ef9d1c64b2d1724180c07a99a688d20c141d31cc1cb495349acf3512eeaef6b3cecf9aa270c622cf1130a0bb398e1c0f3758f512c4cacc1339983f5df0ebb,
    0x1c06de9e55edac804e5f1c18750023a04fcb69c9d719bfa2014b5ec321e5c0ca60f450b882cd3c43019c4ff39abe94870725d80f9d652dfea12ff6d93bdab31d13d99df70164c520d0dcbdd96964073e64816c816cad83b40e2c52036b1782fc,
    0x373cad3a26091abe4f09cc7d7003725bf9c49e2a48b5478ca0aaaa650dfa5ce778096f8e7d32ba2d5e4a5c2fa34d989734530b18dc4049bbffd52b40ff6d69aa4cf38a1fec2db60d9ca143c5632845156608f938be2ee08e990f7ad6a33ec4e2,
    0x63550a334a254df4b72ba407bb3119b9f4272c89510a380cdefde939fd5986d321547eda5112a6868f58a7bb1f9b8d9d3bcb2cbc61aeaecbf1bea8fb89ddbbad0040f3d9454419fc9e9c4db3418cdb5a1fcbfde124934536b294634d82c9f57c,
    0x68436a0665c9c4cd70525560eb8ab39a5f63857768dbd3759d24c713e693274e39a92bafaa7d767a60e8fa69c734f18df305c6fae2c408e09bba584572547b493eea62c7daf78f51ea7c0090eb6bd65d178429b00ca52ee16507d6edb569cf37,
    0x1cb4b5a678f87d11afcaf5885b2d1eca908f2084c9cab3fc5d2814ab9a0e52575373669c91611472c1e0a1c6320ffc7ac5266844840ae9651e56d317e820107c17b6e7f68ab789f991a4e9d5a38c2416c75c00e264f975b0bc0235e8202f3f27,
    0x3c31be1b369f1cf5c58ac14fbfc953fbf9695e962b074724982eff841119744e2dc0fd2d82ef6eac5707e438000be223f311e0b0f071c7b16b74aa62a2a007e7330bca78de7434a24f8d03164bcad8340c88de2498da5fb1b664c06b394afc6c,
    0x26b44cd91f28777d73d7c36cdba1df27bb1fd49e1d9e156df79619d7a26d808a41cec1097e7d55bb7f0e52aa34ac8d7aaeb8711fc7cedb98c168bc93f9cb4272330b61134262d4bb7975cdaea6aca15807dc19ee91ba1c6fb0f4864d08948aee]"

definition niels_base_rows_15 :: "int list" where
  "niels_base_rows_15 = [
    0x08e68e9ff62ce2ea588001380f0be4b566cbec045553cd0ecb62af6a8766ee7a7deb10149c72610fdafc778abfd413144b5279ffebca8a2ce1b7f293627303832c709e6c1c10a5d69aab1244d99f2055b25dbcf49cbecb3c51f048478f387475,
    0x19a1e353c0ae2ee8c20d313f3f751b50a59501badb4a9038f7848c75e515b64a4cb13bd738f719f54a8f342673766cb9acb9218dc55923df2f2d09d50ab8f2f92f1f3f87eeba3b09a25c3d98500a89be8d38db493d0bd49c34ad500a4bc130ad,
    0x412295a2b87fab5ccc5f5f30425c837546fd114b6081657385532d509334b3b4736bd3990266ae349fb15347b44109b593e0454398eefc40b42172cdd596bdbd41546b11c20c3486e3529718c0d66473b3e1a0a0c6e55e617d1c7560bafa05c3,
    0x6b34be9bc33ac5f22cbf268f46caccb157156da9ed69a084413e1a17cde6818a0760bb8d195add80460975cb7900996b845a92032133acdb2e655261e293eac614e153ebb52d2e345cee3213b30ad2735393cb266df8c82519c99b88f57ed6e9,
    0x08af5b784e4bade83d36efdfc2e76c1f1483241f45a0a763880b55e55ac89d2901b9c7b62e6dd30be33ae7a2d4fe5035c6c9e845530e737a11fc69656571f2d32012c18f0922dd2dec7d1c5e49c1b5a34c3e971ef22e027cf3df2f643a78c0b2,
    0x480a5efbc13e2dcce49de338f9e5d3cd22bcc28f3746e5f9cc85f8d9edfcb36a6423c1d5afd9826e18d528d6fa3364ce4be4bd11a287178de27314d289cc2c4b32b79d71163a168d897addfb673441f49d0525da779323b6283499dc881f2533,
    0x545b585d14dda094f0af66134ea278d611a4fe7e7c693f7c2a541eedc015f8c324b31d47691c8e06663fb4a4dc1cbe036e199dcc4c053928b6614ce442ce221f47aa27600cb7bf312c6bb061ef5aabcd06b505cf8b1dafc50b51e70b01622071,
    0x1c0fa01a36371436febac2d2953afa055cae6a3f57cbcf61fcb46589d63b5f394d22dc3e64c8d0710b0ccffd5b99bd9e3baa637a28ff1e956204e4d0e3b321e10f62f9c332ba54544289134cd479e72eade68e34089beebe67bf275ea0d43a0f,
    0x1fba218aef40ab42f8499f911954fa8e2089c1af3a44ac90a003febdb9be82f04005419b1d2bc1406fb73e54c4dfb634f9c9a035c1dac5b669082b0e8c936a500fa3614f3b1ca6bf5d254ff397808678bc8cbece44cfb3a0d2c604b622943dff,
    0x25e17fe4d50ac13b19319c76f29ab0ab2e0781445887e8164cbd34e93e8a35af6c535d13ff7761d5c839c6ab99dcdef1a81d3eee08daaf7f4f3e57043e7b0194392e3acaa8c86e4274fd6c7d6c2b5e0181f6e89a7ba63741ab549448fac8f53e,
    0x559d504f7f6b7be4971d6914af8460d44cb54a18a0997ad5e2d1bc6690fe39016bba828f8969899bccba2fde4d1be526c34a32272fcd87e3915f7ff576f121a7255751442a9fb3515186d8b034691fab208e1c52d6420f950a289bd71e04f676,
    0x4a3961e2c918a1541eab4271d83245d9b9ede3c2d8315848118d189041e32d96123ea6a3354bd50e88388f1d6061e23b0744a19b0307781b9c4891e7f6d266fd01ab12d5807e32170a26cf62f92800ba1d69d366a5553c7ca7738378b3eb54d5,
    0x595760d5b508f5973860d9f1b7e73e23308e6e24b7ad040c38b4c90ef3d7c21068aceead9bd4111f83b5a716f2dab979499a260e34fcf0160327d644f3233f1e2cd6bce3fb1db763a992425fe13a476ad6cef8347effe30a71dc3be0f8e6bba0,
    0x70f029ecf0c8131f2723f36ef8cbb03ad22bc1662e694effeb0a5d8c63fd2aca2cb2c5df54515a2b65f492e37d3473f489af3305c4115760882acbebfd022790709fa43edcb291a93f8bc0897d9094588f960008a4a7fccb6129bfe104aa6397,
    0x272224512c7de9e4de1c531c60e1c52b70d38300a3340f1d25d448327b95d54344eca5a2a74bd9e1773efb77aa3ad61f78f0a370ef041aa92a6aafaa5e10b0b90b7d5d8a6c314858c94449d3195f0366ae042f33a45581e7461307b32eed3e33,
    0x0fef911191df895f2503a1d065a497b9eb848e0f7f19547ee3ab90d042c8426619735fd7f6bc20a6e27fc76fcdedaa488c5c397796ada358bf7bbb8a42a975fc11b5df18a44cc543efa28c8dfcc84e29ffeed811b2e6fad01abc92af49c5342e]"

definition ge25519_niels_base_multiples :: "bytes list" where
  "ge25519_niels_base_multiples = map (le_bytes 96)
     (niels_base_rows_0 @ niels_base_rows_1 @ niels_base_rows_2 @ niels_base_rows_3 @
      niels_base_rows_4 @ niels_base_rows_5 @ niels_base_rows_6 @ niels_base_rows_7 @
      niels_base_rows_8 @ niels_base_rows_9 @ niels_base_rows_10 @ niels_base_rows_11 @
      niels_base_rows_12 @ niels_base_rows_13 @ niels_base_rows_14 @ niels_base_rows_15)"

end
