(* ===== verification/Ristretto.thy ===== *)
theory Ristretto
  imports Base_Tables
begin

unbundle bit_operations_syntax

text \<open>
  The Ristretto group over edwards25519 (\<open>ristretto255.c\<close>, the 64-bit constants): constant-time
  comparisons, the inverse square root, decoding and encoding, the Elligator map, and the
  constant-time scalar multiplication with its table lookup.
\<close>

section \<open>Constants\<close>

definition one :: bignum25519 where "one = Fe 1 0 0 0 0"
definition zero :: bignum25519 where "zero = Fe 0 0 0 0 0"

definition MINUS_ONE :: bignum25519 where
  "MINUS_ONE = Fe 2251799813685228 2251799813685247 2251799813685247 2251799813685247 2251799813685247"

definition SQRT_M1 :: bignum25519 where
  "SQRT_M1 = Fe 1718705420411056 234908883556509 2233514472574048 2117202627021982 765476049583133"

definition EDWARDS_D :: bignum25519 where
  "EDWARDS_D = Fe 929955233495203 466365720129213 1662059464998953 2033849074728123 1442794654840575"

definition INVSQRT_A_MINUS_D :: bignum25519 where
  "INVSQRT_A_MINUS_D = Fe 278908739862762 821645201101625 8113234426968 1777959178193151 2118520810568447"

definition EDWARDS_D_MINUS_ONE_SQUARED :: bignum25519 where
  "EDWARDS_D_MINUS_ONE_SQUARED =
     Fe 1507062230895904 1572317787530805 683053064812840 317374165784489 1572899562415810"

definition ONE_MINUS_EDWARDS_D_SQUARED :: bignum25519 where
  "ONE_MINUS_EDWARDS_D_SQUARED =
     Fe 1136626929484150 1998550399581263 496427632559748 118527312129759 45110755273534"

definition SQRT_AD_MINUS_ONE :: bignum25519 where
  "SQRT_AD_MINUS_ONE =
     Fe 2241493124984347 425987919032274 2207028919301688 1220490630685848 974799131293748"

section \<open>Comparisons\<close>

definition uchar_ct_eq :: "u8 \<Rightarrow> u8 \<Rightarrow> u8" where
  "uchar_ct_eq a b =
     (let x = NOT (a XOR b);
          x = x AND drop_bit 4 x;
          x = x AND drop_bit 2 x;
          x = x AND drop_bit 1 x
      in x)"

definition uint8_32_ct_eq :: "bytes \<Rightarrow> bytes \<Rightarrow> u8" where
  "uint8_32_ct_eq a b = foldl (\<lambda>x i. x AND uchar_ct_eq (a ! i) (b ! i)) 1 [0..<32]"

definition bignum25519_ct_eq :: "bignum25519 \<Rightarrow> bignum25519 \<Rightarrow> u8" where
  "bignum25519_ct_eq a b = uint8_32_ct_eq (curve25519_contract a) (curve25519_contract b)"

definition bignum25519_is_negative :: "bytes \<Rightarrow> u8" where
  "bignum25519_is_negative bs = bs ! 0 AND 1"

section \<open>Square roots\<close>

text \<open>The root (the output argument) and the flag \<open>was_nonzero_square\<close>.\<close>

definition curve25519_sqrt_ratio_i :: "bignum25519 \<Rightarrow> bignum25519 \<Rightarrow> bignum25519 \<times> u8" where
  "curve25519_sqrt_ratio_i u v =
     (let tmp = curve25519_square v;
          v3 = curve25519_mul tmp v;
          tmp = curve25519_square v3;
          v7 = curve25519_mul tmp v;
          tmp = curve25519_mul u v7;
          r = curve25519_pow_two252m3 tmp;
          r = curve25519_mul r u;
          r = curve25519_mul r v3;
          tmp = curve25519_square r;
          check = curve25519_mul v tmp;
          u_neg = curve25519_neg u;
          u_neg_i = curve25519_mul u_neg SQRT_M1;
          correct_sign_sqrt = bignum25519_ct_eq check u;
          flipped_sign_sqrt = bignum25519_ct_eq check u_neg;
          flipped_sign_sqrt_i = bignum25519_ct_eq check u_neg_i;
          r_prime = curve25519_mul r SQRT_M1;
          should_rotate = flipped_sign_sqrt OR flipped_sign_sqrt_i;
          (r, r_prime) = curve25519_swap_conditional r r_prime (ucast should_rotate);
          r_bytes = curve25519_contract r;
          r_is_negative = bignum25519_is_negative r_bytes;
          r_negative = curve25519_neg r;
          (r, r_negative) = curve25519_swap_conditional r r_negative (ucast r_is_negative);
          was_nonzero_square = correct_sign_sqrt OR flipped_sign_sqrt
      in (curve25519_copy r, was_nonzero_square))"

definition curve25519_invsqrt :: "bignum25519 \<Rightarrow> bignum25519 \<times> u8" where
  "curve25519_invsqrt v = curve25519_sqrt_ratio_i one v"

section \<open>Decoding and encoding\<close>

text \<open>
  \<open>ristretto_decode\<close> writes its target only when it returns 1: \<open>Some\<close> of the point, or
  \<open>None\<close> for a return value 0 with the target untouched.
\<close>

definition ristretto_decode :: "bytes \<Rightarrow> ge25519 option" where
  "ristretto_decode bs =
     (let s = curve25519_expand bs;
          s_bytes_check = curve25519_contract s;
          s_encoding_is_canonical = uint8_32_ct_eq bs s_bytes_check;
          s_is_negative = bignum25519_is_negative s_bytes_check
      in if s_encoding_is_canonical = 0 \<or> s_is_negative = 1 then None
         else
           let ss = curve25519_square s;
               u1 = curve25519_sub_reduce one ss;
               u2 = curve25519_add_reduce one ss;
               u1_sqr = curve25519_square u1;
               u2_sqr = curve25519_square u2;
               minus_d = curve25519_neg EDWARDS_D;
               tmp = curve25519_mul minus_d u1_sqr;
               v = curve25519_sub_reduce tmp u2_sqr;
               tmp = curve25519_mul v u2_sqr;
               (i, ok) = curve25519_invsqrt tmp;
               dx = curve25519_mul i u2;
               tmp = curve25519_mul dx v;
               dy = curve25519_mul i tmp;
               tmp = curve25519_add_reduce s s;
               x = curve25519_mul tmp dx;
               x_bytes = curve25519_contract x;
               x_is_negative = bignum25519_is_negative x_bytes;
               tmp = curve25519_neg x;
               (x, tmp) = curve25519_swap_conditional x tmp (ucast x_is_negative);
               y = curve25519_mul u1 dy;
               t = curve25519_mul x y;
               t_bytes = curve25519_contract t;
               t_is_negative = bignum25519_is_negative t_bytes;
               y_is_zero = bignum25519_ct_eq zero y
           in if ok = 0 \<or> t_is_negative = 1 \<or> y_is_zero = 1 then None
              else Some \<lparr>ge_x = curve25519_copy x, ge_y = curve25519_copy y,
                         ge_z = curve25519_copy one, ge_t = curve25519_copy t\<rparr>)"

definition ristretto_encode :: "ge25519 \<Rightarrow> bytes" where
  "ristretto_encode element =
     (let tmp1 = curve25519_add_reduce (ge_z element) (ge_y element);
          tmp2 = curve25519_sub_reduce (ge_z element) (ge_y element);
          u1 = curve25519_mul tmp1 tmp2;
          u2 = curve25519_mul (ge_x element) (ge_y element);
          u22 = curve25519_square u2;
          tmp1 = curve25519_mul u1 u22;
          (invsqrt, ok) = curve25519_invsqrt tmp1;
          i1 = curve25519_mul invsqrt u1;
          i2 = curve25519_mul invsqrt u2;
          tmp1 = curve25519_mul i2 (ge_t element);
          z_inv = curve25519_mul tmp1 i1;
          ix = curve25519_mul (ge_x element) SQRT_M1;
          iy = curve25519_mul (ge_y element) SQRT_M1;
          enchanted_denominator = curve25519_mul i1 INVSQRT_A_MINUS_D;
          tmp1 = curve25519_mul (ge_t element) z_inv;
          contracted = curve25519_contract tmp1;
          rotate = ucast (bignum25519_is_negative contracted);
          x = curve25519_copy (ge_x element);
          y = curve25519_copy (ge_y element);
          (x, iy) = curve25519_swap_conditional x iy rotate;
          (y, ix) = curve25519_swap_conditional y ix rotate;
          (i2, enchanted_denominator) = curve25519_swap_conditional i2 enchanted_denominator rotate;
          tmp1 = curve25519_mul x z_inv;
          contracted = curve25519_contract tmp1;
          x_zinv_is_negative = bignum25519_is_negative contracted;
          y_neg = curve25519_neg y;
          (y, y_neg) = curve25519_swap_conditional y y_neg (ucast x_zinv_is_negative);
          tmp1 = curve25519_sub_reduce (ge_z element) y;
          s = curve25519_mul i2 tmp1;
          contracted = curve25519_contract s;
          s_is_negative = bignum25519_is_negative contracted;
          s_neg = curve25519_neg s;
          (s, s_neg) = curve25519_swap_conditional s s_neg (ucast s_is_negative)
      in curve25519_contract s)"

definition ristretto_ct_eq :: "ge25519 \<Rightarrow> ge25519 \<Rightarrow> u8" where
  "ristretto_ct_eq a b =
     (let x1y2 = curve25519_mul (ge_x a) (ge_y b);
          y1x2 = curve25519_mul (ge_y a) (ge_x b);
          x1x2 = curve25519_mul (ge_x a) (ge_x b);
          y1y2 = curve25519_mul (ge_y a) (ge_y b);
          check_one = bignum25519_ct_eq x1y2 y1x2;
          check_two = bignum25519_ct_eq x1x2 y1y2
      in check_one OR check_two)"

section \<open>The Elligator map\<close>

text \<open>
  Two calls of \<open>elligator_ristretto_flavor\<close> treat a field element as raw memory.
  \<open>bignum25519_is_negative(s_prime)\<close> reads the first byte of the array of limbs, the low byte
  of limb 0.  \<open>curve25519_move_conditional_bytes(c, r, flag)\<close> moves twelve 64-bit words where
  \<open>c\<close> and \<open>r\<close> have five: the model has the effect on the five limbs of \<open>c\<close>; the seven words
  behind them are outside the objects and belong to no variable of the model.
\<close>

fun limb_memory_is_negative :: "bignum25519 \<Rightarrow> u8" where
  "limb_memory_is_negative (Fe a0 a1 a2 a3 a4) = bignum25519_is_negative [ucast a0]"

fun move_conditional_limbs :: "bignum25519 \<Rightarrow> bignum25519 \<Rightarrow> u64 \<Rightarrow> bignum25519" where
  "move_conditional_limbs (Fe c0 c1 c2 c3 c4) (Fe r0 r1 r2 r3 r4) flag =
     Fe (move_conditional_word flag c0 r0) (move_conditional_word flag c1 r1)
        (move_conditional_word flag c2 r2) (move_conditional_word flag c3 r3)
        (move_conditional_word flag c4 r4)"

definition elligator_ristretto_flavor :: "bignum25519 \<Rightarrow> ge25519" where
  "elligator_ristretto_flavor r0 =
     (let c = curve25519_copy MINUS_ONE;
          r02 = curve25519_square r0;
          r = curve25519_mul r02 SQRT_M1;
          rOne = curve25519_add_reduce r one;
          Ns = curve25519_mul rOne ONE_MINUS_EDWARDS_D_SQUARED;
          d_mul_r = curve25519_mul EDWARDS_D r;
          c_min_d_mul_r = curve25519_sub_reduce c d_mul_r;
          r_add_d = curve25519_add_reduce r EDWARDS_D;
          D = curve25519_mul c_min_d_mul_r r_add_d;
          (s, Ns_D_is_sq) = curve25519_sqrt_ratio_i Ns D;
          not_sq = of_bool (Ns_D_is_sq = 0);
          s_prime = curve25519_mul s r0;
          s_prime_is_pos = of_bool (limb_memory_is_negative s_prime = 0);
          s_prime_neg = curve25519_neg s_prime;
          (s_prime, s_prime_neg) = curve25519_swap_conditional s_prime s_prime_neg s_prime_is_pos;
          (s, s_prime) = curve25519_swap_conditional s s_prime not_sq;
          c = move_conditional_limbs c r not_sq;
          r_min_one = curve25519_sub_reduce r one;
          c_mul_r_min_one = curve25519_mul c r_min_one;
          c_mul_r_min_one_mul_d = curve25519_mul c_mul_r_min_one EDWARDS_D_MINUS_ONE_SQUARED;
          Nt = curve25519_sub_reduce c_mul_r_min_one_mul_d D;
          s2 = curve25519_square s;
          s_add_s = curve25519_add_reduce s s;
          x = curve25519_mul s_add_s D;
          y = curve25519_sub_reduce one s2;
          z = curve25519_mul Nt SQRT_AD_MINUS_ONE;
          t = curve25519_add_reduce one s2
      in \<lparr>ge_x = curve25519_mul x t, ge_y = curve25519_mul y z,
          ge_z = curve25519_mul z t, ge_t = curve25519_mul x y\<rparr>)"

definition ristretto_from_uniform_bytes :: "bytes \<Rightarrow> ge25519" where
  "ristretto_from_uniform_bytes bs =
     (let r_1 = curve25519_expand (take 32 bs);
          R_1 = elligator_ristretto_flavor r_1;
          r_2 = curve25519_expand (take 32 (drop 32 bs));
          R_2 = elligator_ristretto_flavor r_2
      in ge25519_add R_1 R_2)"

section \<open>Constant-time scalar multiplication\<close>

definition ge25519_set_neutral :: ge25519 where
  "ge25519_set_neutral = \<lparr>ge_x = zero, ge_y = one, ge_z = one, ge_t = zero\<rparr>"

text \<open>
  The table lookup sees the table as one array of words (\<open>long\<close>), 20 to an entry, and pointers
  into it as indices.  The loop scans the entries from \<open>p + stride\<close> below \<open>n\<close> and keeps the
  four words at the entry whose index is \<open>pos\<close>.
\<close>

function cmove_stride4b_loop :: "u64 list \<Rightarrow> nat \<Rightarrow> nat \<Rightarrow> nat \<Rightarrow> nat \<Rightarrow> u64 list \<Rightarrow> u64 list" where
  "cmove_stride4b_loop mem p pos n stride x =
     (if p < n \<and> 0 < stride
      then let flag = (p = pos); y = take 4 (drop p mem)
           in cmove_stride4b_loop mem (p + stride) pos n stride (if flag then y else x)
      else x)"
  by pat_completeness auto
termination
  by (relation "measure (\<lambda>(mem, p, pos, n, stride, x). n - p)") auto

declare cmove_stride4b_loop.simps [simp del]

definition ge25519_cmove_stride4b :: "u64 list \<Rightarrow> nat \<Rightarrow> nat \<Rightarrow> nat \<Rightarrow> nat \<Rightarrow> u64 list" where
  "ge25519_cmove_stride4b mem p pos n stride =
     cmove_stride4b_loop mem (p + stride) pos n stride (take 4 (drop p mem))"

fun fe_words :: "bignum25519 \<Rightarrow> u64 list" where
  "fe_words (Fe a0 a1 a2 a3 a4) = [a0, a1, a2, a3, a4]"

definition pniels_words :: "ge25519_pniels \<Rightarrow> u64 list" where
  "pniels_words q = fe_words (pn_ysubx q) @ fe_words (pn_xaddy q) @ fe_words (pn_z q) @ fe_words (pn_t2d q)"

definition fe_of_words :: "u64 list \<Rightarrow> bignum25519" where
  "fe_of_words w = Fe (w ! 0) (w ! 1) (w ! 2) (w ! 3) (w ! 4)"

definition pniels_of_words :: "u64 list \<Rightarrow> ge25519_pniels" where
  "pniels_of_words w =
     \<lparr>pn_ysubx = fe_of_words w, pn_xaddy = fe_of_words (drop 5 w),
      pn_z = fe_of_words (drop 10 w), pn_t2d = fe_of_words (drop 15 w)\<rparr>"

definition ge25519_move_conditional_pniels_array :: "ge25519_pniels list \<Rightarrow> nat \<Rightarrow> nat \<Rightarrow> ge25519_pniels" where
  "ge25519_move_conditional_pniels_array p pos n =
     (let mem = concat (map pniels_words p)
      in pniels_of_words (concat (map
           (\<lambda>i. ge25519_cmove_stride4b mem i (pos * 20 + i) (n * 20 + i) 20) [0, 4, 8, 12, 16])))"

text \<open>
  \<open>ge25519_scalarmult_tg\<close>: entry \<open>k\<close> of the table is \<open>k * p1\<close>, the entry \<open>i + 2\<close> being built
  from the entry \<open>i\<close> and the double.
\<close>

definition scalarmult_tg_table :: "ge25519 \<Rightarrow> ge25519_pniels list" where
  "scalarmult_tg_table p1 =
     (let d1 = ge25519_double p1;
          pre = [ge25519_full_to_pniels ge25519_set_neutral, ge25519_full_to_pniels p1,
                 ge25519_full_to_pniels d1]
      in foldl (\<lambda>pre i. pre @ [ge25519_pnielsadd d1 (pre ! i)]) pre [1..<7])"

definition scalarmult_tg_step ::
    "ge25519_pniels list \<Rightarrow> int list \<Rightarrow> ge25519 \<times> ge25519_p1p1 \<Rightarrow> nat \<Rightarrow> ge25519 \<times> ge25519_p1p1" where
  "scalarmult_tg_step pre1 slide1 st i =
     (let k = nat \<bar>slide1 ! i\<bar>; r = fst st;
          r = ge25519_double_partial r r;
          r = ge25519_double_partial r r;
          r = ge25519_double_partial r r;
          t = ge25519_double_p1p1 r;
          pre = ge25519_move_conditional_pniels_array pre1 k 9;
          r = ge25519_p1p1_to_full t;
          t = ge25519_pnielsadd_p1p1 r pre (digit_signbit (slide1 ! i));
          r = ge25519_p1p1_to_partial r t
      in (r, t))"

definition ge25519_scalarmult_tg :: "ge25519 \<Rightarrow> bignum256modm \<Rightarrow> ge25519" where
  "ge25519_scalarmult_tg p1 s1 =
     (let slide1 = contract256_window4_modm s1;
          pre1 = scalarmult_tg_table p1;
          t0 = \<lparr>pp_x = zero, pp_y = zero, pp_z = zero, pp_t = zero\<rparr>;
          (r, t) = foldl (scalarmult_tg_step pre1 slide1) (ge25519_set_neutral, t0) (rev [0..<64])
      in r\<lparr>ge_t := curve25519_mul (pp_x t) (pp_y t)\<rparr>)"

end
