(* ===== verification/Ristretto_Correct.thy ===== *)
theory Ristretto_Correct
  imports Ristretto
begin

unbundle bit_operations_syntax

lemma all_less_8: "(\<forall>i<8. P i) \<longleftrightarrow> P 0 \<and> P 1 \<and> P 2 \<and> P 3 \<and> P 4 \<and> P 5 \<and> P 6 \<and> P (7 :: nat)"
  by (simp add: numeral_eq_Suc All_less_Suc conj_ac)

lemma uchar_ct_eq_low_bit: "bit (uchar_ct_eq a b) 0 \<longleftrightarrow> a = b"
proof -
  define c where "c = NOT (a XOR b)"
  have "bit (uchar_ct_eq a b) 0 \<longleftrightarrow> (\<forall>i<8. bit c i)"
    unfolding uchar_ct_eq_def Let_def c_def [symmetric] all_less_8 bit_and_iff bit_drop_bit_eq o_def
    by simp blast
  also have "\<dots> \<longleftrightarrow> (\<forall>i<8. bit a i = bit b i)"
    by (simp add: c_def bit_not_iff bit_xor_iff)
  also have "\<dots> \<longleftrightarrow> a = b"
    by (auto intro: bit_word_eqI)
  finally show ?thesis .
qed

lemma and_uchar_ct_eq: "of_bool c AND uchar_ct_eq a b = of_bool (c \<and> a = b)"
  using uchar_ct_eq_low_bit [of a b]
  by (intro bit_word_eqI) (auto simp: bit_and_iff bit_of_bool_iff)

lemma uint8_32_ct_eq_nth: "uint8_32_ct_eq a b = of_bool (\<forall>i<32. a ! i = b ! i)"
proof -
  have "foldl (\<lambda>x i. x AND uchar_ct_eq (a ! i) (b ! i)) 1 [0..<n] = of_bool (\<forall>i<n. a ! i = b ! i)" for n
    using and_uchar_ct_eq [of True]
    by (induction n) (auto simp: and_uchar_ct_eq less_Suc_eq simp del: of_bool_eq)
  then show ?thesis by (simp add: uint8_32_ct_eq_def)
qed

lemma uint8_32_ct_eq_exact:
  "length a = 32 \<Longrightarrow> length b = 32 \<Longrightarrow> uint8_32_ct_eq a b = of_bool (a = b)"
  by (simp add: uint8_32_ct_eq_nth list_eq_iff_nth_eq)

end
