(* ===== verification/Sha2.thy ===== *)
theory Sha2
  imports Portable
begin

unbundle bit_operations_syntax

text \<open>
  SHA-1, SHA-256 and SHA-512 (\<open>sha2.c\<close>, \<open>sha2.h\<close>) as compiled for a little-endian machine: the
  rolled transforms of the default build, the unrolled ones behind
  \<open>SHA2_UNROLL_TRANSFORM\<close>, and the streaming interface Init/Update/Final.

  The C buffer is an array of words that the code also addresses as bytes; the model keeps the
  bytes, and reads or stores word \<open>j\<close> of the buffer little-endian, as the machine does.
\<close>

section \<open>Words and logical functions\<close>

definition SHR :: "nat \<Rightarrow> 'a::len word \<Rightarrow> 'a word" where "SHR b x = drop_bit b x"
definition ROTR32 :: "nat \<Rightarrow> u32 \<Rightarrow> u32" where "ROTR32 b x = drop_bit b x OR push_bit (32 - b) x"
definition ROTR64 :: "nat \<Rightarrow> u64 \<Rightarrow> u64" where "ROTR64 b x = drop_bit b x OR push_bit (64 - b) x"
definition ROTL32 :: "nat \<Rightarrow> u32 \<Rightarrow> u32" where "ROTL32 b x = push_bit b x OR drop_bit (32 - b) x"

definition Ch :: "'a::len word \<Rightarrow> 'a word \<Rightarrow> 'a word \<Rightarrow> 'a word" where
  "Ch x y z = (x AND y) XOR (NOT x AND z)"
definition Maj :: "'a::len word \<Rightarrow> 'a word \<Rightarrow> 'a word \<Rightarrow> 'a word" where
  "Maj x y z = (x AND y) XOR (x AND z) XOR (y AND z)"
definition Parity :: "'a::len word \<Rightarrow> 'a word \<Rightarrow> 'a word \<Rightarrow> 'a word" where
  "Parity x y z = x XOR y XOR z"

definition Sigma0_256 :: "u32 \<Rightarrow> u32" where "Sigma0_256 x = ROTR32 2 x XOR ROTR32 13 x XOR ROTR32 22 x"
definition Sigma1_256 :: "u32 \<Rightarrow> u32" where "Sigma1_256 x = ROTR32 6 x XOR ROTR32 11 x XOR ROTR32 25 x"
definition sigma0_256 :: "u32 \<Rightarrow> u32" where "sigma0_256 x = ROTR32 7 x XOR ROTR32 18 x XOR SHR 3 x"
definition sigma1_256 :: "u32 \<Rightarrow> u32" where "sigma1_256 x = ROTR32 17 x XOR ROTR32 19 x XOR SHR 10 x"
definition Sigma0_512 :: "u64 \<Rightarrow> u64" where "Sigma0_512 x = ROTR64 28 x XOR ROTR64 34 x XOR ROTR64 39 x"
definition Sigma1_512 :: "u64 \<Rightarrow> u64" where "Sigma1_512 x = ROTR64 14 x XOR ROTR64 18 x XOR ROTR64 41 x"
definition sigma0_512 :: "u64 \<Rightarrow> u64" where "sigma0_512 x = ROTR64 1 x XOR ROTR64 8 x XOR SHR 7 x"
definition sigma1_512 :: "u64 \<Rightarrow> u64" where "sigma1_512 x = ROTR64 19 x XOR ROTR64 61 x XOR SHR 6 x"

definition REVERSE32 :: "u32 \<Rightarrow> u32" where
  "REVERSE32 w =
     (let tmp = drop_bit 16 w OR push_bit 16 w
      in drop_bit 8 (tmp AND 0xff00ff00) OR push_bit 8 (tmp AND 0x00ff00ff))"

definition REVERSE64 :: "u64 \<Rightarrow> u64" where
  "REVERSE64 w =
     (let tmp = drop_bit 32 w OR push_bit 32 w;
          tmp = drop_bit 8 (tmp AND 0xff00ff00ff00ff00) OR push_bit 8 (tmp AND 0x00ff00ff00ff00ff)
      in drop_bit 16 (tmp AND 0xffff0000ffff0000) OR push_bit 16 (tmp AND 0x0000ffff0000ffff))"

text \<open>Loads and stores of the words of a little-endian buffer of \<open>n\<close>-byte words.\<close>

definition load_le :: "bytes \<Rightarrow> 'a::len word" where
  "load_le bs = word_of_int (le_val bs)"

definition load_word :: "nat \<Rightarrow> bytes \<Rightarrow> nat \<Rightarrow> 'a::len word" where
  "load_word n buf j = load_le (take n (drop (n * j) buf))"

definition store_word :: "nat \<Rightarrow> bytes \<Rightarrow> nat \<Rightarrow> 'a::len word \<Rightarrow> bytes" where
  "store_word n buf j w = take (n * j) buf @ le_bytes n (uint w) @ drop (n * j + n) buf"

definition buffer_words :: "nat \<Rightarrow> bytes \<Rightarrow> 'a::len word list" where
  "buffer_words n buf = map (load_word n buf) [0..<16]"

text \<open>The loop \<open>REVERSE(buffer[j], buffer[j])\<close> over the first \<open>m\<close> words.\<close>

definition reverse_buffer32 :: "nat \<Rightarrow> bytes \<Rightarrow> bytes" where
  "reverse_buffer32 m buf = foldl (\<lambda>buf j. store_word 4 buf j (REVERSE32 (load_word 4 buf j))) buf [0..<m]"

definition reverse_buffer64 :: "nat \<Rightarrow> bytes \<Rightarrow> bytes" where
  "reverse_buffer64 m buf = foldl (\<lambda>buf j. store_word 8 buf j (REVERSE64 (load_word 8 buf j))) buf [0..<m]"

text \<open>\<open>memcpy\<close> into and \<open>memzero\<close> of a part of the buffer.\<close>

definition write_at :: "nat \<Rightarrow> bytes \<Rightarrow> bytes \<Rightarrow> bytes" where
  "write_at off bs buf = take off buf @ bs @ drop (off + length bs) buf"

definition memzero :: "nat \<Rightarrow> nat \<Rightarrow> bytes \<Rightarrow> bytes" where
  "memzero off len buf = write_at off (replicate len 0) buf"

section \<open>Constants and contexts\<close>

definition SHA1_BLOCK_LENGTH :: nat where "SHA1_BLOCK_LENGTH = 64"
definition SHA1_DIGEST_LENGTH :: nat where "SHA1_DIGEST_LENGTH = 20"
definition SHA1_SHORT_BLOCK_LENGTH :: nat where "SHA1_SHORT_BLOCK_LENGTH = SHA1_BLOCK_LENGTH - 8"
definition SHA256_BLOCK_LENGTH :: nat where "SHA256_BLOCK_LENGTH = 64"
definition SHA256_DIGEST_LENGTH :: nat where "SHA256_DIGEST_LENGTH = 32"
definition SHA256_SHORT_BLOCK_LENGTH :: nat where "SHA256_SHORT_BLOCK_LENGTH = SHA256_BLOCK_LENGTH - 8"
definition SHA512_BLOCK_LENGTH :: nat where "SHA512_BLOCK_LENGTH = 128"
definition SHA512_DIGEST_LENGTH :: nat where "SHA512_DIGEST_LENGTH = 64"
definition SHA512_SHORT_BLOCK_LENGTH :: nat where "SHA512_SHORT_BLOCK_LENGTH = SHA512_BLOCK_LENGTH - 16"

definition K1_0_TO_19 :: u32 where "K1_0_TO_19 = 0x5a827999"
definition K1_20_TO_39 :: u32 where "K1_20_TO_39 = 0x6ed9eba1"
definition K1_40_TO_59 :: u32 where "K1_40_TO_59 = 0x8f1bbcdc"
definition K1_60_TO_79 :: u32 where "K1_60_TO_79 = 0xca62c1d6"

definition sha1_initial_hash_value :: "u32 list" where
  "sha1_initial_hash_value = [0x67452301, 0xefcdab89, 0x98badcfe, 0x10325476, 0xc3d2e1f0]"

text \<open>The constant tables keep the rows of the source.\<close>

definition K256 :: "u32 list" where
  "K256 = concat [
     [0x428a2f98, 0x71374491, 0xb5c0fbcf, 0xe9b5dba5], [0x3956c25b, 0x59f111f1, 0x923f82a4, 0xab1c5ed5],
     [0xd807aa98, 0x12835b01, 0x243185be, 0x550c7dc3], [0x72be5d74, 0x80deb1fe, 0x9bdc06a7, 0xc19bf174],
     [0xe49b69c1, 0xefbe4786, 0x0fc19dc6, 0x240ca1cc], [0x2de92c6f, 0x4a7484aa, 0x5cb0a9dc, 0x76f988da],
     [0x983e5152, 0xa831c66d, 0xb00327c8, 0xbf597fc7], [0xc6e00bf3, 0xd5a79147, 0x06ca6351, 0x14292967],
     [0x27b70a85, 0x2e1b2138, 0x4d2c6dfc, 0x53380d13], [0x650a7354, 0x766a0abb, 0x81c2c92e, 0x92722c85],
     [0xa2bfe8a1, 0xa81a664b, 0xc24b8b70, 0xc76c51a3], [0xd192e819, 0xd6990624, 0xf40e3585, 0x106aa070],
     [0x19a4c116, 0x1e376c08, 0x2748774c, 0x34b0bcb5], [0x391c0cb3, 0x4ed8aa4a, 0x5b9cca4f, 0x682e6ff3],
     [0x748f82ee, 0x78a5636f, 0x84c87814, 0x8cc70208], [0x90befffa, 0xa4506ceb, 0xbef9a3f7, 0xc67178f2]]"

definition sha256_initial_hash_value :: "u32 list" where
  "sha256_initial_hash_value = [
     0x6a09e667, 0xbb67ae85, 0x3c6ef372, 0xa54ff53a,
     0x510e527f, 0x9b05688c, 0x1f83d9ab, 0x5be0cd19]"

definition K512 :: "u64 list" where
  "K512 = concat [
     [0x428a2f98d728ae22, 0x7137449123ef65cd], [0xb5c0fbcfec4d3b2f, 0xe9b5dba58189dbbc],
     [0x3956c25bf348b538, 0x59f111f1b605d019], [0x923f82a4af194f9b, 0xab1c5ed5da6d8118],
     [0xd807aa98a3030242, 0x12835b0145706fbe], [0x243185be4ee4b28c, 0x550c7dc3d5ffb4e2],
     [0x72be5d74f27b896f, 0x80deb1fe3b1696b1], [0x9bdc06a725c71235, 0xc19bf174cf692694],
     [0xe49b69c19ef14ad2, 0xefbe4786384f25e3], [0x0fc19dc68b8cd5b5, 0x240ca1cc77ac9c65],
     [0x2de92c6f592b0275, 0x4a7484aa6ea6e483], [0x5cb0a9dcbd41fbd4, 0x76f988da831153b5],
     [0x983e5152ee66dfab, 0xa831c66d2db43210], [0xb00327c898fb213f, 0xbf597fc7beef0ee4],
     [0xc6e00bf33da88fc2, 0xd5a79147930aa725], [0x06ca6351e003826f, 0x142929670a0e6e70],
     [0x27b70a8546d22ffc, 0x2e1b21385c26c926], [0x4d2c6dfc5ac42aed, 0x53380d139d95b3df],
     [0x650a73548baf63de, 0x766a0abb3c77b2a8], [0x81c2c92e47edaee6, 0x92722c851482353b],
     [0xa2bfe8a14cf10364, 0xa81a664bbc423001], [0xc24b8b70d0f89791, 0xc76c51a30654be30],
     [0xd192e819d6ef5218, 0xd69906245565a910], [0xf40e35855771202a, 0x106aa07032bbd1b8],
     [0x19a4c116b8d2d0c8, 0x1e376c085141ab53], [0x2748774cdf8eeb99, 0x34b0bcb5e19b48a8],
     [0x391c0cb3c5c95a63, 0x4ed8aa4ae3418acb], [0x5b9cca4f7763e373, 0x682e6ff3d6b2b8a3],
     [0x748f82ee5defb2fc, 0x78a5636f43172f60], [0x84c87814a1f0ab72, 0x8cc702081a6439ec],
     [0x90befffa23631e28, 0xa4506cebde82bde9], [0xbef9a3f7b2c67915, 0xc67178f2e372532b],
     [0xca273eceea26619c, 0xd186b8c721c0c207], [0xeada7dd6cde0eb1e, 0xf57d4f7fee6ed178],
     [0x06f067aa72176fba, 0x0a637dc5a2c898a6], [0x113f9804bef90dae, 0x1b710b35131c471b],
     [0x28db77f523047d84, 0x32caab7b40c72493], [0x3c9ebe0a15c9bebc, 0x431d67c49c100d4c],
     [0x4cc5d4becb3e42b6, 0x597f299cfc657e2a], [0x5fcb6fab3ad6faec, 0x6c44198c4a475817]]"

definition sha512_initial_hash_value :: "u64 list" where
  "sha512_initial_hash_value = [
     0x6a09e667f3bcc908, 0xbb67ae8584caa73b, 0x3c6ef372fe94f82b, 0xa54ff53a5f1d36f1,
     0x510e527fade682d1, 0x9b05688c2b3e6c1f, 0x1f83d9abfb41bd6b, 0x5be0cd19137e2179]"

record ('w, 'c) sha_ctx =
  state :: "'w list"
  bitcount :: 'c
  buffer :: bytes

type_synonym SHA1_CTX = "(u32, u64) sha_ctx"
type_synonym SHA256_CTX = "(u32, u64) sha_ctx"
type_synonym SHA512_CTX = "(u64, u64 \<times> u64) sha_ctx"

definition zero_SHA1_CTX :: SHA1_CTX where
  "zero_SHA1_CTX = \<lparr>state = replicate 5 0, bitcount = 0, buffer = replicate 64 0\<rparr>"
definition zero_SHA256_CTX :: SHA256_CTX where
  "zero_SHA256_CTX = \<lparr>state = replicate 8 0, bitcount = 0, buffer = replicate 64 0\<rparr>"
definition zero_SHA512_CTX :: SHA512_CTX where
  "zero_SHA512_CTX = \<lparr>state = replicate 8 0, bitcount = (0, 0), buffer = replicate 128 0\<rparr>"

text \<open>\<open>ADDINC128(w, n)\<close> on the two-word bit counter.\<close>

definition ADDINC128 :: "u64 \<times> u64 \<Rightarrow> u64 \<Rightarrow> u64 \<times> u64" where
  "ADDINC128 w n =
     (let w0 = fst w + n in (w0, if w0 < n then snd w + 1 else snd w))"

definition sha2_hex_digits :: string where "sha2_hex_digits = ''0123456789abcdef''"

definition hex_string :: "bytes \<Rightarrow> string" where
  "hex_string digest =
     concat (map (\<lambda>d. [sha2_hex_digits ! unat (drop_bit 4 (d AND 0xf0)),
                       sha2_hex_digits ! unat (d AND 0x0f)]) digest) @ [CHR 0x00]"

section \<open>SHA-1\<close>

definition sha1_Init :: "SHA1_CTX \<Rightarrow> SHA1_CTX" where
  "sha1_Init context =
     \<lparr>state = sha1_initial_hash_value, bitcount = 0, buffer = memzero 0 SHA1_BLOCK_LENGTH (buffer context)\<rparr>"

type_synonym regs5 = "u32 \<times> u32 \<times> u32 \<times> u32 \<times> u32"

definition sha1_round_0_15 :: "u32 list \<Rightarrow> regs5 \<times> u32 list \<Rightarrow> nat \<Rightarrow> regs5 \<times> u32 list" where
  "sha1_round_0_15 data st j =
     (let ((a, b, c, d, e), W1) = st;
          W1 = W1[j := data ! j];
          T1 = ROTL32 5 a + Ch b c d + e + K1_0_TO_19 + W1 ! j
      in ((T1, a, ROTL32 30 b, c, d), W1))"

text \<open>The four later loops differ in the logical function and the constant.\<close>

definition sha1_round :: "(u32 \<Rightarrow> u32 \<Rightarrow> u32 \<Rightarrow> u32) \<Rightarrow> u32 \<Rightarrow> regs5 \<times> u32 list \<Rightarrow> nat \<Rightarrow> regs5 \<times> u32 list" where
  "sha1_round f K st j =
     (let ((a, b, c, d, e), W1) = st;
          T1 = W1 ! ((j + 13) mod 16) XOR W1 ! ((j + 8) mod 16) XOR W1 ! ((j + 2) mod 16) XOR W1 ! (j mod 16);
          W1 = W1[j mod 16 := ROTL32 1 T1];
          T1 = ROTL32 5 a + f b c d + e + K + W1 ! (j mod 16)
      in ((T1, a, ROTL32 30 b, c, d), W1))"

definition sha1_Transform :: "u32 list \<Rightarrow> u32 list \<Rightarrow> u32 list" where
  "sha1_Transform state_in data =
     (let st = ((state_in ! 0, state_in ! 1, state_in ! 2, state_in ! 3, state_in ! 4), replicate 16 0);
          st = foldl (sha1_round_0_15 data) st [0..<16];
          st = foldl (sha1_round Ch K1_0_TO_19) st [16..<20];
          st = foldl (sha1_round Parity K1_20_TO_39) st [20..<40];
          st = foldl (sha1_round Maj K1_40_TO_59) st [40..<60];
          st = foldl (sha1_round Parity K1_60_TO_79) st [60..<80];
          ((a, b, c, d, e), W1) = st
      in [state_in ! 0 + a, state_in ! 1 + b, state_in ! 2 + c, state_in ! 3 + d, state_in ! 4 + e])"

text \<open>
  The unrolled variant keeps the registers in place and rotates the names instead: the
  invocation at round \<open>j\<close> passes the register array shifted by \<open>j\<close>, so that parameter \<open>i\<close> of
  the macro is register \<open>(i - j) mod 5\<close>.
\<close>

definition arg5 :: "nat \<Rightarrow> nat \<Rightarrow> nat" where
  "arg5 j i = (i + 4 * j) mod 5"

definition ROUND1_0_TO_15 :: "u32 list \<Rightarrow> u32 list \<times> u32 list \<Rightarrow> nat \<Rightarrow> u32 list \<times> u32 list" where
  "ROUND1_0_TO_15 data st j =
     (let (v, W1) = st;
          a = v ! arg5 j 0; b = v ! arg5 j 1; c = v ! arg5 j 2; d = v ! arg5 j 3; e = v ! arg5 j 4;
          W1 = W1[j := data ! j];
          v = v[arg5 j 4 := ROTL32 5 a + Ch b c d + e + K1_0_TO_19 + W1 ! j];
          v = v[arg5 j 1 := ROTL32 30 b]
      in (v, W1))"

definition ROUND1 :: "(u32 \<Rightarrow> u32 \<Rightarrow> u32 \<Rightarrow> u32) \<Rightarrow> u32 \<Rightarrow> u32 list \<times> u32 list \<Rightarrow> nat \<Rightarrow> u32 list \<times> u32 list" where
  "ROUND1 f K st j =
     (let (v, W1) = st;
          a = v ! arg5 j 0; b = v ! arg5 j 1; c = v ! arg5 j 2; d = v ! arg5 j 3; e = v ! arg5 j 4;
          T1 = W1 ! ((j + 13) mod 16) XOR W1 ! ((j + 8) mod 16) XOR W1 ! ((j + 2) mod 16) XOR W1 ! (j mod 16);
          W1 = W1[j mod 16 := ROTL32 1 T1];
          v = v[arg5 j 4 := ROTL32 5 a + f b c d + e + K + W1 ! (j mod 16)];
          v = v[arg5 j 1 := ROTL32 30 b]
      in (v, W1))"

definition sha1_Transform_unrolled :: "u32 list \<Rightarrow> u32 list \<Rightarrow> u32 list" where
  "sha1_Transform_unrolled state_in data =
     (let st = (map ((!) state_in) [0..<5], replicate 16 0);
          st = foldl (ROUND1_0_TO_15 data) st [0..<16];
          st = foldl (ROUND1 Ch K1_0_TO_19) st [16..<20];
          st = foldl (ROUND1 Parity K1_20_TO_39) st [20..<40];
          st = foldl (ROUND1 Maj K1_40_TO_59) st [40..<60];
          st = foldl (ROUND1 Parity K1_60_TO_79) st [60..<80];
          (v, W1) = st
      in map (\<lambda>i. state_in ! i + v ! i) [0..<5])"

definition sha1_usedspace :: "SHA1_CTX \<Rightarrow> nat" where
  "sha1_usedspace context = unat (drop_bit 3 (bitcount context)) mod SHA1_BLOCK_LENGTH"

text \<open>Convert the buffer to host byte order and transform.\<close>

definition sha1_process :: "SHA1_CTX \<Rightarrow> SHA1_CTX" where
  "sha1_process context =
     (let buf = reverse_buffer32 16 (buffer context)
      in context\<lparr>buffer := buf, state := sha1_Transform (state context) (buffer_words 4 buf)\<rparr>)"

function sha1_Update_blocks :: "SHA1_CTX \<Rightarrow> bytes \<Rightarrow> SHA1_CTX \<times> bytes" where
  "sha1_Update_blocks context data =
     (if length data \<ge> SHA1_BLOCK_LENGTH
      then let context = context\<lparr>buffer := write_at 0 (take SHA1_BLOCK_LENGTH data) (buffer context)\<rparr>;
               context = sha1_process context;
               context = context\<lparr>bitcount := bitcount context + word_of_nat (SHA1_BLOCK_LENGTH * 8)\<rparr>
           in sha1_Update_blocks context (drop SHA1_BLOCK_LENGTH data)
      else (context, data))"
  by pat_completeness auto
termination
  by (relation "measure (length \<circ> snd)") (auto simp: SHA1_BLOCK_LENGTH_def)

declare sha1_Update_blocks.simps [simp del]

definition sha1_Update_rest :: "SHA1_CTX \<Rightarrow> bytes \<Rightarrow> SHA1_CTX" where
  "sha1_Update_rest context data =
     (let (context, data) = sha1_Update_blocks context data
      in if length data > 0
         then context\<lparr>buffer := write_at 0 data (buffer context), bitcount := bitcount context + push_bit 3 (word_of_nat (length data))\<rparr>
         else context)"

definition sha1_Update :: "SHA1_CTX \<Rightarrow> bytes \<Rightarrow> SHA1_CTX" where
  "sha1_Update context data =
     (if length data = 0 then context
      else
        let usedspace = sha1_usedspace context
        in if usedspace > 0
           then let freespace = SHA1_BLOCK_LENGTH - usedspace
                in if length data \<ge> freespace
                   then let context = context\<lparr>buffer := write_at usedspace (take freespace data) (buffer context),
                                              bitcount := bitcount context + push_bit 3 (word_of_nat freespace)\<rparr>
                        in sha1_Update_rest (sha1_process context) (drop freespace data)
                   else context\<lparr>buffer := write_at usedspace data (buffer context),
                                bitcount := bitcount context + push_bit 3 (word_of_nat (length data))\<rparr>
           else sha1_Update_rest context data)"

definition sha1_Final_state :: "SHA1_CTX \<Rightarrow> SHA1_CTX" where
  "sha1_Final_state context =
     (let usedspace = sha1_usedspace context;
          context = context\<lparr>buffer := write_at usedspace [0x80] (buffer context)\<rparr>;
          usedspace = usedspace + 1;
          (context, usedspace) =
            (if usedspace > SHA1_SHORT_BLOCK_LENGTH
             then let context = context\<lparr>buffer := memzero usedspace (SHA1_BLOCK_LENGTH - usedspace) (buffer context)\<rparr>
                  in (sha1_process context, 0)
             else (context, usedspace));
          buf = memzero usedspace (SHA1_SHORT_BLOCK_LENGTH - usedspace) (buffer context);
          buf = reverse_buffer32 14 buf;
          buf = store_word 4 buf 14 (ucast (drop_bit 32 (bitcount context)) :: u32);
          buf = store_word 4 buf 15 (ucast (bitcount context AND 0xffffffff) :: u32)
      in context\<lparr>buffer := buf, state := sha1_Transform (state context) (buffer_words 4 buf)\<rparr>)"

text \<open>
  \<open>sha1_Final\<close> returns the cleared context and, when the caller passes a buffer
  (\<open>want\<close>), the digest; \<open>sha1_End\<close> the string it writes, with its terminator, and the offset
  of the pointer it returns.
\<close>

definition sha1_Final :: "SHA1_CTX \<Rightarrow> bool \<Rightarrow> SHA1_CTX \<times> bytes option" where
  "sha1_Final context want =
     (zero_SHA1_CTX,
      if want
      then Some (concat (map (\<lambda>w. le_bytes 4 (uint (REVERSE32 w))) (take 5 (state (sha1_Final_state context)))))
      else None)"

definition sha1_End :: "SHA1_CTX \<Rightarrow> bool \<Rightarrow> SHA1_CTX \<times> (string \<times> nat) option" where
  "sha1_End context want =
     (if want
      then let (context, digest) = sha1_Final context True
           in (context, map_option (\<lambda>d. (hex_string d, 2 * SHA1_DIGEST_LENGTH)) digest)
      else (zero_SHA1_CTX, None))"

definition sha1_Raw :: "bytes \<Rightarrow> bytes" where
  "sha1_Raw data =
     the (snd (sha1_Final (sha1_Update (sha1_Init zero_SHA1_CTX) data) True))"

definition sha1_Data :: "bytes \<Rightarrow> bool \<Rightarrow> (string \<times> nat) option" where
  "sha1_Data data want = snd (sha1_End (sha1_Update (sha1_Init zero_SHA1_CTX) data) want)"

section \<open>SHA-256\<close>

definition sha256_Init :: "SHA256_CTX \<Rightarrow> SHA256_CTX" where
  "sha256_Init context =
     \<lparr>state = sha256_initial_hash_value, bitcount = 0, buffer = memzero 0 SHA256_BLOCK_LENGTH (buffer context)\<rparr>"

type_synonym regs8_32 = "u32 \<times> u32 \<times> u32 \<times> u32 \<times> u32 \<times> u32 \<times> u32 \<times> u32"

definition sha256_compress :: "nat \<Rightarrow> u32 \<Rightarrow> regs8_32 \<Rightarrow> regs8_32" where
  "sha256_compress j w r =
     (let (a, b, c, d, e, f, g, h) = r;
          T1 = h + Sigma1_256 e + Ch e f g + K256 ! j + w;
          T2 = Sigma0_256 a + Maj a b c
      in (T1 + T2, a, b, c, d + T1, e, f, g))"

definition sha256_expand :: "u32 list \<Rightarrow> nat \<Rightarrow> u32 list" where
  "sha256_expand W j =
     (let s0 = sigma0_256 (W ! ((j + 1) mod 16)); s1 = sigma1_256 (W ! ((j + 14) mod 16))
      in W[j mod 16 := W ! (j mod 16) + (s1 + W ! ((j + 9) mod 16) + s0)])"

definition sha256_Transform :: "u32 list \<Rightarrow> u32 list \<Rightarrow> u32 list" where
  "sha256_Transform state_in data =
     (let st = ((state_in ! 0, state_in ! 1, state_in ! 2, state_in ! 3,
                 state_in ! 4, state_in ! 5, state_in ! 6, state_in ! 7), replicate 16 0);
          st = foldl (\<lambda>(r, W) j. let W = W[j := data ! j] in (sha256_compress j (W ! j) r, W)) st [0..<16];
          st = foldl (\<lambda>(r, W) j. let W = sha256_expand W j in (sha256_compress j (W ! (j mod 16)) r, W)) st [16..<64];
          ((a, b, c, d, e, f, g, h), W) = st
      in [state_in ! 0 + a, state_in ! 1 + b, state_in ! 2 + c, state_in ! 3 + d,
          state_in ! 4 + e, state_in ! 5 + f, state_in ! 6 + g, state_in ! 7 + h])"

text \<open>The unrolled variants of the two SHA-2 transforms, registers in place as for SHA-1.\<close>

definition arg8 :: "nat \<Rightarrow> nat \<Rightarrow> nat" where
  "arg8 j i = (i + 7 * j) mod 8"

definition sha256_round_in_place :: "nat \<Rightarrow> u32 \<Rightarrow> u32 list \<Rightarrow> u32 list" where
  "sha256_round_in_place j w v =
     (let a = v ! arg8 j 0; b = v ! arg8 j 1; c = v ! arg8 j 2; d = v ! arg8 j 3;
          e = v ! arg8 j 4; f = v ! arg8 j 5; g = v ! arg8 j 6; h = v ! arg8 j 7;
          T1 = h + Sigma1_256 e + Ch e f g + K256 ! j + w;
          v = v[arg8 j 3 := d + T1]
      in v[arg8 j 7 := T1 + Sigma0_256 a + Maj a b c])"

definition sha256_Transform_unrolled :: "u32 list \<Rightarrow> u32 list \<Rightarrow> u32 list" where
  "sha256_Transform_unrolled state_in data =
     (let st = (map ((!) state_in) [0..<8], replicate 16 0);
          st = foldl (\<lambda>(v, W) j. let W = W[j := data ! j] in (sha256_round_in_place j (W ! j) v, W)) st [0..<16];
          st = foldl (\<lambda>(v, W) j. let W = sha256_expand W j in (sha256_round_in_place j (W ! (j mod 16)) v, W)) st [16..<64];
          (v, W) = st
      in map (\<lambda>i. state_in ! i + v ! i) [0..<8])"

definition sha256_usedspace :: "SHA256_CTX \<Rightarrow> nat" where
  "sha256_usedspace context = unat (drop_bit 3 (bitcount context)) mod SHA256_BLOCK_LENGTH"

text \<open>Convert the buffer to host byte order and transform.\<close>

definition sha256_process :: "SHA256_CTX \<Rightarrow> SHA256_CTX" where
  "sha256_process context =
     (let buf = reverse_buffer32 16 (buffer context)
      in context\<lparr>buffer := buf, state := sha256_Transform (state context) (buffer_words 4 buf)\<rparr>)"

function sha256_Update_blocks :: "SHA256_CTX \<Rightarrow> bytes \<Rightarrow> SHA256_CTX \<times> bytes" where
  "sha256_Update_blocks context data =
     (if length data \<ge> SHA256_BLOCK_LENGTH
      then let context = context\<lparr>buffer := write_at 0 (take SHA256_BLOCK_LENGTH data) (buffer context)\<rparr>;
               context = sha256_process context;
               context = context\<lparr>bitcount := bitcount context + word_of_nat (SHA256_BLOCK_LENGTH * 8)\<rparr>
           in sha256_Update_blocks context (drop SHA256_BLOCK_LENGTH data)
      else (context, data))"
  by pat_completeness auto
termination
  by (relation "measure (length \<circ> snd)") (auto simp: SHA256_BLOCK_LENGTH_def)

declare sha256_Update_blocks.simps [simp del]

definition sha256_Update_rest :: "SHA256_CTX \<Rightarrow> bytes \<Rightarrow> SHA256_CTX" where
  "sha256_Update_rest context data =
     (let (context, data) = sha256_Update_blocks context data
      in if length data > 0
         then context\<lparr>buffer := write_at 0 data (buffer context), bitcount := bitcount context + push_bit 3 (word_of_nat (length data))\<rparr>
         else context)"

definition sha256_Update :: "SHA256_CTX \<Rightarrow> bytes \<Rightarrow> SHA256_CTX" where
  "sha256_Update context data =
     (if length data = 0 then context
      else
        let usedspace = sha256_usedspace context
        in if usedspace > 0
           then let freespace = SHA256_BLOCK_LENGTH - usedspace
                in if length data \<ge> freespace
                   then let context = context\<lparr>buffer := write_at usedspace (take freespace data) (buffer context),
                                              bitcount := bitcount context + push_bit 3 (word_of_nat freespace)\<rparr>
                        in sha256_Update_rest (sha256_process context) (drop freespace data)
                   else context\<lparr>buffer := write_at usedspace data (buffer context),
                                bitcount := bitcount context + push_bit 3 (word_of_nat (length data))\<rparr>
           else sha256_Update_rest context data)"

definition sha256_Final_state :: "SHA256_CTX \<Rightarrow> SHA256_CTX" where
  "sha256_Final_state context =
     (let usedspace = sha256_usedspace context;
          context = context\<lparr>buffer := write_at usedspace [0x80] (buffer context)\<rparr>;
          usedspace = usedspace + 1;
          (context, usedspace) =
            (if usedspace > SHA256_SHORT_BLOCK_LENGTH
             then let context = context\<lparr>buffer := memzero usedspace (SHA256_BLOCK_LENGTH - usedspace) (buffer context)\<rparr>
                  in (sha256_process context, 0)
             else (context, usedspace));
          buf = memzero usedspace (SHA256_SHORT_BLOCK_LENGTH - usedspace) (buffer context);
          buf = reverse_buffer32 14 buf;
          buf = store_word 4 buf 14 (ucast (drop_bit 32 (bitcount context)) :: u32);
          buf = store_word 4 buf 15 (ucast (bitcount context AND 0xffffffff) :: u32)
      in context\<lparr>buffer := buf, state := sha256_Transform (state context) (buffer_words 4 buf)\<rparr>)"

text \<open>
  \<open>sha256_Final\<close> returns the cleared context and, when the caller passes a buffer
  (\<open>want\<close>), the digest; \<open>sha256_End\<close> the string it writes, with its terminator, and the offset
  of the pointer it returns.
\<close>

definition sha256_Final :: "SHA256_CTX \<Rightarrow> bool \<Rightarrow> SHA256_CTX \<times> bytes option" where
  "sha256_Final context want =
     (zero_SHA256_CTX,
      if want
      then Some (concat (map (\<lambda>w. le_bytes 4 (uint (REVERSE32 w))) (take 8 (state (sha256_Final_state context)))))
      else None)"

definition sha256_End :: "SHA256_CTX \<Rightarrow> bool \<Rightarrow> SHA256_CTX \<times> (string \<times> nat) option" where
  "sha256_End context want =
     (if want
      then let (context, digest) = sha256_Final context True
           in (context, map_option (\<lambda>d. (hex_string d, 2 * SHA256_DIGEST_LENGTH)) digest)
      else (zero_SHA256_CTX, None))"

definition sha256_Raw :: "bytes \<Rightarrow> bytes" where
  "sha256_Raw data =
     the (snd (sha256_Final (sha256_Update (sha256_Init zero_SHA256_CTX) data) True))"

definition sha256_Data :: "bytes \<Rightarrow> bool \<Rightarrow> (string \<times> nat) option" where
  "sha256_Data data want = snd (sha256_End (sha256_Update (sha256_Init zero_SHA256_CTX) data) want)"

section \<open>SHA-512\<close>

definition sha512_Init :: "SHA512_CTX \<Rightarrow> SHA512_CTX" where
  "sha512_Init context =
     \<lparr>state = sha512_initial_hash_value, bitcount = (0, 0), buffer = memzero 0 SHA512_BLOCK_LENGTH (buffer context)\<rparr>"

type_synonym regs8_64 = "u64 \<times> u64 \<times> u64 \<times> u64 \<times> u64 \<times> u64 \<times> u64 \<times> u64"

definition sha512_compress :: "nat \<Rightarrow> u64 \<Rightarrow> regs8_64 \<Rightarrow> regs8_64" where
  "sha512_compress j w r =
     (let (a, b, c, d, e, f, g, h) = r;
          T1 = h + Sigma1_512 e + Ch e f g + K512 ! j + w;
          T2 = Sigma0_512 a + Maj a b c
      in (T1 + T2, a, b, c, d + T1, e, f, g))"

definition sha512_expand :: "u64 list \<Rightarrow> nat \<Rightarrow> u64 list" where
  "sha512_expand W j =
     (let s0 = sigma0_512 (W ! ((j + 1) mod 16)); s1 = sigma1_512 (W ! ((j + 14) mod 16))
      in W[j mod 16 := W ! (j mod 16) + (s1 + W ! ((j + 9) mod 16) + s0)])"

definition sha512_Transform :: "u64 list \<Rightarrow> u64 list \<Rightarrow> u64 list" where
  "sha512_Transform state_in data =
     (let st = ((state_in ! 0, state_in ! 1, state_in ! 2, state_in ! 3,
                 state_in ! 4, state_in ! 5, state_in ! 6, state_in ! 7), replicate 16 0);
          st = foldl (\<lambda>(r, W) j. let W = W[j := data ! j] in (sha512_compress j (W ! j) r, W)) st [0..<16];
          st = foldl (\<lambda>(r, W) j. let W = sha512_expand W j in (sha512_compress j (W ! (j mod 16)) r, W)) st [16..<80];
          ((a, b, c, d, e, f, g, h), W) = st
      in [state_in ! 0 + a, state_in ! 1 + b, state_in ! 2 + c, state_in ! 3 + d,
          state_in ! 4 + e, state_in ! 5 + f, state_in ! 6 + g, state_in ! 7 + h])"

definition sha512_round_in_place :: "nat \<Rightarrow> u64 \<Rightarrow> u64 list \<Rightarrow> u64 list" where
  "sha512_round_in_place j w v =
     (let a = v ! arg8 j 0; b = v ! arg8 j 1; c = v ! arg8 j 2; d = v ! arg8 j 3;
          e = v ! arg8 j 4; f = v ! arg8 j 5; g = v ! arg8 j 6; h = v ! arg8 j 7;
          T1 = h + Sigma1_512 e + Ch e f g + K512 ! j + w;
          v = v[arg8 j 3 := d + T1]
      in v[arg8 j 7 := T1 + Sigma0_512 a + Maj a b c])"

definition sha512_Transform_unrolled :: "u64 list \<Rightarrow> u64 list \<Rightarrow> u64 list" where
  "sha512_Transform_unrolled state_in data =
     (let st = (map ((!) state_in) [0..<8], replicate 16 0);
          st = foldl (\<lambda>(v, W) j. let W = W[j := data ! j] in (sha512_round_in_place j (W ! j) v, W)) st [0..<16];
          st = foldl (\<lambda>(v, W) j. let W = sha512_expand W j in (sha512_round_in_place j (W ! (j mod 16)) v, W)) st [16..<80];
          (v, W) = st
      in map (\<lambda>i. state_in ! i + v ! i) [0..<8])"

definition sha512_usedspace :: "SHA512_CTX \<Rightarrow> nat" where
  "sha512_usedspace context = unat (drop_bit 3 (fst (bitcount context))) mod SHA512_BLOCK_LENGTH"

text \<open>Convert the buffer to host byte order and transform.\<close>

definition sha512_process :: "SHA512_CTX \<Rightarrow> SHA512_CTX" where
  "sha512_process context =
     (let buf = reverse_buffer64 16 (buffer context)
      in context\<lparr>buffer := buf, state := sha512_Transform (state context) (buffer_words 8 buf)\<rparr>)"

function sha512_Update_blocks :: "SHA512_CTX \<Rightarrow> bytes \<Rightarrow> SHA512_CTX \<times> bytes" where
  "sha512_Update_blocks context data =
     (if length data \<ge> SHA512_BLOCK_LENGTH
      then let context = context\<lparr>buffer := write_at 0 (take SHA512_BLOCK_LENGTH data) (buffer context)\<rparr>;
               context = sha512_process context;
               context = context\<lparr>bitcount := ADDINC128 (bitcount context) (word_of_nat (SHA512_BLOCK_LENGTH * 8))\<rparr>
           in sha512_Update_blocks context (drop SHA512_BLOCK_LENGTH data)
      else (context, data))"
  by pat_completeness auto
termination
  by (relation "measure (length \<circ> snd)") (auto simp: SHA512_BLOCK_LENGTH_def)

declare sha512_Update_blocks.simps [simp del]

definition sha512_Update_rest :: "SHA512_CTX \<Rightarrow> bytes \<Rightarrow> SHA512_CTX" where
  "sha512_Update_rest context data =
     (let (context, data) = sha512_Update_blocks context data
      in if length data > 0
         then context\<lparr>buffer := write_at 0 data (buffer context), bitcount := ADDINC128 (bitcount context) (push_bit 3 (word_of_nat (length data)))\<rparr>
         else context)"

definition sha512_Update :: "SHA512_CTX \<Rightarrow> bytes \<Rightarrow> SHA512_CTX" where
  "sha512_Update context data =
     (if length data = 0 then context
      else
        let usedspace = sha512_usedspace context
        in if usedspace > 0
           then let freespace = SHA512_BLOCK_LENGTH - usedspace
                in if length data \<ge> freespace
                   then let context = context\<lparr>buffer := write_at usedspace (take freespace data) (buffer context),
                                              bitcount := ADDINC128 (bitcount context) (push_bit 3 (word_of_nat freespace))\<rparr>
                        in sha512_Update_rest (sha512_process context) (drop freespace data)
                   else context\<lparr>buffer := write_at usedspace data (buffer context),
                                bitcount := ADDINC128 (bitcount context) (push_bit 3 (word_of_nat (length data)))\<rparr>
           else sha512_Update_rest context data)"

definition sha512_Last :: "SHA512_CTX \<Rightarrow> SHA512_CTX" where
  "sha512_Last context =
     (let usedspace = sha512_usedspace context;
          context = context\<lparr>buffer := write_at usedspace [0x80] (buffer context)\<rparr>;
          usedspace = usedspace + 1;
          (context, usedspace) =
            (if usedspace > SHA512_SHORT_BLOCK_LENGTH
             then let context = context\<lparr>buffer := memzero usedspace (SHA512_BLOCK_LENGTH - usedspace) (buffer context)\<rparr>
                  in (sha512_process context, 0)
             else (context, usedspace));
          buf = memzero usedspace (SHA512_SHORT_BLOCK_LENGTH - usedspace) (buffer context);
          buf = reverse_buffer64 14 buf;
          buf = store_word 8 buf 14 (snd (bitcount context) :: u64);
          buf = store_word 8 buf 15 (fst (bitcount context) :: u64)
      in context\<lparr>buffer := buf, state := sha512_Transform (state context) (buffer_words 8 buf)\<rparr>)"

text \<open>
  \<open>sha512_Final\<close> returns the cleared context and, when the caller passes a buffer
  (\<open>want\<close>), the digest; \<open>sha512_End\<close> the string it writes, with its terminator, and the offset
  of the pointer it returns.
\<close>

definition sha512_Final :: "SHA512_CTX \<Rightarrow> bool \<Rightarrow> SHA512_CTX \<times> bytes option" where
  "sha512_Final context want =
     (zero_SHA512_CTX,
      if want
      then Some (concat (map (\<lambda>w. le_bytes 8 (uint (REVERSE64 w))) (take 8 (state (sha512_Last context)))))
      else None)"

definition sha512_End :: "SHA512_CTX \<Rightarrow> bool \<Rightarrow> SHA512_CTX \<times> (string \<times> nat) option" where
  "sha512_End context want =
     (if want
      then let (context, digest) = sha512_Final context True
           in (context, map_option (\<lambda>d. (hex_string d, 2 * SHA512_DIGEST_LENGTH)) digest)
      else (zero_SHA512_CTX, None))"

definition sha512_Raw :: "bytes \<Rightarrow> bytes" where
  "sha512_Raw data =
     the (snd (sha512_Final (sha512_Update (sha512_Init zero_SHA512_CTX) data) True))"

definition sha512_Data :: "bytes \<Rightarrow> bool \<Rightarrow> (string \<times> nat) option" where
  "sha512_Data data want = snd (sha512_End (sha512_Update (sha512_Init zero_SHA512_CTX) data) want)"

section \<open>The hash the signature code uses\<close>

definition sr25519_hash_init :: "SHA512_CTX \<Rightarrow> SHA512_CTX" where
  "sr25519_hash_init ctx = sha512_Init ctx"

definition sr25519_hash_update :: "SHA512_CTX \<Rightarrow> bytes \<Rightarrow> SHA512_CTX" where
  "sr25519_hash_update ctx inp = sha512_Update ctx inp"

definition sr25519_hash_final :: "SHA512_CTX \<Rightarrow> SHA512_CTX \<times> bytes option" where
  "sr25519_hash_final ctx = sha512_Final ctx True"

definition sr25519_hash :: "bytes \<Rightarrow> bytes" where
  "sr25519_hash inp = sha512_Raw inp"

end
