(* ===== verification/Byte_Order.thy ===== *)
theory Byte_Order
  imports Sha2
begin

unbundle bit_operations_syntax

text \<open>
  Byte order.  The hashes are specified on big-endian words and the code runs on a
  little-endian machine: it reverses the words of its buffer in place before a transform and
  the words of the state before it writes the digest.  The locale \<open>byte_reversal\<close> is the
  contract of the two reversal macros; the loops over the buffer are treated once, inside it.
\<close>

definition be_bytes :: "nat \<Rightarrow> int \<Rightarrow> bytes" where
  "be_bytes n x = rev (le_bytes n x)"

lemma length_be_bytes [simp]: "length (be_bytes n x) = n"
  by (simp add: be_bytes_def)

lemma bit_le_val:
  "i < 8 * length bs \<Longrightarrow> bit (le_val bs) i \<longleftrightarrow> bit (bs ! (i div 8)) (i mod 8)"
proof (induction bs arbitrary: i)
  case (Cons b bs)
  have val: "le_val (b # bs) = uint b OR push_bit 8 (le_val bs)"
  proof -
    have "bit (uint b) k \<Longrightarrow> \<not> bit (push_bit 8 (le_val bs)) k" for k
      using bit_imp_le_length [of b k] by (auto simp: bit_uint_iff bit_push_bit_iff)
    then have "uint b AND push_bit 8 (le_val bs) = 0"
      by (intro bit_eqI) (auto simp: bit_and_iff)
    then show ?thesis
      using disjunctive_add_eq_or [of "uint b" "push_bit 8 (le_val bs)"] by (simp add: push_bit_eq_mult)
  qed
  show ?case
  proof (cases "i < 8")
    case True
    then show ?thesis
      unfolding val by (simp add: bit_or_iff bit_uint_iff bit_push_bit_iff)
  next
    case False
    then have "i div 8 = Suc ((i - 8) div 8)" "i mod 8 = (i - 8) mod 8"
      by (simp_all add: div_if mod_if)
    with False Cons show ?thesis
      unfolding val using bit_imp_le_length [of b i] by (auto simp: bit_or_iff bit_uint_iff bit_push_bit_iff)
  qed
qed simp

lemma bit_load_le:
  "LENGTH('a) = 8 * length bs \<Longrightarrow> i < 8 * length bs \<Longrightarrow>
    bit (load_le bs :: 'a::len word) i \<longleftrightarrow> bit (bs ! (i div 8)) (i mod 8)"
  by (simp add: load_le_def bit_word_of_int_iff bit_le_val)

lemma le_bytes_load_le:
  "LENGTH('a) = 8 * length bs \<Longrightarrow> le_bytes (length bs) (uint (load_le bs :: 'a::len word)) = bs"
proof -
  assume "LENGTH('a) = 8 * length bs"
  then have "uint (load_le bs :: 'a word) = le_val bs mod 256 ^ length bs"
    by (simp add: load_le_def uint_word_of_int power_mult)
  then show ?thesis
    by (simp add: le_bytes_mod le_bytes_le_val)
qed

lemma upt_32: "[0..<32] = [0, 1, 2, 3, 4, 5, 6, 7, 8, 9, 10, 11, 12, 13, 14, 15, 16, 17, 18, 19, 20, 21, 22, 23, 24, 25, 26, 27, 28, 29, 30, 31]"
  by (simp add: upt_rec)

lemma upt_64: "[0..<64] = [0, 1, 2, 3, 4, 5, 6, 7, 8, 9, 10, 11, 12, 13, 14, 15, 16, 17, 18, 19, 20, 21, 22, 23, 24, 25, 26, 27, 28, 29, 30, 31, 32, 33, 34, 35, 36, 37, 38, 39, 40, 41, 42, 43, 44, 45, 46, 47, 48, 49, 50, 51, 52, 53, 54, 55, 56, 57, 58, 59, 60, 61, 62, 63]"
  by (simp add: upt_rec)

lemma bit_beyond: "LENGTH('a) \<le> k \<Longrightarrow> \<not> bit (w :: 'a::len word) k"
  using bit_imp_le_length by (auto simp: not_less [symmetric])

lemma bit_REVERSE32:
  assumes "i < 32"
  shows "bit (REVERSE32 w) i \<longleftrightarrow> bit w (8 * (3 - i div 8) + i mod 8)"
proof -
  have "\<forall>i\<in>set [0..<32]. bit (REVERSE32 w) i \<longleftrightarrow> bit w (8 * (3 - i div 8) + i mod 8)"
    unfolding upt_32
    by (simp add: REVERSE32_def Let_def bit_or_iff bit_and_iff bit_push_bit_iff bit_drop_bit_eq
        bit_numeral_word_iff bit_beyond) (simp add: numeral_2_eq_2)
  with assms show ?thesis by simp
qed

lemma bit_REVERSE64:
  assumes "i < 64"
  shows "bit (REVERSE64 w) i \<longleftrightarrow> bit w (8 * (7 - i div 8) + i mod 8)"
proof -
  have "\<forall>i\<in>set [0..<64]. bit (REVERSE64 w) i \<longleftrightarrow> bit w (8 * (7 - i div 8) + i mod 8)"
    unfolding upt_64
    by (simp add: REVERSE64_def Let_def bit_or_iff bit_and_iff bit_push_bit_iff bit_drop_bit_eq
        bit_numeral_word_iff bit_beyond) (simp add: numeral_2_eq_2)
  with assms show ?thesis by simp
qed

section \<open>Reversing the words of a buffer\<close>

definition chunk :: "nat \<Rightarrow> bytes \<Rightarrow> nat \<Rightarrow> bytes" where
  "chunk n buf j = take n (drop (n * j) buf)"

lemma load_word_chunk: "load_word n buf j = load_le (chunk n buf j)"
  by (simp add: load_word_def chunk_def)

lemma length_chunk [simp]: "n * j + n \<le> length buf \<Longrightarrow> length (chunk n buf j) = n"
  by (simp add: chunk_def)

lemma length_store_word [simp]: "n * j + n \<le> length buf \<Longrightarrow> length (store_word n buf j w) = length buf"
  by (simp add: store_word_def)

lemma chunk_store_word:
  assumes "n * j + n \<le> length buf"
  shows "chunk n (store_word n buf j w) i = (if i = j then le_bytes n (uint w) else chunk n buf i)"
proof (cases i j rule: linorder_cases)
  case less
  then have "n * i + n \<le> n * j"
    using mult_le_mono2 [of "Suc i" j n] by (simp add: add.commute)
  with assms less show ?thesis
    by (simp add: chunk_def store_word_def take_drop min_def)
next
  case greater
  then have le: "n * j + n \<le> n * i"
    using mult_le_mono2 [of "Suc j" i n] by (simp add: add.commute)
  then have "n * i - (n * j + n) + (n * j + n) = n * i" by simp
  with assms greater le show ?thesis
    by (simp add: chunk_def store_word_def)
qed (use assms in \<open>simp add: chunk_def store_word_def\<close>)

locale byte_reversal =
  fixes n :: nat and REV :: "'a::len word \<Rightarrow> 'a word"
  assumes width: "LENGTH('a) = 8 * n"
    and REV: "length bs = n \<Longrightarrow> REV (load_le bs) = load_le (rev bs)"
begin

definition reverse_words :: "nat \<Rightarrow> bytes \<Rightarrow> bytes" where
  "reverse_words m buf = foldl (\<lambda>buf j. store_word n buf j (REV (load_word n buf j))) buf [0..<m]"

lemma REV_bytes: "length bs = n \<Longrightarrow> le_bytes n (uint (REV (load_le bs))) = rev bs"
  using le_bytes_load_le [where 'a = 'a, of "rev bs"] width by (simp add: REV)

lemma REV_store: "le_bytes n (uint (REV w)) = be_bytes n (uint w)"
proof -
  have "uint w < 256 ^ n"
    using uint_bounded [of w] width by (simp add: power_mult)
  then have "load_le (le_bytes n (uint w)) = w"
    by (simp add: load_le_def le_val_le_bytes)
  then show ?thesis
    using REV_bytes [of "le_bytes n (uint w)"] by (simp add: be_bytes_def)
qed

lemma reverse_words_chunks:
  assumes "length buf = n * k" "m \<le> k"
  shows "length (reverse_words m buf) = length buf \<and>
    (\<forall>i<k. chunk n (reverse_words m buf) i = (if i < m then rev (chunk n buf i) else chunk n buf i))"
  using assms(2)
proof (induction m)
  case (Suc m)
  let ?b = "reverse_words m buf"
  have step: "reverse_words (Suc m) buf = store_word n ?b m (REV (load_word n ?b m))"
    by (simp add: reverse_words_def)
  have fits: "n * m + n \<le> length ?b"
    using mult_le_mono2 [of "Suc m" k n] Suc assms(1) by (simp add: add.commute)
  have "le_bytes n (uint (REV (load_word n ?b m))) = rev (chunk n buf m)"
    using Suc fits by (simp add: load_word_chunk REV_bytes)
  with Suc fits show ?case
    by (auto simp: step chunk_store_word less_Suc_eq)
qed (simp add: reverse_words_def)

end

interpretation rev32: byte_reversal 4 REVERSE32
proof
  fix bs :: bytes assume "length bs = 4"
  then show "REVERSE32 (load_le bs) = load_le (rev bs)"
    by (intro bit_word_eqI) (simp add: bit_REVERSE32 bit_load_le rev_nth)
qed simp

interpretation rev64: byte_reversal 8 REVERSE64
proof
  fix bs :: bytes assume "length bs = 8"
  then show "REVERSE64 (load_le bs) = load_le (rev bs)"
    by (intro bit_word_eqI) (simp add: bit_REVERSE64 bit_load_le rev_nth)
qed simp

lemma reverse_buffer_words: "reverse_buffer32 = rev32.reverse_words" "reverse_buffer64 = rev64.reverse_words"
  by (simp_all add: fun_eq_iff reverse_buffer32_def rev32.reverse_words_def reverse_buffer64_def rev64.reverse_words_def)

end
