(* ===== verification/Md_Hash.thy ===== *)
theory Md_Hash
  imports Byte_Order
begin

unbundle bit_operations_syntax

text \<open>
  The streaming interface of the three hashes.  The specification is the iterated compression
  of the padded message (FIPS 180-4, sections 5 and 6): one \<open>1\<close> bit, zeros, and the length in
  bits as a big-endian number of two words fill the last blocks.  The locale \<open>md_hash\<close> states how
  Update and Final are put together from the transform and the bit counter; inside it, a
  context is shown to represent exactly the bytes it has been given, however they were cut
  into calls, and Final to compute the specified iteration.
\<close>

section \<open>Specification\<close>

text \<open>Blocks have 16 words of \<open>n\<close> bytes.\<close>

definition be_words :: "nat \<Rightarrow> bytes \<Rightarrow> 'a::len word list" where
  "be_words n blk = map (\<lambda>j. load_le (rev (chunk n blk j))) [0..<16]"

primrec md_blocks :: "nat \<Rightarrow> ('s \<Rightarrow> 'a::len word list \<Rightarrow> 's) \<Rightarrow> nat \<Rightarrow> 's \<Rightarrow> bytes \<Rightarrow> 's" where
  "md_blocks n f 0 st xs = st"
| "md_blocks n f (Suc k) st xs = md_blocks n f k (f st (be_words n (take (16 * n) xs))) (drop (16 * n) xs)"

definition md_iterate :: "nat \<Rightarrow> ('s \<Rightarrow> 'a::len word list \<Rightarrow> 's) \<Rightarrow> 's \<Rightarrow> bytes \<Rightarrow> 's" where
  "md_iterate n f st xs = md_blocks n f (length xs div (16 * n)) st xs"

definition md_pad :: "nat \<Rightarrow> nat \<Rightarrow> bytes" where
  "md_pad n len =
     0x80 # replicate ((16 * n - 2 * n - 1 + (16 * n - len mod (16 * n))) mod (16 * n)) 0
     @ be_bytes (2 * n) (8 * int len)"

definition md_hash :: "nat \<Rightarrow> ('s \<Rightarrow> 'a::len word list \<Rightarrow> 's) \<Rightarrow> 's \<Rightarrow> bytes \<Rightarrow> 's" where
  "md_hash n f iv msg = md_iterate n f iv (msg @ md_pad n (length msg))"

lemma md_blocks_add:
  "md_blocks n f (j + k) st xs = md_blocks n f k (md_blocks n f j st xs) (drop (16 * n * j) xs)"
  by (induction j arbitrary: st xs) (simp_all add: add.commute)

lemma md_blocks_take: "16 * n * k \<le> length xs \<Longrightarrow> md_blocks n f k st (xs @ ys) = md_blocks n f k st xs"
  by (induction k arbitrary: st xs) simp_all

lemma md_iterate_append:
  assumes "16 * n dvd length xs"
  shows "md_iterate n f st (xs @ ys) = md_iterate n f (md_iterate n f st xs) ys"
proof (cases "n = 0")
  case False
  let ?B = "16 * n"
  obtain k where k: "length xs = ?B * k" using assms by (elim dvdE)
  have "(?B * k + length ys) div ?B = k + length ys div ?B"
    using False by (simp add: div_add1_eq)
  then show ?thesis
    using False md_blocks_add [of n f k "length ys div ?B" st "xs @ ys"] md_blocks_take [of n k xs f st ys]
    by (simp add: md_iterate_def k)
qed (simp add: md_iterate_def)

lemma md_iterate_block: "0 < n \<Longrightarrow> length xs = 16 * n \<Longrightarrow> md_iterate n f st xs = f st (be_words n xs)"
  by (simp add: md_iterate_def)

lemma md_iterate_short:
  assumes "length ys < 16 * n" "16 * n dvd length xs"
  shows "md_iterate n f st (xs @ ys) = md_iterate n f st xs"
  using assms by (simp add: md_iterate_append) (simp add: md_iterate_def)

section \<open>The streaming functions\<close>

lemma length_write_at [simp]: "off + length bs \<le> length buf \<Longrightarrow> length (write_at off bs buf) = length buf"
  by (simp add: write_at_def)

lemma take_write_at: "off + length bs \<le> length buf \<Longrightarrow> take (off + length bs) (write_at off bs buf) = take off buf @ bs"
  by (simp add: write_at_def)

locale md_stream = byte_reversal n REV
  for n :: nat and REV :: "'a::len word \<Rightarrow> 'a word" +
  fixes iv :: "'a word list"
    and transform :: "'a word list \<Rightarrow> 'a word list \<Rightarrow> 'a word list"
    and cnt :: "nat \<Rightarrow> 'c"
    and bump :: "'c \<Rightarrow> nat \<Rightarrow> 'c"
    and hi lo :: "'c \<Rightarrow> 'a word"
    and usedspace :: "('a word, 'c) sha_ctx \<Rightarrow> nat"
    and process :: "('a word, 'c) sha_ctx \<Rightarrow> ('a word, 'c) sha_ctx"
    and update_blocks :: "('a word, 'c) sha_ctx \<Rightarrow> bytes \<Rightarrow> ('a word, 'c) sha_ctx \<times> bytes"
    and update_rest :: "('a word, 'c) sha_ctx \<Rightarrow> bytes \<Rightarrow> ('a word, 'c) sha_ctx"
    and update :: "('a word, 'c) sha_ctx \<Rightarrow> bytes \<Rightarrow> ('a word, 'c) sha_ctx"
    and final_state :: "('a word, 'c) sha_ctx \<Rightarrow> ('a word, 'c) sha_ctx"
  assumes bump: "k \<le> 16 * n \<Longrightarrow> bump (cnt m) k = cnt (m + k)"
    and hi_lo: "hi (cnt m) = word_of_int (8 * int m div 256 ^ n)" "lo (cnt m) = word_of_int (8 * int m)"
    and usedspace: "bitcount ctx = cnt m \<Longrightarrow> usedspace ctx = m mod (16 * n)"
    and process: "process ctx =
      ctx\<lparr>buffer := reverse_words 16 (buffer ctx),
          state := transform (state ctx) (buffer_words n (reverse_words 16 (buffer ctx)))\<rparr>"
    and update_blocks: "update_blocks ctx data =
      (if length data \<ge> 16 * n
       then let ctx = process (ctx\<lparr>buffer := write_at 0 (take (16 * n) data) (buffer ctx)\<rparr>)
            in update_blocks (ctx\<lparr>bitcount := bump (bitcount ctx) (16 * n)\<rparr>) (drop (16 * n) data)
       else (ctx, data))"
    and update_rest: "update_rest ctx data =
      (let (ctx, data) = update_blocks ctx data
       in if length data > 0
          then ctx\<lparr>buffer := write_at 0 data (buffer ctx), bitcount := bump (bitcount ctx) (length data)\<rparr>
          else ctx)"
    and update: "update ctx data =
      (if length data = 0 then ctx
       else if usedspace ctx > 0
       then if length data \<ge> 16 * n - usedspace ctx
            then update_rest (process
                (ctx\<lparr>buffer := write_at (usedspace ctx) (take (16 * n - usedspace ctx) data) (buffer ctx),
                     bitcount := bump (bitcount ctx) (16 * n - usedspace ctx)\<rparr>))
              (drop (16 * n - usedspace ctx) data)
            else ctx\<lparr>buffer := write_at (usedspace ctx) data (buffer ctx),
                     bitcount := bump (bitcount ctx) (length data)\<rparr>
       else update_rest ctx data)"
    and final_state: "final_state ctx =
      (let u = usedspace ctx;
           ctx = ctx\<lparr>buffer := write_at u [0x80] (buffer ctx)\<rparr>;
           (ctx, u) = (if u + 1 > 14 * n
                       then (process (ctx\<lparr>buffer := memzero (u + 1) (16 * n - (u + 1)) (buffer ctx)\<rparr>), 0)
                       else (ctx, u + 1));
           buf = reverse_words 14 (memzero u (14 * n - u) (buffer ctx));
           buf = store_word n buf 14 (hi (bitcount ctx));
           buf = store_word n buf 15 (lo (bitcount ctx))
       in ctx\<lparr>buffer := buf, state := transform (state ctx) (buffer_words n buf)\<rparr>)"
begin

abbreviation B :: nat where "B \<equiv> 16 * n"

abbreviation iterate :: "'a word list \<Rightarrow> bytes \<Rightarrow> 'a word list" where
  "iterate \<equiv> md_iterate n transform"

lemma n_pos: "0 < n"
  using width by (metis len_gt_0 mult_0_right not_gr_zero)

text \<open>\<open>ctx\<close> has been given the bytes \<open>d\<close>.\<close>

definition represents :: "('a word, 'c) sha_ctx \<Rightarrow> bytes \<Rightarrow> bool" where
  "represents ctx d \<longleftrightarrow>
     state ctx = iterate iv d \<and> length (buffer ctx) = B \<and> bitcount ctx = cnt (length d) \<and>
     take (length d mod B) (buffer ctx) = drop (B * (length d div B)) d"

lemma words_reversed: "length buf = B \<Longrightarrow> buffer_words n (reverse_words 16 buf) = be_words n buf"
  using reverse_words_chunks [of buf 16 16] by (simp add: buffer_words_def be_words_def load_word_chunk)

lemma length_reverse [simp]: "length buf = B \<Longrightarrow> m \<le> 16 \<Longrightarrow> length (reverse_words m buf) = B"
  using reverse_words_chunks [of buf 16 m] by simp

lemma process_state: "length (buffer ctx) = B \<Longrightarrow> state (process ctx) = transform (state ctx) (be_words n (buffer ctx))"
  by (simp add: process words_reversed)

lemma process_rest [simp]:
  "bitcount (process ctx) = bitcount ctx" "length (buffer ctx) = B \<Longrightarrow> length (buffer (process ctx)) = B"
  by (simp_all add: process)

lemma representsE:
  assumes "represents ctx d"
  obtains d0 t where "d = d0 @ t" "B dvd length d0" "length t = length d mod B" "length t < B"
    "take (length t) (buffer ctx) = t" "state ctx = iterate iv d0" "length (buffer ctx) = B"
    "bitcount ctx = cnt (length d)" "usedspace ctx = length t"
proof
  let ?k = "B * (length d div B)"
  show "d = take ?k d @ drop ?k d" by simp
  have "?k \<le> length d" by simp
  then show "B dvd length (take ?k d)" by (simp add: min_absorb2)
  show t: "length (drop ?k d) = length d mod B" by (simp add: minus_mult_div_eq_mod)
  show lt: "length (drop ?k d) < B" using n_pos unfolding t by simp
  show "take (length (drop ?k d)) (buffer ctx) = drop ?k d"
    using assms unfolding t by (simp add: represents_def)
  have "iterate iv d = iterate iv (take ?k d)"
    using md_iterate_short [OF lt, of "take ?k d" transform iv] \<open>?k \<le> length d\<close> by (simp add: min_absorb2)
  then show "state ctx = iterate iv (take ?k d)"
    using assms by (simp add: represents_def)
  show "usedspace ctx = length (drop ?k d)"
    using usedspace [of ctx "length d"] assms unfolding t by (simp add: represents_def)
qed (use assms in \<open>simp_all add: represents_def\<close>)

lemma representsI:
  assumes "d = d0 @ t" "B dvd length d0" "length t < B" "take (length t) (buffer ctx) = t"
    "state ctx = iterate iv d0" "length (buffer ctx) = B" "bitcount ctx = cnt (length d)"
  shows "represents ctx d"
proof -
  obtain k where k: "length d0 = B * k" using assms(2) by (elim dvdE)
  have "length d mod B = length t" "B * (length d div B) = length d0"
    using assms(1,3) k n_pos by (simp_all add: div_add1_eq)
  then show ?thesis
    using assms md_iterate_short [OF assms(3,2), of transform iv] by (simp add: represents_def)
qed

text \<open>Bytes that stay below a block are buffered.\<close>

lemma buffer_some:
  assumes "represents ctx d" "usedspace ctx + length data < B"
  shows "represents (ctx\<lparr>buffer := write_at (usedspace ctx) data (buffer ctx),
    bitcount := bump (bitcount ctx) (length data)\<rparr>) (d @ data)"
proof -
  from assms(1) obtain d0 t where t: "d = d0 @ t" "B dvd length d0" "length t < B" "take (length t) (buffer ctx) = t"
    "state ctx = iterate iv d0" "length (buffer ctx) = B" "bitcount ctx = cnt (length d)" "usedspace ctx = length t"
    by (rule representsE)
  show ?thesis
    by (rule representsI [of _ d0 "t @ data"])
      (use t assms(2) in \<open>simp_all add: bump add.assoc take_write_at [of "length t" data, simplified]\<close>)
qed

text \<open>Bytes that complete a block are compressed; the counter is advanced by the caller.\<close>

lemma fill_block:
  assumes "represents ctx d" "usedspace ctx + length data = B"
    and "buffer ctx' = write_at (usedspace ctx) data (buffer ctx)" "state ctx' = state ctx"
    and "bitcount ctx'' = cnt (length d + length data)" "state ctx'' = state (process ctx')"
    and "buffer ctx'' = buffer (process ctx')"
  shows "represents ctx'' (d @ data)"
proof -
  from assms(1) obtain d0 t where t: "d = d0 @ t" "B dvd length d0" "length t < B" "take (length t) (buffer ctx) = t"
    "state ctx = iterate iv d0" "length (buffer ctx) = B" "bitcount ctx = cnt (length d)" "usedspace ctx = length t"
    by (rule representsE)
  have buf: "buffer ctx' = t @ data"
    using t assms(2,3) by (simp add: write_at_def)
  have "state ctx'' = iterate iv (d @ data)"
    using t assms buf md_iterate_append [OF t(2), of transform iv "t @ data"] n_pos
    by (simp add: process_state md_iterate_block)
  then show ?thesis
    by (intro representsI [of _ "d @ data" "[]"]) (use t assms buf n_pos in \<open>simp_all add: add.assoc\<close>)
qed

lemma update_blocks_correct:
  assumes "represents ctx d" "B dvd length d" "update_blocks ctx data = (ctx', rest)"
  shows "\<exists>xs. data = xs @ rest \<and> B dvd length xs \<and> represents ctx' (d @ xs) \<and> length rest < B"
  using assms
proof (induction "length data" arbitrary: ctx d data rule: less_induct)
  case less
  show ?case
  proof (cases "length data \<ge> B")
    case True
    let ?blk = "take B data"
    define c where "c = process (ctx\<lparr>buffer := write_at 0 ?blk (buffer ctx)\<rparr>)"
    have u: "usedspace ctx = 0" and cnt: "bitcount ctx = cnt (length d)"
      using less.prems(1,2) usedspace [of ctx "length d"] by (auto simp: represents_def)
    have "represents (c\<lparr>bitcount := bump (bitcount c) B\<rparr>) (d @ ?blk)"
      by (rule fill_block [OF less.prems(1), where ctx' = "ctx\<lparr>buffer := write_at 0 ?blk (buffer ctx)\<rparr>"])
        (use u cnt True in \<open>simp_all add: c_def bump\<close>)
    moreover have "update_blocks (c\<lparr>bitcount := bump (bitcount c) B\<rparr>) (drop B data) = (ctx', rest)"
      using less.prems(3) True by (subst (asm) update_blocks) (simp add: c_def Let_def)
    moreover have "length (drop B data) < length data" "B dvd length (d @ ?blk)"
      using True n_pos less.prems(2) by (simp_all add: min_absorb2)
    ultimately obtain xs where "drop B data = xs @ rest" "B dvd length xs" "represents ctx' ((d @ ?blk) @ xs)"
      "length rest < B"
      using less.hyps by blast
    moreover from this have "data = (?blk @ xs) @ rest"
      by (metis append.assoc append_take_drop_id)
    moreover have "B dvd length (?blk @ xs)"
      using True \<open>B dvd length xs\<close> by (simp add: min_absorb2)
    ultimately show ?thesis
      by (metis append.assoc)
  next
    case False
    then show ?thesis
      using less.prems by (subst (asm) update_blocks) auto
  qed
qed

lemma update_rest_correct:
  assumes "represents ctx d" "B dvd length d"
  shows "represents (update_rest ctx data) (d @ data)"
proof -
  obtain c rest where c: "update_blocks ctx data = (c, rest)" by (cases "update_blocks ctx data")
  obtain xs where xs: "data = xs @ rest" "B dvd length xs" "represents c (d @ xs)" "length rest < B"
    using update_blocks_correct [OF assms c] by blast
  have "bitcount c = cnt (length (d @ xs))" "B dvd length (d @ xs)"
    using xs assms(2) by (auto simp: represents_def)
  then have "usedspace c = 0"
    using usedspace [of c "length (d @ xs)"] by auto
  then show ?thesis
    using buffer_some [OF xs(3), of rest] xs c by (cases "rest = []") (simp_all add: update_rest)
qed

lemma update_correct:
  assumes "represents ctx d"
  shows "represents (update ctx data) (d @ data)"
proof -
  from assms obtain d0 t where t: "d = d0 @ t" "B dvd length d0" "length t < B"
    "bitcount ctx = cnt (length d)" "usedspace ctx = length t"
    by (rule representsE)
  let ?u = "usedspace ctx" and ?k = "B - usedspace ctx"
  consider "data = []" | "data \<noteq> []" "?u = 0" | "data \<noteq> []" "?u > 0" "length data \<ge> ?k"
    | "data \<noteq> []" "?u > 0" "length data < ?k"
    by force
  then show ?thesis
  proof cases
    case 2
    with t assms show ?thesis by (simp add: update update_rest_correct)
  next
    case 3
    define c where "c = ctx\<lparr>buffer := write_at ?u (take ?k data) (buffer ctx), bitcount := bump (bitcount ctx) ?k\<rparr>"
    have "represents (process c) (d @ take ?k data)"
      by (rule fill_block [OF assms, where ctx' = c]) (use 3 t in \<open>simp_all add: c_def bump\<close>)
    moreover have "B dvd length (d @ take ?k data)"
      using t 3 by (auto simp: min_def)
    ultimately have "represents (update_rest (process c) (drop ?k data)) ((d @ take ?k data) @ drop ?k data)"
      by (rule update_rest_correct)
    with 3 show ?thesis by (simp add: update c_def)
  next
    case 4
    then show ?thesis
      using buffer_some [OF assms, of data] by (simp add: update)
  qed (use assms in \<open>simp add: update\<close>)
qed

text \<open>The last block: the reversed buffer with the two words of the bit count stored behind it.\<close>

lemma load_le_le_bytes: "load_le (le_bytes n x) = (word_of_int x :: 'a word)"
  using width by (simp add: load_le_def le_val_le_bytes word_uint_eq_iff uint_word_of_int power_mult)

lemma rev_be_bytes [simp]: "rev (be_bytes k x) = le_bytes k x"
  by (simp add: be_bytes_def)

lemma be_bytes_two_words: "be_bytes (2 * n) x = be_bytes n (x div 256 ^ n) @ be_bytes n x"
  using le_bytes_append [of n n x] by (simp add: be_bytes_def mult_2)

lemma last_chunks:
  assumes "length buf = B"
  shows "j < 14 \<Longrightarrow> chunk n (take (14 * n) buf @ be_bytes (2 * n) x) j = chunk n buf j"
    and "chunk n (take (14 * n) buf @ be_bytes (2 * n) x) 14 = be_bytes n (x div 256 ^ n)"
    and "chunk n (take (14 * n) buf @ be_bytes (2 * n) x) 15 = be_bytes n x"
proof -
  show "chunk n (take (14 * n) buf @ be_bytes (2 * n) x) j = chunk n buf j" if "j < 14"
  proof -
    define a where "a = n * j"
    have "a + n \<le> 14 * n"
      using mult_le_mono2 [of "Suc j" 14 n] that by (simp add: a_def mult.commute)
    then have "drop a (take (14 * n) buf @ be_bytes (2 * n) x) = take (14 * n - a) (drop a buf) @ be_bytes (2 * n) x"
      and "length (take (14 * n - a) (drop a buf)) \<ge> n"
      using assms by (simp_all add: drop_take)
    then show ?thesis
      using \<open>a + n \<le> 14 * n\<close> by (simp add: chunk_def a_def [symmetric] min_def)
  qed
qed (use assms in \<open>simp_all add: chunk_def be_bytes_two_words mult.commute [of n]\<close>)

lemma upt_16: "[0..<16] = [0..<14] @ [14, 15]"
  by (simp add: upt_rec)

lemma last_words:
  assumes "length buf = B"
  shows "buffer_words n (store_word n (store_word n (reverse_words 14 buf) 14 (hi (cnt m))) 15 (lo (cnt m)))
    = (be_words n (take (14 * n) buf @ be_bytes (2 * n) (8 * int m)) :: 'a word list)" (is "buffer_words n ?buf = be_words n ?last")
proof -
  note r = reverse_words_chunks [of buf 16 14]
  have fits: "n * 14 + n \<le> length (reverse_words 14 buf)"
    "n * 15 + n \<le> length (store_word n (reverse_words 14 buf) 14 (hi (cnt m)))"
    using assms by simp_all
  have "load_le (chunk n ?buf j) = (load_le (rev (chunk n ?last j)) :: 'a word)" if "j < 16" for j
  proof -
    have "j < 14 \<or> j = 14 \<or> j = 15" using that by linarith
    then consider "j < 14" | "j = 14" | "j = 15" by blast
    then show ?thesis
    proof cases
      case 1
      then show ?thesis
        using r assms by (simp add: chunk_store_word [OF fits(1)] chunk_store_word [OF fits(2)] last_chunks)
    next
      case 2
      then show ?thesis
        using assms by (simp add: chunk_store_word [OF fits(1)] chunk_store_word [OF fits(2)] last_chunks
            load_le_le_bytes) (simp add: hi_lo)
    next
      case 3
      then show ?thesis
        using assms by (simp add: chunk_store_word [OF fits(2)] last_chunks load_le_le_bytes) (simp add: hi_lo)
    qed
  qed
  then show ?thesis
    unfolding buffer_words_def be_words_def by (intro map_cong) (simp_all add: load_word_chunk)
qed

text \<open>The two ways through \<open>final_state\<close>: the padding needs a further block or not.\<close>

lemma final_state_long:
  assumes "usedspace ctx + 1 > 14 * n"
    and "c = process (ctx\<lparr>buffer := memzero (usedspace ctx + 1) (B - (usedspace ctx + 1))
      (write_at (usedspace ctx) [0x80] (buffer ctx))\<rparr>)"
  shows "state (final_state ctx) = transform (state c)
    (buffer_words n (store_word n (store_word n (reverse_words 14 (memzero 0 (14 * n) (buffer c)))
      14 (hi (bitcount c))) 15 (lo (bitcount c))))"
  using assms(1) unfolding assms(2) by (simp add: final_state Let_def del: process_rest)

lemma final_state_short:
  assumes "\<not> usedspace ctx + 1 > 14 * n"
  shows "state (final_state ctx) = transform (state ctx)
    (buffer_words n (store_word n (store_word n (reverse_words 14
      (memzero (usedspace ctx + 1) (14 * n - (usedspace ctx + 1)) (write_at (usedspace ctx) [0x80] (buffer ctx))))
      14 (hi (bitcount ctx))) 15 (lo (bitcount ctx))))"
  using assms by (simp add: final_state Let_def)

text \<open>The padding of a message whose last, incomplete block is \<open>t\<close>.\<close>

lemma pad_long:
  assumes "length t = len mod B" "length t < B" "length t + 1 > 14 * n"
  shows "t @ md_pad n len =
    (t @ 0x80 # replicate (B - (length t + 1)) 0) @ replicate (14 * n) 0 @ be_bytes (2 * n) (8 * int len)"
proof -
  have "B - 2 * n - 1 + (B - length t) = B - (length t + 1) + 14 * n" "B - (length t + 1) + 14 * n < B"
    using assms(2,3) n_pos by linarith+
  then have "(B - 2 * n - 1 + (B - len mod B)) mod B = B - (length t + 1) + 14 * n"
    unfolding assms(1) [symmetric] by (simp only: mod_less)
  then show ?thesis
    unfolding md_pad_def by (simp only: replicate_add append.assoc append_Cons append_Nil)
qed

lemma pad_short:
  assumes "length t = len mod B" "length t < B" "\<not> length t + 1 > 14 * n"
  shows "t @ md_pad n len =
    (t @ 0x80 # replicate (14 * n - (length t + 1)) 0) @ be_bytes (2 * n) (8 * int len)"
proof -
  have "B - 2 * n - 1 + (B - length t) = B + (14 * n - (length t + 1))" "14 * n - (length t + 1) < B"
    using assms(2,3) n_pos by linarith+
  then have "(B - 2 * n - 1 + (B - len mod B)) mod B = 14 * n - (length t + 1)"
    unfolding assms(1) [symmetric] by (simp only: mod_add_self1 mod_less)
  then show ?thesis
    unfolding md_pad_def by (simp only: append.assoc append_Cons append_Nil)
qed

lemma final_correct:
  assumes "represents ctx d"
  shows "state (final_state ctx) = md_hash n transform iv d"
proof -
  from assms obtain d0 t where t: "d = d0 @ t" "B dvd length d0" "length t = length d mod B" "length t < B"
    "take (length t) (buffer ctx) = t"
    "state ctx = iterate iv d0" "length (buffer ctx) = B" "bitcount ctx = cnt (length d)" "usedspace ctx = length t"
    by (rule representsE)
  let ?len = "be_bytes (2 * n) (8 * int (length d))"
  have split: "md_hash n transform iv d = iterate (iterate iv d0) (t @ md_pad n (length d))"
    using t(1) by (simp add: md_hash_def md_iterate_append [OF t(2)])
  define b where "b = write_at (length t) [0x80] (buffer ctx)"
  have b: "length b = B" "take (length t + 1) b = t @ [0x80]"
    using t take_write_at [of "length t" "[0x80]" "buffer ctx"] by (simp_all add: b_def)
  show ?thesis
  proof (cases "length t + 1 > 14 * n")
    case True
    define b1 where "b1 = t @ 0x80 # replicate (B - (length t + 1)) 0"
    define c where "c = process (ctx\<lparr>buffer := b1\<rparr>)"
    have "memzero (length t + 1) (B - (length t + 1)) b = b1"
      using b t(4) by (simp add: b1_def memzero_def write_at_def)
    then have fs: "state (final_state ctx) = transform (state c)
        (buffer_words n (store_word n (store_word n (reverse_words 14 (memzero 0 (14 * n) (buffer c)))
          14 (hi (bitcount c))) 15 (lo (bitcount c))))"
      using final_state_long [of ctx c] True t(9) by (simp only: c_def b_def)
    have b1: "length b1 = B"
      using t(4) by (simp add: b1_def)
    have c: "state c = iterate (iterate iv d0) b1" "length (buffer c) = B" "bitcount c = cnt (length d)"
      using b1 t(6,8) n_pos by (simp_all add: c_def process_state md_iterate_block)
    have z: "take (14 * n) (memzero 0 (14 * n) (buffer c)) = replicate (14 * n) 0"
      "length (memzero 0 (14 * n) (buffer c)) = B"
      using c(2) by (simp_all add: memzero_def write_at_def)
    have "state (final_state ctx) = iterate (state c) (replicate (14 * n) 0 @ ?len)"
      using fs last_words [OF z(2)] z(1) c(3) n_pos by (simp add: md_iterate_block)
    also have "\<dots> = iterate (iterate iv d0) (b1 @ replicate (14 * n) 0 @ ?len)"
      using b1 c(1) by (simp add: md_iterate_append)
    finally show ?thesis
      using split pad_long [OF t(3,4) True] by (simp add: b1_def)
  next
    case False
    define b1 where "b1 = memzero (length t + 1) (14 * n - (length t + 1)) b"
    have b1: "take (14 * n) b1 = t @ 0x80 # replicate (14 * n - (length t + 1)) 0" "length b1 = B"
    proof -
      have "14 * n - length t = Suc (14 * n - Suc (length t))" using False by simp
      then show "take (14 * n) b1 = t @ 0x80 # replicate (14 * n - (length t + 1)) 0" "length b1 = B"
        using b False by (simp_all add: b1_def memzero_def write_at_def)
    qed
    have "state (final_state ctx) = transform (state ctx)
        (buffer_words n (store_word n (store_word n (reverse_words 14 b1)
          14 (hi (bitcount ctx))) 15 (lo (bitcount ctx))))"
      using final_state_short [of ctx] False t(9) by (simp only: b_def b1_def simp_thms)
    also have "\<dots> = iterate (iterate iv d0) (take (14 * n) b1 @ ?len)"
      using t(6,8) n_pos b1(2) last_words [OF b1(2), of "length d"] by (simp add: md_iterate_block)
    finally show ?thesis
      using split pad_short [OF t(3,4) False] b1(1) by simp
  qed
qed

text \<open>Any sequence of updates to a fresh context.\<close>

lemma represents_fresh:
  "length (buffer ctx) = B \<Longrightarrow> bitcount ctx = cnt 0 \<Longrightarrow> state ctx = iv \<Longrightarrow> represents ctx []"
  by (simp add: represents_def md_iterate_def)

lemma updates_correct: "represents ctx d \<Longrightarrow> represents (foldl update ctx chunks) (d @ concat chunks)"
proof (induction chunks arbitrary: ctx d)
  case (Cons x xs)
  then show ?case
    using Cons.IH [OF update_correct [OF Cons.prems], of x] by simp
qed simp

lemma stream_correct:
  assumes "length (buffer ctx) = B" "bitcount ctx = cnt 0" "state ctx = iv"
  shows "state (final_state (foldl update ctx chunks)) = md_hash n transform iv (concat chunks)"
  using final_correct [OF updates_correct [OF represents_fresh [OF assms]]] by simp

end

end
