(* ===== verification/Sha2_Stream.thy ===== *)
theory Sha2_Stream
  imports Md_Hash
begin

unbundle bit_operations_syntax

text \<open>
  The three hashes as instances of the streaming interface.  SHA-1 and SHA-256 count bits in one
  64-bit word, SHA-512 in two; both counters wrap exactly where the length field of the
  standard does.
\<close>

definition bits64 :: "nat \<Rightarrow> u64" where
  "bits64 m = word_of_int (8 * int m)"

definition bits128 :: "nat \<Rightarrow> u64 \<times> u64" where
  "bits128 m = (word_of_int (8 * int m), word_of_int (8 * int m div 2 ^ 64))"

lemma push_bit_3_of_nat: "push_bit 3 (word_of_nat k :: u64) = word_of_int (8 * int k)"
  by (simp add: push_bit_eq_mult)

lemma bits64_add: "bits64 m + push_bit 3 (word_of_nat k) = bits64 (m + k)"
  by (simp add: bits64_def push_bit_3_of_nat)

lemma used_bits: "unat (drop_bit 3 (word_of_int (8 * int m) :: u64)) mod 2 ^ k = m mod 2 ^ k" if "k \<le> 61"
proof -
  have "uint (drop_bit 3 (word_of_int (8 * int m) :: u64)) = (8 * int m) mod 2 ^ 64 div 8"
    unfolding uint_drop_bit uint_word_of_int by simp
  also have "\<dots> = int m mod 2 ^ 61"
    using mod_mult_mult1 [of 8 "int m" "2 ^ 61"] by simp
  finally have "unat (drop_bit 3 (word_of_int (8 * int m) :: u64)) = m mod 2 ^ 61"
    by (simp add: unat_eq_nat_uint nat_mod_distrib)
  moreover have "(2::nat) ^ k dvd 2 ^ 61"
    using that by (rule le_imp_power_dvd)
  ultimately show ?thesis
    by (simp add: mod_mod_cancel)
qed

lemma ADDINC128_correct:
  fixes x y :: int
  assumes "0 \<le> y" "y < 2 ^ 64"
  shows "ADDINC128 (word_of_int x, word_of_int (x div 2 ^ 64)) (word_of_int y)
    = (word_of_int (x + y), word_of_int ((x + y) div 2 ^ 64))"
proof -
  define r where "r = x mod 2 ^ 64"
  have r: "0 \<le> r" "r < 2 ^ 64" by (simp_all add: r_def)
  define lo where "lo = (word_of_int x + word_of_int y :: u64)"
  have "uint lo = (x + y) mod 2 ^ 64"
    unfolding lo_def wi_hom_add uint_word_of_int by simp
  also have "\<dots> = (r + y) mod 2 ^ 64"
    by (simp add: r_def mod_add_left_eq)
  also have "\<dots> = (if 2 ^ 64 \<le> r + y then r + y - 2 ^ 64 else r + y)"
    using r assms minus_mod_self2 [of "r + y" "2 ^ 64"] mod_pos_pos_trivial [of "r + y - 2 ^ 64" "2 ^ 64"]
    by (simp del: minus_mod_self2)
  finally have "lo < word_of_int y \<longleftrightarrow> 2 ^ 64 \<le> r + y"
    using assms r by (auto simp: word_less_def uint_word_of_int)
  moreover have "(x + y) div 2 ^ 64 = x div 2 ^ 64 + (if 2 ^ 64 \<le> r + y then 1 else 0)"
  proof -
    have "(x + y) div 2 ^ 64 = x div 2 ^ 64 + (r + y) div 2 ^ 64"
      using div_mult_self2 [of "2 ^ 64" "r + y" "x div 2 ^ 64"] by (simp add: r_def mult_div_mod_eq add.assoc [symmetric])
    then show ?thesis
      using r assms by (simp add: div_pos_geq)
  qed
  ultimately show ?thesis
    by (simp add: ADDINC128_def Let_def lo_def)
qed

lemma ADDINC128_bits:
  "k < 2 ^ 32 \<Longrightarrow> ADDINC128 (bits128 m) (push_bit 3 (word_of_nat k)) = bits128 (m + k)"
  using ADDINC128_correct [of "8 * int k" "8 * int m"]
  unfolding bits128_def push_bit_3_of_nat by (simp add: distrib_left)

lemma bits64_words:
  "ucast (drop_bit 32 (bits64 m)) = (word_of_int (8 * int m div 256 ^ 4) :: u32)"
  "ucast (bits64 m AND 0xffffffff) = (word_of_int (8 * int m) :: u32)"
proof -
  have m: "(0xffffffff :: u64) = mask 32" by (simp add: mask_eq_exp_minus_1)
  have d: "8 * int m div 256 ^ 4 = drop_bit 32 (8 * int m)" by (simp add: drop_bit_eq_div)
  show "ucast (drop_bit 32 (bits64 m)) = (word_of_int (8 * int m div 256 ^ 4) :: u32)"
    unfolding d bits64_def
    by (rule bit_word_eqI) (simp add: bit_unsigned_iff bit_drop_bit_eq bit_word_of_int_iff del: of_int_mult)
  show "ucast (bits64 m AND 0xffffffff) = (word_of_int (8 * int m) :: u32)"
    unfolding m bits64_def
    by (rule bit_word_eqI) (simp add: bit_unsigned_iff bit_and_iff bit_mask_iff bit_word_of_int_iff del: of_int_mult)
qed

interpretation sha1: md_stream 4 REVERSE32 sha1_initial_hash_value sha1_Transform bits64
    "\<lambda>c k. c + push_bit 3 (word_of_nat k)" "\<lambda>c. ucast (drop_bit 32 c)" "\<lambda>c. ucast (c AND 0xffffffff)"
    sha1_usedspace sha1_process sha1_Update_blocks sha1_Update_rest sha1_Update sha1_Final_state
proof
  fix ctx :: SHA1_CTX and data :: bytes and m k :: nat
  show "bits64 m + push_bit 3 (word_of_nat k) = bits64 (m + k)"
    by (rule bits64_add)
  show "ucast (drop_bit 32 (bits64 m)) = (word_of_int (8 * int m div 256 ^ 4) :: u32)"
    "ucast (bits64 m AND 0xffffffff) = (word_of_int (8 * int m) :: u32)"
    by (rule bits64_words)+
  show "bitcount ctx = bits64 m \<Longrightarrow> sha1_usedspace ctx = m mod (16 * 4)"
    using used_bits [of 6 m] by (simp add: sha1_usedspace_def SHA1_BLOCK_LENGTH_def bits64_def)
  show "sha1_process ctx = ctx\<lparr>buffer := rev32.reverse_words 16 (buffer ctx),
      state := sha1_Transform (state ctx) (buffer_words 4 (rev32.reverse_words 16 (buffer ctx)))\<rparr>"
    by (simp add: sha1_process_def reverse_buffer_words Let_def)
  show "sha1_Update_blocks ctx data =
      (if length data \<ge> 16 * 4
       then let ctx = sha1_process (ctx\<lparr>buffer := write_at 0 (take (16 * 4) data) (buffer ctx)\<rparr>)
            in sha1_Update_blocks (ctx\<lparr>bitcount := bitcount ctx + push_bit 3 (word_of_nat (16 * 4))\<rparr>) (drop (16 * 4) data)
       else (ctx, data))"
    by (subst sha1_Update_blocks.simps) (simp add: SHA1_BLOCK_LENGTH_def Let_def)
  show "sha1_Update_rest ctx data =
      (let (ctx, data) = sha1_Update_blocks ctx data
       in if length data > 0
          then ctx\<lparr>buffer := write_at 0 data (buffer ctx), bitcount := bitcount ctx + push_bit 3 (word_of_nat (length data))\<rparr>
          else ctx)"
    by (simp add: sha1_Update_rest_def)
qed (simp_all add: sha1_Update_def sha1_Final_state_def SHA1_BLOCK_LENGTH_def SHA1_SHORT_BLOCK_LENGTH_def
      reverse_buffer_words Let_def cong: if_cong)

interpretation sha256: md_stream 4 REVERSE32 sha256_initial_hash_value sha256_Transform bits64
    "\<lambda>c k. c + push_bit 3 (word_of_nat k)" "\<lambda>c. ucast (drop_bit 32 c)" "\<lambda>c. ucast (c AND 0xffffffff)"
    sha256_usedspace sha256_process sha256_Update_blocks sha256_Update_rest sha256_Update sha256_Final_state
proof
  fix ctx :: SHA256_CTX and data :: bytes and m k :: nat
  show "bits64 m + push_bit 3 (word_of_nat k) = bits64 (m + k)"
    by (rule bits64_add)
  show "ucast (drop_bit 32 (bits64 m)) = (word_of_int (8 * int m div 256 ^ 4) :: u32)"
    "ucast (bits64 m AND 0xffffffff) = (word_of_int (8 * int m) :: u32)"
    by (rule bits64_words)+
  show "bitcount ctx = bits64 m \<Longrightarrow> sha256_usedspace ctx = m mod (16 * 4)"
    using used_bits [of 6 m] by (simp add: sha256_usedspace_def SHA256_BLOCK_LENGTH_def bits64_def)
  show "sha256_process ctx = ctx\<lparr>buffer := rev32.reverse_words 16 (buffer ctx),
      state := sha256_Transform (state ctx) (buffer_words 4 (rev32.reverse_words 16 (buffer ctx)))\<rparr>"
    by (simp add: sha256_process_def reverse_buffer_words Let_def)
  show "sha256_Update_blocks ctx data =
      (if length data \<ge> 16 * 4
       then let ctx = sha256_process (ctx\<lparr>buffer := write_at 0 (take (16 * 4) data) (buffer ctx)\<rparr>)
            in sha256_Update_blocks (ctx\<lparr>bitcount := bitcount ctx + push_bit 3 (word_of_nat (16 * 4))\<rparr>) (drop (16 * 4) data)
       else (ctx, data))"
    by (subst sha256_Update_blocks.simps) (simp add: SHA256_BLOCK_LENGTH_def Let_def)
  show "sha256_Update_rest ctx data =
      (let (ctx, data) = sha256_Update_blocks ctx data
       in if length data > 0
          then ctx\<lparr>buffer := write_at 0 data (buffer ctx), bitcount := bitcount ctx + push_bit 3 (word_of_nat (length data))\<rparr>
          else ctx)"
    by (simp add: sha256_Update_rest_def)
qed (simp_all add: sha256_Update_def sha256_Final_state_def SHA256_BLOCK_LENGTH_def SHA256_SHORT_BLOCK_LENGTH_def
      reverse_buffer_words Let_def cong: if_cong)

lemma bits128_words:
  "snd (bits128 m) = word_of_int (8 * int m div 256 ^ 8)" "fst (bits128 m) = word_of_int (8 * int m)"
  by (simp_all add: bits128_def)

interpretation sha512: md_stream 8 REVERSE64 sha512_initial_hash_value sha512_Transform bits128
    "\<lambda>c k. ADDINC128 c (push_bit 3 (word_of_nat k))" snd fst
    sha512_usedspace sha512_process sha512_Update_blocks sha512_Update_rest sha512_Update sha512_Last
proof
  fix ctx :: SHA512_CTX and data :: bytes and m k :: nat
  show "k \<le> 16 * 8 \<Longrightarrow> ADDINC128 (bits128 m) (push_bit 3 (word_of_nat k)) = bits128 (m + k)"
    by (rule ADDINC128_bits) simp
  show "snd (bits128 m) = word_of_int (8 * int m div 256 ^ 8)" "fst (bits128 m) = word_of_int (8 * int m)"
    by (rule bits128_words)+
  show "bitcount ctx = bits128 m \<Longrightarrow> sha512_usedspace ctx = m mod (16 * 8)"
    using used_bits [of 7 m] by (simp add: sha512_usedspace_def SHA512_BLOCK_LENGTH_def bits128_def)
  show "sha512_process ctx = ctx\<lparr>buffer := rev64.reverse_words 16 (buffer ctx),
      state := sha512_Transform (state ctx) (buffer_words 8 (rev64.reverse_words 16 (buffer ctx)))\<rparr>"
    by (simp add: sha512_process_def reverse_buffer_words Let_def)
  show "sha512_Update_blocks ctx data =
      (if length data \<ge> 16 * 8
       then let ctx = sha512_process (ctx\<lparr>buffer := write_at 0 (take (16 * 8) data) (buffer ctx)\<rparr>)
            in sha512_Update_blocks (ctx\<lparr>bitcount := ADDINC128 (bitcount ctx) (push_bit 3 (word_of_nat (16 * 8)))\<rparr>)
                 (drop (16 * 8) data)
       else (ctx, data))"
    by (subst sha512_Update_blocks.simps) (simp add: SHA512_BLOCK_LENGTH_def Let_def)
  show "sha512_Update_rest ctx data =
      (let (ctx, data) = sha512_Update_blocks ctx data
       in if length data > 0
          then ctx\<lparr>buffer := write_at 0 data (buffer ctx),
                   bitcount := ADDINC128 (bitcount ctx) (push_bit 3 (word_of_nat (length data)))\<rparr>
          else ctx)"
    by (simp add: sha512_Update_rest_def)
qed (simp_all add: sha512_Update_def sha512_Last_def SHA512_BLOCK_LENGTH_def SHA512_SHORT_BLOCK_LENGTH_def
      reverse_buffer_words Let_def cong: if_cong)

end
