(* ===== verification/Sha2_Rounds.thy ===== *)
theory Sha2_Rounds
  imports Sha2
begin

unbundle bit_operations_syntax

text \<open>
  The transforms against the standard.  FIPS 180-4 computes the whole message schedule first and
  then runs the rounds over it; the code keeps a ring of sixteen words and extends it as the
  rounds go.  The unrolled variants also leave the working registers in place and rotate
  their names.  Both are shown equal to the standard's formulation, for all three hashes.
\<close>

section \<open>Message schedules\<close>

text \<open>
  \<open>next w\<close> is the word of index \<open>t\<close> from its predecessors, \<open>w i\<close> being the word of index \<open>t - i\<close>.
\<close>

primrec fips_schedule :: "((nat \<Rightarrow> 'w) \<Rightarrow> 'w) \<Rightarrow> 'w list \<Rightarrow> nat \<Rightarrow> 'w list" where
  "fips_schedule next M 0 = M"
| "fips_schedule next M (Suc k) =
     (let W = fips_schedule next M k in W @ [next (\<lambda>i. W ! (length W - i))])"

lemma length_fips_schedule [simp]: "length (fips_schedule next M k) = length M + k"
  by (induction k) (simp_all add: Let_def)

lemma fips_schedule_prefix:
  "k \<le> l \<Longrightarrow> t < length M + k \<Longrightarrow> fips_schedule next M l ! t = fips_schedule next M k ! t"
proof (induction l)
  case (Suc l)
  then show ?case by (cases "k = Suc l") (simp_all add: Let_def nth_append)
qed simp

text \<open>The ring holds the last sixteen words of the schedule, each at its index modulo 16.\<close>

definition ring :: "((nat \<Rightarrow> 'w) \<Rightarrow> 'w) \<Rightarrow> 'w list \<Rightarrow> nat \<Rightarrow> 'w list \<Rightarrow> bool" where
  "ring next M k W \<longleftrightarrow>
     length W = 16 \<and> (\<forall>t. k \<le> t \<and> t < k + 16 \<longrightarrow> W ! (t mod 16) = fips_schedule next M k ! t)"

definition depends16 :: "((nat \<Rightarrow> 'w) \<Rightarrow> 'w) \<Rightarrow> bool" where
  "depends16 next \<longleftrightarrow> (\<forall>v w. (\<forall>i. 1 \<le> i \<and> i \<le> 16 \<longrightarrow> v i = w i) \<longrightarrow> next v = next w)"

lemma ring_start: "length M = 16 \<Longrightarrow> ring next M 0 M"
  by (simp add: ring_def)

lemma ring_step:
  assumes "ring next M k W" "length M = 16" "depends16 next" "j = k + 16"
  shows "ring next M (Suc k) (W[j mod 16 := next (\<lambda>i. W ! ((j + 16 - i) mod 16))])"
proof -
  let ?S = "fips_schedule next M k"
  have W: "length W = 16" "\<And>t. k \<le> t \<Longrightarrow> t < k + 16 \<Longrightarrow> W ! (t mod 16) = ?S ! t"
    using assms(1) by (auto simp: ring_def)
  have "W ! ((j + 16 - i) mod 16) = ?S ! (length ?S - i)" if "1 \<le> i" "i \<le> 16" for i
  proof -
    have "(j + 16 - i) mod 16 = (j - i) mod 16"
      using that assms(4) by (metis Nat.add_diff_assoc2 le_add2 le_trans mod_add_self2)
    then show ?thesis
      using W(2) [of "j - i"] that assms(2,4) by (simp add: add.commute)
  qed
  then have next_eq: "next (\<lambda>i. W ! ((j + 16 - i) mod 16)) = next (\<lambda>i. ?S ! (length ?S - i))"
    using assms(3) by (simp add: depends16_def)
  show ?thesis
    unfolding ring_def
  proof (intro conjI allI impI)
    fix t assume t: "Suc k \<le> t \<and> t < Suc k + 16"
    show "W[j mod 16 := next (\<lambda>i. W ! ((j + 16 - i) mod 16))] ! (t mod 16) = fips_schedule next M (Suc k) ! t"
    proof (cases "t = j")
      case True
      then show ?thesis
        using W(1) assms(2,4) next_eq by (simp add: Let_def nth_append)
    next
      case False
      with t assms(4) have lt: "k \<le> t" "t < k + 16" "t \<noteq> j" by auto
      have "t mod 16 \<noteq> j mod 16"
      proof
        assume eq: "t mod 16 = j mod 16"
        have "t \<le> j" using lt assms(4) by simp
        from mod_eq_dvd_iff_nat [OF this, of 16] eq have "16 dvd j - t"
          by simp
        then show False
          using t lt assms(4) by (auto dest: dvd_imp_le)
      qed
      then show ?thesis
        using W lt assms(2) by (simp add: Let_def nth_append)
    qed
  qed (use W in simp)
qed

text \<open>The two loops of a transform: copying in the block, then extending the ring.\<close>

lemma copy_loop:
  assumes "length M = 16" "m \<le> 16"
  shows "foldl (\<lambda>(r, W) j. let W = W[j := M ! j] in (f j (W ! j) r, W)) (r, replicate 16 w0) [0..<m]
    = (foldl (\<lambda>r t. f t (M ! t) r) r [0..<m], take m M @ replicate (16 - m) w0)"
  using assms(2)
proof (induction m)
  case (Suc m)
  have "(take m M @ replicate (16 - m) w0)[m := M ! m] = take (Suc m) M @ replicate (16 - Suc m) w0"
    using Suc.prems assms(1)
    by (simp add: list_update_append take_Suc_conv_app_nth) (cases "16 - m"; simp add: Suc_diff_Suc)
  moreover have "(take (Suc m) M @ replicate (16 - Suc m) w0) ! m = M ! m"
    using Suc.prems assms(1) by (simp add: nth_append)
  ultimately show ?case
    using Suc by (simp add: Let_def)
qed simp

lemma ring_loop:
  assumes "ring next M k0 W" "length M = 16" "depends16 next" "k0 \<le> k" "k \<le> l"
    and ext: "\<And>W j. length W = 16 \<Longrightarrow> ext W j = W[j mod 16 := next (\<lambda>i. W ! ((j + 16 - i) mod 16))]"
  shows "\<exists>W'. foldl (\<lambda>(r, W) j. let W = ext W j in (f j (W ! (j mod 16)) r, W)) (r, W) [k0 + 16..<k + 16]
    = (foldl (\<lambda>r t. f t (fips_schedule next M l ! t) r) r [k0 + 16..<k + 16], W') \<and> ring next M k W'"
  using assms(4,5)
proof (induction k)
  case 0
  then show ?case using assms(1) by simp
next
  case (Suc k)
  show ?case
  proof (cases "k0 = Suc k")
    case False
    then obtain W' where W': "foldl (\<lambda>(r, W) j. let W = ext W j in (f j (W ! (j mod 16)) r, W)) (r, W) [k0 + 16..<k + 16]
        = (foldl (\<lambda>r t. f t (fips_schedule next M l ! t) r) r [k0 + 16..<k + 16], W')" "ring next M k W'"
      using Suc by auto
    let ?W = "ext W' (k + 16)"
    have R: "ring next M (Suc k) ?W"
      using ring_step [OF W'(2) assms(2,3)] ext [of W'] W'(2) by (simp add: ring_def)
    then have "?W ! ((k + 16) mod 16) = fips_schedule next M l ! (k + 16)"
      using fips_schedule_prefix [of "Suc k" l "k + 16" M "next"] Suc.prems(2) assms(2)
        R [unfolded ring_def, THEN conjunct2, THEN spec, of "k + 16"]
      by (simp del: fips_schedule.simps)
    moreover have "[k0 + 16..<Suc k + 16] = [k0 + 16..<k + 16] @ [k + 16]"
      using upt_Suc_append [of "k0 + 16" "k + 16"] Suc.prems(1) False by (simp only: add_Suc)
    ultimately show ?thesis
      using W'(1) R by (intro exI [of _ ?W]) (simp only: foldl_append foldl.simps prod.case Let_def)
  qed (use assms(1) in simp)
qed

section \<open>SHA-256 and SHA-512\<close>

type_synonym 'w regs8 = "'w \<times> 'w \<times> 'w \<times> 'w \<times> 'w \<times> 'w \<times> 'w \<times> 'w"

definition sha2_next :: "('a::len word \<Rightarrow> 'a word) \<Rightarrow> ('a word \<Rightarrow> 'a word) \<Rightarrow> (nat \<Rightarrow> 'a word) \<Rightarrow> 'a word" where
  "sha2_next s0 s1 w = s1 (w 2) + w 7 + s0 (w 15) + w 16"

definition regs8_list :: "'w regs8 \<Rightarrow> 'w list" where
  "regs8_list r = (case r of (a, b, c, d, e, f, g, h) \<Rightarrow> [a, b, c, d, e, f, g, h])"

definition list_regs8 :: "'w list \<Rightarrow> 'w regs8" where
  "list_regs8 v = (v ! 0, v ! 1, v ! 2, v ! 3, v ! 4, v ! 5, v ! 6, v ! 7)"

text \<open>
  The choice and the majority function, as the disjunctions the standard's first edition has; the code uses
  exclusive ors.
\<close>

definition fips_ch :: "'a::len word \<Rightarrow> 'a word \<Rightarrow> 'a word \<Rightarrow> 'a word" where
  "fips_ch x y z = (x AND y) OR (NOT x AND z)"

definition fips_maj :: "'a::len word \<Rightarrow> 'a word \<Rightarrow> 'a word \<Rightarrow> 'a word" where
  "fips_maj x y z = (x AND y) OR (x AND z) OR (y AND z)"

lemma fips_ch_Ch: "fips_ch x y z = Ch x y z"
  unfolding fips_ch_def Ch_def by (rule bit_word_eqI) (auto simp: bit_or_iff bit_xor_iff bit_and_iff bit_not_iff)

lemma fips_maj_Maj: "fips_maj x y z = Maj x y z"
  unfolding fips_maj_def Maj_def by (rule bit_word_eqI) (auto simp: bit_or_iff bit_xor_iff bit_and_iff)

definition sha2_round ::
    "('a::len word \<Rightarrow> 'a word) \<Rightarrow> ('a word \<Rightarrow> 'a word) \<Rightarrow> 'a word \<Rightarrow> 'a word \<Rightarrow> 'a word regs8 \<Rightarrow> 'a word regs8" where
  "sha2_round S0 S1 k w r =
     (case r of (a, b, c, d, e, f, g, h) \<Rightarrow>
        let T1 = h + S1 e + fips_ch e f g + k + w; T2 = S0 a + fips_maj a b c
        in (T1 + T2, a, b, c, d + T1, e, f, g))"

lemma sha2_round_code:
  "sha2_round S0 S1 k w r =
     (case r of (a, b, c, d, e, f, g, h) \<Rightarrow>
        let T1 = h + S1 e + Ch e f g + k + w; T2 = S0 a + Maj a b c
        in (T1 + T2, a, b, c, d + T1, e, f, g))"
  by (simp only: sha2_round_def fips_ch_Ch fips_maj_Maj)

text \<open>The hash computation of the standard for one block \<open>M\<close>.\<close>

definition sha2_fips ::
    "('a::len word \<Rightarrow> 'a word) \<Rightarrow> ('a word \<Rightarrow> 'a word) \<Rightarrow> ('a word \<Rightarrow> 'a word) \<Rightarrow> ('a word \<Rightarrow> 'a word) \<Rightarrow>
     'a word list \<Rightarrow> 'a word list \<Rightarrow> 'a word list \<Rightarrow> 'a word list" where
  "sha2_fips S0 S1 s0 s1 K H M =
     (let W = fips_schedule (sha2_next s0 s1) M (length K - 16);
          r = foldl (\<lambda>r t. sha2_round S0 S1 (K ! t) (W ! t) r) (list_regs8 H) [0..<length K]
      in map2 (+) H (regs8_list r))"

lemma depends16_sha2_next: "depends16 (sha2_next s0 s1)"
  by (simp add: depends16_def sha2_next_def)

text \<open>The array \<open>v\<close> of the unrolled code holds the registers \<open>r\<close> of round \<open>j\<close>, their names rotated.\<close>

definition in_place8 :: "nat \<Rightarrow> 'w regs8 \<Rightarrow> 'w list \<Rightarrow> bool" where
  "in_place8 j r v \<longleftrightarrow> length v = 8 \<and>
     r = (v ! arg8 j 0, v ! arg8 j 1, v ! arg8 j 2, v ! arg8 j 3,
          v ! arg8 j 4, v ! arg8 j 5, v ! arg8 j 6, v ! arg8 j 7)"

lemma arg8_mod: "arg8 (j mod 8) i = arg8 j i" "arg8 (Suc (j mod 8)) i = arg8 (Suc j) i"
proof -
  show 1: "arg8 (j mod 8) i = arg8 j i" for j
    unfolding arg8_def by (metis mod_add_right_eq mod_mult_right_eq)
  show "arg8 (Suc (j mod 8)) i = arg8 (Suc j) i"
    using 1 [of "Suc (j mod 8)"] 1 [of "Suc j"] by (simp add: mod_Suc_eq)
qed

lemma upt_8: "[0..<8] = [0, 1, 2, 3, 4, 5, 6, 7]"
  by (simp add: upt_rec)

lemma in_place8_period:
  assumes "in_place8 j r v" "8 dvd j"
  shows "v = regs8_list r"
proof -
  have "arg8 j i = i" if "i < 8" for i
    using arg8_mod(1) [of j i] assms(2) that by (simp add: arg8_def dvd_imp_mod_0)
  then have "regs8_list r = map ((!) v) [0..<8]"
    using assms(1) by (simp add: in_place8_def regs8_list_def upt_8)
  then show ?thesis
    using assms(1) map_nth [of v] by (simp add: in_place8_def del: upt.simps)
qed

locale sha2_rounds =
  fixes S0 S1 s0 s1 :: "'a::len word \<Rightarrow> 'a word"
    and K :: "'a word list"
    and compress :: "nat \<Rightarrow> 'a word \<Rightarrow> 'a word regs8 \<Rightarrow> 'a word regs8"
    and expand :: "'a word list \<Rightarrow> nat \<Rightarrow> 'a word list"
    and transform :: "'a word list \<Rightarrow> 'a word list \<Rightarrow> 'a word list"
    and round_in_place :: "nat \<Rightarrow> 'a word \<Rightarrow> 'a word list \<Rightarrow> 'a word list"
    and transform_unrolled :: "'a word list \<Rightarrow> 'a word list \<Rightarrow> 'a word list"
  assumes rounds: "16 \<le> length K" "8 dvd length K"
    and compress: "compress j w r = sha2_round S0 S1 (K ! j) w r"
    and expand: "expand W j =
      W[j mod 16 := W ! (j mod 16) + (s1 (W ! ((j + 14) mod 16)) + W ! ((j + 9) mod 16) + s0 (W ! ((j + 1) mod 16)))]"
    and transform: "transform H M =
      (let st = (list_regs8 H, replicate 16 0);
           st = foldl (\<lambda>(r, W) j. let W = W[j := M ! j] in (compress j (W ! j) r, W)) st [0..<16];
           st = foldl (\<lambda>(r, W) j. let W = expand W j in (compress j (W ! (j mod 16)) r, W)) st [16..<length K];
           r = regs8_list (fst st)
       in map (\<lambda>i. H ! i + r ! i) [0..<8])"
    and round_in_place: "round_in_place j w v =
      (let T1 = v ! arg8 j 7 + S1 (v ! arg8 j 4) + Ch (v ! arg8 j 4) (v ! arg8 j 5) (v ! arg8 j 6) + K ! j + w;
           v' = v[arg8 j 3 := v ! arg8 j 3 + T1]
       in v'[arg8 j 7 := T1 + S0 (v ! arg8 j 0) + Maj (v ! arg8 j 0) (v ! arg8 j 1) (v ! arg8 j 2)])"
    and transform_unrolled: "transform_unrolled H M =
      (let st = (map ((!) H) [0..<8], replicate 16 0);
           st = foldl (\<lambda>(v, W) j. let W = W[j := M ! j] in (round_in_place j (W ! j) v, W)) st [0..<16];
           st = foldl (\<lambda>(v, W) j. let W = expand W j in (round_in_place j (W ! (j mod 16)) v, W)) st [16..<length K];
           v = fst st
       in map (\<lambda>i. H ! i + v ! i) [0..<8])"
begin

lemma expand_ring:
  "length W = 16 \<Longrightarrow> expand W j = W[j mod 16 := sha2_next s0 s1 (\<lambda>i. W ! ((j + 16 - i) mod 16))]"
  by (simp add: expand sha2_next_def add.commute add.left_commute)

text \<open>Both variants run their round function over the full schedule.\<close>

lemma two_loops:
  assumes "length M = 16"
  defines "S \<equiv> fips_schedule (sha2_next s0 s1) M (length K - 16)"
  shows "fst (foldl (\<lambda>(r, W) j. let W = expand W j in (f j (W ! (j mod 16)) r, W))
      (foldl (\<lambda>(r, W) j. let W = W[j := M ! j] in (f j (W ! j) r, W)) (r, replicate 16 0) [0..<16]) [16..<length K])
    = foldl (\<lambda>r t. f t (S ! t) r) r [0..<length K]"
proof -
  define r16 where "r16 = foldl (\<lambda>r t. f t (M ! t) r) r [0..<16]"
  have 1: "foldl (\<lambda>(r, W) j. let W = W[j := M ! j] in (f j (W ! j) r, W)) (r, replicate 16 0) [0..<16] = (r16, M)"
    using copy_loop [of M 16 f r 0] assms(1) by (simp only: r16_def) simp
  have "foldl (\<lambda>r t. f t (M ! t) r) r [0..<16] = foldl (\<lambda>r t. f t (S ! t) r) r [0..<16]"
    using fips_schedule_prefix [of 0 "length K - 16" _ M "sha2_next s0 s1"] assms(1)
    by (intro foldl_cong) (simp_all add: S_def)
  then have 2: "r16 = foldl (\<lambda>r t. f t (S ! t) r) r [0..<16]"
    by (simp only: r16_def)
  obtain W' where 3: "foldl (\<lambda>(r, W) j. let W = expand W j in (f j (W ! (j mod 16)) r, W)) (r16, M) [16..<length K]
      = (foldl (\<lambda>r t. f t (S ! t) r) r16 [16..<length K], W')"
    using ring_loop [OF ring_start [OF assms(1)] assms(1) depends16_sha2_next _ order_refl expand_ring,
        of "length K - 16" f r16] rounds(1) unfolding S_def by auto
  have "[0..<length K] = [0..<16] @ [16..<length K]"
    using upt_add_eq_append [of 0 16 "length K - 16"] rounds(1) by simp
  then show ?thesis
    unfolding 1 3 by (simp only: fst_conv foldl_append 2)
qed

lemma transform_fips:
  assumes "length H = 8" "length M = 16"
  shows "transform H M = sha2_fips S0 S1 s0 s1 K H M"
proof -
  have "length (regs8_list r) = 8" for r :: "'a word regs8"
    by (simp add: regs8_list_def split: prod.split)
  then show ?thesis
    using assms unfolding transform sha2_fips_def Let_def two_loops [OF assms(2), of compress, unfolded Let_def]
    unfolding compress by (intro nth_equalityI) (simp_all del: upt.simps)
qed

lemma round_in_place8:
  assumes "in_place8 j r v"
  shows "in_place8 (Suc j) (compress j w r) (round_in_place j w v)"
proof -
  obtain v0 v1 v2 v3 v4 v5 v6 v7 where v: "v = [v0, v1, v2, v3, v4, v5, v6, v7]"
    using assms by (auto simp: in_place8_def length_Suc_conv numeral_eq_Suc)
  have r: "r = (v ! arg8 j 0, v ! arg8 j 1, v ! arg8 j 2, v ! arg8 j 3,
      v ! arg8 j 4, v ! arg8 j 5, v ! arg8 j 6, v ! arg8 j 7)"
    using assms by (simp add: in_place8_def)
  have "j mod 8 < 8" by simp
  then consider "j mod 8 = 0" | "j mod 8 = 1" | "j mod 8 = 2" | "j mod 8 = 3"
    | "j mod 8 = 4" | "j mod 8 = 5" | "j mod 8 = 6" | "j mod 8 = 7"
    by linarith
  then show ?thesis
    unfolding in_place8_def compress round_in_place sha2_round_code r v arg8_mod(1) [of j, symmetric]
      arg8_mod(2) [of j, symmetric]
    by cases (simp_all add: arg8_def Let_def add.assoc)
qed

lemma rounds_in_place8:
  "in_place8 0 r v \<Longrightarrow>
    in_place8 n (foldl (\<lambda>r t. compress t (S ! t) r) r [0..<n]) (foldl (\<lambda>v t. round_in_place t (S ! t) v) v [0..<n])"
  by (induction n) (simp_all add: round_in_place8)

lemma transform_unrolled_eq:
  assumes "length H = 8" "length M = 16"
  shows "transform_unrolled H M = transform H M"
proof -
  define S where "S = fips_schedule (sha2_next s0 s1) M (length K - 16)"
  define r where "r = foldl (\<lambda>r t. compress t (S ! t) r) (list_regs8 H) [0..<length K]"
  define v where "v = foldl (\<lambda>v t. round_in_place t (S ! t) v) (map ((!) H) [0..<8]) [0..<length K]"
  have "in_place8 0 (list_regs8 H) (map ((!) H) [0..<8])"
    by (simp add: in_place8_def list_regs8_def arg8_def upt_8)
  from rounds_in_place8 [OF this, of "length K"] have "in_place8 (length K) r v"
    by (simp only: r_def v_def)
  then have "v = regs8_list r"
    using rounds(2) by (rule in_place8_period)
  then show ?thesis
    unfolding transform transform_unrolled Let_def
      two_loops [OF assms(2), of compress, unfolded Let_def, folded S_def]
      two_loops [OF assms(2), of round_in_place, unfolded Let_def, folded S_def] r_def [symmetric] v_def [symmetric]
    by simp
qed

end

interpretation sha256r: sha2_rounds Sigma0_256 Sigma1_256 sigma0_256 sigma1_256 K256 sha256_compress sha256_expand
    sha256_Transform sha256_round_in_place sha256_Transform_unrolled
proof
  fix j w and r :: "u32  regs8" and W v H M :: "u32 list"
  have K: "length K256 = 64" by (simp only: K256_def length_Cons list.size(3)) simp
  show "16 \<le> length K256" "8 dvd length K256"
    by (simp_all add: K)
  show "sha256_compress j w r = sha2_round Sigma0_256 Sigma1_256 (K256 ! j) w r"
    by (simp add: sha256_compress_def sha2_round_code)
  show "sha256_expand W j = W[j mod 16 := W ! (j mod 16) + (sigma1_256 (W ! ((j + 14) mod 16)) +
      W ! ((j + 9) mod 16) + sigma0_256 (W ! ((j + 1) mod 16)))]"
    by (simp add: sha256_expand_def)
  show "sha256_round_in_place j w v =
      (let T1 = v ! arg8 j 7 + Sigma1_256 (v ! arg8 j 4) + Ch (v ! arg8 j 4) (v ! arg8 j 5) (v ! arg8 j 6) + K256 ! j + w;
           v' = v[arg8 j 3 := v ! arg8 j 3 + T1]
       in v'[arg8 j 7 := T1 + Sigma0_256 (v ! arg8 j 0) + Maj (v ! arg8 j 0) (v ! arg8 j 1) (v ! arg8 j 2)])"
    unfolding sha256_round_in_place_def Let_def by (rule refl)
  show "sha256_Transform H M =
      (let st = (list_regs8 H, replicate 16 0);
           st = foldl (\<lambda>(r, W) j. let W = W[j := M ! j] in (sha256_compress j (W ! j) r, W)) st [0..<16];
           st = foldl (\<lambda>(r, W) j. let W = sha256_expand W j in (sha256_compress j (W ! (j mod 16)) r, W)) st [16..<length K256];
           r = regs8_list (fst st)
       in map (\<lambda>i. H ! i + r ! i) [0..<8])"
    unfolding sha256_Transform_def K list_regs8_def Let_def
    by (simp add: regs8_list_def upt_8 split: prod.split del: upt.simps)
  show "sha256_Transform_unrolled H M =
      (let st = (map ((!) H) [0..<8], replicate 16 0);
           st = foldl (\<lambda>(v, W) j. let W = W[j := M ! j] in (sha256_round_in_place j (W ! j) v, W)) st [0..<16];
           st = foldl (\<lambda>(v, W) j. let W = sha256_expand W j in (sha256_round_in_place j (W ! (j mod 16)) v, W)) st [16..<length K256];
           v = fst st
       in map (\<lambda>i. H ! i + v ! i) [0..<8])"
    unfolding sha256_Transform_unrolled_def K Let_def by (simp only: case_prod_beta)
qed

interpretation sha512r: sha2_rounds Sigma0_512 Sigma1_512 sigma0_512 sigma1_512 K512 sha512_compress sha512_expand
    sha512_Transform sha512_round_in_place sha512_Transform_unrolled
proof
  fix j w and r :: "u64  regs8" and W v H M :: "u64 list"
  have K: "length K512 = 80" by (simp only: K512_def length_Cons list.size(3)) simp
  show "16 \<le> length K512" "8 dvd length K512"
    by (simp_all add: K)
  show "sha512_compress j w r = sha2_round Sigma0_512 Sigma1_512 (K512 ! j) w r"
    by (simp add: sha512_compress_def sha2_round_code)
  show "sha512_expand W j = W[j mod 16 := W ! (j mod 16) + (sigma1_512 (W ! ((j + 14) mod 16)) +
      W ! ((j + 9) mod 16) + sigma0_512 (W ! ((j + 1) mod 16)))]"
    by (simp add: sha512_expand_def)
  show "sha512_round_in_place j w v =
      (let T1 = v ! arg8 j 7 + Sigma1_512 (v ! arg8 j 4) + Ch (v ! arg8 j 4) (v ! arg8 j 5) (v ! arg8 j 6) + K512 ! j + w;
           v' = v[arg8 j 3 := v ! arg8 j 3 + T1]
       in v'[arg8 j 7 := T1 + Sigma0_512 (v ! arg8 j 0) + Maj (v ! arg8 j 0) (v ! arg8 j 1) (v ! arg8 j 2)])"
    unfolding sha512_round_in_place_def Let_def by (rule refl)
  show "sha512_Transform H M =
      (let st = (list_regs8 H, replicate 16 0);
           st = foldl (\<lambda>(r, W) j. let W = W[j := M ! j] in (sha512_compress j (W ! j) r, W)) st [0..<16];
           st = foldl (\<lambda>(r, W) j. let W = sha512_expand W j in (sha512_compress j (W ! (j mod 16)) r, W)) st [16..<length K512];
           r = regs8_list (fst st)
       in map (\<lambda>i. H ! i + r ! i) [0..<8])"
    unfolding sha512_Transform_def K list_regs8_def Let_def
    by (simp add: regs8_list_def upt_8 split: prod.split del: upt.simps)
  show "sha512_Transform_unrolled H M =
      (let st = (map ((!) H) [0..<8], replicate 16 0);
           st = foldl (\<lambda>(v, W) j. let W = W[j := M ! j] in (sha512_round_in_place j (W ! j) v, W)) st [0..<16];
           st = foldl (\<lambda>(v, W) j. let W = sha512_expand W j in (sha512_round_in_place j (W ! (j mod 16)) v, W)) st [16..<length K512];
           v = fst st
       in map (\<lambda>i. H ! i + v ! i) [0..<8])"
    unfolding sha512_Transform_unrolled_def K Let_def by (simp only: case_prod_beta)
qed

section \<open>SHA-1\<close>

lemma bit_beyond_length: "LENGTH('a) \<le> k \<Longrightarrow> \<not> bit (w :: 'a::len word) k"
  using bit_imp_le_length [of w k] by auto

lemma rotl_shifts:
  fixes x :: "'a::len word"
  assumes "b < LENGTH('a)"
  shows "push_bit b x OR drop_bit (LENGTH('a) - b) x = word_rotl b x"
proof (rule bit_word_eqI)
  fix n assume n: "n < LENGTH('a)"
  have "(n + (LENGTH('a) - b)) mod LENGTH('a) = (if b \<le> n then n - b else n + (LENGTH('a) - b))"
    using assms n by (simp add: mod_if)
  then show "bit (push_bit b x OR drop_bit (LENGTH('a) - b) x) n = bit (word_rotl b x) n"
    using assms n bit_beyond_length [of "LENGTH('a) - b + n" x]
    by (auto simp: bit_word_rotl_iff bit_or_iff bit_push_bit_iff bit_drop_bit_eq add.commute)
qed

lemma ROTL32_rotl: "b < 32 \<Longrightarrow> ROTL32 b x = word_rotl b x"
  using rotl_shifts [of b x] by (simp add: ROTL32_def)

definition sha1_f :: "nat \<Rightarrow> u32 \<Rightarrow> u32 \<Rightarrow> u32 \<Rightarrow> u32" where
  "sha1_f t = (if t < 20 then fips_ch else if 40 \<le> t \<and> t < 60 then fips_maj else (\<lambda>x y z. x XOR y XOR z))"

definition sha1_K :: "nat \<Rightarrow> u32" where
  "sha1_K t = (if t < 20 then K1_0_TO_19 else if t < 40 then K1_20_TO_39 else if t < 60 then K1_40_TO_59 else K1_60_TO_79)"

definition sha1_next :: "(nat \<Rightarrow> u32) \<Rightarrow> u32" where
  "sha1_next w = word_rotl 1 (w 3 XOR w 8 XOR w 14 XOR w 16)"

definition sha1_fips_round :: "nat \<Rightarrow> u32 \<Rightarrow> regs5 \<Rightarrow> regs5" where
  "sha1_fips_round t w r =
     (case r of (a, b, c, d, e) \<Rightarrow> (word_rotl 5 a + sha1_f t b c d + e + sha1_K t + w, a, word_rotl 30 b, c, d))"

text \<open>The same in the terms of the code.\<close>

lemma sha1_f_code: "sha1_f t = (if t < 20 then Ch else if t < 40 then Parity else if t < 60 then Maj else Parity)"
  by (auto simp: sha1_f_def fun_eq_iff fips_ch_Ch fips_maj_Maj Parity_def)

lemma sha1_next_code: "sha1_next w = ROTL32 1 (w 3 XOR w 8 XOR w 14 XOR w 16)"
  by (simp add: sha1_next_def ROTL32_rotl)

lemma sha1_fips_round_code:
  "sha1_fips_round t w r =
     (case r of (a, b, c, d, e) \<Rightarrow> (ROTL32 5 a + sha1_f t b c d + e + sha1_K t + w, a, ROTL32 30 b, c, d))"
  by (simp add: sha1_fips_round_def ROTL32_rotl)

definition list_regs5 :: "'w list \<Rightarrow> 'w \<times> 'w \<times> 'w \<times> 'w \<times> 'w" where
  "list_regs5 v = (v ! 0, v ! 1, v ! 2, v ! 3, v ! 4)"

definition regs5_list :: "'w \<times> 'w \<times> 'w \<times> 'w \<times> 'w \<Rightarrow> 'w list" where
  "regs5_list r = (case r of (a, b, c, d, e) \<Rightarrow> [a, b, c, d, e])"

definition sha1_fips :: "u32 list \<Rightarrow> u32 list \<Rightarrow> u32 list" where
  "sha1_fips H M =
     (let W = fips_schedule sha1_next M 64;
          r = foldl (\<lambda>r t. sha1_fips_round t (W ! t) r) (list_regs5 H) [0..<80]
      in map2 (+) H (regs5_list r))"

definition sha1_extend :: "u32 list \<Rightarrow> nat \<Rightarrow> u32 list" where
  "sha1_extend W j =
     W[j mod 16 := ROTL32 1 (W ! ((j + 13) mod 16) XOR W ! ((j + 8) mod 16) XOR W ! ((j + 2) mod 16) XOR W ! (j mod 16))]"

lemma sha1_extend_ring:
  "length W = 16 \<Longrightarrow> sha1_extend W j = W[j mod 16 := sha1_next (\<lambda>i. W ! ((j + 16 - i) mod 16))]"
  by (simp add: sha1_extend_def sha1_next_code add.commute)

lemma depends16_sha1_next: "depends16 sha1_next"
  by (simp add: depends16_def sha1_next_code)

lemma length_sha1_extend [simp]: "length (sha1_extend W j) = length W"
  by (simp add: sha1_extend_def)

text \<open>The array of the unrolled code, five names rotating.\<close>

definition sha1_step_in_place :: "nat \<Rightarrow> u32 \<Rightarrow> u32 list \<Rightarrow> u32 list" where
  "sha1_step_in_place t w v =
     v[arg5 t 4 := ROTL32 5 (v ! arg5 t 0) + sha1_f t (v ! arg5 t 1) (v ! arg5 t 2) (v ! arg5 t 3) + v ! arg5 t 4
         + sha1_K t + w, arg5 t 1 := ROTL32 30 (v ! arg5 t 1)]"

definition in_place5 :: "nat \<Rightarrow> regs5 \<Rightarrow> u32 list \<Rightarrow> bool" where
  "in_place5 j r v \<longleftrightarrow> length v = 5 \<and>
     r = (v ! arg5 j 0, v ! arg5 j 1, v ! arg5 j 2, v ! arg5 j 3, v ! arg5 j 4)"

lemma arg5_mod: "arg5 (j mod 5) i = arg5 j i" "arg5 (Suc (j mod 5)) i = arg5 (Suc j) i"
proof -
  show 1: "arg5 (j mod 5) i = arg5 j i" for j
    unfolding arg5_def by (metis mod_add_right_eq mod_mult_right_eq)
  show "arg5 (Suc (j mod 5)) i = arg5 (Suc j) i"
    using 1 [of "Suc (j mod 5)"] 1 [of "Suc j"] by (simp add: mod_Suc_eq)
qed

lemma upt_5: "[0..<5] = [0, 1, 2, 3, 4]"
  by (simp add: upt_rec)

lemma step_in_place5:
  assumes "in_place5 j r v"
  shows "in_place5 (Suc j) (sha1_fips_round j w r) (sha1_step_in_place j w v)"
proof -
  obtain v0 v1 v2 v3 v4 where v: "v = [v0, v1, v2, v3, v4]"
    using assms by (auto simp: in_place5_def length_Suc_conv numeral_eq_Suc)
  have r: "r = (v ! arg5 j 0, v ! arg5 j 1, v ! arg5 j 2, v ! arg5 j 3, v ! arg5 j 4)"
    using assms by (simp add: in_place5_def)
  have "j mod 5 < 5" by simp
  then consider "j mod 5 = 0" | "j mod 5 = 1" | "j mod 5 = 2" | "j mod 5 = 3" | "j mod 5 = 4"
    by linarith
  then show ?thesis
    unfolding in_place5_def sha1_fips_round_code sha1_step_in_place_def r v arg5_mod(1) [of j, symmetric]
      arg5_mod(2) [of j, symmetric]
    by cases (simp_all add: arg5_def)
qed

lemma steps_in_place5:
  "in_place5 0 r v \<Longrightarrow>
    in_place5 n (foldl (\<lambda>r t. sha1_fips_round t (S ! t) r) r [0..<n])
      (foldl (\<lambda>v t. sha1_step_in_place t (S ! t) v) v [0..<n])"
  by (induction n) (simp_all add: step_in_place5)

lemma in_place5_period: "in_place5 80 r v \<Longrightarrow> v = regs5_list r"
  using map_nth [of v] by (auto simp: in_place5_def arg5_def regs5_list_def upt_5)

text \<open>
  The five loops of either variant are two loops of one step function over the whole range.
\<close>

lemma sha1_loops:
  assumes "length M = 16"
  defines "S \<equiv> fips_schedule sha1_next M 64"
  shows "fst (foldl (\<lambda>(r, W) j. let W = sha1_extend W j in (f j (W ! (j mod 16)) r, W))
      (foldl (\<lambda>(r, W) j. let W = W[j := M ! j] in (f j (W ! j) r, W)) (r, replicate 16 0) [0..<16]) [16..<80])
    = foldl (\<lambda>r t. f t (S ! t) r) r [0..<80]"
proof -
  define r16 where "r16 = foldl (\<lambda>r t. f t (M ! t) r) r [0..<16]"
  have 1: "foldl (\<lambda>(r, W) j. let W = W[j := M ! j] in (f j (W ! j) r, W)) (r, replicate 16 0) [0..<16] = (r16, M)"
    using copy_loop [of M 16 f r 0] assms(1) by (simp only: r16_def) simp
  have "foldl (\<lambda>r t. f t (M ! t) r) r [0..<16] = foldl (\<lambda>r t. f t (S ! t) r) r [0..<16]"
    using fips_schedule_prefix [of 0 64 _ M sha1_next] assms(1)
    by (intro foldl_cong) (simp_all add: S_def)
  then have 2: "r16 = foldl (\<lambda>r t. f t (S ! t) r) r [0..<16]"
    by (simp only: r16_def)
  obtain W' where 3: "foldl (\<lambda>(r, W) j. let W = sha1_extend W j in (f j (W ! (j mod 16)) r, W)) (r16, M) [16..<80]
      = (foldl (\<lambda>r t. f t (S ! t) r) r16 [16..<80], W')"
    using ring_loop [OF ring_start [OF assms(1)] assms(1) depends16_sha1_next _ order_refl sha1_extend_ring,
        of 64 f r16] unfolding S_def by auto
  have "[0..<80] = [0..<16] @ [16..<80]"
    using upt_add_eq_append [of 0 16 64] by simp
  then show ?thesis
    unfolding 1 3 by (simp only: fst_conv foldl_append 2)
qed

lemma upt_80: "[16..<80] = [16..<20] @ [20..<40] @ [40..<60] @ [60..<80]"
  using upt_add_eq_append [of 16 20 60] upt_add_eq_append [of 16 40 40] upt_add_eq_append [of 16 60 20]
  by (simp add: upt_rec)

lemma foldl_range:
  "(\<And>st j. i \<le> j \<Longrightarrow> j < k \<Longrightarrow> f st j = g st j) \<Longrightarrow> foldl f st [i..<k] = foldl g st [i..<k]"
  by (rule foldl_cong) simp_all

lemma sha1_rolled_steps:
  "j < 16 \<Longrightarrow> sha1_round_0_15 M st j = (case st of (r, W) \<Rightarrow> let W = W[j := M ! j] in (sha1_fips_round j (W ! j) r, W))"
  "sha1_round (sha1_f j) (sha1_K j) st j =
    (case st of (r, W) \<Rightarrow> let W = sha1_extend W j in (sha1_fips_round j (W ! (j mod 16)) r, W))"
  by (simp_all add: sha1_round_0_15_def sha1_round_def sha1_fips_round_code sha1_extend_def sha1_f_code sha1_K_def
      Let_def split: prod.split)

lemma sha1_unrolled_steps:
  "j < 16 \<Longrightarrow> ROUND1_0_TO_15 M st j = (case st of (v, W) \<Rightarrow> let W = W[j := M ! j] in (sha1_step_in_place j (W ! j) v, W))"
  "ROUND1 (sha1_f j) (sha1_K j) st j =
    (case st of (v, W) \<Rightarrow> let W = sha1_extend W j in (sha1_step_in_place j (W ! (j mod 16)) v, W))"
  by (simp_all add: ROUND1_0_TO_15_def ROUND1_def sha1_step_in_place_def sha1_extend_def sha1_f_code sha1_K_def
      Let_def split: prod.split)

lemma sha1_four_loops:
  "foldl (F Parity K1_60_TO_79) (foldl (F Maj K1_40_TO_59) (foldl (F Parity K1_20_TO_39)
      (foldl (F Ch K1_0_TO_19) st [16..<20]) [20..<40]) [40..<60]) [60..<80]
    = foldl (\<lambda>st j. F (sha1_f j) (sha1_K j) st j) st [16..<80]"
  unfolding upt_80 foldl_append
  by (intro arg_cong2 [where f = "\<lambda>st xs. foldl _ st xs"] foldl_cong refl)
    (auto simp: sha1_f_code sha1_K_def)

lemma add_regs5: "length H = 5 \<Longrightarrow> map (\<lambda>i. H ! i + regs5_list r ! i) [0..<5] = map2 (+) H (regs5_list r)"
  by (rule nth_equalityI) (simp_all add: regs5_list_def split: prod.split)

lemma sha1_Transform_fips:
  assumes "length H = 5" "length M = 16"
  shows "sha1_Transform H M = sha1_fips H M"
proof -
  define st where "st = foldl (sha1_round_0_15 M) (list_regs5 H, replicate 16 0) [0..<16]"
  have st: "st = foldl (\<lambda>(r, W) j. let W = W[j := M ! j] in (sha1_fips_round j (W ! j) r, W))
      (list_regs5 H, replicate 16 0) [0..<16]"
    unfolding st_def by (rule foldl_range) (simp add: sha1_rolled_steps(1) split: prod.split)
  have loops: "foldl (\<lambda>st j. sha1_round (sha1_f j) (sha1_K j) st j) st [16..<80]
      = foldl (\<lambda>(r, W) j. let W = sha1_extend W j in (sha1_fips_round j (W ! (j mod 16)) r, W)) st [16..<80]"
    by (rule foldl_range) (simp add: sha1_rolled_steps(2) split: prod.split)
  have "sha1_Transform H M = map (\<lambda>i. H ! i + regs5_list (fst
      (foldl (\<lambda>st j. sha1_round (sha1_f j) (sha1_K j) st j) st [16..<80])) ! i) [0..<5]"
    unfolding sha1_Transform_def Let_def list_regs5_def [symmetric] st_def [symmetric] sha1_four_loops
    by (simp add: regs5_list_def upt_5 split: prod.split del: upt.simps)
  also have "\<dots> = sha1_fips H M"
    unfolding loops unfolding st unfolding sha1_loops [OF assms(2), of sha1_fips_round] sha1_fips_def
    unfolding Let_def
    using assms(1) by (rule add_regs5)
  finally show ?thesis .
qed

lemma sha1_Transform_unrolled_fips:
  assumes "length H = 5" "length M = 16"
  shows "sha1_Transform_unrolled H M = sha1_fips H M"
proof -
  define S where "S = fips_schedule sha1_next M 64"
  define r where "r = foldl (\<lambda>r t. sha1_fips_round t (S ! t) r) (list_regs5 H) [0..<80]"
  define v where "v = foldl (\<lambda>v t. sha1_step_in_place t (S ! t) v) (map ((!) H) [0..<5]) [0..<80]"
  define st where "st = foldl (ROUND1_0_TO_15 M) (map ((!) H) [0..<5], replicate 16 0) [0..<16]"
  have st: "st = foldl (\<lambda>(v, W) j. let W = W[j := M ! j] in (sha1_step_in_place j (W ! j) v, W))
      (map ((!) H) [0..<5], replicate 16 0) [0..<16]"
    unfolding st_def by (rule foldl_range) (simp add: sha1_unrolled_steps(1) split: prod.split)
  have loops: "foldl (\<lambda>st j. ROUND1 (sha1_f j) (sha1_K j) st j) st [16..<80]
      = foldl (\<lambda>(v, W) j. let W = sha1_extend W j in (sha1_step_in_place j (W ! (j mod 16)) v, W)) st [16..<80]"
    by (rule foldl_range) (simp add: sha1_unrolled_steps(2) split: prod.split)
  have "fst (foldl (\<lambda>st j. ROUND1 (sha1_f j) (sha1_K j) st j) st [16..<80]) = v"
    unfolding loops unfolding st sha1_loops [OF assms(2), of sha1_step_in_place] v_def S_def by (rule refl)
  then have "sha1_Transform_unrolled H M = map (\<lambda>i. H ! i + v ! i) [0..<5]"
    unfolding sha1_Transform_unrolled_def Let_def st_def [symmetric] sha1_four_loops
    by (simp add: case_prod_beta del: upt.simps)
  also have "in_place5 0 (list_regs5 H) (map ((!) H) [0..<5])"
    by (simp add: in_place5_def list_regs5_def arg5_def upt_5)
  then have "v = regs5_list r"
    unfolding r_def v_def by (intro in_place5_period steps_in_place5)
  finally show ?thesis
    unfolding sha1_fips_def Let_def S_def [symmetric] r_def [symmetric]
    by (simp only: add_regs5 [OF assms(1)])
qed

section \<open>Properties\<close>

lemma rotr_shifts:
  fixes x :: "'a::len word"
  assumes "b < LENGTH('a)"
  shows "drop_bit b x OR push_bit (LENGTH('a) - b) x = word_rotr b x"
proof (rule bit_word_eqI)
  fix n assume n: "n < LENGTH('a)"
  have "(n + b) mod LENGTH('a) = (if n + b < LENGTH('a) then n + b else n + b - LENGTH('a))"
    using assms n by (simp add: mod_if)
  moreover have "n - (LENGTH('a) - b) = n + b - LENGTH('a)"
    using assms by simp
  ultimately show "bit (drop_bit b x OR push_bit (LENGTH('a) - b) x) n = bit (word_rotr b x) n"
    using assms n bit_beyond_length [of "b + n" x]
    by (auto simp: bit_word_rotr_iff bit_or_iff bit_push_bit_iff bit_drop_bit_eq add.commute)
qed

lemma ROTR_rotr:
  "b < 32 \<Longrightarrow> ROTR32 b x = word_rotr b x"
  "b < 64 \<Longrightarrow> ROTR64 b y = word_rotr b y"
  using rotr_shifts [of b x] rotr_shifts [of b y] by (simp_all add: ROTR32_def ROTR64_def)

text \<open>The rotations and shifts of the standard's six functions.\<close>

lemma sigma_fips:
  "Sigma0_256 = (\<lambda>x. word_rotr 2 x XOR word_rotr 13 x XOR word_rotr 22 x)"
  "Sigma1_256 = (\<lambda>x. word_rotr 6 x XOR word_rotr 11 x XOR word_rotr 25 x)"
  "sigma0_256 = (\<lambda>x. word_rotr 7 x XOR word_rotr 18 x XOR drop_bit 3 x)"
  "sigma1_256 = (\<lambda>x. word_rotr 17 x XOR word_rotr 19 x XOR drop_bit 10 x)"
  "Sigma0_512 = (\<lambda>x. word_rotr 28 x XOR word_rotr 34 x XOR word_rotr 39 x)"
  "Sigma1_512 = (\<lambda>x. word_rotr 14 x XOR word_rotr 18 x XOR word_rotr 41 x)"
  "sigma0_512 = (\<lambda>x. word_rotr 1 x XOR word_rotr 8 x XOR drop_bit 7 x)"
  "sigma1_512 = (\<lambda>x. word_rotr 19 x XOR word_rotr 61 x XOR drop_bit 6 x)"
  by (simp_all add: fun_eq_iff Sigma0_256_def Sigma1_256_def sigma0_256_def sigma1_256_def
      Sigma0_512_def Sigma1_512_def sigma0_512_def sigma1_512_def ROTR_rotr SHR_def)

text \<open>
  C35: the transforms.  For a state of eight words and a block of sixteen, the transforms of
  SHA-512 and SHA-256, which keep sixteen schedule words in a ring, compute the
  standard's block function over the whole message schedule, and the unrolled variants with
  rotated register names give the same result.
\<close>

theorem sha2_Transform_is_fips180:
  assumes "length H = 8" "length M = 16" "length H' = 8" "length M' = 16"
  shows "sha512_Transform H M =
      sha2_fips (\<lambda>x. word_rotr 28 x XOR word_rotr 34 x XOR word_rotr 39 x)
        (\<lambda>x. word_rotr 14 x XOR word_rotr 18 x XOR word_rotr 41 x)
        (\<lambda>x. word_rotr 1 x XOR word_rotr 8 x XOR drop_bit 7 x)
        (\<lambda>x. word_rotr 19 x XOR word_rotr 61 x XOR drop_bit 6 x) K512 H M \<and>
    sha512_Transform_unrolled H M = sha512_Transform H M \<and>
    sha256_Transform H' M' =
      sha2_fips (\<lambda>x. word_rotr 2 x XOR word_rotr 13 x XOR word_rotr 22 x)
        (\<lambda>x. word_rotr 6 x XOR word_rotr 11 x XOR word_rotr 25 x)
        (\<lambda>x. word_rotr 7 x XOR word_rotr 18 x XOR drop_bit 3 x)
        (\<lambda>x. word_rotr 17 x XOR word_rotr 19 x XOR drop_bit 10 x) K256 H' M' \<and>
    sha256_Transform_unrolled H' M' = sha256_Transform H' M'"
  using assms
  by (simp only: sigma_fips [symmetric] sha512r.transform_fips sha512r.transform_unrolled_eq
      sha256r.transform_fips sha256r.transform_unrolled_eq simp_thms)

theorem sha2_Transform_is_fips180_witness:
  "sha512_Transform_unrolled sha512_initial_hash_value (replicate 16 7) =
   sha512_Transform sha512_initial_hash_value (replicate 16 7)"
proof -
  have "length sha512_initial_hash_value = 8" "length (replicate 16 (7::u64)) = 16"
    "length sha256_initial_hash_value = 8" "length (replicate 16 (7::u32)) = 16"
    by (simp_all add: sha512_initial_hash_value_def sha256_initial_hash_value_def)
  from sha2_Transform_is_fips180 [OF this] show ?thesis by blast
qed

text \<open>
  C36: the SHA-1 transform, rolled and unrolled, is the standard's block function with its four
  round functions and the schedule of eighty words.
\<close>

theorem sha1_Transform_is_fips180:
  assumes "length H = 5" "length M = 16"
  shows "sha1_Transform H M = sha1_fips H M \<and> sha1_Transform_unrolled H M = sha1_fips H M"
  using sha1_Transform_fips [OF assms] sha1_Transform_unrolled_fips [OF assms] by blast

theorem sha1_Transform_is_fips180_witness:
  "sha1_Transform sha1_initial_hash_value (replicate 16 0) = sha1_fips sha1_initial_hash_value (replicate 16 0)"
proof -
  have "length sha1_initial_hash_value = 5" "length (replicate 16 (0::u32)) = 16"
    by (simp_all add: sha1_initial_hash_value_def)
  from sha1_Transform_is_fips180 [OF this] show ?thesis by blast
qed

definition first_primes :: "int list" where
  "first_primes = [2, 3, 5, 7, 11, 13, 17, 19, 23, 29, 31, 37, 41, 43, 47, 53, 59, 61, 67, 71, 73, 79, 83, 89, 97, 101, 103, 107, 109, 113, 127, 131, 137, 139, 149, 151, 157, 163, 167, 173, 179, 181, 191, 193, 197, 199, 211, 223, 227, 229, 233, 239, 241, 251, 257, 263, 269, 271, 277, 281, 283, 293, 307, 311, 313, 317, 331, 337, 347, 349, 353, 359, 367, 373, 379, 383, 389, 397, 401, 409]"

definition cube_root_fraction :: "int \<Rightarrow> u64 \<Rightarrow> bool" where
  "cube_root_fraction q k \<longleftrightarrow>
     (let c = (if q < 8 then 1 else if q < 27 then 2 else if q < 64 then 3 else if q < 125 then 4
               else if q < 216 then 5 else if q < 343 then 6 else 7);
          x = 2 ^ 64 * c + uint k
      in x * x * x \<le> q * 2 ^ 192 \<and> q * 2 ^ 192 < (x + 1) * (x + 1) * (x + 1))"

definition scaled_square_root :: "int \<Rightarrow> u32 \<Rightarrow> bool" where
  "scaled_square_root q k \<longleftrightarrow> uint k * uint k \<le> q * 2 ^ 60 \<and> q * 2 ^ 60 < (uint k + 1) * (uint k + 1)"

definition square_root_fraction :: "int \<Rightarrow> u64 \<Rightarrow> bool" where
  "square_root_fraction q k \<longleftrightarrow>
     (let c = (if q < 4 then 1 else if q < 9 then 2 else if q < 16 then 3 else 4);
          x = 2 ^ 64 * c + uint k
      in x * x \<le> q * 2 ^ 128 \<and> q * 2 ^ 128 < (x + 1) * (x + 1))"

text \<open>
  C37: the constant tables.  With \<open>c\<close> the integer part of the cube root of the \<open>i\<close>-th prime, entry
  \<open>i\<close> of the SHA-512 table is the first 64 bits of the fractional part of that root, and the SHA-256
  table holds the first 32 of these bits; the initial values are the same for square roots of
  the first eight primes.  The four constants of SHA-1 are the square roots of 2, 3, 5 and 10 times \<open>2\<^sup>3\<^sup>0\<close>, rounded down, and
  the bytes of its initial value count up and down through the sixteen nibbles.
\<close>

theorem sha2_constants_are_root_fractions:
  "list_all2 cube_root_fraction first_primes K512 \<and>
   K256 = map (\<lambda>k. ucast (drop_bit 32 k)) (take 64 K512) \<and>
   list_all2 square_root_fraction (take 8 first_primes) sha512_initial_hash_value \<and>
   sha256_initial_hash_value = map (\<lambda>k. ucast (drop_bit 32 k)) sha512_initial_hash_value \<and>
   list_all2 scaled_square_root [2, 3, 5, 10] [K1_0_TO_19, K1_20_TO_39, K1_40_TO_59, K1_60_TO_79] \<and>
   concat (map (\<lambda>h. le_bytes 4 (uint h)) sha1_initial_hash_value) =
     [0x01, 0x23, 0x45, 0x67, 0x89, 0xab, 0xcd, 0xef, 0xfe, 0xdc, 0xba, 0x98, 0x76, 0x54, 0x32, 0x10, 0xf0, 0xe1, 0xd2, 0xc3]"
proof (intro conjI)
  show "list_all2 cube_root_fraction first_primes K512"
    by code_simp
  show "K256 = map (\<lambda>k. ucast (drop_bit 32 k)) (take 64 K512)"
    by (simp add: K256_def K512_def)
  show "list_all2 square_root_fraction (take 8 first_primes) sha512_initial_hash_value"
    by (simp add: first_primes_def sha512_initial_hash_value_def square_root_fraction_def)
  show "sha256_initial_hash_value = map (\<lambda>k. ucast (drop_bit 32 k)) sha512_initial_hash_value"
    by (simp add: sha256_initial_hash_value_def sha512_initial_hash_value_def)
  show "list_all2 scaled_square_root [2, 3, 5, 10] [K1_0_TO_19, K1_20_TO_39, K1_40_TO_59, K1_60_TO_79]"
    by (simp add: scaled_square_root_def K1_0_TO_19_def K1_20_TO_39_def K1_40_TO_59_def K1_60_TO_79_def)
  show "concat (map (\<lambda>h. le_bytes 4 (uint h)) sha1_initial_hash_value) =
      [0x01, 0x23, 0x45, 0x67, 0x89, 0xab, 0xcd, 0xef, 0xfe, 0xdc, 0xba, 0x98, 0x76, 0x54, 0x32, 0x10, 0xf0, 0xe1, 0xd2, 0xc3]"
    by code_simp
qed

end
