(* ===== verification/Sha2_Properties.thy ===== *)
theory Sha2_Properties
  imports Sha2_Stream Sha2_Rounds
begin

unbundle bit_operations_syntax

text \<open>
  The digests.  Putting the streaming interface and the transforms together: whatever way a
  message is cut into calls of Update, Final writes the digest of the standard, big-endian,
  and clears the context.
\<close>

lemma length_be_words [simp]: "length (be_words n blk) = 16"
  by (simp add: be_words_def)

lemma md_blocks_cong:
  assumes "\<And>st M. P st \<Longrightarrow> length M = 16 \<Longrightarrow> f st M = g st M \<and> P (f st M)" "P st"
  shows "md_blocks n f k st xs = md_blocks n g k st xs \<and> P (md_blocks n f k st xs)"
  using assms(2)
proof (induction k arbitrary: st xs)
  case (Suc k)
  have "f st (be_words n (take (16 * n) xs)) = g st (be_words n (take (16 * n) xs)) \<and>
      P (f st (be_words n (take (16 * n) xs)))"
    by (rule assms(1) [OF Suc.prems]) simp
  then show ?case
    using Suc.IH [of "f st (be_words n (take (16 * n) xs))" "drop (16 * n) xs"] by auto
qed simp

lemma md_hash_cong:
  assumes "\<And>st M. P st \<Longrightarrow> length M = 16 \<Longrightarrow> f st M = g st M \<and> P (f st M)" "P iv"
  shows "md_hash n f iv msg = md_hash n g iv msg" and "P (md_hash n f iv msg)"
  unfolding md_hash_def md_iterate_def using md_blocks_cong [of P f g iv n, OF assms] by blast+

lemma md_hash_words:
  assumes "\<And>st M. length st = k \<Longrightarrow> length M = 16 \<Longrightarrow> f st M = g st M" "\<And>st M. length (f st M) = k" "length iv = k"
  shows "md_hash n f iv msg = md_hash n g iv msg \<and> length (md_hash n g iv msg) = k"
proof -
  note c = md_hash_cong [where P = "\<lambda>st. length st = k" and f = f and g = g and iv = iv]
  have "md_hash n f iv msg = md_hash n g iv msg"
    by (rule c(1)) (use assms in blast)+
  moreover have "length (md_hash n f iv msg) = k"
    by (rule c(2)) (use assms in blast)+
  ultimately show ?thesis by simp
qed

lemma length_Transform [simp]:
  "length (sha1_Transform H5 M) = 5" "length (sha256_Transform H M) = 8" "length (sha512_Transform H' M') = 8"
  by (simp_all add: sha1_Transform_def sha256_Transform_def sha512_Transform_def Let_def split: prod.split)

lemma initial_length [simp]:
  "length sha1_initial_hash_value = 5" "length sha256_initial_hash_value = 8" "length sha512_initial_hash_value = 8"
  by (simp_all add: sha1_initial_hash_value_def sha256_initial_hash_value_def sha512_initial_hash_value_def)

lemma Init_fresh:
  "length (buffer c) = 64 \<Longrightarrow> length (buffer (sha1_Init c)) = 64 \<and> bitcount (sha1_Init c) = bits64 0 \<and>
    state (sha1_Init c) = sha1_initial_hash_value"
  "length (buffer c') = 64 \<Longrightarrow> length (buffer (sha256_Init c')) = 64 \<and> bitcount (sha256_Init c') = bits64 0 \<and>
    state (sha256_Init c') = sha256_initial_hash_value"
  "length (buffer c'') = 128 \<Longrightarrow> length (buffer (sha512_Init c'')) = 128 \<and> bitcount (sha512_Init c'') = bits128 0 \<and>
    state (sha512_Init c'') = sha512_initial_hash_value"
  by (simp_all add: sha1_Init_def sha256_Init_def sha512_Init_def memzero_def bits64_def bits128_def
      SHA1_BLOCK_LENGTH_def SHA256_BLOCK_LENGTH_def SHA512_BLOCK_LENGTH_def)

definition digest_bytes :: "nat \<Rightarrow> 'a::len word list \<Rightarrow> bytes" where
  "digest_bytes n H = concat (map (\<lambda>w. be_bytes n (uint w)) H)"

definition sha512_spec :: "bytes \<Rightarrow> bytes" where
  "sha512_spec msg = digest_bytes 8
     (md_hash 8 (sha2_fips Sigma0_512 Sigma1_512 sigma0_512 sigma1_512 K512) sha512_initial_hash_value msg)"

definition sha256_spec :: "bytes \<Rightarrow> bytes" where
  "sha256_spec msg = digest_bytes 4
     (md_hash 4 (sha2_fips Sigma0_256 Sigma1_256 sigma0_256 sigma1_256 K256) sha256_initial_hash_value msg)"

definition sha1_spec :: "bytes \<Rightarrow> bytes" where
  "sha1_spec msg = digest_bytes 4 (md_hash 4 sha1_fips sha1_initial_hash_value msg)"

lemma sha512_words:
  "md_hash 8 sha512_Transform sha512_initial_hash_value msg = md_hash 8 (sha2_fips Sigma0_512 Sigma1_512 sigma0_512 sigma1_512 K512) sha512_initial_hash_value msg \<and>
    length (md_hash 8 (sha2_fips Sigma0_512 Sigma1_512 sigma0_512 sigma1_512 K512) sha512_initial_hash_value msg) = 8"
  by (rule md_hash_words) (simp_all add: sha512r.transform_fips)

lemma sha512_digest:
  assumes "length (buffer ctx) = 128"
  shows "sha512_Final (foldl sha512_Update (sha512_Init ctx) chunks) True
    = (zero_SHA512_CTX, Some (sha512_spec (concat chunks)))"
proof -
  have "state (sha512_Last (foldl sha512_Update (sha512_Init ctx) chunks))
      = md_hash 8 sha512_Transform sha512_initial_hash_value (concat chunks)"
    by (rule sha512.stream_correct) (use Init_fresh(3) [OF assms] in simp_all)
  then show ?thesis
    by (simp add: sha512_Final_def sha512_spec_def digest_bytes_def rev64.REV_store sha512_words)
qed

lemma sha256_words:
  "md_hash 4 sha256_Transform sha256_initial_hash_value msg = md_hash 4 (sha2_fips Sigma0_256 Sigma1_256 sigma0_256 sigma1_256 K256) sha256_initial_hash_value msg \<and>
    length (md_hash 4 (sha2_fips Sigma0_256 Sigma1_256 sigma0_256 sigma1_256 K256) sha256_initial_hash_value msg) = 8"
  by (rule md_hash_words) (simp_all add: sha256r.transform_fips)

lemma sha256_digest:
  assumes "length (buffer ctx) = 64"
  shows "sha256_Final (foldl sha256_Update (sha256_Init ctx) chunks) True
    = (zero_SHA256_CTX, Some (sha256_spec (concat chunks)))"
proof -
  have "state (sha256_Final_state (foldl sha256_Update (sha256_Init ctx) chunks))
      = md_hash 4 sha256_Transform sha256_initial_hash_value (concat chunks)"
    by (rule sha256.stream_correct) (use Init_fresh(2) [OF assms] in simp_all)
  then show ?thesis
    by (simp add: sha256_Final_def sha256_spec_def digest_bytes_def rev32.REV_store sha256_words)
qed

lemma sha1_words:
  "md_hash 4 sha1_Transform sha1_initial_hash_value msg = md_hash 4 sha1_fips sha1_initial_hash_value msg \<and>
    length (md_hash 4 sha1_fips sha1_initial_hash_value msg) = 5"
  by (rule md_hash_words) (simp_all add: sha1_Transform_fips)

lemma sha1_digest:
  assumes "length (buffer ctx) = 64"
  shows "sha1_Final (foldl sha1_Update (sha1_Init ctx) chunks) True
    = (zero_SHA1_CTX, Some (sha1_spec (concat chunks)))"
proof -
  have "state (sha1_Final_state (foldl sha1_Update (sha1_Init ctx) chunks))
      = md_hash 4 sha1_Transform sha1_initial_hash_value (concat chunks)"
    by (rule sha1.stream_correct) (use Init_fresh(1) [OF assms] in simp_all)
  then show ?thesis
    by (simp add: sha1_Final_def sha1_spec_def digest_bytes_def rev32.REV_store sha1_words)
qed

lemma sr25519_hash_sha512: "sr25519_hash inp = sha512_spec inp"
  using sha512_digest [of zero_SHA512_CTX "[inp]"]
  by (simp add: sr25519_hash_def sha512_Raw_def zero_SHA512_CTX_def)

lemma length_sha512_spec [simp]: "length (sha512_spec msg) = 64"
  by (simp add: sha512_spec_def digest_bytes_def length_concat o_def sum_list_triv sha512_words)

text \<open>
  C33: SHA-512 as the signature code uses it.  For every message and every way of cutting it
  into calls of Update, Final returns the SHA-512 digest of FIPS 180-4 (padding, schedule, rounds and
  big-endian output) of the whole message and zeroes the context; \<open>sr25519_hash\<close> is that digest.
\<close>

theorem sha512_streaming_is_fips180:
  assumes "length (buffer ctx) = 128"
  shows "sha512_Final (foldl sha512_Update (sha512_Init ctx) chunks) True
      = (zero_SHA512_CTX, Some (sha512_spec (concat chunks))) \<and>
    sr25519_hash (concat chunks) = sha512_spec (concat chunks) \<and> length (sha512_spec (concat chunks)) = 64"
  using sha512_digest [OF assms] by (simp add: sr25519_hash_sha512)

theorem sha512_streaming_is_fips180_witness:
  "sha512_Final (foldl sha512_Update (sha512_Init zero_SHA512_CTX) [[1], [], [2, 3]]) True
    = (zero_SHA512_CTX, Some (sha512_spec [1, 2, 3]))"
proof -
  have "length (buffer zero_SHA512_CTX) = 128" by (simp add: zero_SHA512_CTX_def)
  from sha512_streaming_is_fips180 [OF this, of "[[1], [], [2, 3]]"] show ?thesis by simp
qed

text \<open>
  C34: the same for SHA-256 and SHA-1: however the message is cut into calls, Final returns the
  digest of the standard and zeroes the context, and the one-shot functions agree.
\<close>

theorem sha256_sha1_streaming_is_fips180:
  assumes "length (buffer ctx) = 64" "length (buffer ctx') = 64"
  shows "sha256_Final (foldl sha256_Update (sha256_Init ctx) chunks) True
      = (zero_SHA256_CTX, Some (sha256_spec (concat chunks))) \<and>
    sha256_Raw (concat chunks) = sha256_spec (concat chunks) \<and>
    sha1_Final (foldl sha1_Update (sha1_Init ctx') chunks) True
      = (zero_SHA1_CTX, Some (sha1_spec (concat chunks))) \<and>
    sha1_Raw (concat chunks) = sha1_spec (concat chunks)"
  using sha256_digest [OF assms(1), of chunks] sha1_digest [OF assms(2), of chunks]
    sha256_digest [of zero_SHA256_CTX "[concat chunks]"] sha1_digest [of zero_SHA1_CTX "[concat chunks]"]
  by (simp add: sha256_Raw_def sha1_Raw_def zero_SHA256_CTX_def zero_SHA1_CTX_def)

theorem sha256_sha1_streaming_is_fips180_witness:
  "sha256_Raw [] = sha256_spec [] \<and> sha1_Raw [] = sha1_spec []"
proof -
  have "length (buffer zero_SHA256_CTX) = 64" "length (buffer zero_SHA1_CTX) = 64"
    by (simp_all add: zero_SHA256_CTX_def zero_SHA1_CTX_def)
  from sha256_sha1_streaming_is_fips180 [OF this, of "[]"] show ?thesis by simp
qed

end
