(* ===== verification/Sr25519.thy ===== *)
theory Sr25519
  imports Ristretto Merlin Sha2
begin

unbundle bit_operations_syntax

text \<open>
  Keys, derivation and signatures (\<open>sr25519.c\<close> up to \<open>from_le_bytes\<close>).  Every function runs in the
  option monad of the transcript operations, whose \<open>None\<close> is a failed assertion.  \<open>entropy\<close> is
  what \<open>sr25519_randombytes\<close> delivers.  Byte arrays are lists of their declared length, and a
  key pair is its 96 bytes: scalar, nonce, public key.
\<close>

section \<open>Scalars as bytes\<close>

definition divide_step :: "bytes \<times> u8 \<Rightarrow> nat \<Rightarrow> bytes \<times> u8" where
  "divide_step st i =
     (let (scalar, low) = st;
          r = scalar ! i AND 7;
          scalar = scalar[i := drop_bit 3 (scalar ! i)];
          scalar = scalar[i := scalar ! i + low]
      in (scalar, push_bit 5 r))"

definition divide_scalar_bytes_by_cofactor :: "bytes \<Rightarrow> nat \<Rightarrow> bytes" where
  "divide_scalar_bytes_by_cofactor scalar scalar_len =
     fst (foldl divide_step (scalar, 0) (rev [0..<scalar_len]))"

definition multiply_step :: "bytes \<times> u8 \<Rightarrow> nat \<Rightarrow> bytes \<times> u8" where
  "multiply_step st i =
     (let (scalar, high) = st;
          r = scalar ! i AND push_bit 5 7;
          scalar = scalar[i := push_bit 3 (scalar ! i)];
          scalar = scalar[i := scalar ! i + high]
      in (scalar, drop_bit 5 r))"

definition multiply_scalar_bytes_by_cofactor :: "bytes \<Rightarrow> nat \<Rightarrow> bytes" where
  "multiply_scalar_bytes_by_cofactor scalar scalar_len =
     fst (foldl multiply_step (scalar, 0) [0..<scalar_len])"

section \<open>Key expansion\<close>

text \<open>The expanded key and the nonce.\<close>

definition expand_ed25519 :: "bytes \<Rightarrow> bytes \<times> bytes" where
  "expand_ed25519 mini_secret_key =
     (let hash = sr25519_hash (take 32 mini_secret_key);
          key = take 32 hash;
          key = key[0 := key ! 0 AND 248];
          key = key[31 := key ! 31 AND 63];
          key = key[31 := key ! 31 OR 64];
          key = divide_scalar_bytes_by_cofactor key 32;
          key = key[31 := key ! 31 AND 0x7f]
      in (key, take 32 (drop 32 hash)))"

definition expand_uniform :: "bytes \<Rightarrow> (bytes \<times> bytes) option" where
  "expand_uniform mini_secret_key =
     do { t \<leftarrow> merlin_transcript_init (ascii ''ExpandSecretKeys'');
          t \<leftarrow> merlin_transcript_commit_bytes t (ascii ''mini'') (take 32 mini_secret_key);
          (t, scalar_bytes) \<leftarrow> merlin_transcript_challenge_bytes t (ascii ''sk'') 64;
          let key = contract256_modm (expand256_modm scalar_bytes 64);
          (t, nonce) \<leftarrow> merlin_transcript_challenge_bytes t (ascii ''no'') 32;
          Some (key, nonce) }"

section \<open>Derivation\<close>

text \<open>\<open>chain_code_in\<close> may be a null pointer.\<close>

definition commit_chain_code :: "merlin_transcript \<Rightarrow> bytes option \<Rightarrow> merlin_transcript option" where
  "commit_chain_code t chain_code_in =
     (case chain_code_in of
        None \<Rightarrow> Some t
      | Some cc \<Rightarrow> merlin_transcript_commit_bytes t (ascii ''chain-code'') (take 32 cc))"

definition hard_derive_mini_secret_key :: "bytes \<Rightarrow> bytes option \<Rightarrow> (bytes \<times> bytes) option" where
  "hard_derive_mini_secret_key key_in chain_code_in =
     do { t \<leftarrow> merlin_transcript_init (ascii ''SchnorrRistrettoHDKD'');
          t \<leftarrow> merlin_transcript_commit_bytes t (ascii ''sign-bytes'') [];
          t \<leftarrow> commit_chain_code t chain_code_in;
          t \<leftarrow> merlin_transcript_commit_bytes t (ascii ''secret-key'') (take 32 key_in);
          (t, key_out) \<leftarrow> merlin_transcript_challenge_bytes t (ascii ''HDKD-hard'') 32;
          (t, chain_code_out) \<leftarrow> merlin_transcript_challenge_bytes t (ascii ''HDKD-chaincode'') 32;
          Some (key_out, chain_code_out) }"

definition derive_scalar_and_chaincode ::
    "merlin_transcript \<Rightarrow> bytes \<Rightarrow> bytes option \<Rightarrow> (merlin_transcript \<times> bignum256modm \<times> bytes) option" where
  "derive_scalar_and_chaincode t public_key chain_code_in =
     do { t \<leftarrow> commit_chain_code t chain_code_in;
          t \<leftarrow> merlin_transcript_commit_bytes t (ascii ''public-key'') (take 32 public_key);
          (t, buf) \<leftarrow> merlin_transcript_challenge_bytes t (ascii ''HDKD-scalar'') 64;
          let scalar = expand256_modm buf 64;
          (t, chain_code_out) \<leftarrow> merlin_transcript_challenge_bytes t (ascii ''HDKD-chaincode'') 32;
          Some (t, scalar, chain_code_out) }"

definition hdkd_transcript :: "merlin_transcript option" where
  "hdkd_transcript =
     do { t \<leftarrow> merlin_transcript_init (ascii ''SchnorrRistrettoHDKD'');
          merlin_transcript_commit_bytes t (ascii ''sign-bytes'') [] }"

definition derived_secret_key_simple ::
    "bytes \<Rightarrow> bytes \<Rightarrow> bytes \<Rightarrow> bytes \<Rightarrow> bytes option \<Rightarrow> (bytes \<times> bytes \<times> bytes) option" where
  "derived_secret_key_simple entropy public_key key_in nonce_in chain_code_in =
     do { t \<leftarrow> hdkd_transcript;
          (t, scalar, chain_code_out) \<leftarrow> derive_scalar_and_chaincode t public_key chain_code_in;
          let original_scalar = expand_raw256_modm key_in;
          let final_scalar = add256_modm original_scalar scalar;
          let key_out = contract256_modm final_scalar;
          let witness_data = take 32 key_in @ take 32 nonce_in;
          let mrng = merlin_rng_init t;
          mrng \<leftarrow> merlin_rng_commit_witness_bytes mrng (ascii ''HDKD-nonce'') (take 32 nonce_in);
          mrng \<leftarrow> merlin_rng_commit_witness_bytes mrng (ascii ''HDKD-nonce'') witness_data;
          mrng \<leftarrow> merlin_rng_finalize mrng entropy;
          (mrng, nonce_out) \<leftarrow> merlin_rng_random_bytes mrng 32;
          Some (key_out, nonce_out, chain_code_out) }"

section \<open>Key pairs\<close>

definition private_key_to_public_key :: "bytes \<Rightarrow> bytes" where
  "private_key_to_public_key private_key =
     ristretto_encode
       (ge25519_scalarmult_base_niels ge25519_niels_base_multiples (expand_raw256_modm private_key))"

definition sr25519_keypair_from_seed :: "bytes \<Rightarrow> bytes" where
  "sr25519_keypair_from_seed mini_secret_key =
     (let (secret_key_key, secret_key_nonce) = expand_ed25519 mini_secret_key;
          public_key = private_key_to_public_key secret_key_key;
          secret_key_key = multiply_scalar_bytes_by_cofactor secret_key_key 32
      in secret_key_key @ secret_key_nonce @ public_key)"

definition sr25519_uniform_keypair_from_seed :: "bytes \<Rightarrow> bytes" where
  "sr25519_uniform_keypair_from_seed mini_secret_key =
     (let (secret_key_key, secret_key_nonce) = expand_ed25519 mini_secret_key;
          public_key = private_key_to_public_key secret_key_key
      in secret_key_key @ secret_key_nonce @ public_key)"

definition sr25519_keypair_ed25519_to_uniform :: "bytes \<Rightarrow> bytes" where
  "sr25519_keypair_ed25519_to_uniform ed25519_keypair =
     (let secret_key_key = divide_scalar_bytes_by_cofactor (take 32 ed25519_keypair) 32
      in secret_key_key @ take 64 (drop 32 ed25519_keypair))"

definition sr25519_derive_keypair_hard :: "bytes \<Rightarrow> bytes option \<Rightarrow> bytes option" where
  "sr25519_derive_keypair_hard keypair_in chain_code_in =
     do { let key_in = divide_scalar_bytes_by_cofactor (take 32 keypair_in) 32;
          (key_out, chain_code_out) \<leftarrow> hard_derive_mini_secret_key key_in chain_code_in;
          Some (sr25519_keypair_from_seed key_out) }"

definition sr25519_derive_keypair_soft :: "bytes \<Rightarrow> bytes \<Rightarrow> bytes option \<Rightarrow> bytes option" where
  "sr25519_derive_keypair_soft entropy keypair_in chain_code_in =
     do { let key_in = divide_scalar_bytes_by_cofactor (take 32 keypair_in) 32;
          let nonce_in = take 32 (drop 32 keypair_in);
          let public_key = take 32 (drop 64 keypair_in);
          (key_out, nonce_out, chain_code_out) \<leftarrow>
            derived_secret_key_simple entropy public_key key_in nonce_in chain_code_in;
          let public_out = private_key_to_public_key key_out;
          let key_out = multiply_scalar_bytes_by_cofactor key_out 32;
          Some (key_out @ nonce_out @ public_out) }"

text \<open>
  The result of \<open>ristretto_decode\<close> is ignored: when decoding fails the point keeps its
  initialiser, all zero.
\<close>

definition ge25519_zero :: ge25519 where
  "ge25519_zero = \<lparr>ge_x = zero, ge_y = zero, ge_z = zero, ge_t = zero\<rparr>"

definition decode_unchecked :: "bytes \<Rightarrow> ge25519" where
  "decode_unchecked bs = (case ristretto_decode bs of None \<Rightarrow> ge25519_zero | Some P \<Rightarrow> P)"

definition sr25519_derive_public_soft :: "bytes \<Rightarrow> bytes option \<Rightarrow> bytes option" where
  "sr25519_derive_public_soft public_in chain_code_in =
     do { t \<leftarrow> hdkd_transcript;
          (t, scalar, chain_code_out) \<leftarrow> derive_scalar_and_chaincode t public_in chain_code_in;
          let P1 = ge25519_scalarmult_base_niels ge25519_niels_base_multiples scalar;
          let P2 = decode_unchecked public_in;
          Some (ristretto_encode (ge25519_add P1 P2)) }"

section \<open>Signatures\<close>

definition signing_transcript :: "bytes \<Rightarrow> merlin_transcript option" where
  "signing_transcript message =
     do { t \<leftarrow> merlin_transcript_init (ascii ''SigningContext'');
          t \<leftarrow> merlin_transcript_commit_bytes t [] (ascii ''substrate'');
          merlin_transcript_commit_bytes t (ascii ''sign-bytes'') message }"

definition schnorr_transcript :: "bytes \<Rightarrow> bytes \<Rightarrow> merlin_transcript option" where
  "schnorr_transcript message public_key =
     do { t \<leftarrow> signing_transcript message;
          t \<leftarrow> merlin_transcript_commit_bytes t (ascii ''proto-name'') (ascii ''Schnorr-sig'');
          merlin_transcript_commit_bytes t (ascii ''sign:pk'') (take 32 public_key) }"

text \<open>
  The witness scalar is expanded from a 64-byte array of which the generator fills only the
  first 32 bytes.
\<close>

definition sr25519_sign :: "bytes \<Rightarrow> bytes \<Rightarrow> bytes \<Rightarrow> bytes \<Rightarrow> bytes option" where
  "sr25519_sign entropy public_key secret message =
     do { let secret_key = take 32 secret;
          let secret_nonce = take 32 (drop 32 secret);
          let secret_key = divide_scalar_bytes_by_cofactor secret_key 32;
          t \<leftarrow> schnorr_transcript message public_key;
          let mrng = merlin_rng_init t;
          mrng \<leftarrow> merlin_rng_commit_witness_bytes mrng (ascii ''signing'') secret_nonce;
          mrng \<leftarrow> merlin_rng_finalize mrng entropy;
          (mrng, rnd) \<leftarrow> merlin_rng_random_bytes mrng 32;
          let scalar_bytes = rnd @ replicate 32 0;
          let r = expand256_modm scalar_bytes 64;
          let R = ge25519_scalarmult_base_niels ge25519_niels_base_multiples r;
          let R_compressed = ristretto_encode R;
          t \<leftarrow> merlin_transcript_commit_bytes t (ascii ''sign:R'') R_compressed;
          (t, buf) \<leftarrow> merlin_transcript_challenge_bytes t (ascii ''sign:c'') 64;
          let k = expand256_modm buf 64;
          let secret_key_scalar = expand_raw256_modm secret_key;
          let k_secret_key_scalar = mul256_modm k secret_key_scalar;
          let s = add256_modm k_secret_key_scalar r;
          let s_bytes = contract256_modm s;
          let signature_out = R_compressed @ s_bytes;
          Some (signature_out[63 := signature_out ! 63 OR 128]) }"

definition sr25519_verify :: "ge25519_p1p1 \<Rightarrow> bytes \<Rightarrow> bytes \<Rightarrow> bytes \<Rightarrow> bool option" where
  "sr25519_verify t_uninit signature message public_key =
     (let signature_s = take 32 (drop 32 signature)
      in if signature_s ! 31 AND 128 = 0 then Some False
         else
           let signature_s = signature_s[31 := signature_s ! 31 AND 127];
               signature_s = (if signature_s ! 31 AND 240 = 0
                              then signature_s[31 := signature_s ! 31 AND 0x7f] else signature_s)
           in if drop_bit 7 (signature_s ! 31) \<noteq> 0 then Some False
              else
                do { let signature_s = signature_s[31 := signature_s ! 31 AND 0x7f];
                     let signature_R = take 32 signature;
                     t \<leftarrow> schnorr_transcript message public_key;
                     t \<leftarrow> merlin_transcript_commit_bytes t (ascii ''sign:R'') signature_R;
                     (t, buf) \<leftarrow> merlin_transcript_challenge_bytes t (ascii ''sign:c'') 64;
                     let k = expand256_modm buf 64;
                     let s = expand_raw256_modm signature_s;
                     if \<not> is_reduced256_modm s then Some False
                     else
                       let A = decode_unchecked public_key;
                           A = A\<lparr>ge_x := curve25519_neg (ge_x A)\<rparr>;
                           A = A\<lparr>ge_t := curve25519_neg (ge_t A)\<rparr>;
                           R = ge25519_double_scalarmult_vartime ge25519_niels_sliding_multiples t_uninit A k s;
                           R_compressed = ristretto_encode R;
                           valid = uint8_32_ct_eq R_compressed signature_R
                       in Some (valid \<noteq> 0) })"

end
