(* ===== verification/Cofactor.thy ===== *)
theory Cofactor
  imports Sr25519
begin

unbundle bit_operations_syntax

text \<open>
  The two in-place loops on little-endian scalar bytes: dividing by the cofactor 8 from the
  most significant byte down and multiplying from the least significant byte up.  Each is
  the integer operation on the value the bytes stand for.
\<close>

lemma le_val_drop: "i < length s \<Longrightarrow> le_val (drop i s) = uint (s ! i) + 256 * le_val (drop (Suc i) s)"
  by (simp add: Cons_nth_drop_Suc [symmetric])

lemma uint_and_7: "uint (b AND 7 :: u8) = uint b mod 8"
  using uint_and_mask [of b 3] by (simp add: mask_eq_exp_minus_1)

lemma uint_shift_down_3: "uint (drop_bit 3 b :: u8) = uint b div 8"
  by (simp add: uint_drop_bit)

lemma uint_low_bits_up: "uint (push_bit 5 (b AND 7) :: u8) = 32 * (uint b mod 8)"
  using uint_and_7 [of b] by (simp add: push_bit_eq_mult uint_word_ariths)

lemma uint_divide_byte:
  fixes b low :: u8
  assumes "uint low = 32 * m" "0 \<le> m" "m < 8"
  shows "uint (drop_bit 3 b + low) = uint b div 8 + 32 * m"
proof -
  have "uint b div 8 < 32" using uint8_lt [of b] by simp
  moreover have "0 \<le> uint b div 8" by (simp add: pos_imp_zdiv_nonneg_iff)
  ultimately have "(uint b div 8 + 32 * m) mod 256 = uint b div 8 + 32 * m"
    using assms by (intro mod_pos_pos_trivial) linarith+
  with assms show ?thesis by (simp add: uint_word_ariths uint_shift_down_3)
qed

lemma divide_byte_value:
  fixes b l :: int
  shows "(b + 256 * l) div 8 = b div 8 + 32 * (l mod 8) + 256 * (l div 8)" "(b + 256 * l) mod 8 = b mod 8"
proof -
  have *: "256 * l = 8 * (32 * l)" by simp
  have "(b + 256 * l) div 8 = b div 8 + 32 * l" unfolding * by simp
  moreover have "l = l mod 8 + 8 * (l div 8)" by simp
  ultimately show "(b + 256 * l) div 8 = b div 8 + 32 * (l mod 8) + 256 * (l div 8)" by linarith
  show "(b + 256 * l) mod 8 = b mod 8" unfolding * by (rule mod_mult_self2)
qed

lemma divide_loop:
  assumes "i \<le> length s"
  defines "st \<equiv> foldl divide_step (s, 0) (rev [i..<length s])"
  shows "length (fst st) = length s \<and> take i (fst st) = take i s \<and>
    le_val (drop i (fst st)) = le_val (drop i s) div 8 \<and> uint (snd st) = 32 * (le_val (drop i s) mod 8)"
  unfolding st_def using assms(1)
proof (induction rule: inc_induct)
  case base
  show ?case by simp
next
  case (step i)
  define st where "st = foldl divide_step (s, 0) (rev [Suc i..<length s])"
  obtain s' low where st: "st = (s', low)" by (cases st)
  note IH = step.IH [folded st_def, unfolded st, simplified]
  have i: "i < length s" "i < length s'" using step.hyps IH by simp_all
  have nth: "s' ! i = s ! i"
    using IH i by (metis lessI nth_take)
  have st': "foldl divide_step (s, 0) (rev [i..<length s]) =
      (s'[i := drop_bit 3 (s ! i) + low], push_bit 5 (s ! i AND 7))"
    using i(1) by (simp add: upt_conv_Cons st_def [symmetric] st divide_step_def nth i(2))
  have "le_val (drop i (s'[i := drop_bit 3 (s ! i) + low])) = le_val (drop i s) div 8"
    using i IH uint_divide_byte [of low "le_val (drop (Suc i) s) mod 8" "s ! i"]
    by (simp add: le_val_drop divide_byte_value)
  moreover have "take i (s'[i := drop_bit 3 (s ! i) + low]) = take i s"
    using IH by (metis Suc_n_not_le_n linorder_le_cases min.absorb1 take_take take_update_cancel)
  ultimately show ?case
    unfolding st' using i IH uint_low_bits_up [of "s ! i"] by (simp add: le_val_drop divide_byte_value)
qed

lemma divide_scalar_bytes_correct:
  "length (divide_scalar_bytes_by_cofactor s (length s)) = length s"
  "le_val (divide_scalar_bytes_by_cofactor s (length s)) = le_val s div 8"
  using divide_loop [of 0 s] by (simp_all add: divide_scalar_bytes_by_cofactor_def)

lemma uint_high_bits_down: "uint (drop_bit 5 (b AND push_bit 5 7) :: u8) = uint b div 32"
proof -
  have "drop_bit 5 (b AND push_bit 5 7) = drop_bit 5 b AND 7"
    by (rule bit_word_eqI) (auto simp: bit_drop_bit_eq bit_and_iff bit_push_bit_iff)
  moreover have "uint b div 32 mod 8 = uint b div 32"
    using uint8_lt [of b] by (intro mod_pos_pos_trivial) (auto simp: pos_imp_zdiv_nonneg_iff)
  ultimately show ?thesis
    using uint_and_7 [of "drop_bit 5 b"] by (simp add: uint_drop_bit)
qed

lemma uint_multiply_byte:
  fixes b high :: u8
  assumes "uint high < 8"
  shows "uint (push_bit 3 b + high) = (8 * uint b) mod 256 + uint high"
proof -
  have *: "uint (push_bit 3 b) = 8 * (uint b mod 32)"
    by (simp add: push_bit_eq_mult uint_word_ariths mult_mod_right mult.commute)
  have "uint b mod 32 \<le> 31" "0 \<le> uint b mod 32" by simp_all
  then have "(8 * (uint b mod 32) + uint high) mod 256 = 8 * (uint b mod 32) + uint high"
    using assms by (intro mod_pos_pos_trivial) (auto simp: add_nonneg_nonneg)
  with * show ?thesis
    by (simp add: uint_word_ariths mult_mod_right)
qed

lemma multiply_loop:
  assumes "i \<le> length s"
  defines "st \<equiv> foldl multiply_step (s, 0) [0..<i]"
  shows "length (fst st) = length s \<and> drop i (fst st) = drop i s \<and> uint (snd st) < 8 \<and>
    le_val (take i (fst st)) + 256 ^ i * uint (snd st) = 8 * le_val (take i s)"
  unfolding st_def using assms(1)
proof (induction i)
  case 0
  show ?case by simp
next
  case (Suc i)
  define st where "st = foldl multiply_step (s, 0) [0..<i]"
  obtain s' high where st: "st = (s', high)" by (cases st)
  note IH = Suc.IH [folded st_def, unfolded st, simplified]
  have i: "i < length s" "i < length s'" using Suc.prems IH by simp_all
  have IH: "length s' = length s" "drop i s' = drop i s" "uint high < 8"
    "le_val (take i s') + 256 ^ i * uint high = 8 * le_val (take i s)"
    using IH Suc.prems by simp_all
  have nth: "s' ! i = s ! i"
    using IH(2) i by (metis hd_drop_conv_nth)
  have st': "foldl multiply_step (s, 0) [0..<Suc i] =
      (s'[i := push_bit 3 (s ! i) + high], drop_bit 5 (s ! i AND push_bit 5 7))"
    by (simp add: st_def [symmetric] st multiply_step_def nth i(2))
  have "drop (Suc i) s' = drop (Suc i) s"
    using IH(2) by (metis drop_Suc tl_drop)
  moreover have "le_val (take (Suc i) (s'[i := push_bit 3 (s ! i) + high])) +
      256 ^ Suc i * (uint (s ! i) div 32) = 8 * le_val (take (Suc i) s)"
  proof -
    have "8 * uint (s ! i) mod 256 = 8 * (uint (s ! i) mod 32)"
      by (simp add: mult_mod_right)
    then have "8 * uint (s ! i) mod 256 + 256 * (uint (s ! i) div 32) = 8 * uint (s ! i)"
      using mult_div_mod_eq [of 32 "uint (s ! i)"] by linarith
    then have "256 ^ i * (8 * uint (s ! i) mod 256 + 256 * (uint (s ! i) div 32)) = 256 ^ i * (8 * uint (s ! i))"
      by simp
    with i IH show ?thesis
      by (simp add: take_Suc_conv_app_nth le_val_append uint_multiply_byte distrib_left mult.assoc)
  qed
  ultimately show ?case
    unfolding st' fst_conv snd_conv uint_high_bits_down using i IH(1) uint8_lt [of "s ! i"] by simp
qed

lemma multiply_scalar_bytes_correct:
  "length (multiply_scalar_bytes_by_cofactor s (length s)) = length s"
  "le_val (multiply_scalar_bytes_by_cofactor s (length s)) = (8 * le_val s) mod 256 ^ length s"
proof -
  note m = multiply_loop [of "length s" s]
  show *: "length (multiply_scalar_bytes_by_cofactor s (length s)) = length s"
    using m by (simp add: multiply_scalar_bytes_by_cofactor_def)
  let ?m = "multiply_scalar_bytes_by_cofactor s (length s)"
  have "take (length s) ?m = ?m" using * by simp
  with m have "le_val ?m + 256 ^ length s * uint (snd (foldl multiply_step (s, 0) [0..<length s])) = 8 * le_val s"
    unfolding multiply_scalar_bytes_by_cofactor_def by (metis order_refl take_all_iff)
  then have "(8 * le_val s) mod 256 ^ length s = le_val ?m mod 256 ^ length s"
    by (metis mod_mult_self2)
  also have "\<dots> = le_val ?m"
    using le_val_bound [of ?m] le_val_nonneg [of ?m] by (simp add: *)
  finally show "le_val ?m = (8 * le_val s) mod 256 ^ length s" ..
qed

end
