(* ===== verification/Signatures.thy ===== *)
theory Signatures
  imports Ristretto_Correct Merlin_Correct Sha2_Properties Modm_Bytes Cofactor
begin

unbundle bit_operations_syntax

section \<open>The marker bit\<close>

lemma le_val_top:
  assumes "length s = 32"
  shows "le_val s = le_val (take 31 s) + 2 ^ 248 * uint (s ! 31)" and "le_val (take 31 s) < 2 ^ 248"
proof -
  have "s = take 31 s @ [s ! 31]"
    using assms take_Suc_conv_app_nth [of 31 s] by simp
  from arg_cong [OF this, of le_val] show "le_val s = le_val (take 31 s) + 2 ^ 248 * uint (s ! 31)"
    using assms by (simp add: le_val_append)
  show "le_val (take 31 s) < 2 ^ 248"
    using le_val_bound [of "take 31 s"] assms by simp
qed

lemma le_val_set_top:
  assumes "length s = 32"
  shows "le_val (s[31 := b]) = le_val (take 31 s) + 2 ^ 248 * uint b"
  using le_val_top [of "s[31 := b]"] assms by simp

lemma uint_and_127: "uint (b AND 127 :: u8) = uint b mod 128"
  using uint_and_mask [of b 7] by (simp add: mask_eq_exp_minus_1)

lemma and_128_eq_0: "b AND 128 = 0 \<longleftrightarrow> uint (b :: u8) < 128"
proof -
  have "b AND 128 = 0 \<longleftrightarrow> \<not> bit b 7"
  proof -
    have *: "bit (128 :: int) n \<longleftrightarrow> n = 7" for n
      using bit_push_bit_iff [of 7 "1 :: int" n] by (auto simp: bit_1_iff)
    have "b AND 128 = (if bit b 7 then 128 else 0)"
      by (rule bit_word_eqI) (auto simp: bit_and_iff *)
    then show ?thesis by simp
  qed
  also have "\<dots> \<longleftrightarrow> even (uint b div 128)"
    using bit_uint_iff [of b 7] by (simp add: bit_iff_odd)
  also have "\<dots> \<longleftrightarrow> uint b < 128"
  proof -
    have "uint b div 128 = (if uint b < 128 then 0 else 1)"
      using uint8_lt [of b] by (auto simp: div_pos_pos_trivial intro!: int_div_pos_eq [where r = "uint b - 128"])
    then show ?thesis by simp
  qed
  finally show ?thesis .
qed

lemma uint_or_128: "uint (b :: u8) < 128 \<Longrightarrow> uint (b OR 128) = uint b + 128"
  using word_plus_and_or [of b 128] by (simp add: and_128_eq_0 [symmetric] uint_word_ariths)

text \<open>The marker is the top bit of the second half of a signature.\<close>

lemma marked_iff: "length s = 32 \<Longrightarrow> s ! 31 AND 128 \<noteq> 0 \<longleftrightarrow> 2 ^ 255 \<le> le_val s"
  using le_val_top [of s] le_val_nonneg [of "take 31 s"] by (auto simp: and_128_eq_0)

lemma le_val_clear_marker:
  assumes "length s = 32"
  shows "le_val (s[31 := s ! 31 AND 127]) = le_val s mod 2 ^ 255"
proof -
  define h l where "h = uint (s ! 31) div 128" and "l = uint (s ! 31) mod 128"
  have "uint (s ! 31) = 128 * h + l" "0 \<le> l" "l < 128" by (simp_all add: h_def l_def)
  then have "le_val s = (le_val (take 31 s) + 2 ^ 248 * l) + 2 ^ 255 * h"
    using le_val_top [OF assms] by simp
  then have "le_val s mod 2 ^ 255 = (le_val (take 31 s) + 2 ^ 248 * l) mod 2 ^ 255" by simp
  also have "\<dots> = le_val (take 31 s) + 2 ^ 248 * l"
    using le_val_top(2) [OF assms] le_val_nonneg [of "take 31 s"] \<open>0 \<le> l\<close> \<open>l < 128\<close>
    by (intro mod_pos_pos_trivial) auto
  finally show ?thesis
    by (simp add: le_val_set_top [OF assms] uint_and_127 l_def)
qed

lemma le_val_set_marker:
  assumes "length s = 32" "le_val s < 2 ^ 255"
  shows "le_val (s[31 := s ! 31 OR 128]) = le_val s + 2 ^ 255"
proof -
  have "uint (s ! 31) < 128"
    using marked_iff [OF assms(1)] assms(2) by (simp add: and_128_eq_0)
  then show ?thesis
    using le_val_top [OF assms(1)] by (simp add: le_val_set_top [OF assms(1)] uint_or_128)
qed

section \<open>Transcripts\<close>

text \<open>The Fiat-Shamir challenge that signer and verifier derive from message, key and commitment.\<close>

definition schnorr_challenge :: "bytes \<Rightarrow> bytes \<Rightarrow> bytes \<Rightarrow> bytes option" where
  "schnorr_challenge message public_key R =
     do { t \<leftarrow> schnorr_transcript message public_key;
          t \<leftarrow> merlin_transcript_commit_bytes t (ascii ''sign:R'') R;
          (t, buf) \<leftarrow> merlin_transcript_challenge_bytes t (ascii ''sign:c'') 64;
          Some buf }"

lemma signing_transcript_ok [ok_intros]: "returns strobe_wf (signing_transcript message)"
  unfolding signing_transcript_def
  by (intro returns_bind [OF merlin.new_ok] returns_bind [OF merlin.commit_ok] merlin.commit_ok)

lemma schnorr_transcript_ok [ok_intros]: "returns strobe_wf (schnorr_transcript message public_key)"
  unfolding schnorr_transcript_def
  by (intro returns_bind [OF signing_transcript_ok] returns_bind [OF merlin.commit_ok] merlin.commit_ok)

lemma schnorr_challenge_ok: "returns (\<lambda>buf. length buf = 64) (schnorr_challenge message public_key R)"
  unfolding schnorr_challenge_def
  by (intro returns_bind [OF schnorr_transcript_ok] returns_bind [OF merlin.commit_ok]
      returns_bind [OF merlin.challenge_ok]) auto

text \<open>One draw from the witness generator: commit, finalise, squeeze.\<close>

lemma witness_draw:
  assumes "strobe_wf t"
  obtains r1 r2 r3 bs where "merlin_rng_commit_witness_bytes (merlin_rng_init t) label witness = Some r1"
    "merlin_rng_finalize r1 entropy = Some r2" "merlin_rng_random_bytes r2 n = Some (r3, bs)" "length bs = n"
proof -
  have i: "rng_wf (merlin_rng_init t)" "\<not> finalized (merlin_rng_init t)"
    using merlin_rng_init_ok [OF assms] by simp_all
  obtain r1 where r1: "merlin_rng_commit_witness_bytes (merlin_rng_init t) label witness = Some r1"
      "rng_wf r1" "\<not> finalized r1"
    using merlin_rng_commit_ok [OF i] by (auto simp: returns_def)
  obtain r2 where r2: "merlin_rng_finalize r1 entropy = Some r2" "rng_wf r2" "finalized r2"
    using merlin_rng_finalize_ok [OF r1(2,3)] by (auto simp: returns_def)
  obtain r3 bs where "merlin_rng_random_bytes r2 n = Some (r3, bs)" "length bs = n"
    using merlin_rng_random_ok [OF r2(2,3), of n] by (auto simp: returns_def)
  with r1 r2 that show ?thesis by blast
qed

lemma challenge_draw:
  assumes "strobe_wf t"
  obtains t' bs where "merlin_transcript_challenge_bytes t label n = Some (t', bs)" "strobe_wf t'" "length bs = n"
  using merlin.challenge_ok [OF assms, of n label] by (auto simp: returns_def)

section \<open>Signing\<close>

lemma length_ristretto_encode [simp]: "length (ristretto_encode P) = 32"
  by (simp add: ristretto_encode_def Let_def case_prod_beta)

lemma reduced_limbs32: "reduced x \<Longrightarrow> sc_limbs (2 ^ 32) x"
  using reduced_limbs [of x] by (cases x) auto

lemma sign_scalar:
  assumes "length sk = 32" "reduced r" "reduced k"
  defines "s \<equiv> add256_modm (mul256_modm k (expand_raw256_modm sk)) r"
  shows "length (contract256_modm s) = 32" and "le_val (contract256_modm s) = (sval k * le_val sk + sval r) mod ell"
proof -
  note e = expand_raw256_modm_correct [OF assms(1)]
  note m = mul256_modm_correct [OF reduced_limbs32 [OF assms(3)] e(2)]
  have "sval (mul256_modm k (expand_raw256_modm sk)) + sval r < 2 * ell"
    using m(1) assms(2) by (simp add: reduced_def)
  note a = add256_modm_correct [OF _ _ this, folded s_def]
  have s: "reduced s" "sval s = (sval k * le_val sk + sval r) mod ell"
    using a m assms(2) e by (simp_all add: reduced_def mod_add_left_eq)
  show "length (contract256_modm s) = 32" by simp
  have "ell < 256 ^ 32" by (simp add: ell_def)
  then have "sval s mod 256 ^ 32 = sval s"
    using s(1) sval_nonneg [of s] by (simp add: reduced_def)
  then show "le_val (contract256_modm s) = (sval k * le_val sk + sval r) mod ell"
    using contract256_modm_correct [OF reduced_limbs32 [OF s(1)]] s(2) by (simp add: le_val_le_bytes)
qed

text \<open>What a signature is: the encoded commitment to the nonce, and the marked response.\<close>

lemma sr25519_sign_correct:
  assumes "length secret = 64"
  shows "returns (\<lambda>sig. length sig = 64 \<and>
    (\<exists>nonce buf. length nonce = 32 \<and>
      take 32 sig = ristretto_encode (ge25519_scalarmult_base_niels ge25519_niels_base_multiples
        (expand256_modm (nonce @ replicate 32 0) 64)) \<and>
      schnorr_challenge message public_key (take 32 sig) = Some buf \<and> length buf = 64 \<and>
      le_val (drop 32 sig) = 2 ^ 255 +
        (le_val buf * (le_val (take 32 secret) div 8) + le_val nonce) mod ell))
    (sr25519_sign entropy public_key secret message)"
proof -
  obtain t where t: "schnorr_transcript message public_key = Some t" "strobe_wf t"
    by (rule returnsE [OF schnorr_transcript_ok])
  obtain r1 r2 r3 nonce where rng:
    "merlin_rng_commit_witness_bytes (merlin_rng_init t) (ascii ''signing'') (take 32 (drop 32 secret)) = Some r1"
    "merlin_rng_finalize r1 entropy = Some r2" "merlin_rng_random_bytes r2 32 = Some (r3, nonce)" "length nonce = 32"
    by (rule witness_draw [OF t(2)])
  define r where "r = expand256_modm (nonce @ replicate 32 0) 64"
  define R where "R = ristretto_encode (ge25519_scalarmult_base_niels ge25519_niels_base_multiples r)"
  obtain t' where t': "merlin_transcript_commit_bytes t (ascii ''sign:R'') R = Some t'" "strobe_wf t'"
    by (rule returnsE [OF merlin.commit_ok [OF t(2)]])
  obtain t'' buf where c: "merlin_transcript_challenge_bytes t' (ascii ''sign:c'') 64 = Some (t'', buf)" "length buf = 64"
    by (rule challenge_draw [OF t'(2)])
  define k where "k = expand256_modm buf 64"
  define sk where "sk = divide_scalar_bytes_by_cofactor (take 32 secret) 32"
  have sk: "length sk = 32" "le_val sk = le_val (take 32 secret) div 8"
    using divide_scalar_bytes_correct [of "take 32 secret"] assms by (simp_all add: sk_def)
  define sb where "sb = contract256_modm (add256_modm (mul256_modm k (expand_raw256_modm sk)) r)"
  have red: "reduced r" "sval r = le_val nonce mod ell" "reduced k" "sval k = le_val buf mod ell"
    using expand256_modm_correct [of 64 "nonce @ replicate 32 0"] expand256_modm_correct [of 64 buf] rng(4) c(2)
    by (simp_all add: r_def k_def le_val_append)
  note sb = sign_scalar [OF sk(1) red(1,3), folded sb_def]
  have sb_val: "le_val sb = (le_val buf * (le_val (take 32 secret) div 8) + le_val nonce) mod ell"
    unfolding sb(2) red(2,4) sk(2) by (rule mod_add_cong) (simp_all add: mod_mult_left_eq)
  define sig where "sig = R @ sb[31 := sb ! 31 OR 128]"
  have R: "length R = 32" by (simp add: R_def)
  have "sr25519_sign entropy public_key secret message = Some sig"
    unfolding sr25519_sign_def
    using t rng t' c R sb(1)
    by (simp add: r_def [symmetric] R_def [symmetric] sk_def [symmetric] k_def [symmetric] sb_def [symmetric]
        sig_def list_update_append nth_append)
  moreover have "schnorr_challenge message public_key R = Some buf"
    using t t' c by (simp add: schnorr_challenge_def)
  moreover have "le_val sb < ell" unfolding sb_val by (rule pos_mod_bound [OF ell_pos])
  then have "le_val sb < 2 ^ 255" by (simp add: ell_def)
  then have "le_val (drop 32 sig) = 2 ^ 255 + le_val sb"
    using le_val_set_marker [OF sb(1)] R by (simp add: sig_def)
  ultimately show ?thesis
    unfolding returns_def
    by (intro exI [of _ sig] conjI exI [of _ nonce] exI [of _ buf])
      (use rng(4) c(2) R sb(1) sb_val in \<open>simp_all add: sig_def r_def [symmetric] R_def [symmetric]\<close>)
qed

section \<open>Verification\<close>

text \<open>
  The verifier's own computation of the point it encodes, under a name: decoding without a check, negation, double scalar
  multiplication.  That it is \<open>s B - k A\<close> when the key encodes \<open>A\<close> is shown in \<open>Schnorr_Group\<close>.
\<close>

definition ge25519_negated :: "ge25519 \<Rightarrow> ge25519" where
  "ge25519_negated A = A\<lparr>ge_x := curve25519_neg (ge_x A), ge_t := curve25519_neg (ge_t A)\<rparr>"

definition verification_point :: "ge25519_p1p1 \<Rightarrow> bytes \<Rightarrow> bignum256modm \<Rightarrow> bignum256modm \<Rightarrow> ge25519" where
  "verification_point t_uninit public_key k s =
     ge25519_double_scalarmult_vartime ge25519_niels_sliding_multiples t_uninit
       (ge25519_negated (decode_unchecked public_key)) k s"

lemma response_bytes:
  fixes s :: bytes
  assumes "length s = 32"
  defines "s1 \<equiv> s[31 := s ! 31 AND 127]"
  defines "s2 \<equiv> (if s1 ! 31 AND 240 = 0 then s1[31 := s1 ! 31 AND 0x7f] else s1)"
  shows "drop_bit 7 (s2 ! 31) = 0" and "s2[31 := s2 ! 31 AND 0x7f] = s1"
proof -
  have "s2 = s1" using assms(1) by (simp add: s2_def s1_def and.assoc)
  moreover have "drop_bit 7 (b AND 127) = 0" for b :: u8
    by (rule bit_word_eqI) (simp add: bit_simps)
  ultimately show "drop_bit 7 (s2 ! 31) = 0" and "s2[31 := s2 ! 31 AND 0x7f] = s1"
    using assms(1) by (simp_all add: s1_def and.assoc)
qed

lemma sr25519_verify_correct:
  assumes "length sig = 64"
  obtains buf where "schnorr_challenge message public_key (take 32 sig) = Some buf" "length buf = 64"
    "sr25519_verify t_uninit sig message public_key =
      Some (2 ^ 255 \<le> le_val (drop 32 sig) \<and> le_val (drop 32 sig) - 2 ^ 255 < ell \<and>
        ristretto_encode (verification_point t_uninit public_key (expand256_modm buf 64)
          (expand_raw256_modm ((drop 32 sig)[31 := drop 32 sig ! 31 AND 127]))) = take 32 sig)"
proof -
  define s where "s = drop 32 sig"
  have s: "length s = 32" "take 32 s = s" using assms by (simp_all add: s_def)
  define s1 where "s1 = s[31 := s ! 31 AND 127]"
  note rb = response_bytes [OF s(1), folded s1_def]
  have "le_val s < 2 ^ 256" using le_val_bound [of s] s(1) by simp
  then have "(le_val s - 2 ^ 255) mod 2 ^ 255 = le_val s - 2 ^ 255" if "2 ^ 255 \<le> le_val s"
    using that by (intro mod_pos_pos_trivial) auto
  then have s1: "length s1 = 32" "2 ^ 255 \<le> le_val s \<Longrightarrow> le_val s1 = le_val s - 2 ^ 255"
    using s(1) by (simp_all add: s1_def le_val_clear_marker)
  obtain t where t: "schnorr_transcript message public_key = Some t" "strobe_wf t"
    by (rule returnsE [OF schnorr_transcript_ok])
  obtain t' where t': "merlin_transcript_commit_bytes t (ascii ''sign:R'') (take 32 sig) = Some t'" "strobe_wf t'"
    by (rule returnsE [OF merlin.commit_ok [OF t(2)]])
  obtain t'' buf where c: "merlin_transcript_challenge_bytes t' (ascii ''sign:c'') 64 = Some (t'', buf)" "length buf = 64"
    by (rule challenge_draw [OF t'(2)])
  have red: "is_reduced256_modm (expand_raw256_modm s1) \<longleftrightarrow> le_val s1 < ell"
    using expand_raw256_modm_correct [OF s1(1)] is_reduced256_modm_correct [of "expand_raw256_modm s1"]
    by (cases "expand_raw256_modm s1") auto
  have "sr25519_verify t_uninit sig message public_key =
      Some (2 ^ 255 \<le> le_val s \<and> le_val s - 2 ^ 255 < ell \<and>
        ristretto_encode (verification_point t_uninit public_key (expand256_modm buf 64) (expand_raw256_modm s1)) = take 32 sig)"
  proof (cases "2 ^ 255 \<le> le_val s")
    case True
    show ?thesis
      unfolding sr25519_verify_def
      using True t t' c rb red s1 assms marked_iff [OF s(1)]
      by (simp add: s_def [symmetric] s(2) s1_def [symmetric] Let_def verification_point_def
          ge25519_negated_def uint8_32_ct_eq_exact)
  next
    case False
    then show ?thesis
      using marked_iff [OF s(1)] by (simp add: sr25519_verify_def s_def [symmetric] s(2))
  qed
  moreover have "schnorr_challenge message public_key (take 32 sig) = Some buf"
    using t t' c by (simp add: schnorr_challenge_def)
  ultimately show ?thesis
    using c(2) that by (simp add: s_def s1_def)
qed

end
