(* ===== verification/Keys.thy ===== *)
theory Keys
  imports Signatures
begin

unbundle bit_operations_syntax

section \<open>Key expansion\<close>

lemma clamp_top: "64 \<le> uint (b AND 63 OR 64 :: u8) \<and> uint (b AND 63 OR 64) < 128"
proof -
  have *: "uint (b AND 63) < 64"
    using uint_and_mask [of b 6] by (simp add: mask_eq_exp_minus_1)
  have "(b AND 63) AND 64 = 0" by (simp add: and.assoc)
  then have "(b AND 63) OR 64 = (b AND 63) + 64"
    using word_plus_and_or [of "b AND 63" 64] by simp
  with * show ?thesis by (simp add: uint_word_ariths)
qed

lemma le_val_clamped:
  assumes "length c = 32" "c ! 31 = b AND 63 OR 64"
  shows "2 ^ 254 \<le> le_val c" and "le_val c < 2 ^ 255"
  using le_val_top [OF assms(1)] le_val_nonneg [of "take 31 c"] clamp_top [of b] assms(2) by simp_all

lemma and_127_id: "uint (b :: u8) < 128 \<Longrightarrow> b AND 127 = b"
  using uint_and_127 [of b] by (simp add: word_uint_eq_iff)

lemma expand_ed25519_correct:
  assumes "expand_ed25519 seed = (key, nonce)"
  shows "length key = 32" and "length nonce = 32" and "2 ^ 251 \<le> le_val key" and "le_val key < 2 ^ 252"
proof -
  define h where "h = sr25519_hash (take 32 seed)"
  have h: "length h = 64" by (simp add: h_def sr25519_hash_sha512)
  define c where "c = (take 32 h)[0 := h ! 0 AND 248, 31 := h ! 31 AND 63 OR 64]"
  have c: "length c = 32" "2 ^ 254 \<le> le_val c" "le_val c < 2 ^ 255"
    using le_val_clamped [of c "h ! 31"] h by (simp_all add: c_def)
  define k where "k = divide_scalar_bytes_by_cofactor c 32"
  have k: "length k = 32" "le_val k = le_val c div 8"
    using divide_scalar_bytes_correct [of c] c(1) by (simp_all add: k_def)
  have b: "2 ^ 251 \<le> le_val k" "le_val k < 2 ^ 252"
    unfolding k(2) using c(2,3) zdiv_mono1 [OF c(2), of 8] by simp_all
  have "k[31 := k ! 31 AND 0x7f] = k"
    using le_val_top [OF k(1)] b le_val_nonneg [of "take 31 k"] by (simp add: and_127_id)
  then have "key = k" "nonce = drop 32 h"
    using assms h by (simp_all add: expand_ed25519_def h_def [symmetric] Let_def k_def c_def)
  with k b h show "length key = 32" and "length nonce = 32" and "2 ^ 251 \<le> le_val key" and "le_val key < 2 ^ 252"
    by simp_all
qed

section \<open>Cofactor conversions\<close>

lemma divide_multiply_cofactor:
  assumes "length key = 32" "le_val key < 2 ^ 253"
  shows "divide_scalar_bytes_by_cofactor (multiply_scalar_bytes_by_cofactor key 32) 32 = key"
proof -
  define m where "m = multiply_scalar_bytes_by_cofactor key 32"
  have m: "length m = 32" "le_val m = 8 * le_val key"
    using multiply_scalar_bytes_correct [of key] assms le_val_nonneg [of key] by (simp_all add: m_def)
  have "length (divide_scalar_bytes_by_cofactor m 32) = 32" "le_val (divide_scalar_bytes_by_cofactor m 32) = le_val key"
    using divide_scalar_bytes_correct [of m] m by simp_all
  then show ?thesis using assms(1) le_val_inj [of _ key] by (simp add: m_def)
qed

lemma length_private_key_to_public_key [simp]: "length (private_key_to_public_key k) = 32"
  by (simp add: private_key_to_public_key_def)

lemma length_multiply32 [simp]: "length key = 32 \<Longrightarrow> length (multiply_scalar_bytes_by_cofactor key 32) = 32"
  using multiply_scalar_bytes_correct [of key] by simp

lemma length_divide32 [simp]: "length key = 32 \<Longrightarrow> length (divide_scalar_bytes_by_cofactor key 32) = 32"
  using divide_scalar_bytes_correct [of key] by simp

section \<open>Derivation\<close>

lemma commit_chain_code_ok: "strobe_wf t \<Longrightarrow> returns strobe_wf (commit_chain_code t cc)"
  by (cases cc) (simp_all add: commit_chain_code_def merlin.commit_ok)

lemma hdkd_transcript_ok: "returns strobe_wf hdkd_transcript"
  unfolding hdkd_transcript_def by (intro returns_bind [OF merlin.new_ok] merlin.commit_ok)

lemma derive_scalar_and_chaincode_ok:
  "strobe_wf t \<Longrightarrow> returns (\<lambda>(t, scalar, cc). strobe_wf t \<and> reduced scalar \<and> length cc = 32)
    (derive_scalar_and_chaincode t public_key chain_code)"
  unfolding derive_scalar_and_chaincode_def Let_def
  by (intro returns_bind [OF commit_chain_code_ok] returns_bind [OF merlin.commit_ok]
      returns_bind [OF merlin.challenge_ok])
    (auto intro!: returns_bind [OF merlin.challenge_ok] simp: expand256_modm_correct)

text \<open>The scalar that a soft derivation adds to the secret key.\<close>

definition hdkd_scalar :: "bytes \<Rightarrow> bytes option \<Rightarrow> bignum256modm option" where
  "hdkd_scalar public_key chain_code =
     do { t \<leftarrow> hdkd_transcript;
          (t, scalar, cc) \<leftarrow> derive_scalar_and_chaincode t public_key chain_code;
          Some scalar }"

lemma hdkd_scalar_cases:
  obtains t t' scalar cc where "hdkd_transcript = Some t"
    "derive_scalar_and_chaincode t public_key chain_code = Some (t', scalar, cc)"
    "strobe_wf t'" "reduced scalar" "length cc = 32" "hdkd_scalar public_key chain_code = Some scalar"
proof -
  obtain t where t: "hdkd_transcript = Some t" "strobe_wf t" by (rule returnsE [OF hdkd_transcript_ok])
  obtain t' scalar cc where d: "derive_scalar_and_chaincode t public_key chain_code = Some (t', scalar, cc)"
    "strobe_wf t'" "reduced scalar" "length cc = 32"
    using derive_scalar_and_chaincode_ok [OF t(2), of public_key chain_code] by (auto simp: returns_def)
  moreover have "hdkd_scalar public_key chain_code = Some scalar"
    by (simp add: hdkd_scalar_def t(1) d(1))
  ultimately show ?thesis using t that by blast
qed

lemma derived_key_value:
  assumes "length key = 32" "le_val key < ell" "reduced scalar"
  defines "out \<equiv> contract256_modm (add256_modm (expand_raw256_modm key) scalar)"
  shows "length out = 32" and "le_val out = (le_val key + sval scalar) mod ell"
proof -
  note e = expand_raw256_modm_correct [OF assms(1)]
  have "sval (expand_raw256_modm key) + sval scalar < 2 * ell"
    using e(1) assms(2,3) by (simp add: reduced_def)
  moreover have "sc_limbs (2 ^ 56) (expand_raw256_modm key)" using e(2) by (cases "expand_raw256_modm key") auto
  ultimately have a: "reduced (add256_modm (expand_raw256_modm key) scalar)"
      "sval (add256_modm (expand_raw256_modm key) scalar) = (le_val key + sval scalar) mod ell"
    using add256_modm_correct [of "expand_raw256_modm key" scalar] assms(3) e(1) by (simp_all add: reduced_def)
  show "length out = 32" by (simp add: out_def)
  have "(le_val key + sval scalar) mod ell < ell" "0 \<le> (le_val key + sval scalar) mod ell"
    using ell_pos by simp_all
  then have "(le_val key + sval scalar) mod ell mod 256 ^ 32 = (le_val key + sval scalar) mod ell"
    by (intro mod_pos_pos_trivial) (simp_all add: ell_def)
  then show "le_val out = (le_val key + sval scalar) mod ell"
    unfolding out_def contract256_modm_correct [OF reduced_limbs32 [OF a(1)]] a(2) le_val_le_bytes .
qed

lemma derived_secret_key_simple_correct:
  assumes "length key = 32" "le_val key < ell" "length nonce = 32"
  obtains scalar out nonce' cc where "hdkd_scalar public_key chain_code = Some scalar" "reduced scalar"
    "derived_secret_key_simple entropy public_key key nonce chain_code = Some (out, nonce', cc)"
    "length out = 32" "le_val out = (le_val key + sval scalar) mod ell" "length nonce' = 32" "length cc = 32"
proof -
  obtain t t' scalar cc where h: "hdkd_transcript = Some t"
    "derive_scalar_and_chaincode t public_key chain_code = Some (t', scalar, cc)"
    "strobe_wf t'" "reduced scalar" "length cc = 32" "hdkd_scalar public_key chain_code = Some scalar"
    by (rule hdkd_scalar_cases)
  have i: "rng_wf (merlin_rng_init t')" "\<not> finalized (merlin_rng_init t')"
    using merlin_rng_init_ok [OF h(3)] by simp_all
  have "returns (\<lambda>(r, bs). length bs = 32)
     (do { mrng \<leftarrow> merlin_rng_commit_witness_bytes (merlin_rng_init t') (ascii ''HDKD-nonce'') nonce;
           mrng \<leftarrow> merlin_rng_commit_witness_bytes mrng (ascii ''HDKD-nonce'') (key @ nonce);
           mrng \<leftarrow> merlin_rng_finalize mrng entropy;
           merlin_rng_random_bytes mrng 32 })"
    using i by (intro returns_bind [OF merlin_rng_commit_ok] returns_bind [OF merlin_rng_finalize_ok]
        returns_weaken [OF merlin_rng_random_ok]) auto
  then obtain r r' r'' r3 nonce' where rng:
    "merlin_rng_commit_witness_bytes (merlin_rng_init t') (ascii ''HDKD-nonce'') nonce = Some r"
    "merlin_rng_commit_witness_bytes r (ascii ''HDKD-nonce'') (key @ nonce) = Some r'"
    "merlin_rng_finalize r' entropy = Some r''" "merlin_rng_random_bytes r'' 32 = Some (r3, nonce')" "length nonce' = 32"
    by (auto simp: returns_def bind_eq_Some_conv)
  have "derived_secret_key_simple entropy public_key key nonce chain_code =
      Some (contract256_modm (add256_modm (expand_raw256_modm key) scalar), nonce', cc)"
    using rng assms by (simp add: derived_secret_key_simple_def h(1,2))
  with h rng derived_key_value [OF assms(1,2) h(4)] that show ?thesis by blast
qed

section \<open>Key pairs\<close>

lemma keypair_from_seed_parts:
  obtains key nonce where "expand_ed25519 seed = (key, nonce)" "length key = 32" "length nonce = 32"
    "2 ^ 251 \<le> le_val key" "le_val key < 2 ^ 252"
    "sr25519_keypair_from_seed seed = multiply_scalar_bytes_by_cofactor key 32 @ nonce @ private_key_to_public_key key"
    "divide_scalar_bytes_by_cofactor (multiply_scalar_bytes_by_cofactor key 32) 32 = key"
proof -
  obtain key nonce where e: "expand_ed25519 seed = (key, nonce)" by (cases "expand_ed25519 seed")
  note k = expand_ed25519_correct [OF e]
  have "divide_scalar_bytes_by_cofactor (multiply_scalar_bytes_by_cofactor key 32) 32 = key"
    by (rule divide_multiply_cofactor) (use k in simp_all)
  with e k that show ?thesis by (simp add: sr25519_keypair_from_seed_def)
qed

text \<open>Deriving a child key pair, and its public key from the parent's.\<close>

lemma derive_soft_correct:
  assumes "length kp = 96" "le_val (take 32 kp) div 8 < ell"
  obtains scalar out nonce where "hdkd_scalar (drop 64 kp) cc = Some scalar" "reduced scalar"
    "length out = 32" "le_val out = (le_val (take 32 kp) div 8 + sval scalar) mod ell" "length nonce = 32"
    "sr25519_derive_keypair_soft entropy kp cc =
      Some (multiply_scalar_bytes_by_cofactor out 32 @ nonce @ private_key_to_public_key out)"
    "divide_scalar_bytes_by_cofactor (multiply_scalar_bytes_by_cofactor out 32) 32 = out"
    "sr25519_derive_public_soft (drop 64 kp) cc =
      Some (ristretto_encode (ge25519_add
        (ge25519_scalarmult_base_niels ge25519_niels_base_multiples scalar) (decode_unchecked (drop 64 kp))))"
proof -
  define key where "key = divide_scalar_bytes_by_cofactor (take 32 kp) 32"
  have key: "length key = 32" "le_val key = le_val (take 32 kp) div 8"
    using divide_scalar_bytes_correct [of "take 32 kp"] assms(1) by (simp_all add: key_def)
  have "le_val key < ell" "length (take 32 (drop 32 kp)) = 32" using key assms by simp_all
  then obtain scalar out nonce cc' where d: "hdkd_scalar (drop 64 kp) cc = Some scalar" "reduced scalar"
    "derived_secret_key_simple entropy (drop 64 kp) key (take 32 (drop 32 kp)) cc = Some (out, nonce, cc')"
    "length out = 32" "le_val out = (le_val key + sval scalar) mod ell" "length nonce = 32" "length cc' = 32"
    by (rule derived_secret_key_simple_correct [OF key(1)])
  have "le_val out < ell" unfolding d(5) by (rule pos_mod_bound [OF ell_pos])
  then have "divide_scalar_bytes_by_cofactor (multiply_scalar_bytes_by_cofactor out 32) 32 = out"
    by (intro divide_multiply_cofactor [OF d(4)]) (simp add: ell_def)
  moreover have "sr25519_derive_keypair_soft entropy kp cc =
      Some (multiply_scalar_bytes_by_cofactor out 32 @ nonce @ private_key_to_public_key out)"
    using assms(1) d(3) by (simp add: sr25519_derive_keypair_soft_def key_def)
  moreover have "sr25519_derive_public_soft (drop 64 kp) cc =
      Some (ristretto_encode (ge25519_add
        (ge25519_scalarmult_base_niels ge25519_niels_base_multiples scalar) (decode_unchecked (drop 64 kp))))"
    using d(1) by (auto simp: sr25519_derive_public_soft_def hdkd_scalar_def bind_eq_Some_conv)
  ultimately show ?thesis using d key(2) that by simp
qed

end
