(* ===== verification/Signature_Properties.thy ===== *)
theory Signature_Properties
  imports Keys
begin

unbundle bit_operations_syntax

text \<open>
  C11: signing.  For every 64-byte secret key the signer never fails an assertion and returns 64 bytes
  \<open>R \<parallel> s\<close>: \<open>R\<close> encodes \<open>r B\<close> for a nonce \<open>r\<close> of 32 bytes, and \<open>s\<close>, marked in its
  top bit, is canonical and solves the Schnorr equation \<open>s = k x + r\<close> modulo the group order, where \<open>x\<close> is the
  secret scalar (the key bytes divided by the cofactor) and \<open>k\<close> the challenge of message, public key and \<open>R\<close>.
\<close>

theorem sr25519_sign_schnorr:
  assumes "length secret = 64"
  shows "returns (\<lambda>sig. length sig = 64 \<and>
    (\<exists>nonce buf. length nonce = 32 \<and>
      take 32 sig = ristretto_encode (ge25519_scalarmult_base_niels ge25519_niels_base_multiples
        (expand256_modm (nonce @ replicate 32 0) 64)) \<and>
      schnorr_challenge message public_key (take 32 sig) = Some buf \<and> length buf = 64 \<and>
      le_val (drop 32 sig) = 2 ^ 255 +
        (le_val buf * (le_val (take 32 secret) div 8) + le_val nonce) mod ell))
    (sr25519_sign entropy public_key secret message)"
  by (rule sr25519_sign_correct [OF assms])

theorem sr25519_sign_schnorr_witness:
  "returns (\<lambda>sig. length sig = 64) (sr25519_sign (replicate 32 0) (replicate 32 7) (replicate 64 9) [1, 2])"
  by (rule returns_weaken [OF sr25519_sign_schnorr [of "replicate 64 9" "[1, 2]" "replicate 32 7" "replicate 32 0"]])
    simp_all

text \<open>
  C12: malformed responses are rejected.  A signature without the marker bit, or whose response is
  not below the group order, is refused for every message and key, without an assertion failure.
\<close>

theorem sr25519_verify_rejects:
  assumes "length sig = 64" "le_val (drop 32 sig) < 2 ^ 255 \<or> 2 ^ 255 + ell \<le> le_val (drop 32 sig)"
  shows "sr25519_verify t_uninit sig message public_key = Some False"
  by (rule sr25519_verify_correct [OF assms(1), of message public_key t_uninit]) (use assms(2) in auto)

theorem sr25519_verify_rejects_witness:
  "\<forall>t_uninit message public_key. sr25519_verify t_uninit (replicate 64 255) message public_key = Some False"
proof -
  have "2 ^ 255 + ell \<le> le_val (drop 32 (replicate 64 255))" by (simp add: le_val_replicate_255 ell_def)
  then show ?thesis using sr25519_verify_rejects [of "replicate 64 255"] by simp
qed

text \<open>
  C13: no malleability in the response.  Of two different 64-byte signatures that share \<open>R\<close> and whose
  responses are congruent modulo the group order, at least one is refused, whatever messages and
  keys they are presented with.
\<close>

theorem sr25519_verify_not_malleable:
  assumes "length sig = 64" "length sig' = 64" "take 32 sig = take 32 sig'" "sig \<noteq> sig'"
    and "le_val (drop 32 sig) mod ell = le_val (drop 32 sig') mod ell"
  shows "sr25519_verify t_uninit sig message public_key = Some False \<or>
    sr25519_verify t_uninit' sig' message' public_key' = Some False"
proof (rule ccontr)
  assume "\<not> ?thesis"
  then have not: "sr25519_verify t_uninit sig message public_key \<noteq> Some False"
    "sr25519_verify t_uninit' sig' message' public_key' \<noteq> Some False" by simp_all
  have "2 ^ 255 \<le> le_val (drop 32 sig) \<and> le_val (drop 32 sig) - 2 ^ 255 < ell"
    by (rule sr25519_verify_correct [OF assms(1), of message public_key t_uninit]) (use not(1) in auto)
  moreover have "2 ^ 255 \<le> le_val (drop 32 sig') \<and> le_val (drop 32 sig') - 2 ^ 255 < ell"
    by (rule sr25519_verify_correct [OF assms(2), of message' public_key' t_uninit']) (use not(2) in auto)
  moreover have "(le_val (drop 32 sig) - 2 ^ 255) mod ell = (le_val (drop 32 sig') - 2 ^ 255) mod ell"
    using assms(5) by (metis mod_diff_left_eq)
  ultimately have "le_val (drop 32 sig) = le_val (drop 32 sig')" by simp
  then have "drop 32 sig = drop 32 sig'" using le_val_inj assms(1,2) by simp
  with assms(3,4) show False by (metis append_take_drop_id)
qed

theorem sr25519_verify_not_malleable_witness:
  "\<forall>t t' m m' pk pk'. sr25519_verify t (replicate 32 0 @ le_bytes 32 (2 ^ 255)) m pk = Some False \<or>
    sr25519_verify t' (replicate 32 0 @ le_bytes 32 (2 ^ 255 + ell)) m' pk' = Some False"
proof -
  let ?a = "replicate 32 0 @ le_bytes 32 (2 ^ 255)" and ?b = "replicate 32 0 @ le_bytes 32 (2 ^ 255 + ell)"
  have v: "le_val (drop 32 ?a) = 2 ^ 255" "le_val (drop 32 ?b) = 2 ^ 255 + ell"
    by (simp_all add: le_val_le_bytes ell_def)
  then have "?a \<noteq> ?b" by (metis add_cancel_right_right ell_pos less_irrefl)
  moreover have "length ?a = 64" "length ?b = 64" "take 32 ?a = take 32 ?b" by simp_all
  moreover have "le_val (drop 32 ?a) mod ell = le_val (drop 32 ?b) mod ell" unfolding v by simp
  ultimately show ?thesis using sr25519_verify_not_malleable [of ?a ?b] by blast
qed

text \<open>
  C14: key pairs.  A key pair expanded from a seed has 96 bytes; its secret scalar, stored multiplied by the cofactor,
  lies in \<open>[2\<^sup>2\<^sup>5\<^sup>1, 2\<^sup>2\<^sup>5\<^sup>2)\<close>, is recovered exactly by the division that signing applies, and its public half
  belongs to it.  Converting it to the uniform form gives the key pair that the uniform expansion of the
  same seed builds directly.
\<close>

theorem sr25519_keypair_round_trip:
  fixes seed :: bytes
  defines "kp \<equiv> sr25519_keypair_from_seed seed"
  shows "length kp = 96 \<and>
    2 ^ 254 \<le> le_val (take 32 kp) \<and> le_val (take 32 kp) < 2 ^ 255 \<and> 8 dvd le_val (take 32 kp) \<and>
    drop 64 kp = private_key_to_public_key (divide_scalar_bytes_by_cofactor (take 32 kp) 32) \<and>
    sr25519_keypair_ed25519_to_uniform kp = sr25519_uniform_keypair_from_seed seed"
proof -
  obtain key nonce where k: "expand_ed25519 seed = (key, nonce)" "length key = 32" "length nonce = 32"
    "2 ^ 251 \<le> le_val key" "le_val key < 2 ^ 252"
    "kp = multiply_scalar_bytes_by_cofactor key 32 @ nonce @ private_key_to_public_key key"
    "divide_scalar_bytes_by_cofactor (multiply_scalar_bytes_by_cofactor key 32) 32 = key"
    unfolding kp_def by (rule keypair_from_seed_parts)
  have m: "le_val (multiply_scalar_bytes_by_cofactor key 32) = 8 * le_val key"
    using multiply_scalar_bytes_correct [of key] k le_val_nonneg [of key] by simp
  show ?thesis
    using k(1-5,7) m
    by (simp add: k(6) sr25519_keypair_ed25519_to_uniform_def sr25519_uniform_keypair_from_seed_def)
qed

text \<open>
  C15: soft derivation.  Deriving a child key pair never fails; the child scalar is the parent scalar plus the
  derivation scalar modulo the group order, its public half belongs to it, and the derivation of the public key
  alone adds the multiple of the base point by the same scalar to the parent's point.
\<close>

theorem sr25519_soft_derivation:
  assumes "length kp = 96" "le_val (take 32 kp) div 8 < ell"
  shows "\<exists>scalar. hdkd_scalar (drop 64 kp) cc = Some scalar \<and> reduced scalar \<and>
    returns (\<lambda>child. length child = 96 \<and>
      le_val (take 32 child) = 8 * ((le_val (take 32 kp) div 8 + sval scalar) mod ell) \<and>
      drop 64 child = private_key_to_public_key (divide_scalar_bytes_by_cofactor (take 32 child) 32))
      (sr25519_derive_keypair_soft entropy kp cc) \<and>
    sr25519_derive_public_soft (drop 64 kp) cc =
      Some (ristretto_encode (ge25519_add
        (ge25519_scalarmult_base_niels ge25519_niels_base_multiples scalar) (decode_unchecked (drop 64 kp))))"
proof -
  obtain scalar out nonce where d: "hdkd_scalar (drop 64 kp) cc = Some scalar" "reduced scalar"
    "length out = 32" "le_val out = (le_val (take 32 kp) div 8 + sval scalar) mod ell" "length nonce = 32"
    "sr25519_derive_keypair_soft entropy kp cc =
      Some (multiply_scalar_bytes_by_cofactor out 32 @ nonce @ private_key_to_public_key out)"
    "divide_scalar_bytes_by_cofactor (multiply_scalar_bytes_by_cofactor out 32) 32 = out"
    "sr25519_derive_public_soft (drop 64 kp) cc =
      Some (ristretto_encode (ge25519_add
        (ge25519_scalarmult_base_niels ge25519_niels_base_multiples scalar) (decode_unchecked (drop 64 kp))))"
    by (rule derive_soft_correct [OF assms])
  have "le_val out < ell" unfolding d(4) by (rule pos_mod_bound [OF ell_pos])
  then have "le_val (multiply_scalar_bytes_by_cofactor out 32) = 8 * le_val out"
    using multiply_scalar_bytes_correct [of out] d(3) le_val_nonneg [of out] by (simp add: ell_def)
  then show ?thesis using d by (intro exI [of _ scalar]) (simp add: returns_def)
qed

theorem sr25519_soft_derivation_witness:
  "returns (\<lambda>child. length child = 96) (sr25519_derive_keypair_soft [] (replicate 96 1) (Some [1]))"
proof -
  have "le_val (replicate n 1) * 255 = 256 ^ n - 1" for n by (induction n) simp_all
  from this [of 32] have "le_val (replicate 32 1) div 8 < ell" by (simp add: ell_def)
  then have "le_val (take 32 (replicate 96 1)) div 8 < ell" "length (replicate 96 (1 :: u8)) = 96" by simp_all
  from sr25519_soft_derivation [OF this(2,1), of "Some [1]" "[]"] show ?thesis
    by (auto intro: returns_weaken)
qed

end
