(* ===== verification/Vrf.thy ===== *)
theory Vrf
  imports Sr25519
begin

unbundle bit_operations_syntax

text \<open>
  The verifiable random function: \<open>vrf.c\<close> and the two entry points at the end of \<open>sr25519.c\<close>.
  The transcript argument is declared \<open>const\<close> but updated in place; no caller reads it
  afterwards.
\<close>

datatype Sr25519SignatureResult =
  Ok | EquationFalse | PointDecompressionError | ScalarFormatError | BytesLengthError
| NotMarkedSchnorrkel | MuSigAbsent | MuSigInconsistent

record VrfResult =
  result :: Sr25519SignatureResult
  is_less :: bool

text \<open>The point the message hashes to, with its encoding.\<close>

definition vrf_input :: "merlin_transcript \<Rightarrow> bytes \<Rightarrow> (ge25519 \<times> bytes) option" where
  "vrf_input t public_key =
     do { t \<leftarrow> merlin_transcript_commit_bytes t (ascii ''vrf-nm-pk'') (take 32 public_key);
          (t, b) \<leftarrow> merlin_transcript_challenge_bytes t (ascii ''VRFHash'') 64;
          let input = ristretto_from_uniform_bytes b;
          Some (input, ristretto_encode input) }"

text \<open>The transcript \<open>e\<close> of the proof up to the commitment of the input (\<open>KUSAMA_VRF\<close> is 1).\<close>

definition dleq_transcript :: "bytes \<Rightarrow> merlin_transcript option" where
  "dleq_transcript input_compressed =
     do { e \<leftarrow> merlin_transcript_init (ascii ''VRF'');
          e \<leftarrow> merlin_transcript_commit_bytes e (ascii ''proto-name'') (ascii ''DLEQProof'');
          merlin_transcript_commit_bytes e (ascii ''vrf:h'') input_compressed }"

text \<open>The rest of the transcript and the challenge scalar.\<close>

definition dleq_challenge ::
    "merlin_transcript \<Rightarrow> bytes \<Rightarrow> bytes \<Rightarrow> bytes \<Rightarrow> bytes \<Rightarrow> bignum256modm option" where
  "dleq_challenge e R_compressed Hr_compressed public_key output_compressed =
     do { e \<leftarrow> merlin_transcript_commit_bytes e (ascii ''vrf:R=g^r'') R_compressed;
          e \<leftarrow> merlin_transcript_commit_bytes e (ascii ''vrf:h^r'') Hr_compressed;
          e \<leftarrow> merlin_transcript_commit_bytes e (ascii ''vrf:pk'') (take 32 public_key);
          e \<leftarrow> merlin_transcript_commit_bytes e (ascii ''vrf:h^sk'') output_compressed;
          (e, buf) \<leftarrow> merlin_transcript_challenge_bytes e (ascii ''prove'') 64;
          Some (expand256_modm buf 64) }"

text \<open>
  The witness label is the literal \<open>"proving\00"\<close>, nine bytes with the terminator, passed
  with length 10: \<open>beyond\<close> is the byte that follows the literal in memory.  An error is
  \<open>Inl\<close>; \<open>Inr\<close> holds the in/out pair, the proof and the batchable proof.
\<close>

definition proving_label :: "u8 \<Rightarrow> bytes" where
  "proving_label beyond = ascii ''proving'' @ [0, 0, beyond]"

definition vrf_sign ::
    "u8 \<Rightarrow> bytes \<Rightarrow> bytes \<Rightarrow> merlin_transcript \<Rightarrow> (Sr25519SignatureResult + bytes \<times> bytes \<times> bytes) option" where
  "vrf_sign beyond entropy keypair t =
     do { let secret_key = take 32 keypair;
          let secret_nonce = take 32 (drop 32 keypair);
          let public_key = take 32 (drop 64 keypair);
          (input, input_compressed) \<leftarrow> vrf_input t public_key;
          let secret_key_scalar = expand_raw256_modm secret_key;
          if \<not> is_reduced256_modm secret_key_scalar then Some (Inl ScalarFormatError)
          else
            do { let output = ge25519_scalarmult_tg input secret_key_scalar;
                 let output_compressed = ristretto_encode output;
                 let inout = input_compressed @ output_compressed;
                 e \<leftarrow> dleq_transcript input_compressed;
                 let mrng = merlin_rng_init e;
                 mrng \<leftarrow> merlin_rng_commit_witness_bytes mrng (proving_label beyond) secret_nonce;
                 mrng \<leftarrow> merlin_rng_finalize mrng entropy;
                 (mrng, rnd) \<leftarrow> merlin_rng_random_bytes mrng 32;
                 let r_scalar = expand256_modm (rnd @ replicate 32 0) 64;
                 let R_compressed =
                   ristretto_encode (ge25519_scalarmult_base_niels ge25519_niels_base_multiples r_scalar);
                 let Hr_compressed = ristretto_encode (ge25519_scalarmult_tg input r_scalar);
                 c_scalar \<leftarrow> dleq_challenge e R_compressed Hr_compressed public_key output_compressed;
                 let c_secret_key_scalar = mul256_modm c_scalar secret_key_scalar;
                 let s_scalar = sub256_modm r_scalar c_secret_key_scalar;
                 let c = contract256_modm c_scalar;
                 let s = contract256_modm s_scalar;
                 Some (Inr (inout, c @ s, R_compressed @ Hr_compressed @ s)) } }"

definition shorten_vrf :: "bytes \<Rightarrow> bytes \<Rightarrow> merlin_transcript \<Rightarrow> bytes \<Rightarrow> bytes option" where
  "shorten_vrf proof_batchable public_key t preout =
     do { (input, input_compressed) \<leftarrow> vrf_input t public_key;
          let output_compressed = take 32 preout;
          e \<leftarrow> dleq_transcript input_compressed;
          let R = take 32 proof_batchable;
          let Hr = take 32 (drop 32 proof_batchable);
          let s = take 32 (drop 64 proof_batchable);
          c_scalar \<leftarrow> dleq_challenge e R Hr public_key output_compressed;
          Some (contract256_modm c_scalar @ s) }"

text \<open>\<open>Inr\<close>: the in/out pair and the batchable proof.\<close>

definition vrf_verify ::
    "ge25519_p1p1 \<Rightarrow> bytes \<Rightarrow> merlin_transcript \<Rightarrow> bytes \<Rightarrow> bytes
      \<Rightarrow> (Sr25519SignatureResult + bytes \<times> bytes) option" where
  "vrf_verify t_uninit public_key t preout prf =
     do { let c = take 32 prf;
          let s = take 32 (drop 32 prf);
          (input, input_compressed) \<leftarrow> vrf_input t public_key;
          let output_compressed = take 32 preout;
          let inout = input_compressed @ output_compressed;
          e \<leftarrow> dleq_transcript input_compressed;
          let P = decode_unchecked public_key;
          let c_scalar = expand_raw256_modm c;
          let s_scalar = expand_raw256_modm s;
          let R = ge25519_double_scalarmult_vartime ge25519_niels_sliding_multiples t_uninit P c_scalar s_scalar;
          let R_compressed = ristretto_encode R;
          let output = decode_unchecked output_compressed;
          let CP = ge25519_scalarmult_tg output c_scalar;
          let SP = ge25519_scalarmult_tg input s_scalar;
          let Hr = ge25519_add CP SP;
          let Hr_compressed = ristretto_encode Hr;
          verify_c_scalar \<leftarrow> dleq_challenge e R_compressed Hr_compressed public_key output_compressed;
          let verify_c = contract256_modm verify_c_scalar;
          let is_valid = uint8_32_ct_eq verify_c c;
          Some (if is_valid \<noteq> 0 then Inr (inout, R_compressed @ Hr_compressed @ s)
                else Inl EquationFalse) }"

definition io_make_bytes :: "bytes \<Rightarrow> bytes \<Rightarrow> bytes option" where
  "io_make_bytes inout context_bytes =
     do { t \<leftarrow> merlin_transcript_init (ascii ''VRFResult'');
          t \<leftarrow> merlin_transcript_commit_bytes t [] context_bytes;
          t \<leftarrow> merlin_transcript_commit_bytes t (ascii ''vrf-in'') (take 32 inout);
          t \<leftarrow> merlin_transcript_commit_bytes t (ascii ''vrf-out'') (take 32 (drop 32 inout));
          (t, raw_output) \<leftarrow> merlin_transcript_challenge_bytes t [] 16;
          Some raw_output }"

section \<open>Entry points\<close>

text \<open>\<open>out[len - 1 - i] = in[i]\<close> for every \<open>i < len\<close>.\<close>

definition from_le_bytes :: "bytes \<Rightarrow> nat \<Rightarrow> bytes" where
  "from_le_bytes inp len =
     foldl (\<lambda>out i. out[len - 1 - i := inp ! i]) (replicate len 0) [0..<len]"

text \<open>\<open>memcmp(a, b, n) < 0\<close>.\<close>

fun memcmp_less :: "bytes \<Rightarrow> bytes \<Rightarrow> nat \<Rightarrow> bool" where
  "memcmp_less a b 0 = False"
| "memcmp_less a b (Suc n) = (if hd a = hd b then memcmp_less (tl a) (tl b) n else hd a < hd b)"

definition below_threshold :: "bytes \<Rightarrow> bytes \<Rightarrow> bool" where
  "below_threshold raw_output threshold =
     memcmp_less (from_le_bytes raw_output 16) (from_le_bytes threshold 16) 16"

text \<open>The returned structure and, unless signing failed, the output with its proof.\<close>

definition sr25519_vrf_sign_if_less ::
    "u8 \<Rightarrow> bytes \<Rightarrow> bytes \<Rightarrow> bytes \<Rightarrow> bytes \<Rightarrow> (VrfResult \<times> bytes option) option" where
  "sr25519_vrf_sign_if_less beyond entropy keypair message threshold =
     do { t \<leftarrow> signing_transcript message;
          sign_result \<leftarrow> vrf_sign beyond entropy keypair t;
          case sign_result of
            Inl err \<Rightarrow> Some (\<lparr>result = err, is_less = False\<rparr>, None)
          | Inr (io, prf, proof_batchable) \<Rightarrow>
              do { raw_output \<leftarrow> io_make_bytes io (ascii ''substrate-babe-vrf'');
                   let check = below_threshold raw_output threshold;
                   let out_and_proof = take 32 (drop 32 io) @ take 64 prf;
                   Some (\<lparr>result = Ok, is_less = check\<rparr>, Some out_and_proof) } }"

definition sr25519_vrf_verify ::
    "ge25519_p1p1 \<Rightarrow> bytes \<Rightarrow> bytes \<Rightarrow> bytes \<Rightarrow> bytes \<Rightarrow> bytes \<Rightarrow> VrfResult option" where
  "sr25519_vrf_verify t_uninit public_key message output prf threshold =
     do { t1 \<leftarrow> signing_transcript message;
          verify_result \<leftarrow> vrf_verify t_uninit public_key t1 output prf;
          case verify_result of
            Inl err \<Rightarrow> Some \<lparr>result = err, is_less = False\<rparr>
          | Inr (inout, proof_batchable) \<Rightarrow>
              do { raw_output \<leftarrow> io_make_bytes inout (ascii ''substrate-babe-vrf'');
                   let check = below_threshold raw_output threshold;
                   let verify_output = take 32 (drop 32 inout);
                   t2 \<leftarrow> signing_transcript message;
                   decomp_proof \<leftarrow> shorten_vrf proof_batchable public_key t2 verify_output;
                   Some (if take 32 output = verify_output \<and> take 32 prf = take 32 decomp_proof
                         then \<lparr>result = Ok, is_less = check\<rparr>
                         else \<lparr>result = EquationFalse, is_less = False\<rparr>) } }"

end
