(* ===== verification/Vrf_Correct.thy ===== *)
theory Vrf_Correct
  imports Keys Vrf
begin

unbundle bit_operations_syntax

section \<open>The threshold comparison\<close>

lemma from_le_bytes_rev: "length inp = len \<Longrightarrow> from_le_bytes inp len = rev inp"
proof -
  assume len: "length inp = len"
  have put: "(replicate (Suc m) 0 @ ys)[m := v] = replicate m 0 @ v # ys" for m v and ys :: bytes
    by (induction m) simp_all
  have "k \<le> len \<Longrightarrow> foldl (\<lambda>out i. out[len - 1 - i := inp ! i]) (replicate len 0) [0..<k] =
      replicate (len - k) 0 @ rev (take k inp)" for k
  proof (induction k)
    case (Suc k)
    then have "len - k = Suc (len - Suc k)" "k < length inp" using len by simp_all
    then show ?case
      using Suc put [of "len - Suc k"] by (simp add: take_Suc_conv_app_nth)
  qed simp
  from this [of len] show ?thesis using len by (simp add: from_le_bytes_def)
qed

lemma memcmp_less_append:
  assumes "length a = length b"
  shows "memcmp_less (a @ c) (b @ d) (length a + n) \<longleftrightarrow>
    memcmp_less a b (length a) \<or> (a = b \<and> memcmp_less c d n)"
  using assms by (induction a b rule: list_induct2) auto

lemma memcmp_less_rev:
  assumes "length a = length b"
  shows "memcmp_less (rev a) (rev b) (length a) \<longleftrightarrow> le_val a < le_val b"
  using assms
proof (induction a b rule: list_induct2)
  case (Cons x a y b)
  have "le_val (x # a) < le_val (y # b) \<longleftrightarrow> le_val a < le_val b \<or> (le_val a = le_val b \<and> uint x < uint y)"
    using uint8_lt [of x] uint8_lt [of y] uint_nonneg [of x] uint_nonneg [of y]
    by (simp only: le_val.simps) arith
  moreover have "memcmp_less (rev (x # a)) (rev (y # b)) (length (x # a)) \<longleftrightarrow>
      memcmp_less (rev a) (rev b) (length a) \<or> (rev a = rev b \<and> memcmp_less [x] [y] (Suc 0))"
    using memcmp_less_append [of "rev a" "rev b" "[x]" "[y]" 1] Cons.hyps by simp
  ultimately show ?case
    using Cons by (auto simp: le_val_inj word_less_def)
qed simp

lemma below_threshold_value:
  "length a = 16 \<Longrightarrow> length b = 16 \<Longrightarrow> below_threshold a b \<longleftrightarrow> le_val a < le_val b"
  using memcmp_less_rev [of a b] by (simp add: below_threshold_def from_le_bytes_rev)

section \<open>Transcripts of the proof\<close>

lemma vrf_input_ok: "strobe_wf t \<Longrightarrow> returns (\<lambda>(P, bs). bs = ristretto_encode P \<and> length bs = 32) (vrf_input t public_key)"
  unfolding vrf_input_def Let_def
  by (intro returns_bind [OF merlin.commit_ok] returns_bind [OF merlin.challenge_ok]) auto

lemma dleq_transcript_ok: "returns strobe_wf (dleq_transcript input)"
  unfolding dleq_transcript_def
  by (intro returns_bind [OF merlin.new_ok] returns_bind [OF merlin.commit_ok] merlin.commit_ok)

lemma dleq_challenge_ok: "strobe_wf e \<Longrightarrow> returns reduced (dleq_challenge e R Hr public_key output)"
  unfolding dleq_challenge_def
  by (intro returns_bind [OF merlin.commit_ok] returns_bind [OF merlin.challenge_ok])
    (auto simp: expand256_modm_correct)

lemma io_make_bytes_ok: "returns (\<lambda>bs. length bs = 16) (io_make_bytes io context)"
  unfolding io_make_bytes_def
  by (intro returns_bind [OF merlin.new_ok] returns_bind [OF merlin.commit_ok] returns_bind [OF merlin.challenge_ok])
    auto

lemma is_reduced_expand_raw:
  assumes "length bs = 32"
  shows "is_reduced256_modm (expand_raw256_modm bs) \<longleftrightarrow> le_val bs < ell"
  using expand_raw256_modm_correct [OF assms] is_reduced256_modm_correct [of "expand_raw256_modm bs"]
  by (cases "expand_raw256_modm bs") auto

section \<open>Proving\<close>

lemma le_val_contract: "reduced x \<Longrightarrow> le_val (contract256_modm x) = sval x"
proof -
  assume x: "reduced x"
  then have "sval x mod 256 ^ 32 = sval x"
    using sval_nonneg [of x] by (intro mod_pos_pos_trivial) (auto simp: reduced_def ell_def)
  then show ?thesis
    using contract256_modm_correct [OF reduced_limbs32 [OF x]] by (simp add: le_val_le_bytes)
qed

lemma proof_scalar:
  assumes "length sk = 32" "reduced r" "reduced c"
  defines "s \<equiv> sub256_modm r (mul256_modm c (expand_raw256_modm sk))"
  shows "reduced s" and "sval s = (sval r - sval c * le_val sk) mod ell"
proof -
  note e = expand_raw256_modm_correct [OF assms(1)]
  note m = mul256_modm_correct [OF reduced_limbs32 [OF assms(3)] e(2)]
  note d = sub256_modm_correct [OF assms(2) m(1), folded s_def]
  show "reduced s" by (rule d(1))
  show "sval s = (sval r - sval c * le_val sk) mod ell"
    unfolding d(2) m(2) e(1) by (simp add: mod_diff_right_eq)
qed

lemma vrf_sign_rejects:
  assumes "length kp = 96" "strobe_wf t" "ell \<le> le_val (take 32 kp)"
  shows "vrf_sign beyond entropy kp t = Some (Inl ScalarFormatError)"
proof -
  obtain P bs where "vrf_input t (drop 64 kp) = Some (P, bs)"
    using vrf_input_ok [OF assms(2), of "drop 64 kp"] by (auto simp: returns_def)
  then show ?thesis
    using assms is_reduced_expand_raw [of "take 32 kp"] by (simp add: vrf_sign_def)
qed

lemma vrf_sign_correct:
  assumes "length kp = 96" "strobe_wf t" "le_val (take 32 kp) < ell"
  obtains P e r c s where "vrf_input t (drop 64 kp) = Some (P, ristretto_encode P)"
    "dleq_transcript (ristretto_encode P) = Some e" "reduced r"
    "dleq_challenge e (ristretto_encode (ge25519_scalarmult_base_niels ge25519_niels_base_multiples r))
      (ristretto_encode (ge25519_scalarmult_tg P r)) (drop 64 kp)
      (ristretto_encode (ge25519_scalarmult_tg P (expand_raw256_modm (take 32 kp)))) = Some c"
    "reduced c" "reduced s" "sval s = (sval r - sval c * le_val (take 32 kp)) mod ell"
    "vrf_sign beyond entropy kp t = Some (Inr
      (ristretto_encode P @ ristretto_encode (ge25519_scalarmult_tg P (expand_raw256_modm (take 32 kp))),
       contract256_modm c @ contract256_modm s,
       ristretto_encode (ge25519_scalarmult_base_niels ge25519_niels_base_multiples r) @
         ristretto_encode (ge25519_scalarmult_tg P r) @ contract256_modm s))"
proof -
  obtain P where P: "vrf_input t (drop 64 kp) = Some (P, ristretto_encode P)"
    using vrf_input_ok [OF assms(2), of "drop 64 kp"] by (auto simp: returns_def)
  obtain e where e: "dleq_transcript (ristretto_encode P) = Some e" "strobe_wf e"
    by (rule returnsE [OF dleq_transcript_ok])
  obtain r1 r2 r3 nonce where rng:
    "merlin_rng_commit_witness_bytes (merlin_rng_init e) (proving_label beyond) (take 32 (drop 32 kp)) = Some r1"
    "merlin_rng_finalize r1 entropy = Some r2" "merlin_rng_random_bytes r2 32 = Some (r3, nonce)" "length nonce = 32"
    by (rule witness_draw [OF e(2)])
  define r where "r = expand256_modm (nonce @ replicate 32 0) 64"
  have r: "reduced r" using expand256_modm_correct [of 64 "nonce @ replicate 32 0"] rng(4) by (simp add: r_def)
  obtain c where c: "dleq_challenge e (ristretto_encode (ge25519_scalarmult_base_niels ge25519_niels_base_multiples r))
      (ristretto_encode (ge25519_scalarmult_tg P r)) (drop 64 kp)
      (ristretto_encode (ge25519_scalarmult_tg P (expand_raw256_modm (take 32 kp)))) = Some c" "reduced c"
    by (rule returnsE [OF dleq_challenge_ok [OF e(2)]])
  have sk: "length (take 32 kp) = 32" using assms(1) by simp
  note s = proof_scalar [OF sk r c(2)]
  note sign = that [OF P e(1) r c(1,2) s]
  show ?thesis
    by (rule sign) (use P e rng c assms is_reduced_expand_raw [OF sk] in
      \<open>simp add: vrf_sign_def r_def [symmetric] Let_def\<close>)
qed

section \<open>Verification\<close>

lemma vrf_verify_cases:
  assumes "strobe_wf t"
  obtains P e R Hr c where "vrf_input t public_key = Some (P, ristretto_encode P)"
    "dleq_transcript (ristretto_encode P) = Some e"
    "dleq_challenge e (ristretto_encode R) (ristretto_encode Hr) public_key (take 32 preout) = Some c"
    "vrf_verify t_uninit public_key t preout prf =
      Some (if uint8_32_ct_eq (contract256_modm c) (take 32 prf) \<noteq> 0
            then Inr (ristretto_encode P @ take 32 preout,
                      ristretto_encode R @ ristretto_encode Hr @ take 32 (drop 32 prf))
            else Inl EquationFalse)"
proof -
  obtain P where P: "vrf_input t public_key = Some (P, ristretto_encode P)"
    using vrf_input_ok [OF assms, of public_key] by (auto simp: returns_def)
  obtain e where e: "dleq_transcript (ristretto_encode P) = Some e" "strobe_wf e"
    by (rule returnsE [OF dleq_transcript_ok])
  define R where "R = ge25519_double_scalarmult_vartime ge25519_niels_sliding_multiples t_uninit
    (decode_unchecked public_key) (expand_raw256_modm (take 32 prf)) (expand_raw256_modm (take 32 (drop 32 prf)))"
  define Hr where "Hr = ge25519_add
    (ge25519_scalarmult_tg (decode_unchecked (take 32 preout)) (expand_raw256_modm (take 32 prf)))
    (ge25519_scalarmult_tg P (expand_raw256_modm (take 32 (drop 32 prf))))"
  obtain c where c: "dleq_challenge e (ristretto_encode R) (ristretto_encode Hr) public_key (take 32 preout) = Some c"
    by (rule returnsE [OF dleq_challenge_ok [OF e(2)]])
  show ?thesis
    by (rule that [OF P e(1) c])
      (use P e c in \<open>simp add: vrf_verify_def R_def [symmetric] Hr_def [symmetric] Let_def\<close>)
qed

lemma shorten_vrf_again:
  assumes "vrf_input t public_key = Some (P, ristretto_encode P)"
    "dleq_transcript (ristretto_encode P) = Some e"
    "dleq_challenge e (ristretto_encode R) (ristretto_encode Hr) public_key (take 32 preout) = Some c"
  shows "shorten_vrf (ristretto_encode R @ ristretto_encode Hr @ s) public_key t preout =
    Some (contract256_modm c @ take 32 s)"
  using assms by (simp add: shorten_vrf_def)

lemma sr25519_vrf_verify_correct:
  assumes "length threshold = 16" "length output = 32" "length prf = 64"
  obtains t r where "signing_transcript message = Some t" "vrf_verify t_uninit public_key t output prf = Some r"
    "sr25519_vrf_verify t_uninit public_key message output prf threshold =
      (case r of Inl err \<Rightarrow> Some \<lparr>result = EquationFalse, is_less = False\<rparr>
       | Inr (inout, _) \<Rightarrow>
           map_option (\<lambda>raw. \<lparr>result = Ok, is_less = le_val raw < le_val threshold\<rparr>)
             (io_make_bytes inout (ascii ''substrate-babe-vrf'')))"
proof -
  obtain t where t: "signing_transcript message = Some t" "strobe_wf t"
    by (rule returnsE [OF signing_transcript_ok])
  obtain P e R Hr c where v: "vrf_input t public_key = Some (P, ristretto_encode P)"
    "dleq_transcript (ristretto_encode P) = Some e"
    "dleq_challenge e (ristretto_encode R) (ristretto_encode Hr) public_key (take 32 output) = Some c"
    "vrf_verify t_uninit public_key t output prf =
      Some (if uint8_32_ct_eq (contract256_modm c) (take 32 prf) \<noteq> 0
            then Inr (ristretto_encode P @ take 32 output,
                      ristretto_encode R @ ristretto_encode Hr @ take 32 (drop 32 prf))
            else Inl EquationFalse)"
    by (rule vrf_verify_cases [OF t(2)])
  obtain raw where raw: "io_make_bytes (ristretto_encode P @ output) (ascii ''substrate-babe-vrf'') = Some raw"
      "length raw = 16"
    by (rule returnsE [OF io_make_bytes_ok])
  have eq: "uint8_32_ct_eq (contract256_modm c) (take 32 prf) \<noteq> 0 \<longleftrightarrow> contract256_modm c = take 32 prf"
    using assms(3) by (simp add: uint8_32_ct_eq_exact)
  show ?thesis
    by (rule that [OF t(1) v(4)])
      (use t v raw assms shorten_vrf_again [OF v(1-3)] below_threshold_value [OF raw(2) assms(1)] in
        \<open>simp add: sr25519_vrf_verify_def eq\<close>)
qed

section \<open>Properties\<close>

text \<open>
  C16: the proof of a VRF output.  With a canonical secret key the prover never fails; its output is the
  key times the point the transcript hashes to, and its proof \<open>(c, s)\<close> consists of canonical scalars with
  \<open>s = r - c x\<close> modulo the group order, \<open>c\<close> being the challenge on the commitments \<open>r B\<close> and \<open>r H\<close>.
\<close>

theorem vrf_sign_dleq:
  assumes "length kp = 96" "strobe_wf t" "le_val (take 32 kp) < ell"
  shows "\<exists>P e r c. vrf_input t (drop 64 kp) = Some (P, ristretto_encode P) \<and>
    dleq_transcript (ristretto_encode P) = Some e \<and> reduced r \<and>
    dleq_challenge e (ristretto_encode (ge25519_scalarmult_base_niels ge25519_niels_base_multiples r))
      (ristretto_encode (ge25519_scalarmult_tg P r)) (drop 64 kp)
      (ristretto_encode (ge25519_scalarmult_tg P (expand_raw256_modm (take 32 kp)))) = Some c \<and>
    returns (\<lambda>res. \<exists>prf batch. res = Inr
        (ristretto_encode P @ ristretto_encode (ge25519_scalarmult_tg P (expand_raw256_modm (take 32 kp))), prf, batch) \<and>
        length prf = 64 \<and> length batch = 96 \<and> le_val (take 32 prf) = sval c \<and>
        le_val (drop 32 prf) = (sval r - sval c * le_val (take 32 kp)) mod ell)
      (vrf_sign beyond entropy kp t)"
proof -
  obtain P e r c s where v: "vrf_input t (drop 64 kp) = Some (P, ristretto_encode P)"
    "dleq_transcript (ristretto_encode P) = Some e" "reduced r"
    "dleq_challenge e (ristretto_encode (ge25519_scalarmult_base_niels ge25519_niels_base_multiples r))
      (ristretto_encode (ge25519_scalarmult_tg P r)) (drop 64 kp)
      (ristretto_encode (ge25519_scalarmult_tg P (expand_raw256_modm (take 32 kp)))) = Some c"
    "reduced c" "reduced s" "sval s = (sval r - sval c * le_val (take 32 kp)) mod ell"
    "vrf_sign beyond entropy kp t = Some (Inr
      (ristretto_encode P @ ristretto_encode (ge25519_scalarmult_tg P (expand_raw256_modm (take 32 kp))),
       contract256_modm c @ contract256_modm s,
       ristretto_encode (ge25519_scalarmult_base_niels ge25519_niels_base_multiples r) @
         ristretto_encode (ge25519_scalarmult_tg P r) @ contract256_modm s))"
    by (rule vrf_sign_correct [OF assms])
  show ?thesis
    by (intro exI [of _ P] exI [of _ e] exI [of _ r] exI [of _ c] conjI v(1-4))
      (simp add: v(8) le_val_contract [OF v(5)] le_val_contract [OF v(6)] v(7))
qed

theorem vrf_sign_dleq_witness:
  "returns (\<lambda>res. \<exists>io prf batch. res = Inr (io, prf, batch) \<and> length prf = 64)
     (vrf_sign 0 [] (1 # replicate 95 0) \<lparr>state_bytes = replicate 200 0, pos = 0, pos_begin = 0, cur_flags = 0\<rparr>)"
proof -
  let ?t = "\<lparr>state_bytes = replicate 200 0, pos = 0, pos_begin = 0, cur_flags = 0\<rparr> :: merlin_strobe128"
  have "strobe_wf ?t" by (simp add: strobe_wf_def STROBE_R_def)
  moreover have "length (1 # replicate 95 (0 :: u8)) = 96" by simp
  moreover have "le_val (take 32 (1 # replicate 95 0)) < ell" by (simp add: ell_def)
  ultimately show ?thesis
    using vrf_sign_dleq [of "1 # replicate 95 0" ?t 0 "[]"] by (auto simp: returns_def)
qed

text \<open>
  C17: \<open>sr25519_vrf_sign_if_less\<close>.  It always returns: a scalar format error, without an output, exactly when the secret key is
  not below the group order; otherwise \<open>Ok\<close> with the 96 bytes of the VRF output, which is the key times the point \<open>P\<close> the transcript
  hashes to, the challenge \<open>c\<close> on the commitments of a canonical \<open>r\<close> and the response \<open>r - c x\<close> modulo the group order, and with
  the comparison of the 128 bits derived from that input and output with the threshold.
\<close>

theorem sr25519_vrf_sign_if_less_result:
  assumes "length kp = 96" "length threshold = 16"
  shows "if ell \<le> le_val (take 32 kp)
    then sr25519_vrf_sign_if_less beyond entropy kp message threshold =
      Some (\<lparr>result = ScalarFormatError, is_less = False\<rparr>, None)
    else \<exists>t P e r c output raw. signing_transcript message = Some t \<and>
      vrf_input t (drop 64 kp) = Some (P, ristretto_encode P) \<and>
      output = ristretto_encode (ge25519_scalarmult_tg P (expand_raw256_modm (take 32 kp))) \<and>
      dleq_transcript (ristretto_encode P) = Some e \<and> reduced r \<and>
      dleq_challenge e (ristretto_encode (ge25519_scalarmult_base_niels ge25519_niels_base_multiples r))
        (ristretto_encode (ge25519_scalarmult_tg P r)) (drop 64 kp) output = Some c \<and>
      io_make_bytes (ristretto_encode P @ output) (ascii ''substrate-babe-vrf'') = Some raw \<and> length raw = 16 \<and>
      sr25519_vrf_sign_if_less beyond entropy kp message threshold =
        Some (\<lparr>result = Ok, is_less = (le_val raw < le_val threshold)\<rparr>,
          Some (output @ le_bytes 32 (sval c) @ le_bytes 32 ((sval r - sval c * le_val (take 32 kp)) mod ell)))"
proof -
  obtain t where t: "signing_transcript message = Some t" "strobe_wf t"
    by (rule returnsE [OF signing_transcript_ok])
  show ?thesis
  proof (cases "ell \<le> le_val (take 32 kp)")
    case True
    then show ?thesis
      using t vrf_sign_rejects [OF assms(1) t(2) True] by (simp add: sr25519_vrf_sign_if_less_def)
  next
    case False
    then have "le_val (take 32 kp) < ell" by simp
    then obtain P e r c s where v: "vrf_input t (drop 64 kp) = Some (P, ristretto_encode P)"
      "dleq_transcript (ristretto_encode P) = Some e" "reduced r"
      "dleq_challenge e (ristretto_encode (ge25519_scalarmult_base_niels ge25519_niels_base_multiples r))
        (ristretto_encode (ge25519_scalarmult_tg P r)) (drop 64 kp)
        (ristretto_encode (ge25519_scalarmult_tg P (expand_raw256_modm (take 32 kp)))) = Some c"
      "reduced c" "reduced s" "sval s = (sval r - sval c * le_val (take 32 kp)) mod ell"
      "vrf_sign beyond entropy kp t = Some (Inr
        (ristretto_encode P @ ristretto_encode (ge25519_scalarmult_tg P (expand_raw256_modm (take 32 kp))),
         contract256_modm c @ contract256_modm s,
         ristretto_encode (ge25519_scalarmult_base_niels ge25519_niels_base_multiples r) @
           ristretto_encode (ge25519_scalarmult_tg P r) @ contract256_modm s))"
      by (rule vrf_sign_correct [OF assms(1) t(2)])
    define out where "out = ristretto_encode (ge25519_scalarmult_tg P (expand_raw256_modm (take 32 kp)))"
    have len: "length out = 32" by (simp add: out_def)
    obtain raw where raw: "io_make_bytes (ristretto_encode P @ out) (ascii ''substrate-babe-vrf'') = Some raw" "length raw = 16"
      by (rule returnsE [OF io_make_bytes_ok])
    have bytes: "contract256_modm c = le_bytes 32 (sval c)" "contract256_modm s = le_bytes 32 (sval s)"
      using contract256_modm_correct reduced_limbs32 v(5,6) by simp_all
    have "sr25519_vrf_sign_if_less beyond entropy kp message threshold =
        Some (\<lparr>result = Ok, is_less = (le_val raw < le_val threshold)\<rparr>,
          Some (out @ le_bytes 32 (sval c) @ le_bytes 32 ((sval r - sval c * le_val (take 32 kp)) mod ell)))"
      using t v(8) raw below_threshold_value [OF raw(2) assms(2)]
      by (simp add: sr25519_vrf_sign_if_less_def out_def [symmetric] bytes v(7) len)
    with False t(1) v(1-4) raw show ?thesis unfolding out_def by (simp only: if_False) blast
  qed
qed

theorem sr25519_vrf_sign_if_less_result_witness:
  "sr25519_vrf_sign_if_less 0 [] (replicate 96 255) [] (replicate 16 0) =
     Some (\<lparr>result = ScalarFormatError, is_less = False\<rparr>, None) \<and>
   (\<exists>t P r c. signing_transcript [7] = Some t \<and> vrf_input t (replicate 32 0) = Some (P, ristretto_encode P) \<and>
     sr25519_vrf_sign_if_less 0 [] (1 # replicate 95 0) [7] (replicate 16 0) =
       Some (\<lparr>result = Ok, is_less = False\<rparr>, Some (ristretto_encode (ge25519_scalarmult_tg P (expand_raw256_modm (1 # replicate 31 0))) @
         le_bytes 32 (sval c) @ le_bytes 32 ((sval r - sval c) mod ell))))"
proof
  have "ell \<le> le_val (take 32 (replicate 96 255))" by (simp add: le_val_replicate_255 ell_def)
  then show "sr25519_vrf_sign_if_less 0 [] (replicate 96 255) [] (replicate 16 0) =
     Some (\<lparr>result = ScalarFormatError, is_less = False\<rparr>, None)"
    using sr25519_vrf_sign_if_less_result [of "replicate 96 255" "replicate 16 0" 0 "[]" "[]"] by simp
next
  have kp: "length (1 # replicate 95 (0 :: u8)) = 96" "length (replicate 16 (0 :: u8)) = 16"
    "take 32 (1 # replicate 95 (0 :: u8)) = 1 # replicate 31 0" "drop 64 (1 # replicate 95 (0 :: u8)) = replicate 32 0"
    "le_val (1 # replicate 31 (0 :: u8)) = 1" "le_val (replicate 16 (0 :: u8)) = 0" "\<not> ell \<le> 1"
    by (simp_all add: ell_def)
  have less: "(le_val raw < 0) = False" for raw using le_val_nonneg [of raw] by simp
  show "\<exists>t P r c. signing_transcript [7] = Some t \<and> vrf_input t (replicate 32 0) = Some (P, ristretto_encode P) \<and>
     sr25519_vrf_sign_if_less 0 [] (1 # replicate 95 0) [7] (replicate 16 0) =
       Some (\<lparr>result = Ok, is_less = False\<rparr>, Some (ristretto_encode (ge25519_scalarmult_tg P (expand_raw256_modm (1 # replicate 31 0))) @
         le_bytes 32 (sval c) @ le_bytes 32 ((sval r - sval c) mod ell)))"
    using sr25519_vrf_sign_if_less_result [OF kp(1,2), of 0 "[]" "[7]"]
    unfolding kp(3-6) if_not_P [OF kp(7)] less mult_1_right by blast
qed

text \<open>
  C18: VRF verification.  It always returns \<open>Ok\<close> or \<open>EquationFalse\<close>: \<open>Ok\<close> exactly when the proof equations of
  \<open>vrf_verify\<close> hold, with the same threshold comparison as the prover.  The second check of the entry
  point, which recomputes the challenge from the batchable proof, can therefore never fail after the first.
\<close>

theorem sr25519_vrf_verify_result:
  assumes "length threshold = 16" "length output = 32" "length prf = 64"
  shows "\<exists>t r. signing_transcript message = Some t \<and> vrf_verify t_uninit public_key t output prf = Some r \<and>
    returns (\<lambda>res. result res = (if isl r then EquationFalse else Ok) \<and>
      (\<forall>inout batch raw. r = Inr (inout, batch) \<longrightarrow> io_make_bytes inout (ascii ''substrate-babe-vrf'') = Some raw \<longrightarrow>
        is_less res = (le_val raw < le_val threshold)))
      (sr25519_vrf_verify t_uninit public_key message output prf threshold)"
proof -
  obtain t r where v: "signing_transcript message = Some t" "vrf_verify t_uninit public_key t output prf = Some r"
    "sr25519_vrf_verify t_uninit public_key message output prf threshold =
      (case r of Inl err \<Rightarrow> Some \<lparr>result = EquationFalse, is_less = False\<rparr>
       | Inr (inout, _) \<Rightarrow>
           map_option (\<lambda>raw. \<lparr>result = Ok, is_less = le_val raw < le_val threshold\<rparr>)
             (io_make_bytes inout (ascii ''substrate-babe-vrf'')))"
    by (rule sr25519_vrf_verify_correct [OF assms])
  have "returns (\<lambda>res. result res = (if isl r then EquationFalse else Ok) \<and>
      (\<forall>inout batch raw. r = Inr (inout, batch) \<longrightarrow> io_make_bytes inout (ascii ''substrate-babe-vrf'') = Some raw \<longrightarrow>
        is_less res = (le_val raw < le_val threshold)))
      (sr25519_vrf_verify t_uninit public_key message output prf threshold)"
  proof (cases r)
    case (Inr io)
    obtain raw where "io_make_bytes (fst io) (ascii ''substrate-babe-vrf'') = Some raw"
      by (rule returnsE [OF io_make_bytes_ok])
    with Inr v(3) show ?thesis by (cases io) simp
  qed (use v(3) in simp)
  with v(1,2) show ?thesis by blast
qed

theorem sr25519_vrf_verify_result_witness:
  "\<forall>t_uninit. \<exists>res. sr25519_vrf_verify t_uninit (replicate 32 0) [] (replicate 32 0) (replicate 64 0) (replicate 16 0) = Some res
    \<and> (result res = Ok \<or> result res = EquationFalse)"
proof
  fix t_uninit
  show "\<exists>res. sr25519_vrf_verify t_uninit (replicate 32 0) [] (replicate 32 0) (replicate 64 0) (replicate 16 0) = Some res
    \<and> (result res = Ok \<or> result res = EquationFalse)"
    using sr25519_vrf_verify_result [of "replicate 16 0" "replicate 32 0" "replicate 64 0" "[]" t_uninit "replicate 32 0"]
    by (auto simp: returns_def)
qed

end
