(* ===== verification/Randombytes.thy ===== *)
theory Randombytes
  imports Prelude
begin

text \<open>
  The random source: \<open>randombytes_sysrandom.c\<close>, \<open>sr25519-randombytes-default.c\<close> and \<open>core.c\<close> as the Linux
  build compiles them (\<open>getrandom\<close> through its system call, \<open>BLOCK_ON_DEV_RANDOM\<close>, no pthread and no
  atomic lock).

  The operating system is a script: for every system call the list of the replies it will give,
  taken one by one.  A reply \<open>Inl e\<close> is a return value \<open>-1\<close> with \<open>errno\<close> set to \<open>e\<close>.  A call beyond the end of its
  script never returns, which is the outcome \<open>Blocked\<close>; a failed assertion or a call of
  \<open>sr25519_donna_misuse\<close>, which aborts the process, is the outcome \<open>Abort\<close>.
\<close>

section \<open>Outcomes and the system state\<close>

datatype 'a outcome = Done 'a | Abort | Blocked

datatype errno = EINTR | EAGAIN | EIO | EOTHER

record SysRandom =
  random_data_source_fd :: int
  initialized :: bool
  getrandom_available :: bool

record sys =
  stream :: SysRandom
  sys_errno :: errno
  os_getrandom :: "(errno + bytes) list"
  os_read :: "(errno + bytes) list"
  os_open :: "(errno + nat) list"
  os_fstat :: "(errno + bool) list"
  os_poll :: "(errno + int) list"
  os_close :: "errno option list"

definition rbind :: "('s \<Rightarrow> ('a \<times> 's) outcome) \<Rightarrow> ('a \<Rightarrow> 's \<Rightarrow> ('b \<times> 's) outcome) \<Rightarrow> 's \<Rightarrow> ('b \<times> 's) outcome" where
  "rbind m f s = (case m s of Done (x, s') \<Rightarrow> f x s' | Abort \<Rightarrow> Abort | Blocked \<Rightarrow> Blocked)"

definition retry :: "errno \<Rightarrow> bool" where
  "retry e \<longleftrightarrow> e = EINTR \<or> e = EAGAIN"

section \<open>System calls\<close>

text \<open>A reply \<open>Inr b\<close> of \<open>fstat\<close> says whether the file is a character device; \<open>close\<close> may fail with an error.\<close>

definition sys_close :: "sys \<Rightarrow> (int \<times> sys) outcome" where
  "sys_close s =
     (case os_close s of
        [] \<Rightarrow> Blocked
      | None # cs \<Rightarrow> Done (0, s\<lparr>os_close := cs\<rparr>)
      | Some e # cs \<Rightarrow> Done (-1, s\<lparr>os_close := cs, sys_errno := e\<rparr>))"

text \<open>
  \<open>do poll while (pret < 0 and errno is EINTR or EAGAIN)\<close>: the last reply and the value of \<open>errno\<close>,
  which an error that is retried changes too.
\<close>

fun poll_loop :: "errno \<Rightarrow> (errno + int) list \<Rightarrow> ((int \<times> errno) \<times> (errno + int) list) outcome" where
  "poll_loop err [] = Blocked"
| "poll_loop err (Inl e # rs) = (if retry e then poll_loop e rs else Done ((-1, e), rs))"
| "poll_loop err (Inr n # rs) = Done ((n, err), rs)"

section \<open>core.c\<close>

text \<open>
  Without pthread or atomic operations the critical section is empty.  No handler is ever
  installed, so \<open>sr25519_donna_misuse\<close> always ends in \<open>abort\<close>.
\<close>

definition sr25519_donna_crit_enter :: int where
  "sr25519_donna_crit_enter = 0"

definition sr25519_donna_crit_leave :: int where
  "sr25519_donna_crit_leave = 0"

definition sr25519_donna_misuse :: "'s \<Rightarrow> ('a \<times> 's) outcome" where
  "sr25519_donna_misuse s = Abort"

section \<open>Reading the device\<close>

text \<open>\<open>SSIZE_MAX\<close> is the platform's, from \<open>limits.h\<close>.\<close>

definition SSIZE_MAX :: nat where
  "SSIZE_MAX = 2 ^ 63 - 1"

text \<open>
  The loops of \<open>safe_read\<close>: \<open>got\<close> are the bytes stored so far, \<open>len\<close> those still wanted.  The
  result is \<open>readnb\<close> on an error and the number of bytes read otherwise, with the buffer and \<open>errno\<close>.
\<close>

fun safe_read_loop :: "nat \<Rightarrow> bytes \<Rightarrow> errno \<Rightarrow> (errno + bytes) list \<Rightarrow> ((int \<times> bytes \<times> errno) \<times> (errno + bytes) list) outcome" where
  "safe_read_loop len got err [] = Blocked"
| "safe_read_loop len got err (Inl e # rs) =
     (if retry e then safe_read_loop len got e rs else Done ((-1, got, e), rs))"
| "safe_read_loop len got err (Inr bs # rs) =
     (let chunk = take len bs
      in if chunk = [] then Done ((int (length got), got, err), rs)
         else if len - length chunk > 0 then safe_read_loop (len - length chunk) (got @ chunk) err rs
         else Done ((int (length (got @ chunk)), got @ chunk, err), rs))"

definition safe_read :: "nat \<Rightarrow> sys \<Rightarrow> ((int \<times> bytes) \<times> sys) outcome" where
  "safe_read len s =
     (if \<not> 0 < len \<or> \<not> len \<le> SSIZE_MAX then Abort
      else case safe_read_loop len [] (sys_errno s) (os_read s) of
             Done ((n, buf, e), rs) \<Rightarrow> Done ((n, buf), s\<lparr>os_read := rs, sys_errno := e\<rparr>)
           | Abort \<Rightarrow> Abort | Blocked \<Rightarrow> Blocked)"

definition randombytes_block_on_dev_random :: "sys \<Rightarrow> (int \<times> sys) outcome" where
  "randombytes_block_on_dev_random s =
     (case os_open s of
        [] \<Rightarrow> Blocked
      | Inl e # fds \<Rightarrow> Done (0, s\<lparr>os_open := fds, sys_errno := e\<rparr>)
      | Inr fd # fds \<Rightarrow>
          (case poll_loop (sys_errno s) (os_poll s) of
             Done ((pret, e), ps) \<Rightarrow>
               (let s = s\<lparr>os_open := fds, os_poll := ps, sys_errno := e\<rparr>
                in if pret \<noteq> 1
                   then rbind sys_close (\<lambda>_ s. Done (-1, s\<lparr>sys_errno := EIO\<rparr>)) s
                   else sys_close s)
           | Abort \<Rightarrow> Abort | Blocked \<Rightarrow> Blocked))"

text \<open>
  The loop over the device names.  After an interrupted \<open>open\<close> the \<open>continue\<close> tries the same device again.  The call of
  \<open>fcntl\<close> that sets \<open>FD_CLOEXEC\<close> on the descriptor found is left out: its result is discarded and it concerns no state of the model.
\<close>

function dev_open_loop :: "string list \<Rightarrow> sys \<Rightarrow> (int \<times> sys) outcome" where
  "dev_open_loop devices s =
     (case devices of
        [] \<Rightarrow> Done (-1, s\<lparr>sys_errno := EIO\<rparr>)
      | device # rest \<Rightarrow>
          (case os_open s of
             [] \<Rightarrow> Blocked
           | Inl e # fds \<Rightarrow>
               dev_open_loop (if e = EINTR then devices else rest) (s\<lparr>os_open := fds, sys_errno := e\<rparr>)
           | Inr fd # fds \<Rightarrow>
               (case os_fstat s of
                  [] \<Rightarrow> Blocked
                | st # sts \<Rightarrow>
                    (let s = s\<lparr>os_open := fds, os_fstat := sts,
                               sys_errno := (case st of Inl e \<Rightarrow> e | Inr _ \<Rightarrow> sys_errno s)\<rparr>
                     in if st = Inr True then Done (int fd, s)
                        else case os_close s of
                               [] \<Rightarrow> Blocked
                             | c # cs \<Rightarrow>
                                 dev_open_loop rest
                                   (s\<lparr>os_close := cs, sys_errno := (case c of None \<Rightarrow> sys_errno s | Some e \<Rightarrow> e)\<rparr>)))))"
  by pat_completeness auto
termination
  by (relation "measure (\<lambda>(devices, s). length (os_open s))") auto

declare dev_open_loop.simps [simp del]

definition randombytes_sysrandom_random_dev_open :: "sys \<Rightarrow> (int \<times> sys) outcome" where
  "randombytes_sysrandom_random_dev_open =
     rbind randombytes_block_on_dev_random
       (\<lambda>ret s. if ret \<noteq> 0 then Done (-1, s) else dev_open_loop [''/dev/urandom'', ''/dev/random''] s)"

section \<open>getrandom\<close>

fun getrandom_loop :: "nat \<Rightarrow> errno \<Rightarrow> (errno + bytes) list \<Rightarrow> ((bytes option \<times> errno) \<times> (errno + bytes) list) outcome" where
  "getrandom_loop len err [] = Blocked"
| "getrandom_loop len err (Inl e # rs) = (if retry e then getrandom_loop len e rs else Done ((None, e), rs))"
| "getrandom_loop len err (Inr bs # rs) = Done ((Some (take len bs), err), rs)"

text \<open>\<open>_randombytes_linux_getrandom\<close>: 0 with the filled chunk, or \<open>-1\<close>.\<close>

definition linux_getrandom_chunk :: "nat \<Rightarrow> sys \<Rightarrow> ((int \<times> bytes) \<times> sys) outcome" where
  "linux_getrandom_chunk len s =
     (if \<not> len \<le> 256 then Abort
      else case getrandom_loop len (sys_errno s) (os_getrandom s) of
             Done ((reply, e), rs) \<Rightarrow>
               (let s = s\<lparr>os_getrandom := rs, sys_errno := e\<rparr>
                in case reply of None \<Rightarrow> Done ((-1, []), s)
                   | Some bs \<Rightarrow> Done ((of_bool (length bs = len) - 1, bs), s))
           | Abort \<Rightarrow> Abort | Blocked \<Rightarrow> Blocked)"

function randombytes_linux_getrandom :: "nat \<Rightarrow> sys \<Rightarrow> ((int \<times> bytes) \<times> sys) outcome" where
  "randombytes_linux_getrandom len s =
     (let chunk_size = (if len < 256 then len else 256)
      in if len < 256 \<and> \<not> 0 < chunk_size then Abort
         else case linux_getrandom_chunk chunk_size s of
                Done ((ret, chunk), s) \<Rightarrow>
                  if ret \<noteq> 0 then Done ((-1, chunk), s)
                  else if len - chunk_size > 0
                       then rbind (randombytes_linux_getrandom (len - chunk_size))
                              (\<lambda>(ret, rest) s. Done ((ret, chunk @ rest), s)) s
                       else Done ((0, chunk), s)
              | Abort \<Rightarrow> Abort | Blocked \<Rightarrow> Blocked)"
  by pat_completeness auto
termination
  by (relation "measure fst") auto

declare randombytes_linux_getrandom.simps [simp del]

section \<open>The sysrandom implementation\<close>

definition randombytes_sysrandom_init :: "sys \<Rightarrow> (unit \<times> sys) outcome" where
  "randombytes_sysrandom_init s =
     (let errno_save = sys_errno s
      in rbind (randombytes_linux_getrandom 16)
           (\<lambda>(ret, fodder) s.
              if ret = 0
              then Done ((), s\<lparr>stream := (stream s)\<lparr>getrandom_available := True\<rparr>, sys_errno := errno_save\<rparr>)
              else
                rbind randombytes_sysrandom_random_dev_open
                  (\<lambda>fd s. let s = s\<lparr>stream := (stream s)\<lparr>random_data_source_fd := fd\<rparr>\<rparr>
                          in if fd = -1 then sr25519_donna_misuse s
                             else Done ((), s\<lparr>sys_errno := errno_save\<rparr>))
                  (s\<lparr>stream := (stream s)\<lparr>getrandom_available := False\<rparr>\<rparr>)) s)"

definition randombytes_sysrandom_stir :: "sys \<Rightarrow> (unit \<times> sys) outcome" where
  "randombytes_sysrandom_stir s =
     (if \<not> initialized (stream s)
      then rbind randombytes_sysrandom_init
             (\<lambda>_ s. Done ((), s\<lparr>stream := (stream s)\<lparr>initialized := True\<rparr>\<rparr>)) s
      else Done ((), s))"

definition randombytes_sysrandom_stir_if_needed :: "sys \<Rightarrow> (unit \<times> sys) outcome" where
  "randombytes_sysrandom_stir_if_needed s =
     (if \<not> initialized (stream s) then randombytes_sysrandom_stir s else Done ((), s))"

definition randombytes_sysrandom_close :: "sys \<Rightarrow> (int \<times> sys) outcome" where
  "randombytes_sysrandom_close s =
     rbind (\<lambda>s. if random_data_source_fd (stream s) \<noteq> -1 then sys_close s else Done (-1, s))
       (\<lambda>closed s.
          let s' = (if closed = 0
                    then s\<lparr>stream := (stream s)\<lparr>random_data_source_fd := -1, initialized := False\<rparr>\<rparr> else s);
              ret = (if closed = 0 then 0 else -1);
              ret = (if getrandom_available (stream s') then 0 else ret)
          in Done (ret, s')) s"

definition randombytes_sysrandom_buf :: "nat \<Rightarrow> sys \<Rightarrow> (bytes \<times> sys) outcome" where
  "randombytes_sysrandom_buf len =
     rbind randombytes_sysrandom_stir_if_needed
       (\<lambda>_ s. if getrandom_available (stream s)
              then rbind (randombytes_linux_getrandom len)
                     (\<lambda>(ret, buf) s. if ret \<noteq> 0 then sr25519_donna_misuse s else Done (buf, s)) s
              else if random_data_source_fd (stream s) = -1 then sr25519_donna_misuse s
              else rbind (safe_read len)
                     (\<lambda>(n, buf) s. if n \<noteq> int len then sr25519_donna_misuse s else Done (buf, s)) s)"

definition randombytes_sysrandom :: "sys \<Rightarrow> (u32 \<times> sys) outcome" where
  "randombytes_sysrandom =
     rbind (randombytes_sysrandom_buf 4) (\<lambda>buf s. Done (word_of_int (le_val buf), s))"

definition randombytes_sysrandom_implementation_name :: string where
  "randombytes_sysrandom_implementation_name = ''sysrandom''"

section \<open>The implementation table\<close>

text \<open>
  Function pointers act on the system state; an optional one may be null.  The pointer
  \<open>implementation\<close> is null until the first use or a call of \<open>randombytes_set_implementation\<close>.
\<close>

record randombytes_implementation =
  implementation_name :: string
  random_fn :: "sys \<Rightarrow> (u32 \<times> sys) outcome"
  stir_fn :: "(sys \<Rightarrow> (unit \<times> sys) outcome) option"
  uniform_fn :: "(u32 \<Rightarrow> sys \<Rightarrow> (u32 \<times> sys) outcome) option"
  buf_fn :: "nat \<Rightarrow> sys \<Rightarrow> (bytes \<times> sys) outcome"
  close_fn :: "(sys \<Rightarrow> (int \<times> sys) outcome) option"

record rng_state =
  implementation :: "randombytes_implementation option"
  system :: sys

definition randombytes_sysrandom_implementation :: randombytes_implementation where
  "randombytes_sysrandom_implementation =
     \<lparr>implementation_name = randombytes_sysrandom_implementation_name,
      random_fn = randombytes_sysrandom,
      stir_fn = Some randombytes_sysrandom_stir,
      uniform_fn = None,
      buf_fn = randombytes_sysrandom_buf,
      close_fn = Some randombytes_sysrandom_close\<rparr>"

text \<open>A call through the table acts on the system part of the state.\<close>

definition on_system :: "(sys \<Rightarrow> ('a \<times> sys) outcome) \<Rightarrow> rng_state \<Rightarrow> ('a \<times> rng_state) outcome" where
  "on_system f w =
     (case f (system w) of Done (x, s) \<Rightarrow> Done (x, w\<lparr>system := s\<rparr>) | Abort \<Rightarrow> Abort | Blocked \<Rightarrow> Blocked)"

text \<open>
  \<open>randombytes_init_if_needed\<close> and \<open>randombytes_stir\<close> call each other; the inner call finds the pointer set.
\<close>

definition call_stir :: "rng_state \<Rightarrow> (unit \<times> rng_state) outcome" where
  "call_stir w =
     (case Option.bind (implementation w) stir_fn of None \<Rightarrow> Done ((), w) | Some f \<Rightarrow> on_system f w)"

definition randombytes_init_if_needed :: "rng_state \<Rightarrow> (unit \<times> rng_state) outcome" where
  "randombytes_init_if_needed w =
     (if implementation w = None
      then call_stir (w\<lparr>implementation := Some randombytes_sysrandom_implementation\<rparr>)
      else Done ((), w))"

definition randombytes_set_implementation :: "randombytes_implementation option \<Rightarrow> rng_state \<Rightarrow> (int \<times> rng_state) outcome" where
  "randombytes_set_implementation impl w = Done (0, w\<lparr>implementation := impl\<rparr>)"

definition randombytes_implementation_name :: "rng_state \<Rightarrow> (string \<times> rng_state) outcome" where
  "randombytes_implementation_name =
     rbind randombytes_init_if_needed (\<lambda>_ w. Done (implementation_name (the (implementation w)), w))"

definition randombytes_random :: "rng_state \<Rightarrow> (u32 \<times> rng_state) outcome" where
  "randombytes_random =
     rbind randombytes_init_if_needed (\<lambda>_ w. on_system (random_fn (the (implementation w))) w)"

definition randombytes_stir :: "rng_state \<Rightarrow> (unit \<times> rng_state) outcome" where
  "randombytes_stir = rbind randombytes_init_if_needed (\<lambda>_ w. call_stir w)"

definition uniform_min :: "u32 \<Rightarrow> u32" where
  "uniform_min upper_bound = (1 + not upper_bound) mod upper_bound"

text \<open>The rejection loop may run for ever, so it has fuel; without fuel it has not returned.\<close>

fun uniform_loop :: "nat \<Rightarrow> u32 \<Rightarrow> rng_state \<Rightarrow> (u32 \<times> rng_state) outcome" where
  "uniform_loop 0 lower w = Blocked"
| "uniform_loop (Suc fuel) lower w =
     rbind randombytes_random (\<lambda>r w. if r < lower then uniform_loop fuel lower w else Done (r, w)) w"

definition randombytes_uniform :: "nat \<Rightarrow> u32 \<Rightarrow> rng_state \<Rightarrow> (u32 \<times> rng_state) outcome" where
  "randombytes_uniform fuel upper_bound =
     rbind randombytes_init_if_needed
       (\<lambda>_ w. case uniform_fn (the (implementation w)) of
                Some f \<Rightarrow> on_system (f upper_bound) w
              | None \<Rightarrow>
                  if upper_bound < 2 then Done (0, w)
                  else rbind (uniform_loop fuel (uniform_min upper_bound))
                         (\<lambda>r w. Done (r mod upper_bound, w)) w)"

definition randombytes_buf :: "nat \<Rightarrow> rng_state \<Rightarrow> (bytes \<times> rng_state) outcome" where
  "randombytes_buf len =
     rbind randombytes_init_if_needed
       (\<lambda>_ w. if len > 0 then on_system (buf_fn (the (implementation w)) len) w else Done ([], w))"

definition randombytes_seedbytes :: nat where
  "randombytes_seedbytes = 32"

definition randombytes_close :: "rng_state \<Rightarrow> (int \<times> rng_state) outcome" where
  "randombytes_close w =
     (case Option.bind (implementation w) close_fn of None \<Rightarrow> Done (0, w) | Some f \<Rightarrow> on_system f w)"

definition randombytes :: "nat \<Rightarrow> rng_state \<Rightarrow> (bytes \<times> rng_state) outcome" where
  "randombytes buf_len = (\<lambda>w. if \<not> buf_len \<le> 2 ^ 64 - 1 then Abort else randombytes_buf buf_len w)"

definition sr25519_randombytes :: "nat \<Rightarrow> rng_state \<Rightarrow> (bytes \<times> rng_state) outcome" where
  "sr25519_randombytes len = randombytes_buf len"

end
