(* ===== verification/Randombytes_Correct.thy ===== *)
theory Randombytes_Correct
  imports Randombytes
begin

text \<open>
  The random source delivers what it promises: reads return exactly the bytes the system hands over,
  the state machine of the source keeps it readable, and bounded numbers are unbiased.
\<close>

text \<open>Partial and total views of an outcome.\<close>

lemma rbind_Done: "rbind m f s = Done r \<longleftrightarrow> (\<exists>x s'. m s = Done (x, s') \<and> f x s' = Done r)"
  by (auto simp: rbind_def split: outcome.splits)

lemma rbind_step [simp]: "m s = Done (x, s') \<Longrightarrow> rbind m f s = f x s'"
  by (simp add: rbind_def)

lemma misuse_not_Done [simp]: "sr25519_donna_misuse s \<noteq> Done r"
  by (simp add: sr25519_donna_misuse_def)

section \<open>Reading the device\<close>

text \<open>The bytes a list of replies carries.\<close>

definition reply_bytes :: "(errno + bytes) list \<Rightarrow> bytes" where
  "reply_bytes rs = concat (map (case_sum (\<lambda>_. []) id) rs)"

lemma reply_bytes_simps [simp]:
  "reply_bytes [] = []" "reply_bytes (Inl e # rs) = reply_bytes rs" "reply_bytes (Inr bs # rs) = bs @ reply_bytes rs"
  by (simp_all add: reply_bytes_def)

lemma safe_read_loop_correct:
  assumes "safe_read_loop len got err rs = Done ((n, buf, e), rs')" "0 < len"
  shows "\<exists>used. rs = used @ rs' \<and> buf = got @ take len (reply_bytes used) \<and> (n = -1 \<or> n = int (length buf))"
  using assms
proof (induction len got err rs rule: safe_read_loop.induct)
  case (2 len got err e rs)
  show ?case
  proof (cases "retry e")
    case True
    with 2 obtain used where "rs = used @ rs'" "buf = got @ take len (reply_bytes used)" "n = -1 \<or> n = int (length buf)"
      by auto
    then show ?thesis by (intro exI [of _ "Inl e # used"]) simp
  next
    case False
    with 2 show ?thesis by (intro exI [of _ "[Inl e]"]) auto
  qed
next
  case (3 len got err bs rs)
  show ?case
  proof (cases "take len bs \<noteq> [] \<and> 0 < len - length (take len bs)")
    case True
    then have l: "length bs < len" "take len bs = bs" by (auto split: if_splits)
    with 3 True obtain used where "rs = used @ rs'" "buf = (got @ bs) @ take (len - length bs) (reply_bytes used)"
        "n = -1 \<or> n = int (length buf)"
      by (auto simp: Let_def)
    with l show ?thesis by (intro exI [of _ "Inr bs # used"]) simp
  next
    case False
    with 3 show ?thesis by (intro exI [of _ "[Inr bs]"]) (auto simp: Let_def split: if_splits)
  qed
qed simp

lemma safe_read_correct:
  assumes "safe_read len s = Done ((int len, buf), s')"
  shows "length buf = len" and "stream s' = stream s"
    and "\<exists>used. os_read s = used @ os_read s' \<and> buf = take len (reply_bytes used)"
proof -
  obtain e rs where l: "safe_read_loop len [] (sys_errno s) (os_read s) = Done ((int len, buf, e), rs)" "0 < len"
    and s': "s' = s\<lparr>os_read := rs, sys_errno := e\<rparr>"
    using assms by (auto simp: safe_read_def split: if_splits outcome.splits)
  from safe_read_loop_correct [OF l] obtain used where
    "os_read s = used @ rs" "buf = take len (reply_bytes used)" "int len = int (length buf)" by auto
  then show "length buf = len" "stream s' = stream s"
    "\<exists>used. os_read s = used @ os_read s' \<and> buf = take len (reply_bytes used)"
    by (auto simp: s')
qed

section \<open>getrandom in chunks\<close>

lemma linux_getrandom_chunk_length:
  "linux_getrandom_chunk len s = Done ((0, buf), s') \<Longrightarrow> length buf = len \<and> stream s' = stream s"
  by (auto simp: linux_getrandom_chunk_def Let_def split: if_splits outcome.splits option.splits)

lemma linux_getrandom_chunk_stream:
  "linux_getrandom_chunk len s = Done (r, s') \<Longrightarrow> stream s' = stream s"
  by (auto simp: linux_getrandom_chunk_def Let_def split: if_splits outcome.splits option.splits)

lemma randombytes_linux_getrandom_stream:
  "randombytes_linux_getrandom len s = Done ((ret, buf), s') \<Longrightarrow> stream s' = stream s \<and> (ret = 0 \<longrightarrow> length buf = len)"
proof (induction len s arbitrary: ret buf s' rule: randombytes_linux_getrandom.induct)
  case (1 len s)
  define chunk_size where "chunk_size = (if len < 256 then len else (256 :: nat))"
  have cs: "chunk_size \<le> len" by (simp add: chunk_size_def)
  obtain ret1 chunk s1 where c: "linux_getrandom_chunk chunk_size s = Done ((ret1, chunk), s1)"
    using 1(2) unfolding randombytes_linux_getrandom.simps [of len s] Let_def chunk_size_def [symmetric]
    by (auto split: if_splits outcome.splits)
  note st = linux_getrandom_chunk_stream [OF c]
  show ?case
  proof (cases "ret1 = 0 \<and> 0 < len - chunk_size")
    case False
    then show ?thesis
      using 1(2) c st linux_getrandom_chunk_length [of chunk_size s chunk s1] cs
      unfolding randombytes_linux_getrandom.simps [of len s] Let_def chunk_size_def [symmetric]
      by (auto split: if_splits)
  next
    case True
    then obtain rest where r: "randombytes_linux_getrandom (len - chunk_size) s1 = Done ((ret, rest), s')"
      "buf = chunk @ rest" "\<not> (len < 256 \<and> \<not> 0 < chunk_size)"
      using 1(2) c
      unfolding randombytes_linux_getrandom.simps [of len s] Let_def chunk_size_def [symmetric]
      by (auto simp: rbind_Done split: if_splits)
    have "stream s' = stream s1 \<and> (ret = 0 \<longrightarrow> length rest = len - chunk_size)"
      by (rule 1(1) [OF chunk_size_def r(3) c]) (use True r in auto)
    then show ?thesis
      using linux_getrandom_chunk_length [of chunk_size s chunk s1] c True r(2) cs st by auto
  qed
qed

text \<open>The requests a buffer is cut into, and what a system that answers them in full delivers.\<close>

fun chunk_sizes :: "nat \<Rightarrow> nat list" where
  "chunk_sizes len = (if len \<le> 256 then [len] else 256 # chunk_sizes (len - 256))"

declare chunk_sizes.simps [simp del]

lemma randombytes_linux_getrandom_full:
  assumes "0 < len" "os_getrandom s = map Inr chunks @ rest" "map length chunks = chunk_sizes len"
  shows "randombytes_linux_getrandom len s = Done ((0, concat chunks), s\<lparr>os_getrandom := rest\<rparr>)"
  using assms
proof (induction len arbitrary: s chunks rule: chunk_sizes.induct)
  case (1 len)
  show ?case
  proof (cases "len \<le> 256")
    case True
    then obtain c where "chunks = [c]" "length c = len"
      using "1.prems"(3) by (auto simp: chunk_sizes.simps [of len] map_eq_Cons_conv)
    with True "1.prems" show ?thesis
      by (auto simp: randombytes_linux_getrandom.simps [of len] linux_getrandom_chunk_def Let_def)
  next
    case False
    then obtain c cs where c: "chunks = c # cs" "length c = 256" "map length cs = chunk_sizes (len - 256)"
      using "1.prems"(3) by (auto simp: chunk_sizes.simps [of len] map_eq_Cons_conv)
    let ?s = "s\<lparr>os_getrandom := map Inr cs @ rest\<rparr>"
    have "randombytes_linux_getrandom (len - 256) ?s = Done ((0, concat cs), ?s\<lparr>os_getrandom := rest\<rparr>)"
      by (rule "1.IH") (use False c in auto)
    with False "1.prems" c show ?thesis
      by (simp add: randombytes_linux_getrandom.simps [of len] linux_getrandom_chunk_def)
  qed
qed

section \<open>The life cycle of the source\<close>

text \<open>An initialised source can be read: through \<open>getrandom\<close> or through an open device.\<close>

definition source_ok :: "SysRandom \<Rightarrow> bool" where
  "source_ok st \<longleftrightarrow> (initialized st \<longrightarrow> getrandom_available st \<or> random_data_source_fd st \<noteq> -1)"

lemma sys_close_stream: "sys_close s = Done (b, s') \<Longrightarrow> stream s' = stream s"
  by (auto simp: sys_close_def split: list.splits option.splits)

lemma block_on_dev_random_stream:
  "randombytes_block_on_dev_random s = Done (r, s') \<Longrightarrow> stream s' = stream s"
  by (auto simp: randombytes_block_on_dev_random_def Let_def rbind_Done sys_close_def
      split: list.splits sum.splits option.splits outcome.splits if_splits)

lemma dev_open_loop_stream: "dev_open_loop devices s = Done (fd, s') \<Longrightarrow> stream s' = stream s"
proof (induction devices s rule: dev_open_loop.induct)
  case (1 devices s)
  note eq = "1.prems" [unfolded dev_open_loop.simps [of devices s]]
  show ?case
  proof (cases devices)
    case Nil
    with eq show ?thesis by auto
  next
    case (Cons device rest)
    show ?thesis
    proof (cases "os_open s")
      case Nil
      with Cons eq show ?thesis by simp
    next
      case (Cons reply fds)
      show ?thesis
      proof (cases reply)
        case (Inl e)
        with "1.IH"(1) [OF \<open>devices = device # rest\<close> Cons this] Cons \<open>devices = device # rest\<close> eq
        show ?thesis by simp
      next
        case (Inr fd)
        with "1.IH"(2) [OF \<open>devices = device # rest\<close> Cons this] Cons \<open>devices = device # rest\<close> eq
        show ?thesis by (auto simp: Let_def split: list.splits if_splits)
      qed
    qed
  qed
qed

lemma random_dev_open_stream:
  "randombytes_sysrandom_random_dev_open s = Done (fd, s') \<Longrightarrow> stream s' = stream s"
  unfolding randombytes_sysrandom_random_dev_open_def
  by (fastforce simp: rbind_Done dest: block_on_dev_random_stream dev_open_loop_stream split: if_splits)

lemma randombytes_sysrandom_init_correct:
  assumes "randombytes_sysrandom_init s = Done ((), s')"
  shows "getrandom_available (stream s') \<or> random_data_source_fd (stream s') \<noteq> -1" and "sys_errno s' = sys_errno s"
proof -
  obtain ret fodder s1 where g: "randombytes_linux_getrandom 16 s = Done ((ret, fodder), s1)"
    using assms by (auto simp: randombytes_sysrandom_init_def Let_def rbind_Done)
  have "(getrandom_available (stream s') \<or> random_data_source_fd (stream s') \<noteq> -1) \<and> sys_errno s' = sys_errno s"
    using assms unfolding randombytes_sysrandom_init_def Let_def rbind_step [of "randombytes_linux_getrandom 16", OF g]
    by (auto simp: rbind_Done split: if_splits)
  then show "getrandom_available (stream s') \<or> random_data_source_fd (stream s') \<noteq> -1" "sys_errno s' = sys_errno s"
    by simp_all
qed

lemma randombytes_sysrandom_stir_correct:
  assumes "randombytes_sysrandom_stir s = Done ((), s')" "source_ok (stream s)"
  shows "source_ok (stream s') \<and> initialized (stream s')"
  using assms randombytes_sysrandom_init_correct(1) [of s]
  by (auto simp: randombytes_sysrandom_stir_def source_ok_def rbind_Done split: if_splits)

lemma stir_if_needed: "randombytes_sysrandom_stir_if_needed = randombytes_sysrandom_stir"
  by (simp add: fun_eq_iff randombytes_sysrandom_stir_if_needed_def randombytes_sysrandom_stir_def)

lemma randombytes_sysrandom_buf_correct:
  assumes "randombytes_sysrandom_buf len s = Done (buf, s')" "source_ok (stream s)"
  shows "length buf = len" and "source_ok (stream s')" and "initialized (stream s')"
proof -
  obtain s1 where s1: "randombytes_sysrandom_stir s = Done ((), s1)"
    using assms(1) by (auto simp: randombytes_sysrandom_buf_def rbind_Done stir_if_needed)
  note ok = randombytes_sysrandom_stir_correct [OF s1 assms(2)]
  note run = assms(1) [unfolded randombytes_sysrandom_buf_def stir_if_needed
      rbind_step [of randombytes_sysrandom_stir, OF s1]]
  have "length buf = len \<and> stream s' = stream s1"
  proof (cases "getrandom_available (stream s1)")
    case True
    with run have "randombytes_linux_getrandom len s1 = Done ((0, buf), s')"
      by (auto simp: rbind_Done split: if_splits)
    then show ?thesis using randombytes_linux_getrandom_stream by blast
  next
    case False
    with run have "safe_read len s1 = Done ((int len, buf), s')"
      by (auto simp: rbind_Done split: if_splits)
    then show ?thesis using safe_read_correct by blast
  qed
  with ok show "length buf = len" "source_ok (stream s')" "initialized (stream s')" by simp_all
qed

lemma randombytes_sysrandom_close_correct:
  assumes "randombytes_sysrandom_close s = Done (r, s')" "source_ok (stream s)"
  shows "source_ok (stream s')"
proof -
  obtain b s1 where b: "(if random_data_source_fd (stream s) \<noteq> -1 then sys_close s else Done (-1, s)) = Done (b, s1)"
    using assms(1) unfolding randombytes_sysrandom_close_def rbind_Done by blast
  then have "stream s1 = stream s" using sys_close_stream by (auto split: if_splits)
  moreover have "s' = (if b = 0 then s1\<lparr>stream := (stream s1)\<lparr>random_data_source_fd := -1, initialized := False\<rparr>\<rparr> else s1)"
    using assms(1) unfolding randombytes_sysrandom_close_def Let_def rbind_def b
    by (simp only: outcome.case prod.case outcome.inject prod.inject)
  ultimately show ?thesis using assms(2) by (auto simp: source_ok_def)
qed

inductive source_reachable :: "sys \<Rightarrow> bool" where
  start: "stream s = \<lparr>random_data_source_fd = -1, initialized = False, getrandom_available = False\<rparr> \<Longrightarrow> source_reachable s"
| stir: "source_reachable s \<Longrightarrow> randombytes_sysrandom_stir s = Done ((), s') \<Longrightarrow> source_reachable s'"
| buf: "source_reachable s \<Longrightarrow> randombytes_sysrandom_buf len s = Done (bs, s') \<Longrightarrow> source_reachable s'"
| close: "source_reachable s \<Longrightarrow> randombytes_sysrandom_close s = Done (r, s') \<Longrightarrow> source_reachable s'"

lemma source_reachable_ok: "source_reachable s \<Longrightarrow> source_ok (stream s)"
proof (induction rule: source_reachable.induct)
  case (start s)
  then show ?case by (simp add: source_ok_def)
next
  case (stir s s')
  then show ?case using randombytes_sysrandom_stir_correct by blast
next
  case (buf s len bs s')
  then show ?case using randombytes_sysrandom_buf_correct by blast
next
  case (close s r s')
  then show ?case using randombytes_sysrandom_close_correct by blast
qed

section \<open>Unbiased bounded numbers\<close>

lemma uint_uniform_min:
  assumes "2 \<le> ub"
  shows "uint (uniform_min ub) = 2 ^ 32 mod uint ub"
proof -
  have "2 \<le> uint ub" "uint ub < 2 ^ 32" using assms uint_lt2p [of ub] by (simp_all add: word_le_def)
  then have "uint (- ub) = 2 ^ 32 - uint ub"
    using uint_word_ariths(4) [of ub] zmod_zminus1_eq_if [of "uint ub" "2 ^ 32"] by simp
  moreover have "1 + not ub = - ub" by (simp add: not_eq_complement)
  moreover have "(2 ^ 32 - uint ub) mod uint ub = 2 ^ 32 mod uint ub"
    by (rule minus_mod_self2)
  ultimately show ?thesis
    unfolding uniform_min_def by (simp add: uint_mod)
qed

text \<open>In \<open>q\<close> consecutive blocks of length \<open>u\<close> every residue occurs \<open>q\<close> times.\<close>

lemma card_residues:
  fixes m u v :: nat
  assumes "v < u"
  shows "card {n. m \<le> n \<and> n < m + q * u \<and> n mod u = v} = q"
proof (induction q)
  case 0
  show ?case by simp
next
  case (Suc q)
  define b where "b = m + q * u"
  define x where "x = b + (v + u - b mod u) mod u"
  have "x mod u = (b mod u + (v + u - b mod u)) mod u"
    unfolding x_def by (metis mod_add_left_eq mod_add_right_eq)
  moreover have "b mod u + (v + u - b mod u) = v + u"
    using assms mod_less_divisor [of u b] by linarith
  ultimately have x: "x mod u = v" "b \<le> x" "x < b + u" using assms by (simp_all add: x_def)
  have unique: "n = x" if "b \<le> n" "n < b + u" "n mod u = v" for n
  proof -
    have less: "\<bar>int n - int x\<bar> < int u" using that x by linarith
    have "int u dvd int n - int x" using that(3) x(1) by (metis mod_eq_dvd_iff of_nat_mod)
    with less show "n = x"
      using zdvd_not_zless [of "\<bar>int n - int x\<bar>" "int u"] by (cases "n = x") auto
  qed
  have "{n. m \<le> n \<and> n < b + u \<and> n mod u = v} = insert x {n. m \<le> n \<and> n < b \<and> n mod u = v}"
  proof (intro set_eqI iffI)
    fix n assume "n \<in> {n. m \<le> n \<and> n < b + u \<and> n mod u = v}"
    then show "n \<in> insert x {n. m \<le> n \<and> n < b \<and> n mod u = v}"
      using unique [of n] by (cases "n < b") simp_all
  next
    fix n assume "n \<in> insert x {n. m \<le> n \<and> n < b \<and> n mod u = v}"
    then show "n \<in> {n. m \<le> n \<and> n < b + u \<and> n mod u = v}"
      using x b_def by auto
  qed
  moreover have "finite {n. m \<le> n \<and> n < b \<and> n mod u = v}"
    by (rule finite_subset [of _ "{..<b}"]) auto
  moreover have "m + Suc q * u = b + u" by (simp add: b_def)
  ultimately show ?case using Suc [folded b_def] x(2) by (simp del: mult_Suc)
qed

lemma card_accepted:
  assumes "2 \<le> ub" "v < ub"
  shows "card {r :: u32. uniform_min ub \<le> r \<and> r mod ub = v} = 2 ^ 32 div unat ub"
proof -
  define m u where "m = unat (uniform_min ub)" and "u = unat ub"
  have u: "0 < u" "unat v < u" using assms by (auto simp: u_def word_less_nat_alt unat_gt_0 word_le_nat_alt)
  have m: "m = 2 ^ 32 mod u"
    using uint_uniform_min [OF assms(1)] unfolding m_def u_def
    by (metis nat_mod_distrib nat_numeral nat_power_eq uint_nonneg unat_eq_nat_uint zero_le_numeral zero_le_power)
  then have total: "m + (2 ^ 32 div u) * u = 2 ^ 32" by simp
  have "bij_betw unat {r :: u32. uniform_min ub \<le> r \<and> r mod ub = v}
      {n. m \<le> n \<and> n < m + (2 ^ 32 div u) * u \<and> n mod u = unat v}"
    unfolding total
  proof (rule bij_betw_byWitness [where f' = of_nat])
    show "unat ` {r. uniform_min ub \<le> r \<and> r mod ub = v} \<subseteq> {n. m \<le> n \<and> n < 2 ^ 32 \<and> n mod u = unat v}"
      using unsigned_less [where 'b = 32 and 'a = nat] by (auto simp: m_def u_def word_le_nat_alt unat_mod)
    show "of_nat ` {n. m \<le> n \<and> n < 2 ^ 32 \<and> n mod u = unat v} \<subseteq> {r. uniform_min ub \<le> r \<and> r mod ub = v}"
      by (auto simp: m_def u_def word_le_nat_alt unat_mod word_unat_eq_iff unsigned_of_nat take_bit_nat_eq_self)
  qed (auto simp: unsigned_of_nat take_bit_nat_eq_self)
  then show ?thesis
    using card_residues [OF u(2), of m "2 ^ 32 div u"] by (simp add: bij_betw_same_card u_def)
qed

text \<open>
  A state whose system answers the coming requests with the given byte strings, the state at program start, and the state
  after the source has been set up through \<open>getrandom\<close>.
\<close>

definition answering :: "bytes list \<Rightarrow> rng_state \<Rightarrow> rng_state" where
  "answering replies w = w\<lparr>system := (system w)\<lparr>os_getrandom := map Inr replies\<rparr>\<rparr>"

definition at_start :: "rng_state \<Rightarrow> bool" where
  "at_start w \<longleftrightarrow> implementation w = None \<and>
     stream (system w) = \<lparr>random_data_source_fd = -1, initialized = False, getrandom_available = False\<rparr>"

definition opened :: "rng_state \<Rightarrow> rng_state" where
  "opened w = \<lparr>implementation = Some randombytes_sysrandom_implementation,
     system = (system w)\<lparr>stream := \<lparr>random_data_source_fd = -1, initialized = True, getrandom_available = True\<rparr>\<rparr>\<rparr>"

lemma implementation_opened: "implementation (opened w) = Some randombytes_sysrandom_implementation"
  "implementation (answering ds (opened w)) = Some randombytes_sysrandom_implementation"
  by (simp_all add: opened_def answering_def)

lemma randombytes_init_if_needed_start:
  assumes "at_start w" "length fodder = 16"
  shows "randombytes_init_if_needed (answering (fodder # ds) w) = Done ((), answering ds (opened w))"
proof -
  let ?s = "(system w)\<lparr>os_getrandom := map Inr (fodder # ds)\<rparr>"
  have "chunk_sizes 16 = [16]" by (simp add: chunk_sizes.simps)
  then have "randombytes_linux_getrandom 16 ?s = Done ((0, concat [fodder]), ?s\<lparr>os_getrandom := map Inr ds\<rparr>)"
    by (intro randombytes_linux_getrandom_full) (use assms(2) in simp_all)
  with assms(1) show ?thesis
    by (simp add: randombytes_init_if_needed_def at_start_def answering_def opened_def call_stir_def on_system_def
        randombytes_sysrandom_implementation_def randombytes_sysrandom_stir_def randombytes_sysrandom_init_def)
qed

lemma randombytes_random_opened:
  assumes "length d = 4"
  shows "randombytes_random (answering (d # ds) (opened w)) = Done (word_of_int (le_val d), answering ds (opened w))"
proof -
  let ?s = "system (answering (d # ds) (opened w))"
  have "chunk_sizes 4 = [4]" by (simp add: chunk_sizes.simps)
  then have "randombytes_linux_getrandom 4 ?s = Done ((0, concat [d]), ?s\<lparr>os_getrandom := map Inr ds\<rparr>)"
    by (intro randombytes_linux_getrandom_full) (use assms in \<open>simp_all add: answering_def\<close>)
  then show ?thesis
    by (simp add: randombytes_random_def randombytes_init_if_needed_def implementation_opened answering_def opened_def on_system_def
        randombytes_sysrandom_implementation_def randombytes_sysrandom_def randombytes_sysrandom_buf_def
        randombytes_sysrandom_stir_if_needed_def)
qed

lemma le_val_draw: "length d = 4 \<Longrightarrow> 0 \<le> le_val d \<and> le_val d < 2 ^ 32"
  using le_val_bound [of d] le_val_nonneg [of d] by simp

lemma uint_draw: "length d = 4 \<Longrightarrow> uint (word_of_int (le_val d) :: u32) = le_val d"
  using le_val_draw [of d] by (simp add: uint_word_of_int)

text \<open>
  The loop skips the draws below the limit and returns the first one that is not; it needs one unit of fuel for each draw.
\<close>

lemma uniform_loop_draws:
  assumes "\<forall>d \<in> set rejected. length d = 4 \<and> le_val d < uint lower" "length accepted = 4" "uint lower \<le> le_val accepted"
  shows "uniform_loop fuel lower (answering (rejected @ accepted # rest) (opened w)) =
    (if length rejected < fuel then Done (word_of_int (le_val accepted), answering rest (opened w)) else Blocked)"
  using assms(1)
proof (induction rejected arbitrary: fuel)
  case Nil
  have "\<not> (word_of_int (le_val accepted) :: u32) < lower"
    using assms(2,3) by (simp add: word_less_def uint_draw)
  then show ?case by (cases fuel) (simp_all add: randombytes_random_opened assms(2))
next
  case (Cons d rejected)
  then have "(word_of_int (le_val d) :: u32) < lower" by (simp add: word_less_def uint_draw)
  with Cons show ?case by (cases fuel) (simp_all add: randombytes_random_opened)
qed

lemma randombytes_uniform_start:
  assumes "at_start w" "length fodder = 16" "2 \<le> ub"
  shows "randombytes_uniform fuel ub (answering (fodder # ds) w) =
    rbind (uniform_loop fuel (uniform_min ub)) (\<lambda>r w. Done (r mod ub, w)) (answering ds (opened w))"
  using assms(3)
  by (simp add: randombytes_uniform_def rbind_step [of randombytes_init_if_needed, OF randombytes_init_if_needed_start [OF assms(1,2)]]
      implementation_opened randombytes_sysrandom_implementation_def not_less [symmetric])

lemma randombytes_uniform_draws:
  assumes "at_start w" "length fodder = 16" "2 \<le> ub"
    and "\<forall>d \<in> set rejected. length d = 4 \<and> le_val d < 2 ^ 32 mod uint ub"
    and "length accepted = 4" "2 ^ 32 mod uint ub \<le> le_val accepted"
  shows "randombytes_uniform fuel ub (answering (fodder # rejected @ accepted # rest) w) =
    (if length rejected < fuel
     then Done (word_of_int (le_val accepted mod uint ub), answering rest (opened w)) else Blocked)"
proof -
  have "(word_of_int (le_val accepted) :: u32) mod ub = word_of_int (le_val accepted mod uint ub)"
    using assms(5) by (simp add: word_mod_def uint_draw)
  then show ?thesis
    using uniform_loop_draws [of rejected "uniform_min ub" accepted fuel rest w] assms(4-6)
    by (simp add: randombytes_uniform_start [OF assms(1-3)] uint_uniform_min [OF assms(3)] rbind_def)
qed

lemma randombytes_uniform_one_draw:
  assumes "at_start w" "length fodder = 16" "2 \<le> ub" "length d = 4"
  shows "map_outcome fst (randombytes_uniform 1 ub (answering [fodder, d] w)) = Done v \<longleftrightarrow>
    uniform_min ub \<le> word_of_int (le_val d) \<and> word_of_int (le_val d) mod ub = v"
  using randombytes_random_opened [OF assms(4), of "[]" w]
  by (auto simp: randombytes_uniform_start [OF assms(1-3)] rbind_def not_less)

text \<open>The draws with which the function returns at once, counted by the result.\<close>

lemma card_accepting_draws:
  assumes "at_start w" "length fodder = 16" "2 \<le> ub" "v < ub"
  shows "card {d. length d = 4 \<and> map_outcome fst (randombytes_uniform 1 ub (answering [fodder, d] w)) = Done v} =
    2 ^ 32 div unat ub"
proof -
  have "bij_betw (\<lambda>d. word_of_int (le_val d))
      {d. length d = 4 \<and> map_outcome fst (randombytes_uniform 1 ub (answering [fodder, d] w)) = Done v}
      {r :: u32. uniform_min ub \<le> r \<and> r mod ub = v}"
  proof (rule bij_betw_byWitness [where f' = "\<lambda>r. le_bytes 4 (uint r)"])
    show "\<forall>d \<in> {d. length d = 4 \<and> map_outcome fst (randombytes_uniform 1 ub (answering [fodder, d] w)) = Done v}.
        le_bytes 4 (uint (word_of_int (le_val d) :: u32)) = d"
      by (auto simp: uint_draw) (metis le_bytes_le_val)
    have inv: "(word_of_int (le_val (le_bytes 4 (uint r))) :: u32) = r" for r :: u32
      using uint_lt2p [of r] by (simp add: le_val_le_bytes)
    then show "\<forall>r \<in> {r :: u32. uniform_min ub \<le> r \<and> r mod ub = v}. word_of_int (le_val (le_bytes 4 (uint r))) = r"
      by simp
    show "(\<lambda>d. word_of_int (le_val d)) ` {d. length d = 4 \<and>
        map_outcome fst (randombytes_uniform 1 ub (answering [fodder, d] w)) = Done v} \<subseteq> {r. uniform_min ub \<le> r \<and> r mod ub = v}"
      using randombytes_uniform_one_draw [OF assms(1-3)] by auto
    show "(\<lambda>r. le_bytes 4 (uint r)) ` {r. uniform_min ub \<le> r \<and> r mod ub = v} \<subseteq> {d. length d = 4 \<and>
        map_outcome fst (randombytes_uniform 1 ub (answering [fodder, d] w)) = Done v}"
      using randombytes_uniform_one_draw [OF assms(1-3)] inv by auto
  qed
  then show ?thesis using card_accepted [OF assms(3,4)] by (simp add: bij_betw_same_card)
qed

section \<open>Properties\<close>

text \<open>The system at program start, with the replies \<open>getrandom\<close> will give.\<close>

definition fresh_sys :: "(errno + bytes) list \<Rightarrow> sys" where
  "fresh_sys replies =
     \<lparr>stream = \<lparr>random_data_source_fd = -1, initialized = False, getrandom_available = False\<rparr>,
      sys_errno = EIO, os_getrandom = replies, os_read = [], os_open = [], os_fstat = [], os_poll = [], os_close = []\<rparr>"

text \<open>
  C38: the life cycle of the source.  In every state that sequences of stirring, reading and closing reach from
  the static initialiser, an initialised source has \<open>getrandom\<close> or an open device, so the misuse branch for
  a missing device is never taken; a read that returns delivers exactly the requested number of bytes.
\<close>

theorem sysrandom_life_cycle:
  assumes "source_reachable s"
  shows "(initialized (stream s) \<longrightarrow> getrandom_available (stream s) \<or> random_data_source_fd (stream s) \<noteq> -1) \<and>
    (\<forall>len buf s'. randombytes_sysrandom_buf len s = Done (buf, s') \<longrightarrow>
      length buf = len \<and> initialized (stream s') \<and> source_reachable s')"
  using source_reachable_ok [OF assms] randombytes_sysrandom_buf_correct source_reachable.buf [OF assms]
  by (simp add: source_ok_def)

theorem sysrandom_life_cycle_witness:
  "\<exists>buf s'. randombytes_sysrandom_buf 2 (fresh_sys [Inl EINTR, Inr (replicate 16 0), Inr [1, 2]]) = Done (buf, s') \<and>
    length buf = 2 \<and> initialized (stream s')"
proof -
  have "source_reachable (fresh_sys [Inl EINTR, Inr (replicate 16 0), Inr [1, 2]])"
    by (rule source_reachable.start) (simp add: fresh_sys_def)
  note life = sysrandom_life_cycle [OF this]
  have "\<exists>buf s'. randombytes_sysrandom_buf 2 (fresh_sys [Inl EINTR, Inr (replicate 16 0), Inr [1, 2]]) = Done (buf, s')"
    by (simp add: fresh_sys_def randombytes_sysrandom_buf_def randombytes_sysrandom_stir_if_needed_def
        randombytes_sysrandom_stir_def randombytes_sysrandom_init_def randombytes_linux_getrandom.simps
        linux_getrandom_chunk_def retry_def rbind_def)
  with life show ?thesis by blast
qed

text \<open>
  C39: delivery.  From the initial state, when the system answers the probe of 16 bytes and then every request in full,
  \<open>randombytes_buf\<close> cuts the buffer into requests of at most 256 bytes, returns exactly the bytes
  received, in order, and leaves the source initialised with \<open>errno\<close> unchanged.
\<close>

theorem randombytes_buf_delivers:
  assumes "0 < len" "implementation w = None"
    "stream (system w) = \<lparr>random_data_source_fd = -1, initialized = False, getrandom_available = False\<rparr>"
    "os_getrandom (system w) = Inr fodder # map Inr chunks @ rest" "length fodder = 16"
    "map length chunks = chunk_sizes len"
  shows "randombytes_buf len w = Done (concat chunks,
    \<lparr>implementation = Some randombytes_sysrandom_implementation,
     system = (system w)\<lparr>os_getrandom := rest,
       stream := \<lparr>random_data_source_fd = -1, initialized = True, getrandom_available = True\<rparr>\<rparr>\<rparr>)"
proof -
  obtain s where w: "w = \<lparr>implementation = None, system = s\<rparr>" using assms(2) by (cases w) simp
  have s: "stream s = \<lparr>random_data_source_fd = -1, initialized = False, getrandom_available = False\<rparr>"
    "os_getrandom s = map Inr [fodder] @ (map Inr chunks @ rest)"
    using assms(3,4) by (simp_all add: w)
  have "chunk_sizes 16 = [16]" by (simp add: chunk_sizes.simps)
  then have "randombytes_linux_getrandom 16 s = Done ((0, concat [fodder]), s\<lparr>os_getrandom := map Inr chunks @ rest\<rparr>)"
    by (intro randombytes_linux_getrandom_full) (use s(2) assms(5) in simp_all)
  then have stir: "randombytes_sysrandom_stir s = Done ((), s\<lparr>os_getrandom := map Inr chunks @ rest,
      stream := \<lparr>random_data_source_fd = -1, initialized = True, getrandom_available = True\<rparr>\<rparr>)"
    using s(1) by (simp add: randombytes_sysrandom_stir_def randombytes_sysrandom_init_def)
  let ?s = "s\<lparr>os_getrandom := map Inr chunks @ rest,
      stream := \<lparr>random_data_source_fd = -1, initialized = True, getrandom_available = True\<rparr>\<rparr>"
  have "randombytes_linux_getrandom len ?s = Done ((0, concat chunks), ?s\<lparr>os_getrandom := rest\<rparr>)"
    by (rule randombytes_linux_getrandom_full) (use assms in simp_all)
  then have "randombytes_sysrandom_buf len ?s = Done (concat chunks, ?s\<lparr>os_getrandom := rest\<rparr>)"
    by (simp add: randombytes_sysrandom_buf_def randombytes_sysrandom_stir_if_needed_def)
  with stir assms(1) show ?thesis
    by (simp add: w randombytes_buf_def randombytes_init_if_needed_def call_stir_def on_system_def
        randombytes_sysrandom_implementation_def)
qed

theorem randombytes_buf_delivers_witness:
  "map_outcome fst (randombytes_buf 3 \<lparr>implementation = None, system = fresh_sys [Inr (replicate 16 0), Inr [7, 8, 9]]\<rparr>) = Done [7, 8, 9]"
  using randombytes_buf_delivers [of 3 "\<lparr>implementation = None, system = fresh_sys [Inr (replicate 16 0), Inr [7, 8, 9]]\<rparr>" "replicate 16 0" "[[7, 8, 9]]" "[]"]
  by (simp add: chunk_sizes.simps fresh_sys_def)

text \<open>
  C40: bounded random numbers without bias.  From program start, with a bound of at least 2 and a system that delivers 32-bit draws,
  \<open>randombytes_uniform\<close> skips every draw below \<open>2\<^sup>3\<^sup>2\<close> modulo the bound and returns the first other draw modulo the bound,
  having consumed exactly the draws up to it; one round of the loop per draw is enough and necessary.  Of all four-byte draws, exactly
  the same number makes the function return each of the results below the bound without a second draw.
\<close>

theorem randombytes_uniform_unbiased:
  assumes "at_start w" "length fodder = 16" "2 \<le> upper_bound"
  shows "(\<forall>rejected accepted rest fuel.
      (\<forall>d \<in> set rejected. length d = 4 \<and> le_val d < 2 ^ 32 mod uint upper_bound) \<longrightarrow>
      length accepted = 4 \<and> 2 ^ 32 mod uint upper_bound \<le> le_val accepted \<longrightarrow>
      randombytes_uniform fuel upper_bound (answering (fodder # rejected @ accepted # rest) w) =
        (if length rejected < fuel
         then Done (word_of_int (le_val accepted mod uint upper_bound), answering rest (opened w)) else Blocked)) \<and>
    (\<forall>v < upper_bound.
      card {d. length d = 4 \<and> map_outcome fst (randombytes_uniform 1 upper_bound (answering [fodder, d] w)) = Done v} =
        2 ^ 32 div unat upper_bound)"
  using randombytes_uniform_draws [OF assms] card_accepting_draws [OF assms] by blast

theorem randombytes_uniform_unbiased_witness:
  "map_outcome fst (randombytes_uniform 2 10 \<lparr>implementation = None,
      system = fresh_sys [Inr (replicate 16 0), Inr [5, 0, 0, 0], Inr [27, 0, 0, 0]]\<rparr>) = Done 7 \<and>
    card {d. length d = 4 \<and> map_outcome fst (randombytes_uniform 1 10 \<lparr>implementation = None,
      system = fresh_sys [Inr (replicate 16 0), Inr d]\<rparr>) = Done 3} = 429496729"
proof -
  let ?w = "\<lparr>implementation = None, system = fresh_sys []\<rparr> :: rng_state"
  have a: "answering rs ?w = \<lparr>implementation = None, system = fresh_sys (map Inr rs)\<rparr>" for rs
    by (simp add: answering_def fresh_sys_def)
  have "at_start ?w" by (simp add: at_start_def fresh_sys_def)
  note u = randombytes_uniform_unbiased [OF this, of "replicate 16 0" 10]
  have "randombytes_uniform 2 10 (answering (replicate 16 0 # [[5, 0, 0, 0]] @ [27, 0, 0, 0] # []) ?w) =
      Done (7, answering [] (opened ?w))"
    using u [THEN conjunct1, rule_format, of "[[5, 0, 0, 0]]" "[27, 0, 0, 0]" 2 "[]"] by simp
  moreover have "card {d. length d = 4 \<and>
      map_outcome fst (randombytes_uniform 1 10 (answering [replicate 16 0, d] ?w)) = Done 3} = 429496729"
    using u [THEN conjunct2, rule_format, of 3] by simp
  ultimately show ?thesis by (simp only: a list.map append.simps) simp
qed
end
