(* ===== verification/Edwards_Group.thy ===== *)
theory Edwards_Group
  imports Main
begin

text \<open>
  The twisted Edwards curve \<open>- x\<^sup>2 + y\<^sup>2 = 1 + d x\<^sup>2 y\<^sup>2\<close> over a field in which \<open>-1\<close> is a square and \<open>d\<close> is not:
  its addition law is complete, closed and a commutative group.
\<close>

locale edwards_curve =
  fixes d i :: "'a :: field"
  assumes square_minus_one: "i * i = - 1"
    and two_nonzero: "(2 :: 'a) \<noteq> 0"
    and d_nonsquare: "r * r \<noteq> d"
begin

definition on_curve :: "'a \<times> 'a \<Rightarrow> bool" where
  "on_curve P \<longleftrightarrow> (case P of (x, y) \<Rightarrow> - (x * x) + y * y = 1 + d * (x * x) * (y * y))"

definition plus_pt :: "'a \<times> 'a \<Rightarrow> 'a \<times> 'a \<Rightarrow> 'a \<times> 'a" where
  "plus_pt P Q = (case (P, Q) of ((x1, y1), (x2, y2)) \<Rightarrow>
     ((x1 * y2 + x2 * y1) / (1 + d * x1 * x2 * y1 * y2), (y1 * y2 + x1 * x2) / (1 - d * x1 * x2 * y1 * y2)))"

definition minus_pt :: "'a \<times> 'a \<Rightarrow> 'a \<times> 'a" where
  "minus_pt P = (case P of (x, y) \<Rightarrow> (- x, y))"

lemma nonsquare_product: "u \<noteq> 0 \<Longrightarrow> v * v \<noteq> d * (u * u)"
proof
  assume u: "u \<noteq> 0" and eq: "v * v = d * (u * u)"
  have "(v / u) * (v / u) = (v * v) / (u * u)" by simp
  also have "\<dots> = d" using u by (simp add: eq)
  finally show False using d_nonsquare by blast
qed

lemma complete_aux:
  assumes "on_curve (x1, y1)" "on_curve (x2, y2)" "e * e = 1" "d * x1 * x2 * y1 * y2 = e"
  shows False
proof -
  have nz: "x1 * y1 \<noteq> 0" "x2 \<noteq> 0" "y2 \<noteq> 0" using assms(3,4) by auto
  have c1: "- (x1 * x1) + y1 * y1 = 1 + d * (x1 * x1) * (y1 * y1)"
    and c2: "- (x2 * x2) + y2 * y2 = 1 + d * (x2 * x2) * (y2 * y2)"
    using assms(1,2) by (simp_all add: on_curve_def)
  note ii = square_minus_one
  have "(i * x1 + e * y1) * (i * x1 + e * y1) = d * ((x1 * y1 * (i * x2 + y2)) * (x1 * y1 * (i * x2 + y2)))"
    using c1 c2 ii assms(3,4) by algebra
  moreover have "(i * x1 - e * y1) * (i * x1 - e * y1) = d * ((x1 * y1 * (i * x2 - y2)) * (x1 * y1 * (i * x2 - y2)))"
    using c1 c2 ii assms(3,4) by algebra
  ultimately have "i * x2 + y2 = 0" "i * x2 - y2 = 0"
    using nonsquare_product nz(1) by (metis no_zero_divisors)+
  then have "2 * y2 = 0" by (simp add: algebra_simps)
  with two_nonzero nz(3) show False by simp
qed

lemma complete:
  assumes "on_curve (x1, y1)" "on_curve (x2, y2)"
  shows "1 + d * x1 * x2 * y1 * y2 \<noteq> 0" "1 - d * x1 * x2 * y1 * y2 \<noteq> 0"
proof -
  show "1 + d * x1 * x2 * y1 * y2 \<noteq> 0"
    using complete_aux [OF assms, of "- 1"] by (auto simp: add_eq_0_iff)
  show "1 - d * x1 * x2 * y1 * y2 \<noteq> 0"
    using complete_aux [OF assms, of 1] by auto
qed

lemma frac_curve:
  fixes X Y F G :: 'a
  assumes "F \<noteq> 0" "G \<noteq> 0"
    and "(- (X * X) * (G * G) + Y * Y * (F * F)) = F * F * (G * G) + d * (X * X) * (Y * Y)"
  shows "on_curve (X / F, Y / G)"
proof -
  define x y where "x = X / F" and "y = Y / G"
  have "X = x * F" "Y = y * G" using assms(1,2) by (simp_all add: x_def y_def)
  then have "(F * F * (G * G)) * (- (x * x) + y * y - (1 + d * (x * x) * (y * y))) = 0"
    using assms(3) by algebra
  then show ?thesis using assms(1,2) by (simp add: on_curve_def x_def [symmetric] y_def [symmetric])
qed

lemma closed:
  assumes "on_curve P" "on_curve Q"
  shows "on_curve (plus_pt P Q)"
proof -
  obtain x1 y1 x2 y2 where PQ: "P = (x1, y1)" "Q = (x2, y2)" by fastforce
  have c: "- (x1 * x1) + y1 * y1 = 1 + d * (x1 * x1) * (y1 * y1)"
    "- (x2 * x2) + y2 * y2 = 1 + d * (x2 * x2) * (y2 * y2)"
    using assms by (simp_all add: on_curve_def PQ)
  show ?thesis
    unfolding PQ plus_pt_def prod.case
    by (rule frac_curve [OF complete [OF assms [unfolded PQ]]]) (use c in algebra)
qed

lemma plus_pt_comm: "plus_pt P Q = plus_pt Q P"
  by (cases P; cases Q) (simp add: plus_pt_def ac_simps)

lemma neutral_closed: "on_curve (0, 1)"
  by (simp add: on_curve_def)

lemma plus_pt_neutral: "plus_pt (0, 1) P = P"
  by (cases P) (simp add: plus_pt_def)

lemma minus_closed: "on_curve P \<Longrightarrow> on_curve (minus_pt P)"
  by (cases P) (simp add: on_curve_def minus_pt_def)

lemma plus_pt_inverse: "on_curve P \<Longrightarrow> plus_pt (minus_pt P) P = (0, 1)"
proof (cases P)
  case (Pair x y)
  assume c: "on_curve P"
  then have "1 + d * x * x * y * y \<noteq> 0" using complete(1) Pair by blast
  moreover have "y * y + - x * x = 1 + d * x * x * y * y" using c Pair by (simp add: on_curve_def algebra_simps)
  ultimately show ?thesis by (simp add: Pair plus_pt_def minus_pt_def)
qed

text \<open>
  Associativity: both sides as fractions with nonzero denominators, whose cross products agree by the three
  curve equations.
\<close>

lemma plus_pt_fraction:
  assumes "F \<noteq> 0" "G \<noteq> 0"
  shows "plus_pt (X / F, Y / G) (x, y) =
    ((X * y * G + x * Y * F) / (F * G + d * X * x * Y * y), (Y * y * F + X * x * G) / (F * G - d * X * x * Y * y))"
proof -
  define a b where ab: "a = X / F" "b = Y / G"
  have XY: "X = a * F" "Y = b * G" using assms by (simp_all add: ab)
  have "X * y * G + x * Y * F = (F * G) * (a * y + x * b)" "F * G + d * X * x * Y * y = (F * G) * (1 + d * a * x * b * y)"
    "Y * y * F + X * x * G = (F * G) * (b * y + a * x)" "F * G - d * X * x * Y * y = (F * G) * (1 - d * a * x * b * y)"
    by (simp_all add: XY algebra_simps)
  then show ?thesis using assms by (simp add: ab [symmetric] plus_pt_def)
qed

lemma fraction_denominators:
  assumes "F \<noteq> 0" "G \<noteq> 0" "on_curve (X / F, Y / G)" "on_curve (x, y)"
  shows "F * G + d * X * x * Y * y \<noteq> 0" "F * G - d * X * x * Y * y \<noteq> 0"
proof -
  define a b where ab: "a = X / F" "b = Y / G"
  have XY: "X = a * F" "Y = b * G" using assms by (simp_all add: ab)
  have "F * G + d * X * x * Y * y = (F * G) * (1 + d * a * x * b * y)"
    "F * G - d * X * x * Y * y = (F * G) * (1 - d * a * x * b * y)"
    by (simp_all add: XY algebra_simps)
  then show "F * G + d * X * x * Y * y \<noteq> 0" "F * G - d * X * x * Y * y \<noteq> 0"
    using assms complete [of a b x y] by (simp_all add: ab)
qed

lemma assoc_identity_x:
  assumes "- (x1 * x1) + y1 * y1 = 1 + d * (x1 * x1) * (y1 * y1)"
    and "- (x2 * x2) + y2 * y2 = 1 + d * (x2 * x2) * (y2 * y2)"
    and "- (x3 * x3) + y3 * y3 = 1 + d * (x3 * x3) * (y3 * y3)"
  shows "((x1 * y2 + x2 * y1) * y3 * (1 - d * x1 * x2 * y1 * y2) + x3 * (y1 * y2 + x1 * x2) * (1 + d * x1 * x2 * y1 * y2))
       * ((1 + d * x2 * x3 * y2 * y3) * (1 - d * x2 * x3 * y2 * y3) + d * (x2 * y3 + x3 * y2) * x1 * (y2 * y3 + x2 * x3) * y1)
     = ((x2 * y3 + x3 * y2) * y1 * (1 - d * x2 * x3 * y2 * y3) + x1 * (y2 * y3 + x2 * x3) * (1 + d * x2 * x3 * y2 * y3))
       * ((1 + d * x1 * x2 * y1 * y2) * (1 - d * x1 * x2 * y1 * y2) + d * (x1 * y2 + x2 * y1) * x3 * (y1 * y2 + x1 * x2) * y3)"
  using assms by algebra

lemma assoc_identity_y:
  assumes "- (x1 * x1) + y1 * y1 = 1 + d * (x1 * x1) * (y1 * y1)"
    and "- (x2 * x2) + y2 * y2 = 1 + d * (x2 * x2) * (y2 * y2)"
    and "- (x3 * x3) + y3 * y3 = 1 + d * (x3 * x3) * (y3 * y3)"
  shows "((y1 * y2 + x1 * x2) * y3 * (1 + d * x1 * x2 * y1 * y2) + (x1 * y2 + x2 * y1) * x3 * (1 - d * x1 * x2 * y1 * y2))
       * ((1 + d * x2 * x3 * y2 * y3) * (1 - d * x2 * x3 * y2 * y3) - d * (x2 * y3 + x3 * y2) * x1 * (y2 * y3 + x2 * x3) * y1)
     = ((y2 * y3 + x2 * x3) * y1 * (1 + d * x2 * x3 * y2 * y3) + (x2 * y3 + x3 * y2) * x1 * (1 - d * x2 * x3 * y2 * y3))
       * ((1 + d * x1 * x2 * y1 * y2) * (1 - d * x1 * x2 * y1 * y2) - d * (x1 * y2 + x2 * y1) * x3 * (y1 * y2 + x1 * x2) * y3)"
  using assms by algebra

lemma plus_pt_assoc:
  assumes "on_curve P" "on_curve Q" "on_curve R"
  shows "plus_pt (plus_pt P Q) R = plus_pt P (plus_pt Q R)"
proof -
  obtain x1 y1 x2 y2 x3 y3 where pts: "P = (x1, y1)" "Q = (x2, y2)" "R = (x3, y3)" by (metis surj_pair)
  note on = assms [unfolded pts]
  have c: "- (x1 * x1) + y1 * y1 = 1 + d * (x1 * x1) * (y1 * y1)"
    "- (x2 * x2) + y2 * y2 = 1 + d * (x2 * x2) * (y2 * y2)"
    "- (x3 * x3) + y3 * y3 = 1 + d * (x3 * x3) * (y3 * y3)"
    using on by (simp_all add: on_curve_def)
  note f12 = complete [OF on(1,2)] and f23 = complete [OF on(2,3)]
  note on12 = closed [OF on(1,2), unfolded plus_pt_def prod.case]
    and on23 = closed [OF on(2,3), unfolded plus_pt_def prod.case]
  have l: "plus_pt (plus_pt P Q) R = plus_pt ((x1 * y2 + x2 * y1) / (1 + d * x1 * x2 * y1 * y2),
      (y1 * y2 + x1 * x2) / (1 - d * x1 * x2 * y1 * y2)) (x3, y3)"
    by (simp add: pts plus_pt_def [of "(x1, y1)"])
  have r: "plus_pt P (plus_pt Q R) = plus_pt ((x2 * y3 + x3 * y2) / (1 + d * x2 * x3 * y2 * y3),
      (y2 * y3 + x2 * x3) / (1 - d * x2 * x3 * y2 * y3)) (x1, y1)"
    unfolding plus_pt_comm [of P] by (simp add: pts plus_pt_def [of "(x2, y2)"])
  show ?thesis
    unfolding l r plus_pt_fraction [OF f12] plus_pt_fraction [OF f23] prod.inject
      frac_eq_eq [OF fraction_denominators(1) [OF f12 on12 on(3)] fraction_denominators(1) [OF f23 on23 on(1)]]
      frac_eq_eq [OF fraction_denominators(2) [OF f12 on12 on(3)] fraction_denominators(2) [OF f23 on23 on(1)]]
    by (intro conjI assoc_identity_x [OF c] assoc_identity_y [OF c])
qed

end

end
