(* ===== verification/Prime_Criterion.thy ===== *)
theory Prime_Criterion
  imports Main
begin

text \<open>
  A primality criterion that works from a partial factorisation of \<open>n - 1\<close> (Pocklington), with
  Fermat's little theorem proved on the way, and the soundness of certified chains of modular
  squarings.
\<close>

definition is_prime :: "int \<Rightarrow> bool" where
  "is_prime n \<longleftrightarrow> 1 < n \<and> (\<forall>d. 0 < d \<longrightarrow> d dvd n \<longrightarrow> d = 1 \<or> d = n)"

lemma prime_coprime:
  assumes "is_prime r" "\<not> r dvd a"
  shows "coprime r a"
proof -
  have "gcd r a = 1 \<or> gcd r a = r"
    using assms(1) gcd_pos_int [of r a] by (auto simp: is_prime_def)
  with assms(2) show ?thesis by (metis coprime_iff_gcd_eq_1 gcd_dvd2)
qed

lemma prime_dvd_mult:
  "is_prime r \<Longrightarrow> r dvd a * b \<longleftrightarrow> r dvd a \<or> r dvd b"
  using prime_coprime coprime_dvd_mult_right_iff by (metis dvd_mult dvd_mult2)

lemma prime_dvd_power: "is_prime r \<Longrightarrow> r dvd a ^ n \<Longrightarrow> r dvd a"
  by (induction n) (auto simp: prime_dvd_mult is_prime_def)

text \<open>The least divisor above 1 is prime, and at most the root of a composite number.\<close>

lemma least_prime_divisor:
  assumes "1 < (n :: int)"
  obtains r where "is_prime r" "r dvd n" "is_prime n \<or> r * r \<le> n"
proof -
  define k where "k = (LEAST k. 1 < k \<and> int k dvd n)"
  have ex: "1 < nat n \<and> int (nat n) dvd n" using assms by simp
  have k: "1 < k" "int k dvd n" using LeastI [of "\<lambda>k. 1 < k \<and> int k dvd n", OF ex] by (simp_all add: k_def)
  have least: "int k \<le> d" if "1 < d" "d dvd n" for d
    using Least_le [of "\<lambda>k. 1 < k \<and> int k dvd n" "nat d"] that by (simp add: k_def)
  have "is_prime (int k)"
    unfolding is_prime_def
  proof (intro conjI allI impI)
    show "1 < int k" using k by simp
    fix d assume d: "0 < d" "d dvd int k"
    then have "d \<le> int k" using k by (intro zdvd_imp_le) auto
    with d least [of d] k(2) show "d = 1 \<or> d = int k" using dvd_trans by fastforce
  qed
  moreover have "is_prime n \<or> int k * int k \<le> n"
  proof (cases "n = int k")
    case False
    obtain m where m: "n = int k * m" using k(2) by blast
    have "0 < int k * m" using m assms by simp
    then have "0 < m" using k(1) by (simp add: zero_less_mult_iff)
    moreover have "m \<noteq> 1" using m False by auto
    ultimately have "1 < m" by simp
    then have "int k \<le> m" using least [of m] m by simp
    then show ?thesis using m k(1) by (simp add: mult_left_mono)
  qed (use \<open>is_prime (int k)\<close> in simp)
  ultimately show ?thesis using that k(2) by blast
qed

section \<open>Fermat's little theorem\<close>

lemma prime_dvd_choose:
  assumes "is_prime (int r)" "0 < k" "k < r"
  shows "int r dvd int (r choose k)"
proof -
  have "k * (r choose k) = r * ((r - 1) choose (k - 1))"
    using times_binomial_minus1_eq [OF assms(2)] .
  then have "int k * int (r choose k) = int r * int ((r - 1) choose (k - 1))"
    by (metis of_nat_mult)
  then have "int r dvd int k * int (r choose k)" by simp
  moreover have "\<not> int r dvd int k" using assms nat_dvd_not_less [of k r] by simp
  ultimately show ?thesis by (simp add: prime_dvd_mult [OF assms(1)])
qed

lemma fermat_add_one:
  assumes "is_prime (int r)"
  shows "(x + 1) ^ r mod int r = (x ^ r + 1) mod int r"
proof -
  have r: "0 < r" using assms by (simp add: is_prime_def)
  define f where "f k = int (r choose k) * x ^ k" for k
  have "(x + 1) ^ r = (\<Sum>k\<le>r. f k)"
    by (simp add: binomial_ring f_def)
  also have "{..r} = insert 0 (insert r {1..<r})" using r by auto
  also have "sum f (insert 0 (insert r {1..<r})) = f 0 + (f r + sum f {1..<r})"
    using r by simp
  finally have "(x + 1) ^ r = (f 0 + f r) + sum f {1..<r}" by simp
  moreover have "int r dvd sum f {1..<r}"
    using prime_dvd_choose [OF assms] by (intro dvd_sum) (simp add: f_def)
  then obtain c where "sum f {1..<r} = int r * c" by blast
  ultimately have "(x + 1) ^ r mod int r = (f 0 + f r) mod int r" by simp
  then show ?thesis by (simp add: f_def add.commute)
qed

lemma fermat_nat:
  assumes "is_prime (int r)"
  shows "int x ^ r mod int r = int x mod int r"
proof (induction x)
  case 0
  then show ?case using assms by (simp add: is_prime_def zero_power)
next
  case (Suc x)
  have "int (Suc x) ^ r mod int r = (int x ^ r + 1) mod int r"
    using fermat_add_one [OF assms, of "int x"] by (simp add: add.commute)
  also have "\<dots> = (int x + 1) mod int r" using Suc by (metis mod_add_left_eq)
  finally show ?case by (simp add: add.commute)
qed

lemma fermat_little:
  assumes "is_prime r" "\<not> r dvd a"
  shows "a ^ nat (r - 1) mod r = 1"
proof -
  have r: "1 < r" "int (nat r) = r" "nat r = Suc (nat (r - 1))" using assms(1) by (auto simp: is_prime_def)
  have "a ^ nat r mod r = (a mod r) ^ nat r mod r" by (simp add: power_mod)
  also have "\<dots> = a mod r"
    using fermat_nat [of "nat r" "nat (a mod r)"] assms(1) r by simp
  finally have "r dvd a * (a ^ nat (r - 1) - 1)"
    unfolding r(3) by (simp add: mod_eq_dvd_iff right_diff_distrib)
  then have "r dvd a ^ nat (r - 1) - 1"
    using prime_dvd_mult [OF assms(1)] assms(2) by blast
  then show ?thesis using r(1) by (simp add: mod_eq_dvd_iff [symmetric])
qed

section \<open>The criterion\<close>

lemma pocklington_divisor:
  assumes "is_prime q" "n - 1 = q * int m" "a ^ nat (n - 1) mod n = 1" "coprime (a ^ m - 1) n"
    and "is_prime r" "r dvd n" "1 < n"
  shows "q dvd r - 1"
proof (rule ccontr)
  assume "\<not> q dvd r - 1"
  then have "coprime q (r - 1)" by (rule prime_coprime [OF assms(1)])
  then have co: "coprime (nat q) (nat (r - 1))" and pos: "1 < q" "1 < r" "0 < nat q"
    using assms(1,5) by (auto simp: is_prime_def coprime_int_iff [symmetric])
  obtain e u v where e: "e dvd nat q" "e dvd nat (r - 1)" and uv: "nat q * u = nat (r - 1) * v + e"
    using bezout_add_strong_nat [of "nat q" "nat (r - 1)"] pos by auto
  from e co have "e = 1" by (metis coprime_common_divisor_nat)
  note uv = uv [unfolded this]
  define b where "b = a ^ m"
  have "a ^ nat (n - 1) mod r = 1"
  proof -
    have "n dvd a ^ nat (n - 1) - 1" using assms(3,7) by (simp add: mod_eq_dvd_iff [symmetric])
    then have "r dvd a ^ nat (n - 1) - 1" using assms(6) dvd_trans by blast
    then show ?thesis using pos by (simp add: mod_eq_dvd_iff [symmetric])
  qed
  moreover have "nat (n - 1) = m * nat q" using assms(2) pos by (simp add: nat_mult_distrib)
  ultimately have bq: "b ^ nat q mod r = 1" by (simp add: b_def power_mult)
  have "\<not> r dvd b"
  proof
    assume "r dvd b"
    then have "r dvd b ^ nat q" using pos(3) by (meson dvd_power dvd_trans)
    with bq show False by (simp add: dvd_eq_mod_eq_0)
  qed
  note br = fermat_little [OF assms(5) this]
  have "b ^ (nat q * u) mod r = 1" using bq power_mod [of "b ^ nat q" r u] pos by (simp add: power_mult)
  moreover have "b ^ (nat (r - 1) * v) mod r = 1"
    using br power_mod [of "b ^ nat (r - 1)" r v] pos by (simp add: power_mult)
  then have "b ^ (nat (r - 1) * v + 1) mod r = b mod r"
    by (metis mod_mult_left_eq mult_1 power_add power_one_right)
  ultimately have "b mod r = 1" unfolding uv by simp
  then have "r dvd b - 1" using pos by (simp add: mod_eq_dvd_iff [symmetric])
  with assms(4,6) have "r dvd 1" unfolding b_def using coprime_common_divisor by blast
  with pos show False by simp
qed

text \<open>
  With all prime divisors congruent to 1 modulo \<open>q\<close>, only the numbers \<open>k q + 1\<close> up to the root are left to
  exclude as divisors; a list of quotients and remainders excludes them one after the other.
\<close>

fun excludes :: "int \<Rightarrow> int \<Rightarrow> int \<Rightarrow> (int \<times> int) list \<Rightarrow> bool" where
  "excludes n q d [] \<longleftrightarrow> True"
| "excludes n q d ((c, r) # cs) \<longleftrightarrow> n = c * d + r \<and> 0 < r \<and> r < d \<and> excludes n q (d + q) cs"

lemma excludes_nth: "excludes n q d cs \<Longrightarrow> k < length cs \<Longrightarrow> \<not> d + int k * q dvd n"
proof (induction n q d cs arbitrary: k rule: excludes.induct)
  case (2 n q d c r cs)
  show ?case
  proof (cases k)
    case 0
    have "n mod d = r" using 2(2) by (auto intro: int_mod_pos_eq)
    then show ?thesis using 2(2) 0 by (simp add: dvd_eq_mod_eq_0)
  next
    case (Suc j)
    have "excludes n q (d + q) cs" using 2(2) unfolding excludes.simps by blast
    moreover have "j < length cs" using 2(3) Suc by simp
    ultimately have "\<not> d + q + int j * q dvd n" by (rule 2(1))
    then show ?thesis using Suc by (simp add: distrib_right add.assoc)
  qed
qed simp

theorem pocklington:
  assumes "is_prime q" "n - 1 = q * int m" "a ^ nat (n - 1) mod n = 1" "coprime (a ^ m - 1) n" "1 < n"
    and "excludes n q (q + 1) cs" "n < (q * (int (length cs) + 1) + 1) * (q * (int (length cs) + 1) + 1)"
  shows "is_prime n"
proof (rule ccontr)
  assume "\<not> is_prime n"
  then obtain r where r: "is_prime r" "r dvd n" "r * r \<le> n"
    using least_prime_divisor [OF assms(5)] by blast
  obtain k where k: "r - 1 = q * k"
    using pocklington_divisor [OF assms(1-4) r(1,2) assms(5)] by blast
  have pos: "1 < r" "0 < q" using r(1) assms(1) by (simp_all add: is_prime_def)
  then have "0 < k" using k by (metis diff_gt_0_iff_gt zero_less_mult_iff not_less_iff_gr_or_eq)
  define s where "s = q * (int (length cs) + 1) + 1"
  have "r < s"
  proof (rule ccontr)
    assume "\<not> r < s"
    then have "s * s \<le> r * r" using pos by (intro mult_mono) (auto simp: s_def)
    with r(3) assms(7) show False by (simp add: s_def)
  qed
  then have "q * k < q * (int (length cs) + 1)" using k by (simp add: s_def)
  then have "k < int (length cs) + 1" using pos by (simp add: mult_less_cancel_left_pos)
  with \<open>0 < k\<close> have "nat (k - 1) < length cs" "int (nat (k - 1)) = k - 1" by simp_all
  with excludes_nth [OF assms(6), of "nat (k - 1)"] have "\<not> q + 1 + (k - 1) * q dvd n" by simp
  moreover have "q + 1 + (k - 1) * q = r" using k by (simp add: algebra_simps)
  ultimately show False using r(2) by simp
qed

lemma trial_division:
  assumes "1 < n" "\<forall>d\<in>set [2..s]. n mod d \<noteq> 0" "n < (s + 1) * (s + 1)" "0 \<le> s"
  shows "is_prime n"
proof (rule ccontr)
  assume "\<not> is_prime n"
  then obtain r where r: "is_prime r" "r dvd n" "r * r \<le> n"
    using least_prime_divisor [OF assms(1)] by blast
  have "r < s + 1"
  proof (rule ccontr)
    assume "\<not> r < s + 1"
    then have "(s + 1) * (s + 1) \<le> r * r" using assms(4) by (intro mult_mono) auto
    with r(3) assms(3) show False by simp
  qed
  with r(1,2) assms(2) show False by (auto simp: is_prime_def dvd_eq_mod_eq_0)
qed

section \<open>Certified powers\<close>

text \<open>
  A chain lists for every step of a binary exponentiation whether the base is multiplied in, the quotient
  and the residue; checking it needs no division.  The second form is for squarings
  modulo \<open>2\<^sup>k - c\<close>, where the multiple of the modulus costs a shift.
\<close>

fun pow_chain :: "int \<Rightarrow> int \<Rightarrow> int \<Rightarrow> (bool \<times> int \<times> int) list \<Rightarrow> bool" where
  "pow_chain n g x [] \<longleftrightarrow> True"
| "pow_chain n g x ((b, q, r) # cs) \<longleftrightarrow> (if b then g * x ^ 2 else x ^ 2) = q * n + r \<and> pow_chain n g r cs"

fun chain_exp :: "nat \<Rightarrow> (bool \<times> int \<times> int) list \<Rightarrow> nat" where
  "chain_exp e [] = e"
| "chain_exp e ((b, q, r) # cs) = chain_exp (2 * e + of_bool b) cs"

fun chain_end :: "int \<Rightarrow> (bool \<times> int \<times> int) list \<Rightarrow> int" where
  "chain_end x [] = x"
| "chain_end x ((b, q, r) # cs) = chain_end r cs"

lemma pow_chain_sound:
  "pow_chain n g x cs \<Longrightarrow> g ^ e mod n = x mod n \<Longrightarrow> g ^ chain_exp e cs mod n = chain_end x cs mod n"
proof (induction n g x cs arbitrary: e rule: pow_chain.induct)
  case (2 n g x b q r cs)
  have sq: "g ^ (2 * e) mod n = x ^ 2 mod n"
    using 2(3) power_mod [of "g ^ e" n 2] power_mod [of x n 2] by (simp add: power_mult [symmetric] mult.commute)
  have "g ^ (2 * e + of_bool b) mod n = (if b then g * x ^ 2 else x ^ 2) mod n"
    using sq by (cases b) (simp_all, metis mod_mult_right_eq)
  also have "\<dots> = r mod n" using 2(2) by simp
  finally show ?case using 2 by simp
qed simp

lemma pow_chain_step:
  "pow_chain n g x []"
  "x ^ 2 = q * n + r \<Longrightarrow> pow_chain n g r cs \<Longrightarrow> pow_chain n g x ((False, q, r) # cs)"
  "g * x ^ 2 = q * n + r \<Longrightarrow> pow_chain n g r cs \<Longrightarrow> pow_chain n g x ((True, q, r) # cs)"
  by simp_all

lemmas chain_intros = pow_chain_step

text \<open>The rewrite rules that evaluate certificates on numerals.\<close>

lemmas chain_eval = pow_chain.simps excludes.simps if_True if_False
  power_numeral Num.pow.simps Num.sqr.simps numeral_times_numeral mult_num_simps add_num_simps
  numeral_plus_numeral numeral_plus_one one_plus_numeral one_add_one mult_zero_left mult_zero_right mult_1_left mult_1_right
  add_0_left add_0_right power_one numeral_less_iff less_num_simps le_num_simps zero_less_numeral zero_less_one
  one_less_numeral_iff not_numeral_less_one simp_thms

end
