(* ===== verification/Octal.thy ===== *)
theory Octal
  imports Main
begin

text \<open>
  Octal numbers for proofs by evaluation on large constants: digits, least significant first, with addition, multiplication
  and reduction modulo \<open>2\<^sup>2\<^sup>5\<^sup>5 - c\<close> defined by one equation per digit (pair), which the simplifier runs quickly.
\<close>

datatype oct = OZ | O0 oct | O1 oct | O2 oct | O3 oct | O4 oct | O5 oct | O6 oct | O7 oct

primrec oval :: "oct \<Rightarrow> int" where
  "oval OZ = 0"
| "oval (O0 n) = 8 * oval n"
| "oval (O1 n) = 8 * oval n + 1"
| "oval (O2 n) = 8 * oval n + 2"
| "oval (O3 n) = 8 * oval n + 3"
| "oval (O4 n) = 8 * oval n + 4"
| "oval (O5 n) = 8 * oval n + 5"
| "oval (O6 n) = 8 * oval n + 6"
| "oval (O7 n) = 8 * oval n + 7"

section \<open>Addition and multiplication\<close>

primrec oinc :: "oct \<Rightarrow> oct" where
  "oinc OZ = O1 OZ"
| "oinc (O0 n) = O1 n"
| "oinc (O1 n) = O2 n"
| "oinc (O2 n) = O3 n"
| "oinc (O3 n) = O4 n"
| "oinc (O4 n) = O5 n"
| "oinc (O5 n) = O6 n"
| "oinc (O6 n) = O7 n"
| "oinc (O7 n) = O0 (oinc n)"

fun oadd :: "oct \<Rightarrow> oct \<Rightarrow> oct" where
  "oadd OZ n = n"
| "oadd (O0 m) OZ = O0 m"
| "oadd (O1 m) OZ = O1 m"
| "oadd (O2 m) OZ = O2 m"
| "oadd (O3 m) OZ = O3 m"
| "oadd (O4 m) OZ = O4 m"
| "oadd (O5 m) OZ = O5 m"
| "oadd (O6 m) OZ = O6 m"
| "oadd (O7 m) OZ = O7 m"
| "oadd (O0 m) (O0 n) = O0 (oadd m n)"
| "oadd (O0 m) (O1 n) = O1 (oadd m n)"
| "oadd (O0 m) (O2 n) = O2 (oadd m n)"
| "oadd (O0 m) (O3 n) = O3 (oadd m n)"
| "oadd (O0 m) (O4 n) = O4 (oadd m n)"
| "oadd (O0 m) (O5 n) = O5 (oadd m n)"
| "oadd (O0 m) (O6 n) = O6 (oadd m n)"
| "oadd (O0 m) (O7 n) = O7 (oadd m n)"
| "oadd (O1 m) (O0 n) = O1 (oadd m n)"
| "oadd (O1 m) (O1 n) = O2 (oadd m n)"
| "oadd (O1 m) (O2 n) = O3 (oadd m n)"
| "oadd (O1 m) (O3 n) = O4 (oadd m n)"
| "oadd (O1 m) (O4 n) = O5 (oadd m n)"
| "oadd (O1 m) (O5 n) = O6 (oadd m n)"
| "oadd (O1 m) (O6 n) = O7 (oadd m n)"
| "oadd (O1 m) (O7 n) = O0 (oinc (oadd m n))"
| "oadd (O2 m) (O0 n) = O2 (oadd m n)"
| "oadd (O2 m) (O1 n) = O3 (oadd m n)"
| "oadd (O2 m) (O2 n) = O4 (oadd m n)"
| "oadd (O2 m) (O3 n) = O5 (oadd m n)"
| "oadd (O2 m) (O4 n) = O6 (oadd m n)"
| "oadd (O2 m) (O5 n) = O7 (oadd m n)"
| "oadd (O2 m) (O6 n) = O0 (oinc (oadd m n))"
| "oadd (O2 m) (O7 n) = O1 (oinc (oadd m n))"
| "oadd (O3 m) (O0 n) = O3 (oadd m n)"
| "oadd (O3 m) (O1 n) = O4 (oadd m n)"
| "oadd (O3 m) (O2 n) = O5 (oadd m n)"
| "oadd (O3 m) (O3 n) = O6 (oadd m n)"
| "oadd (O3 m) (O4 n) = O7 (oadd m n)"
| "oadd (O3 m) (O5 n) = O0 (oinc (oadd m n))"
| "oadd (O3 m) (O6 n) = O1 (oinc (oadd m n))"
| "oadd (O3 m) (O7 n) = O2 (oinc (oadd m n))"
| "oadd (O4 m) (O0 n) = O4 (oadd m n)"
| "oadd (O4 m) (O1 n) = O5 (oadd m n)"
| "oadd (O4 m) (O2 n) = O6 (oadd m n)"
| "oadd (O4 m) (O3 n) = O7 (oadd m n)"
| "oadd (O4 m) (O4 n) = O0 (oinc (oadd m n))"
| "oadd (O4 m) (O5 n) = O1 (oinc (oadd m n))"
| "oadd (O4 m) (O6 n) = O2 (oinc (oadd m n))"
| "oadd (O4 m) (O7 n) = O3 (oinc (oadd m n))"
| "oadd (O5 m) (O0 n) = O5 (oadd m n)"
| "oadd (O5 m) (O1 n) = O6 (oadd m n)"
| "oadd (O5 m) (O2 n) = O7 (oadd m n)"
| "oadd (O5 m) (O3 n) = O0 (oinc (oadd m n))"
| "oadd (O5 m) (O4 n) = O1 (oinc (oadd m n))"
| "oadd (O5 m) (O5 n) = O2 (oinc (oadd m n))"
| "oadd (O5 m) (O6 n) = O3 (oinc (oadd m n))"
| "oadd (O5 m) (O7 n) = O4 (oinc (oadd m n))"
| "oadd (O6 m) (O0 n) = O6 (oadd m n)"
| "oadd (O6 m) (O1 n) = O7 (oadd m n)"
| "oadd (O6 m) (O2 n) = O0 (oinc (oadd m n))"
| "oadd (O6 m) (O3 n) = O1 (oinc (oadd m n))"
| "oadd (O6 m) (O4 n) = O2 (oinc (oadd m n))"
| "oadd (O6 m) (O5 n) = O3 (oinc (oadd m n))"
| "oadd (O6 m) (O6 n) = O4 (oinc (oadd m n))"
| "oadd (O6 m) (O7 n) = O5 (oinc (oadd m n))"
| "oadd (O7 m) (O0 n) = O7 (oadd m n)"
| "oadd (O7 m) (O1 n) = O0 (oinc (oadd m n))"
| "oadd (O7 m) (O2 n) = O1 (oinc (oadd m n))"
| "oadd (O7 m) (O3 n) = O2 (oinc (oadd m n))"
| "oadd (O7 m) (O4 n) = O3 (oinc (oadd m n))"
| "oadd (O7 m) (O5 n) = O4 (oinc (oadd m n))"
| "oadd (O7 m) (O6 n) = O5 (oinc (oadd m n))"
| "oadd (O7 m) (O7 n) = O6 (oinc (oadd m n))"

text \<open>The multiplication takes the multiples of the second factor as arguments.\<close>

primrec omul_with :: "oct \<Rightarrow> oct \<Rightarrow> oct \<Rightarrow> oct \<Rightarrow> oct \<Rightarrow> oct \<Rightarrow> oct \<Rightarrow> oct \<Rightarrow> oct" where
  "omul_with OZ n1 n2 n3 n4 n5 n6 n7 = OZ"
| "omul_with (O0 m) n1 n2 n3 n4 n5 n6 n7 = O0 (omul_with m n1 n2 n3 n4 n5 n6 n7)"
| "omul_with (O1 m) n1 n2 n3 n4 n5 n6 n7 = oadd (O0 (omul_with m n1 n2 n3 n4 n5 n6 n7)) n1"
| "omul_with (O2 m) n1 n2 n3 n4 n5 n6 n7 = oadd (O0 (omul_with m n1 n2 n3 n4 n5 n6 n7)) n2"
| "omul_with (O3 m) n1 n2 n3 n4 n5 n6 n7 = oadd (O0 (omul_with m n1 n2 n3 n4 n5 n6 n7)) n3"
| "omul_with (O4 m) n1 n2 n3 n4 n5 n6 n7 = oadd (O0 (omul_with m n1 n2 n3 n4 n5 n6 n7)) n4"
| "omul_with (O5 m) n1 n2 n3 n4 n5 n6 n7 = oadd (O0 (omul_with m n1 n2 n3 n4 n5 n6 n7)) n5"
| "omul_with (O6 m) n1 n2 n3 n4 n5 n6 n7 = oadd (O0 (omul_with m n1 n2 n3 n4 n5 n6 n7)) n6"
| "omul_with (O7 m) n1 n2 n3 n4 n5 n6 n7 = oadd (O0 (omul_with m n1 n2 n3 n4 n5 n6 n7)) n7"

definition omul_mults :: "oct \<Rightarrow> oct \<Rightarrow> oct \<Rightarrow> oct \<Rightarrow> oct" where
  "omul_mults m n n2 n4 = omul_with m n n2 (oadd n n2) n4 (oadd n n4) (oadd n2 n4) (oadd n (oadd n2 n4))"

definition omul_double :: "oct \<Rightarrow> oct \<Rightarrow> oct \<Rightarrow> oct" where
  "omul_double m n n2 = omul_mults m n n2 (oadd n2 n2)"

definition omul :: "oct \<Rightarrow> oct \<Rightarrow> oct" where
  "omul m n = omul_double m n (oadd n n)"

lemma oval_nonneg: "0 \<le> oval n"
  by (induction n) simp_all

lemma oval_oinc [simp]: "oval (oinc n) = oval n + 1"
  by (induction n) simp_all

lemma oval_oadd [simp]: "oval (oadd m n) = oval m + oval n"
  by (induction m n rule: oadd.induct) simp_all

lemma oval_omul_with:
  "oval (omul_with m n n2 n3 n4 n5 n6 n7) = oval m * oval n"
  if "oval n2 = 2 * oval n" "oval n3 = 3 * oval n" "oval n4 = 4 * oval n" "oval n5 = 5 * oval n"
    "oval n6 = 6 * oval n" "oval n7 = 7 * oval n"
  by (induction m) (simp_all add: that algebra_simps)

lemma oval_omul [simp]: "oval (omul m n) = oval m * oval n"
  by (simp add: omul_def omul_double_def omul_mults_def oval_omul_with)

section \<open>Splitting and reduction\<close>

fun olow :: "nat \<Rightarrow> oct \<Rightarrow> oct" where
  "olow 0 n = OZ"
| "olow (Suc k) OZ = OZ"
| "olow (Suc k) (O0 n) = O0 (olow k n)"
| "olow (Suc k) (O1 n) = O1 (olow k n)"
| "olow (Suc k) (O2 n) = O2 (olow k n)"
| "olow (Suc k) (O3 n) = O3 (olow k n)"
| "olow (Suc k) (O4 n) = O4 (olow k n)"
| "olow (Suc k) (O5 n) = O5 (olow k n)"
| "olow (Suc k) (O6 n) = O6 (olow k n)"
| "olow (Suc k) (O7 n) = O7 (olow k n)"

fun ohigh :: "nat \<Rightarrow> oct \<Rightarrow> oct" where
  "ohigh 0 n = n"
| "ohigh (Suc k) OZ = OZ"
| "ohigh (Suc k) (O0 n) = ohigh k n"
| "ohigh (Suc k) (O1 n) = ohigh k n"
| "ohigh (Suc k) (O2 n) = ohigh k n"
| "ohigh (Suc k) (O3 n) = ohigh k n"
| "ohigh (Suc k) (O4 n) = ohigh k n"
| "ohigh (Suc k) (O5 n) = ohigh k n"
| "ohigh (Suc k) (O6 n) = ohigh k n"
| "ohigh (Suc k) (O7 n) = ohigh k n"

lemma olow_Z [simp]: "olow k OZ = OZ"
  by (cases k) simp_all

lemma oval_split: "oval n = oval (olow k n) + 8 ^ k * oval (ohigh k n)"
  by (induction k n rule: olow.induct) simp_all

lemma oval_olow_less: "oval (olow k n) < 8 ^ k"
  by (induction k n rule: olow.induct) simp_all

definition digits85 :: nat where
  "digits85 = Suc (Suc (Suc (Suc (Suc (Suc (Suc (Suc (Suc (Suc (Suc (Suc (Suc (Suc (Suc (Suc (Suc (Suc (Suc (Suc (Suc (Suc (Suc (Suc (Suc (Suc (Suc (Suc (Suc (Suc (Suc (Suc (Suc (Suc (Suc (Suc (Suc (Suc (Suc (Suc (Suc (Suc (Suc (Suc (Suc (Suc (Suc (Suc (Suc (Suc (Suc (Suc (Suc (Suc (Suc (Suc (Suc (Suc (Suc (Suc (Suc (Suc (Suc (Suc (Suc (Suc (Suc (Suc (Suc (Suc (Suc (Suc (Suc (Suc (Suc (Suc (Suc (Suc (Suc (Suc (Suc (Suc (Suc (Suc (Suc 0))))))))))))))))))))))))))))))))))))))))))))))))))))))))))))))))))))))))))))))))))))"

lemma digits85_eq: "8 ^ digits85 = (2 :: int) ^ 255"
proof -
  have "digits85 = 85" by (simp add: digits85_def)
  show ?thesis unfolding \<open>digits85 = 85\<close> by simp
qed

text \<open>One folding step modulo \<open>2\<^sup>2\<^sup>5\<^sup>5 - c\<close>, and a product folded twice.\<close>

definition ofold :: "oct \<Rightarrow> oct \<Rightarrow> oct" where
  "ofold c n = oadd (olow digits85 n) (omul c (ohigh digits85 n))"

definition oredmul :: "oct \<Rightarrow> oct \<Rightarrow> oct \<Rightarrow> oct" where
  "oredmul c m n = ofold c (ofold c (omul m n))"

lemma oval_ofold: "oval (ofold c n) mod (2 ^ 255 - oval c) = oval n mod (2 ^ 255 - oval c)"
proof -
  have "oval n = oval (ofold c n) + (2 ^ 255 - oval c) * oval (ohigh digits85 n)"
    using oval_split [of n digits85] by (simp add: ofold_def digits85_eq algebra_simps)
  then show ?thesis by (simp only: mod_mult_self2)
qed

lemma oval_oredmul: "oval (oredmul c m n) mod (2 ^ 255 - oval c) = (oval m * oval n) mod (2 ^ 255 - oval c)"
  by (simp only: oredmul_def oval_ofold oval_omul)

text \<open>The complement, for subtraction.\<close>

fun ocomp :: "nat \<Rightarrow> oct \<Rightarrow> oct" where
  "ocomp 0 n = OZ"
| "ocomp (Suc k) OZ = O7 (ocomp k OZ)"
| "ocomp (Suc k) (O0 n) = O7 (ocomp k n)"
| "ocomp (Suc k) (O1 n) = O6 (ocomp k n)"
| "ocomp (Suc k) (O2 n) = O5 (ocomp k n)"
| "ocomp (Suc k) (O3 n) = O4 (ocomp k n)"
| "ocomp (Suc k) (O4 n) = O3 (ocomp k n)"
| "ocomp (Suc k) (O5 n) = O2 (ocomp k n)"
| "ocomp (Suc k) (O6 n) = O1 (ocomp k n)"
| "ocomp (Suc k) (O7 n) = O0 (ocomp k n)"

lemma oval_ocomp: "oval (ocomp k n) = 8 ^ k - 1 - oval (olow k n)"
  by (induction k n rule: ocomp.induct) simp_all

section \<open>Comparison\<close>

definition oeq :: "oct \<Rightarrow> oct \<Rightarrow> bool" where
  "oeq m n \<longleftrightarrow> oval m = oval n"

lemma oeq_simps:
  "oeq OZ OZ" "oeq (O0 m) OZ = oeq m OZ" "oeq OZ (O0 n) = oeq OZ n"
  "oeq (O0 m) (O0 n) = oeq m n"
  "oeq (O1 m) (O1 n) = oeq m n"
  "oeq (O2 m) (O2 n) = oeq m n"
  "oeq (O3 m) (O3 n) = oeq m n"
  "oeq (O4 m) (O4 n) = oeq m n"
  "oeq (O5 m) (O5 n) = oeq m n"
  "oeq (O6 m) (O6 n) = oeq m n"
  "oeq (O7 m) (O7 n) = oeq m n"
  by (simp_all add: oeq_def)

section \<open>Conversion from numerals\<close>

fun oct_num :: "num \<Rightarrow> oct" where

  "oct_num (num.Bit0 (num.Bit0 (num.Bit0 n))) = O0 (oct_num n)"
| "oct_num (num.Bit1 (num.Bit0 (num.Bit0 n))) = O1 (oct_num n)"
| "oct_num (num.Bit0 (num.Bit1 (num.Bit0 n))) = O2 (oct_num n)"
| "oct_num (num.Bit1 (num.Bit1 (num.Bit0 n))) = O3 (oct_num n)"
| "oct_num (num.Bit0 (num.Bit0 (num.Bit1 n))) = O4 (oct_num n)"
| "oct_num (num.Bit1 (num.Bit0 (num.Bit1 n))) = O5 (oct_num n)"
| "oct_num (num.Bit0 (num.Bit1 (num.Bit1 n))) = O6 (oct_num n)"
| "oct_num (num.Bit1 (num.Bit1 (num.Bit1 n))) = O7 (oct_num n)"
| "oct_num (num.One) = O1 OZ"
| "oct_num (num.Bit0 num.One) = O2 OZ"
| "oct_num (num.Bit1 num.One) = O3 OZ"
| "oct_num (num.Bit0 (num.Bit0 num.One)) = O4 OZ"
| "oct_num (num.Bit1 (num.Bit0 num.One)) = O5 OZ"
| "oct_num (num.Bit0 (num.Bit1 num.One)) = O6 OZ"
| "oct_num (num.Bit1 (num.Bit1 num.One)) = O7 OZ"

definition num_val :: "num \<Rightarrow> int" where
  "num_val n = numeral n"

lemma num_val_bits [simp]: "num_val num.One = 1" "num_val (num.Bit0 n) = 2 * num_val n" "num_val (num.Bit1 n) = 2 * num_val n + 1"
  by (simp_all add: num_val_def numeral_Bit1 [of n])

lemma oval_oct_num: "oval (oct_num n) = numeral n"
proof -
  have "oval (oct_num n) = num_val n" by (induction n rule: oct_num.induct) simp_all
  then show ?thesis by (simp only: num_val_def)
qed

definition oct_int :: "int \<Rightarrow> oct" where
  "oct_int x = oct_num (num_of_nat (nat x))"

lemma oct_int_numeral: "oct_int (numeral n) = oct_num n"
  using nat_of_num_inverse [of n] by (simp add: oct_int_def nat_of_num_numeral)

lemma oval_oct_int: "0 < x \<Longrightarrow> oval (oct_int x) = x"
proof -
  assume "0 < x"
  then have "numeral (num_of_nat (nat x)) = nat x" by (metis nat_of_num_numeral num_of_nat_inverse zero_less_nat_eq)
  then have "int (numeral (num_of_nat (nat x))) = int (nat x)" by simp
  then show ?thesis using \<open>0 < x\<close> by (simp add: oct_int_def oval_oct_num)
qed

section \<open>Modular powers\<close>

definition osqr :: "oct \<Rightarrow> oct \<Rightarrow> oct" where
  "osqr c n = oredmul c n n"

fun opow_num :: "oct \<Rightarrow> oct \<Rightarrow> num \<Rightarrow> oct" where
  "opow_num c b num.One = b"
| "opow_num c b (num.Bit0 n) = osqr c (opow_num c b n)"
| "opow_num c b (num.Bit1 n) = oredmul c (osqr c (opow_num c b n)) b"

definition opow :: "oct \<Rightarrow> oct \<Rightarrow> nat \<Rightarrow> oct" where
  "opow c b e = opow_num c b (num_of_nat e)"

lemma opow_numeral: "opow c b (numeral n) = opow_num c b n"
  using nat_of_num_inverse [of n] by (simp add: opow_def nat_of_num_numeral)

lemma oval_osqr: "oval (osqr c n) mod (2 ^ 255 - oval c) = (oval n * oval n) mod (2 ^ 255 - oval c)"
  unfolding osqr_def by (rule oval_oredmul)

lemma oval_opow_num: "oval (opow_num c b n) mod (2 ^ 255 - oval c) = oval b ^ nat_of_num n mod (2 ^ 255 - oval c)"
proof (induction c b n rule: opow_num.induct)
  case (2 c b n)
  then show ?case unfolding opow_num.simps oval_osqr nat_of_num.simps power_add by (metis mod_mult_eq)
next
  case (3 c b n)
  then show ?case unfolding opow_num.simps oval_oredmul nat_of_num.simps power_add power_Suc
    by (metis mod_mult_cong mult.commute oval_osqr)
qed simp

lemma opow_correct:
  assumes "oeq (opow c b e) r" "0 < e"
  shows "oval b ^ e mod (2 ^ 255 - oval c) = oval r mod (2 ^ 255 - oval c)"
  using oval_opow_num [of c b "num_of_nat e"] assms by (simp add: oeq_def opow_def num_of_nat_inverse)

text \<open>The rewrite rules that evaluate.\<close>

lemmas oct_eval = oinc.simps oadd.simps omul_with.simps omul_mults_def omul_double_def omul_def olow.simps ohigh.simps
  digits85_def ofold_def oredmul_def ocomp.simps oeq_simps oct_num.simps oct_int_numeral osqr_def opow_num.simps opow_numeral

end
