(* ===== verification/Prime25519.thy ===== *)
theory Prime25519
  imports Prime_Criterion Octal Fp
begin

text \<open>
  The field modulus \<open>2\<^sup>2\<^sup>5\<^sup>5 - 19\<close> is prime, by the criterion of \<open>Prime_Criterion\<close> along a chain of prime
  divisors of predecessors, and \<open>121665 * 121666\<close>, which is \<open>- d\<close> times a square for the curve
  constant \<open>d\<close>, has the power \<open>-1\<close> at \<open>(p - 1) / 2\<close>.  The lists are certificates for modular powers:
  quotients and residues of the steps, which the proofs check by multiplication; the powers of 255-bit numbers are
  computed on octal numbers.
\<close>

lemma coprime_by_inverse: "x * y = k * n + 1 \<Longrightarrow> coprime x (n :: int)"
  by (rule coprimeI) (metis dvd_add_right_iff dvd_mult dvd_mult2)

lemma coprime_pred:
  fixes n :: int
  assumes "x mod n = y mod n" "(y - 1) * z = k * n + 1"
  shows "coprime (x - 1) n"
proof -
  have "coprime (y - 1) n" by (rule coprime_by_inverse [OF assms(2)])
  moreover have "(x - 1) mod n = (y - 1) mod n" using assms(1) by (metis mod_diff_left_eq)
  ultimately show ?thesis by (metis coprime_mod_left_iff mod_by_0)
qed

section \<open>The chain below the modulus\<close>

lemma prime_991: "is_prime 991"
  by (rule trial_division [where s = 31]) simp_all

lemmas chain_exp_eval = of_bool_eq mult_2 numeral_plus_numeral add_num_simps numeral_plus_one add_0_right

lemma pow_8574133_m_c0:
  "pow_chain 8574133 2 65536 [
      (True, 1001, 7227459),
      (True, 12184593, 6260493),
      (True, 9142329, 430341),
      (False, 21599, 677614),
      (False, 53551, 7336713),
      (True, 12555755, 2003323),
      (True, 936142, 69772),
      (False, 567, 6598573),
      (False, 5078200, 3435729)]"
  by (intro chain_intros; simp only: chain_eval)

lemma pow_8574133_m: "2 ^ 8652 mod (8574133) = 3435729 mod (8574133 :: int)"
proof -
  have start: "(2 :: int) ^ 16 = 65536" by (simp only: power_numeral Num.pow.simps Num.sqr.simps mult_num_simps add_num_simps)
  show ?thesis
    using pow_chain_sound [OF pow_8574133_m_c0 arg_cong [OF start]] unfolding chain_exp.simps chain_end.simps by (simp only: chain_exp_eval)
qed

lemma pow_8574133_c0:
  "pow_chain 8574133 2 65536 [
      (False, 500, 7900796),
      (True, 14560673, 7995723),
      (False, 7456332, 4032573),
      (True, 3793187, 168787),
      (True, 6645, 2988953),
      (False, 1041952, 5008593),
      (True, 5851554, 5426616),
      (False, 3434535, 1328301),
      (True, 411559, 5489855),
      (False, 3515050, 1719375),
      (False, 344787, 795954),
      (True, 147780, 165492),
      (False, 3194, 1821262),
      (True, 773721, 3786395),
      (True, 3344195, 1484115),
      (False, 256888, 5455121),
      (True, 6941423, 6238023),
      (False, 4538409, 8574132),
      (False, 8574131, 1)]"
  by (intro chain_intros; simp only: chain_eval)

lemma pow_8574133: "2 ^ 8574132 mod (8574133) = 1 mod (8574133 :: int)"
proof -
  have start: "(2 :: int) ^ 16 = 65536" by (simp only: power_numeral Num.pow.simps Num.sqr.simps mult_num_simps add_num_simps)
  show ?thesis
    using pow_chain_sound [OF pow_8574133_c0 arg_cong [OF start]] unfolding chain_exp.simps chain_end.simps by (simp only: chain_exp_eval)
qed

theorem prime_8574133: "is_prime 8574133"
proof (rule pocklington [where q = 991 and m = 8652 and a = 2 and cs = "[(8643, 277), (4323, 1624)]"])
  show "is_prime 991" by (rule prime_991)
  have "(3435729 - 1) * (1014251 :: int) = 406419 * 8574133 + 1" by (simp only: chain_eval diff_numeral_special sub_num_simps BitM.simps)
  then show "coprime (2 ^ 8652 - 1) (8574133 :: int)" by (rule coprime_pred [OF pow_8574133_m])
  have "1 mod (8574133 :: int) = 1" by (rule mod_pos_pos_trivial) simp_all
  moreover have "nat (8574133 - 1) = 8574132" by simp
  ultimately show "2 ^ nat (8574133 - 1) mod 8574133 = (1 :: int)" using pow_8574133 by (simp only:)
  show "excludes 8574133 991 (991 + 1) [(8643, 277), (4323, 1624)]" by (simp only: chain_eval)
qed simp_all

lemma pow_1919519569386763_m_c0:
  "pow_chain 1919519569386763 2 67108864 [
      (True, 4, 1329120977193940),
      (False, 920314958071172, 1050703024027364),
      (True, 1150263703800570, 1672969091722082),
      (True, 2916173011720386, 925947007178930),
      (False, 446662734664136, 1131232746713132),
      (False, 666670737639295, 1867384059597339),
      (False, 1816664587145774, 439825148891359),
      (False, 100778426374213, 1175992818124362),
      (False, 720471481685335, 1417188017686439),
      (False, 1046314874568149, 230433742489034),
      (False, 27663020749752, 1384618485920380),
      (True, 1997550201756923, 708183098878551),
      (False, 261275430339817, 821990456217230),
      (False, 351998656793099, 1538409348524363),
      (True, 2465932998415072, 1639521232619602),
      (False, 1400365964004865, 1373123636036409),
      (False, 982260639543366, 280066608751023),
      (True, 81725976216389, 1337932286834251),
      (False, 932557725746660, 661679051269421),
      (False, 228087889215254, 1001669444392439),
      (False, 522704582871222, 1817493499934335),
      (True, 3441780615301434, 364420849266308),
      (False, 69185309437821, 1059928654987441)]"
  by (intro chain_intros; simp only: chain_eval)

lemma pow_1919519569386763_m: "2 ^ 223873314 mod (1919519569386763) = 1059928654987441 mod (1919519569386763 :: int)"
proof -
  have start: "(2 :: int) ^ 26 = 67108864" by (simp only: power_numeral Num.pow.simps Num.sqr.simps mult_num_simps add_num_simps)
  show ?thesis
    using pow_chain_sound [OF pow_1919519569386763_m_c0 arg_cong [OF start]] unfolding chain_exp.simps chain_end.simps by (simp only: chain_exp_eval)
qed

lemma pow_1919519569386763_c0:
  "pow_chain 1919519569386763 2 134217728 [
      (False, 9, 738722385001117),
      (True, 568590985791386, 727545914671860),
      (False, 275758094055179, 1707982561664023),
      (False, 1519757588030409, 1883053606468462),
      (False, 1847280403589061, 1218399375645901),
      (True, 1546738113275479, 1048428561119125),
      (True, 1145289128905818, 983029438644116),
      (True, 1006863272094369, 1276865007405365),
      (False, 849370995293977, 1782700633356774),
      (False, 1655633836119701, 155115138769213),
      (True, 25069508703241, 1540151232679855),
      (False, 1235760164864112, 1337673856271569),
      (True, 1864395002051589, 1240524135727115),
      (False, 801711092642386, 1605194465086707),
      (True, 2684681429497665, 1584898865799303),
      (True, 2617221991244825, 1234761903320143),
      (True, 1588560994330330, 1236775547659108),
      (True, 1593746455813585, 663762456135973),
      (True, 459052989302332, 319119283482142),
      (False, 53053440409930, 583227397151574),
      (True, 354415971801600, 1285925159134152),
      (False, 861467390729690, 1288133935665634),
      (False, 864429340901971, 982476880612083),
      (False, 502865840146461, 1576128850903146),
      (False, 1294168704642539, 102480519386059),
      (True, 10942588990631, 478332744685509),
      (False, 119197646269096, 1487279716212833),
      (False, 1152372181839647, 1304919163493228),
      (True, 1774208557608892, 1547425167823372),
      (False, 1247460400092810, 1260964203976354),
      (True, 1656696549561819, 1320395793464735),
      (False, 908271569201220, 1801342537169365),
      (False, 1690441185370361, 570314888571782),
      (True, 338896333555542, 1457759193220502),
      (True, 2214160146434757, 904421507342417),
      (True, 852273950199791, 980872974037245),
      (False, 501225309989436, 913994118954357),
      (True, 870410766116893, 1653595313679539),
      (False, 1424511375154407, 54183760337980),
      (False, 1529486821174, 1009058406760638)]"
  by (intro chain_intros; simp only: chain_eval)

lemma pow_1919519569386763_p0: "2 ^ 29992493271668 mod (1919519569386763) = 1009058406760638 mod (1919519569386763 :: int)"
proof -
  have start: "(2 :: int) ^ 27 = 134217728" by (simp only: power_numeral Num.pow.simps Num.sqr.simps mult_num_simps add_num_simps)
  show ?thesis
    using pow_chain_sound [OF pow_1919519569386763_c0 arg_cong [OF start]] unfolding chain_exp.simps chain_end.simps by (simp only: chain_exp_eval)
qed

lemma pow_1919519569386763_c1:
  "pow_chain 1919519569386763 2 1009058406760638 [
      (False, 530444640676211, 404389713772051),
      (False, 85193734522271, 1499052552647828),
      (True, 2341376031209599, 636366037097131),
      (False, 210970359265512, 828224193213505),
      (True, 714715624851176, 1919519569386762),
      (False, 1919519569386761, 1)]"
  by (intro chain_intros; simp only: chain_eval)

lemma pow_1919519569386763: "2 ^ 1919519569386762 mod (1919519569386763) = 1 mod (1919519569386763 :: int)"
  using pow_chain_sound [OF pow_1919519569386763_c1 pow_1919519569386763_p0] unfolding chain_exp.simps chain_end.simps by (simp only: chain_exp_eval)

theorem prime_1919519569386763: "is_prime 1919519569386763"
proof (rule pocklington [where q = 8574133 and m = 223873314 and a = 2 and cs = "[(223873287, 7628305), (111936650, 8101213), (74624435, 2542763), (55968326, 29773005), (44774661, 32392537)]"])
  show "is_prime 8574133" by (rule prime_8574133)
  have "(1059928654987441 - 1) * (1290547218147893 :: int) = 712619969572013 * 1919519569386763 + 1" by (simp only: chain_eval diff_numeral_special sub_num_simps BitM.simps)
  then show "coprime (2 ^ 223873314 - 1) (1919519569386763 :: int)" by (rule coprime_pred [OF pow_1919519569386763_m])
  have "1 mod (1919519569386763 :: int) = 1" by (rule mod_pos_pos_trivial) simp_all
  moreover have "nat (1919519569386763 - 1) = 1919519569386762" by simp
  ultimately show "2 ^ nat (1919519569386763 - 1) mod 1919519569386763 = (1 :: int)" using pow_1919519569386763 by (simp only:)
  show "excludes 1919519569386763 8574133 (8574133 + 1) [(223873287, 7628305), (111936650, 8101213), (74624435, 2542763), (55968326, 29773005), (44774661, 32392537)]" by (simp only: chain_eval)
qed simp_all

lemma pow_q1_m_c0:
  "pow_chain 75445702479781427272750846543864801 2 295147905179352825856 [
      (False, 1154635, 37249017818367551225803357327630101),
      (False, 18390568088419540713180144552603353, 102469992448),
      (True, 0, 21000198704586354065408),
      (False, 5845373972, 57540172156127493524011025089846892),
      (True, 87768323520986892609440763078941370, 54651969301387637110966512518401958),
      (True, 79178472738596464028603992035732427, 61606591580989321780200720816865501),
      (True, 100612016363528196112949330697066484, 51294626676562810936092654843532318),
      (False, 34874600400109785010110741815565865, 70907221727050507061373817639835259),
      (True, 133283511924261151466384833446453474, 32799974849867834837920162526425488),
      (False, 14259769805182405020291244956113789, 38671091502185017926787332828197155),
      (True, 39643167703849810160785550627061568, 64134687226725695320034102205120082),
      (True, 109038897391729833739089875975893259, 49129946330668696747602969976096989),
      (False, 31993228866829677464604812351954812, 52731668160668534429276816145493709),
      (False, 36856026726665311569831140646019472, 53232007837694667884745803777171609),
      (False, 37558755042300401026910323427360228, 6815899006979597721589967479114253),
      (True, 1231520888437489561043967924920373, 27351563169514572318976779253005245),
      (False, 9915846538991804092978480448020986, 36418643877802785581023883602796239),
      (False, 17579763701632442834351678143176982, 25515915370493845880933608929334539),
      (False, 8629543046122224655388998502785386, 57793553327652931187992881475744335),
      (True, 88543010309470439154820839753932743, 62153849922490962393205786330105307),
      (False, 51203725768512740208766088776196223, 61109090482572984699313167350717626),
      (True, 98993602468160378399605572779308692, 74425325943528844932868703682001460),
      (True, 146837499280623176155056190186076751, 12989690226474060391927371730921649),
      (False, 2236470025910010689164230430725332, 9010903371459702397200566003040269),
      (True, 2152445451523061074391132479695943, 41483535797710063532135253890982379),
      (True, 45619132322111234617260342837222865, 36992927490348523016874968511124417),
      (False, 18138563752825011389988221154025764, 513309348704093895960925166856925),
      (True, 6984797776589922606771900453178, 25107384053856714034524019378123672),
      (False, 8355422685563742011965376336700514, 48786791113838861753548469283555870),
      (True, 63095733990234880993683556426399714, 23550372780047042618185787221846886),
      (True, 14702495698222504060133497094678883, 34192708828629508492652582794096709),
      (False, 15496460349782741374426957909312839, 23725588849222751655399262015150642),
      (True, 14922084300115426627936480004087657, 74284037970676428699992465145163071),
      (False, 73140260026178284946026360103387949, 1679490236568257179254066873467892),
      (False, 37386986428869317886938646893687, 57875049575816904056842656006512377),
      (True, 88792900146987093422421437432117938, 69140185463195222053869748749479920),
      (True, 126723327870560004734161261178324345, 12685289843374237635476675559532455),
      (True, 4265758634921249914798644829340890, 13171760403748371563029534295641160),
      (True, 4599208872904276656265734953986787, 38784832849308944787944580903906813),
      (False, 19938355793717465847682208159383547, 3782964574628778339320135515987822)]"
  by (intro chain_intros; simp only: chain_eval)

lemma pow_q1_m_p0: "2 ^ 74967330248350 mod (75445702479781427272750846543864801) = 3782964574628778339320135515987822 mod (75445702479781427272750846543864801 :: int)"
proof -
  have start: "(2 :: int) ^ 68 = 295147905179352825856" by (simp only: power_numeral Num.pow.simps Num.sqr.simps mult_num_simps add_num_simps)
  show ?thesis
    using pow_chain_sound [OF pow_q1_m_c0 arg_cong [OF start]] unfolding chain_exp.simps chain_end.simps by (simp only: chain_exp_eval)
qed

lemma pow_q1_m_c1:
  "pow_chain 75445702479781427272750846543864801 2 3782964574628778339320135515987822 [
      (True, 379367425910877502586785532538328, 38877602689008559621761620122014640),
      (True, 40067702762777282563722963685911553, 14314454708794176124149993472713247),
      (True, 5431816707254639246062512913804549, 72466306610823254233320016583786269),
      (False, 69604568864888641168444927591077276, 52923723913192322483970867785578285),
      (False, 37124984734424324294785152761527766, 43675134191290428119386496951976659),
      (False, 25283313481485823676523318387740688, 11400356044965588482423009162079193),
      (True, 3445341846656232865445853964758427, 18935679146042012693248632693634471),
      (False, 4752556248222889451123733574281160, 60679732404325505920101321558000681),
      (True, 97607413110038762878864400532412072, 41712449112149596090570426404649850),
      (True, 46123989935674606507037057687651255, 6531672565481006475695702252069745),
      (True, 1130952329964462953850246691678513, 13823227504923762148479631860009137),
      (True, 5065407634161494487114558160920292, 72088510220800202732826346861527646),
      (False, 68880706720798111363682571039351209, 1888738652562569663194994370406907),
      (True, 94566915819754618137492420024240, 67921444504051573029934253803837058),
      (False, 61147586567349870743199647966593842, 44692679468887818587537417286939922),
      (False, 26475140829181573416469200498415960, 25373835843271755692855209936742124),
      (False, 8533707345012022015661890767769502, 65810772782638593774538249456932274),
      (False, 57406289184049389055471778293765177, 2709456275567807824939095492976299),
      (False, 97303796875390224746540460292342, 56747016255153332959347766392083459)]"
  by (intro chain_intros; simp only: chain_eval)

lemma pow_q1_m: "2 ^ 39304471641247389600 mod (75445702479781427272750846543864801) = 56747016255153332959347766392083459 mod (75445702479781427272750846543864801 :: int)"
  using pow_chain_sound [OF pow_q1_m_c1 pow_q1_m_p0] unfolding chain_exp.simps chain_end.simps by (simp only: chain_exp_eval)

lemma pow_q1_c0:
  "pow_chain 75445702479781427272750846543864801 2 288230376151711744 [
      (False, 1, 7631047256775814783737094723656735),
      (False, 771851547816808051379443778815459, 22009193676612644322150778486101566),
      (False, 6420572549171516046176593860100809, 33022602890864803253515466140928347),
      (True, 28908003129270132855419763652819504, 70920670989751728757172309344426114),
      (True, 133334077576771846642839878728962976, 3666131857123157179898322131674216),
      (True, 356296577592744755834612203261588, 25401643620139515029795923209865324),
      (True, 17104844342260377155191118617761288, 53020601934196140453117330471626264),
      (True, 74522050615615866528901395825227785, 28575338561705314560517295720499607),
      (False, 10823015056886887261668044373608357, 48331021020716018721794112955412492),
      (False, 30961174939432559984738738584029315, 848533773164639574462622689008749),
      (False, 9543413879590745612390818824318, 45310555848504975522005669435514283),
      (False, 27212238786572118819693610976292909, 72659396762334320014469372026007980),
      (True, 139951985715319802782717575504616292, 75115654692204849562303423817422908),
      (False, 74787050744880317833576541907568545, 16253006180525765547641381402891919),
      (True, 7002657572841888628464483393536952, 17986039111192952197589181705378570),
      (False, 4287820144507981290238773629741760, 27776406887544879715908757031455140),
      (True, 20452557381627174631868233265512926, 8878805395285718583017608002921474),
      (False, 1044899611988915660444025085319451, 15425342777689016851465101770788425),
      (False, 3153807201582730232094456086824652, 67408165950774277419106926032106373),
      (True, 120453801541971900053355372750195147, 10005173418326397981809162040109511),
      (False, 1326828326074791530425417056591862, 11328494954179109637847746107809659),
      (False, 1701021976185506177894356976435511, 2653889685712704246275783694347970),
      (False, 93353633572697574796185448788719, 8917658717885293657369277093140981),
      (True, 2108129009203334261133622343411113, 72164657861411213226753396050351209),
      (True, 138052604007502018451222615905547201, 72558332017281532167041635227551361),
      (True, 139562927299694608715632413544391673, 45958847638036517107644543883702569),
      (False, 27996500884623667420435143924148067, 671042825854817169564334903710094),
      (True, 11937021177631509171511817293558, 72730494059566331181901874714725714),
      (True, 140226006048951515550643993067215071, 62579464969018112921471466292003721),
      (True, 103814778233606042352647539079357791, 29585290492468826343356455945677091),
      (True, 23203161605085027457686910115065657, 73885246701094968368169048238205305),
      (False, 72357066083977699180045520576918136, 41118096192318202911291004101212089),
      (True, 44818930142079864549256404367283342, 33981126060794659516081780212042900),
      (True, 30610542162267458784582308358080773, 40288467135992077388000188531248827),
      (True, 43028576335488475641251044159569169, 36330444707391624204415264033831489),
      (False, 17494716985245889738608394253763934, 17328165532291647471499732182069987),
      (False, 3979886340046577149477472973859038, 33422583774579774592479576262258731),
      (False, 14806265558573926326230418156236496, 18214631634308223648371789179753065),
      (False, 4397504359674470949521980787952437, 64511884726821717771000457030424188),
      (False, 55162628674867767836158767029343180, 1568420735889759100484093464052164)]"
  by (intro chain_intros; simp only: chain_eval)

lemma pow_q1_p0: "2 ^ 63904995729120 mod (75445702479781427272750846543864801) = 1568420735889759100484093464052164 mod (75445702479781427272750846543864801 :: int)"
proof -
  have start: "(2 :: int) ^ 58 = 288230376151711744" by (simp only: power_numeral Num.pow.simps Num.sqr.simps mult_num_simps add_num_simps)
  show ?thesis
    using pow_chain_sound [OF pow_q1_c0 arg_cong [OF start]] unfolding chain_exp.simps chain_end.simps by (simp only: chain_exp_eval)
qed

lemma pow_q1_c1:
  "pow_chain 75445702479781427272750846543864801 2 1568420735889759100484093464052164 [
      (False, 32605483465784016117553503132009, 31025647283008206690781557961567687),
      (True, 25517445200741491635749351223738569, 373269120475705429462412059850169),
      (False, 1846756431727114921091744224038, 58443280288287018208066001403042123),
      (True, 90545038314690585729151912632905452, 39403710217996611059649496120899206),
      (False, 20579732548185144847843165374966669, 18955090873233773816598658194112567),
      (True, 9524610632629136865444052036528022, 42633892693946410887213151918705356),
      (True, 48184290065455906893236368133099501, 50883925065132556536787338661609171),
      (False, 34318373942212199395003219355572734, 60096831411452045530469413933371307),
      (True, 95741149647704955959868512600149897, 53089291438676901358685779159701001),
      (False, 37357633010522906255630588371906398, 51886847680512235165321472581505203),
      (False, 35684537007819210446477302226859212, 49840655314755229486864938926674397),
      (False, 32925545664710938880561163616926857, 45520326194272497356190822741453152),
      (False, 27464786312888658465645388256308953, 12912471922656530731785220892871751),
      (True, 4419918581792659853936465172959736, 54300938652674903527848974066959466),
      (False, 39082304778748024630635265073521629, 42251550788399836408018112961724327),
      (True, 47323929272264168801660546544978889, 63923979436728860874743583272019769),
      (True, 108323602610033582017702304908250862, 47120619430889036148662387133918260),
      (True, 58859622286523375400773844436846332, 23801074297811254038167421302095268),
      (True, 15017187702155587466082072505627193, 39222906842721171021682631194850055),
      (False, 20391306206010426744923801599057214, 27744432708764247686018176453778611),
      (False, 10202748745529044120012868028398902, 31767803252733235124306576616240819),
      (True, 26752837877672897617525915342998659, 74062341163093794085330143583279663),
      (False, 72704344956274686391157189808741468, 4776198761470204658446448715125701),
      (False, 302364135520944856992216994587885, 18710024028905304295913796078205516),
      (True, 9279918872941165399340898018341428, 10169410796074325407272506376376684),
      (True, 2741492557963194209676007709349556, 42122498252050953737874994404293356),
      (False, 23517639847936053940406944463800117, 115754809044341432461161369761019),
      (True, 355200505170795452952356421100, 43065186470477596355140615720135622),
      (True, 49164106762317459954868940441862303, 38510769545584726525888116656157065),
      (True, 39315145124152939114948633505931618, 59466506355214148198268088155650432),
      (True, 93743321670108453423228119801881632, 31186897834198124570994992750338016),
      (False, 12891689845175253577576619877130907, 23092477347457125080713115068311749),
      (False, 7068162831219294747801995350537192, 18698798374500036049255497881260209),
      (False, 4634393333986200328317558958439351, 21869121206656224245178971064539530),
      (False, 6339108082128186258628870511208919, 12652077428391528779183729931260781),
      (True, 4243450799518041716040183281473006, 28598385840957074477577761062398116),
      (True, 21680961163491933049892391326433752, 71375989008579367626260943189535560),
      (True, 135051610350320963652278521676015308, 43061262500733731668528957050653492),
      (False, 24577573900302943555059758083120298, 32672444468793351880644993920963366),
      (False, 14149097860841839966656012334961331, 70209680790526841665283081887039825)]"
  by (intro chain_intros; simp only: chain_eval)

lemma pow_q1_p1: "2 ^ 70264285877143430777593372 mod (75445702479781427272750846543864801) = 70209680790526841665283081887039825 mod (75445702479781427272750846543864801 :: int)"
  using pow_chain_sound [OF pow_q1_c1 pow_q1_p0] unfolding chain_exp.simps chain_end.simps by (simp only: chain_exp_eval)

lemma pow_q1_c2:
  "pow_chain 75445702479781427272750846543864801 2 70209680790526841665283081887039825 [
      (True, 130674090496504969134018827651768795, 52503834489303885292749499281376455),
      (True, 73076465470487655495873936216625714, 17400049045635351684533718020641136),
      (True, 8025949705263923730563316570232921, 64908780416863095875975808887427271),
      (False, 55843469365715368362468480707808829, 69878509489605860253502975384379412),
      (False, 64722123699458232616333721538099691, 42111761612063696322752344005589253),
      (True, 47011305025532297537912876921461014, 49087257122501680141152876489827804),
      (False, 31937654930793781474880405364272074, 60893762817002960278746117535595142),
      (True, 98297191970798516002569059625159782, 43505566370828698512508536837366946),
      (False, 25087370692238060902812612345126444, 67404298166118396548341553467469272),
      (True, 120439979003033448417266417710996846, 23086303469702392307886813367002322),
      (True, 14128767852298133961808644817361610, 69745012537714770577004439339093758),
      (False, 64475067684465982501133245190500532, 47172212163931318384902249787988432),
      (True, 58988584566106527512851937131785000, 16904542676557169922233050131852248),
      (True, 7575343689857589041504428760550448, 46920499357148902318201176553326160),
      (False, 29180366642012458176251648635799663, 10454444063557555172302156146983537),
      (False, 1448663039585902268113875523803170, 37698059884210767352741902333811199),
      (True, 37673284821342637999663428757360586, 40901371546101489892846476765501816),
      (False, 22173856685880343095672505025355721, 27768446176039279899917307143421335),
      (False, 10220417832788193175143522916513345, 21857673977610154683191029340912880),
      (False, 6332473500919813117686273409683965, 3778066346658827974554880652278435),
      (True, 378385642935227281731222357250068, 47402446319426680179615426392041982),
      (True, 59565802775003540489587975525891621, 50973463510006534321207876498244227),
      (True, 68878515191830318193214070706977873, 10766594200423649952741019267106785),
      (True, 3072926538331623821743296868229081, 66188423355148447244671870825594569),
      (True, 116134047195448747364847061652810939, 47449036182200125127963758294733383),
      (False, 29841474870263003462022108898837555, 68050878837970674823646249073223134),
      (False, 61380860120709968955617829202648356, 75445702479781427272750846543864800),
      (False, 75445702479781427272750846543864799, 1),
      (False, 0, 1),
      (False, 0, 1)]"
  by (intro chain_intros; simp only: chain_eval)

lemma pow_q1: "2 ^ 75445702479781427272750846543864800 mod (75445702479781427272750846543864801) = 1 mod (75445702479781427272750846543864801 :: int)"
  using pow_chain_sound [OF pow_q1_c2 pow_q1_p1] unfolding chain_exp.simps chain_end.simps by (simp only: chain_exp_eval)

theorem prime_q1: "is_prime 75445702479781427272750846543864801"
proof (rule pocklington [where q = 1919519569386763 and m = 39304471641247389600 and a = 2 and cs = "[(39304471641247369123, 1530581085376829), (19652235820623689680, 3644569896763441), (13101490547082460924, 4989072690356841), (9826117910311846120, 1822284948380441), (7860894328249477100, 9135906236251201), (6550745273541231031, 2494536345177852), (5614924520178198096, 5428778986243969), (4913058955155923380, 911142474189901), (4367163515694154147, 3582543799505205), (3930447164124738755, 4567953118125396), (3573133785567944339, 18287328754689235), (3275372636770615657, 18522944297069652), (3023420895480568309, 15178582858677521), (2807462260089099152, 18070546048215985), (2620298109416492548, 28638896337240393), (2456529477577961770, 455571237094871), (2312027743602787552, 22108052771516257), (2183581757847077136, 27704786086473841), (2068656402170915185, 14022330613722671), (1965223582062369428, 31076770099864093), (1871641506726066124, 40199984383149825), (1786566892783972212, 10103424162037957), (1708890071358582117, 35953217213985451), (1637686318385307864, 20778589564855369), (1572178865649895551, 11424779094183925), (1511710447740284185, 4710012075258586), (1455721171898051438, 29986974807303125), (1403731130044549602, 24391429579202071), (1355326608318875479, 5612766376339489), (1310149054708246297, 14319448168620174), (1267886181975722223, 50823762192983959), (1228264738788980905, 227785618547416), (1191044595189314817, 35528409648826741), (1156013871801393794, 3375948108211059), (1122984904035639686, 9531641902550485), (1091790878923538584, 13852393043236905), (1062283017331010514, 54877372052085553), (1034328201085457606, 63636992603770831), (1007806965160189463, 34492161016822847), (982611791031184727, 15538385049932034), (958645649786521685, 29906928447661261), (935820753363033074, 8582874775254323), (914057480029009049, 32265667678665111), (893283446391986116, 58798260023848333), (873432703138830869, 76729483707616817), (854445035679291068, 51568201071261069), (836265354069093386, 42874608710044069), (818843159192653941, 10389294782427676), (802132074311171207, 75088368898579485), (786089432824947783, 77694373399095568), (770675914534262533, 29763745900017639), (755855223870142100, 11952603884563101), (741593804551837532, 33892101480414721), (727860585949025726, 32269163528132423), (714626757113588895, 5193081406447231), (701865565022274807, 81298419287524498), (689552134056971741, 7233469630423229), (677663304159437745, 70949327901399826), (666177485444871004, 32527637811910729), (655074527354123154, 35952517625111527), (644335600676186709, 29415768178567105), (633943090987861117, 30210680019958882), (623880502242022051, 118973571110655231), (614132369394490457, 61538519029650120), (604684179096113681, 38354876648451925), (595522297594657413, 60953395135615534), (586633905093244616, 42968513665613649), (578006935900696901, 59273561135708416), (569630023786194047, 115638462484880345), (561492452017819847, 33558614492076684), (553584107623202666, 49145037164240917), (545895439461769296, 6926196521618449), (538417419743114922, 25921333656593401), (531141508665505261, 17841088179108958), (524059621883298524, 51796248932730377), (517164100542728806, 143150631326317667), (510447683652563497, 124913293814455057), (503903482580094735, 14366801154331276), (497524957484144168, 132077461274714097), (491305895515592366, 122940366688171795), (485240390632683819, 15754216977261325), (479322824893260845, 115728241616635686), (473547851099366136, 125342254549303921), (467910376681516539, 154013963799794674), (462405548720557521, 142243115636272825), (457028740014504527, 76597700275015588), (451775536106291831, 129838893417897359), (446641723195993060, 167604539007771101), (441623276867948195, 28659017631808741), (436716351569415437, 81553932165010574), (431917270782938344, 136260521755543505), (427222517839645536, 125599118143742209), (422628727325240746, 3504617078620641), (418132677034546695, 100137606699879316), (413731280434183046, 27758220524772445), (409421579596326972, 143400056387060773), (405200738569560715, 65081555930196221), (401066037155585606, 5872111554408151), (397014865063104943, 69428390297878467), (393044716412473893, 182811154403555008), (389153184566805835, 119519501320686361), (385337957267131268, 121415209050974165), (381596812050945528, 33019414936595281), (377927611935071051, 190250180603410798), (374328301345213232, 86356395307609889), (370796902275918767, 201219929401336608), (367331510665863452, 85675107709412617), (363930292974512864, 188891343008874881), (360591482947223756, 15634352652581793), (357313378556794449, 45785731014425782), (354094339110336841, 123866033666967147), (350932782511137405, 109751914141685716), (347827182665906101, 11122976809418581), (344776067028485872, 23771690293772625), (341778014271716429, 166894671615775767), (338831652079718874, 75784574907821935), (335935655053396490, 182334628681029521), (333088742722435503, 139113071346708196), (330289677657541087, 143831655980989375), (327537263677061578, 133147432975761543), (324830344142540408, 120498195955188609), (322167800338093356, 311487318882829), (319548549928840564, 118101911891341401), (316971545493930559, 228172012211910134), (314435773129979115, 117456129982042561), (311940251121011027, 68124623617568048), (309484028671239286, 224142411618280829), (307066184697245230, 56946404636851), (304685826676336352, 63861930645922145), (302342089548056841, 215928194186369170), (300034134666010606, 110743053182756677), (297761148797328707, 232026252353417882), (295522343167273604, 218908901428378881), (293316952546622309, 79069843914409714), (291144234379610292, 54369288110007049), (289003467950348451, 217749698367756982), (286893953585747368, 66297647181417025), (284815011893097025, 3112923514917426), (282765983030556758, 174079674483492837), (280746226008909924, 179938470643913197), (278755118023031130, 239515165711394881), (276792053811601334, 53365312122921903), (274856445043688038, 43783803474514621)]"])
  show "is_prime 1919519569386763" by (rule prime_1919519569386763)
  have "(56747016255153332959347766392083459 - 1) * (74602835786463724888147869570305675 :: int) = 56113048138023733339996598108928949 * 75445702479781427272750846543864801 + 1" by (simp only: chain_eval diff_numeral_special sub_num_simps BitM.simps)
  then show "coprime (2 ^ 39304471641247389600 - 1) (75445702479781427272750846543864801 :: int)" by (rule coprime_pred [OF pow_q1_m])
  have "1 mod (75445702479781427272750846543864801 :: int) = 1" by (rule mod_pos_pos_trivial) simp_all
  moreover have "nat (75445702479781427272750846543864801 - 1) = 75445702479781427272750846543864800" by simp
  ultimately show "2 ^ nat (75445702479781427272750846543864801 - 1) mod 75445702479781427272750846543864801 = (1 :: int)" using pow_q1 by (simp only:)
  show "excludes 75445702479781427272750846543864801 1919519569386763 (1919519569386763 + 1) [(39304471641247369123, 1530581085376829), (19652235820623689680, 3644569896763441), (13101490547082460924, 4989072690356841), (9826117910311846120, 1822284948380441), (7860894328249477100, 9135906236251201), (6550745273541231031, 2494536345177852), (5614924520178198096, 5428778986243969), (4913058955155923380, 911142474189901), (4367163515694154147, 3582543799505205), (3930447164124738755, 4567953118125396), (3573133785567944339, 18287328754689235), (3275372636770615657, 18522944297069652), (3023420895480568309, 15178582858677521), (2807462260089099152, 18070546048215985), (2620298109416492548, 28638896337240393), (2456529477577961770, 455571237094871), (2312027743602787552, 22108052771516257), (2183581757847077136, 27704786086473841), (2068656402170915185, 14022330613722671), (1965223582062369428, 31076770099864093), (1871641506726066124, 40199984383149825), (1786566892783972212, 10103424162037957), (1708890071358582117, 35953217213985451), (1637686318385307864, 20778589564855369), (1572178865649895551, 11424779094183925), (1511710447740284185, 4710012075258586), (1455721171898051438, 29986974807303125), (1403731130044549602, 24391429579202071), (1355326608318875479, 5612766376339489), (1310149054708246297, 14319448168620174), (1267886181975722223, 50823762192983959), (1228264738788980905, 227785618547416), (1191044595189314817, 35528409648826741), (1156013871801393794, 3375948108211059), (1122984904035639686, 9531641902550485), (1091790878923538584, 13852393043236905), (1062283017331010514, 54877372052085553), (1034328201085457606, 63636992603770831), (1007806965160189463, 34492161016822847), (982611791031184727, 15538385049932034), (958645649786521685, 29906928447661261), (935820753363033074, 8582874775254323), (914057480029009049, 32265667678665111), (893283446391986116, 58798260023848333), (873432703138830869, 76729483707616817), (854445035679291068, 51568201071261069), (836265354069093386, 42874608710044069), (818843159192653941, 10389294782427676), (802132074311171207, 75088368898579485), (786089432824947783, 77694373399095568), (770675914534262533, 29763745900017639), (755855223870142100, 11952603884563101), (741593804551837532, 33892101480414721), (727860585949025726, 32269163528132423), (714626757113588895, 5193081406447231), (701865565022274807, 81298419287524498), (689552134056971741, 7233469630423229), (677663304159437745, 70949327901399826), (666177485444871004, 32527637811910729), (655074527354123154, 35952517625111527), (644335600676186709, 29415768178567105), (633943090987861117, 30210680019958882), (623880502242022051, 118973571110655231), (614132369394490457, 61538519029650120), (604684179096113681, 38354876648451925), (595522297594657413, 60953395135615534), (586633905093244616, 42968513665613649), (578006935900696901, 59273561135708416), (569630023786194047, 115638462484880345), (561492452017819847, 33558614492076684), (553584107623202666, 49145037164240917), (545895439461769296, 6926196521618449), (538417419743114922, 25921333656593401), (531141508665505261, 17841088179108958), (524059621883298524, 51796248932730377), (517164100542728806, 143150631326317667), (510447683652563497, 124913293814455057), (503903482580094735, 14366801154331276), (497524957484144168, 132077461274714097), (491305895515592366, 122940366688171795), (485240390632683819, 15754216977261325), (479322824893260845, 115728241616635686), (473547851099366136, 125342254549303921), (467910376681516539, 154013963799794674), (462405548720557521, 142243115636272825), (457028740014504527, 76597700275015588), (451775536106291831, 129838893417897359), (446641723195993060, 167604539007771101), (441623276867948195, 28659017631808741), (436716351569415437, 81553932165010574), (431917270782938344, 136260521755543505), (427222517839645536, 125599118143742209), (422628727325240746, 3504617078620641), (418132677034546695, 100137606699879316), (413731280434183046, 27758220524772445), (409421579596326972, 143400056387060773), (405200738569560715, 65081555930196221), (401066037155585606, 5872111554408151), (397014865063104943, 69428390297878467), (393044716412473893, 182811154403555008), (389153184566805835, 119519501320686361), (385337957267131268, 121415209050974165), (381596812050945528, 33019414936595281), (377927611935071051, 190250180603410798), (374328301345213232, 86356395307609889), (370796902275918767, 201219929401336608), (367331510665863452, 85675107709412617), (363930292974512864, 188891343008874881), (360591482947223756, 15634352652581793), (357313378556794449, 45785731014425782), (354094339110336841, 123866033666967147), (350932782511137405, 109751914141685716), (347827182665906101, 11122976809418581), (344776067028485872, 23771690293772625), (341778014271716429, 166894671615775767), (338831652079718874, 75784574907821935), (335935655053396490, 182334628681029521), (333088742722435503, 139113071346708196), (330289677657541087, 143831655980989375), (327537263677061578, 133147432975761543), (324830344142540408, 120498195955188609), (322167800338093356, 311487318882829), (319548549928840564, 118101911891341401), (316971545493930559, 228172012211910134), (314435773129979115, 117456129982042561), (311940251121011027, 68124623617568048), (309484028671239286, 224142411618280829), (307066184697245230, 56946404636851), (304685826676336352, 63861930645922145), (302342089548056841, 215928194186369170), (300034134666010606, 110743053182756677), (297761148797328707, 232026252353417882), (295522343167273604, 218908901428378881), (293316952546622309, 79069843914409714), (291144234379610292, 54369288110007049), (289003467950348451, 217749698367756982), (286893953585747368, 66297647181417025), (284815011893097025, 3112923514917426), (282765983030556758, 174079674483492837), (280746226008909924, 179938470643913197), (278755118023031130, 239515165711394881), (276792053811601334, 53365312122921903), (274856445043688038, 43783803474514621)]" by (simp only: chain_eval)
qed simp_all

lemma oval_literals:
  "oval (oct_int (numeral n)) = numeral n" "oval (O4 (O2 OZ)) = 20" "oval (O3 (O2 OZ)) = 19" "oval (O2 OZ) = 2"
  "oval (O2 (O0 (O7 (O0 (O2 (O0 (O3 (O2 (O2 (O6 (O5 (O1 OZ)))))))))))) = 14802493890"
  by (simp_all add: oval_oct_int)

lemma power_mod_divisor:
  fixes n :: int
  assumes "x mod M = r mod M" "M = n * c" "r = t * n + y"
  shows "x mod n = y mod n"
proof -
  have "x mod n = r mod n" using assms(1,2) by (metis dvd_triv_left mod_mod_cancel)
  then show ?thesis by (simp add: assms(3))
qed

lemma pow_q_m_wide: "2 ^ 981609426360740691344999861639072106 mod (2 ^ 255 - 20) = 54174540803231134683060494650026597741865019527785709117939538589068012509744 mod (2 ^ 255 - 20 :: int)"
proof -
  have "oeq (opow (O4 (O2 OZ)) (O2 OZ) 981609426360740691344999861639072106)
      (oct_int 54174540803231134683060494650026597741865019527785709117939538589068012509744)"
    by (simp only: oct_eval)
  from opow_correct [OF this] show ?thesis by (simp only: oval_literals zero_less_numeral)
qed

lemma pow_q_m: "2 ^ 981609426360740691344999861639072106 mod 74058212732561358302231226437062788676166966415465897661863160754340907 = 69490809710348678725736597923071784769591275419387514694139338586948360 mod (74058212732561358302231226437062788676166966415465897661863160754340907 :: int)"
  by (rule power_mod_divisor [OF pow_q_m_wide, where t = 731512 and c = 781764]) (simp, simp only: chain_eval)

lemma pow_q_wide: "2 ^ 74058212732561358302231226437062788676166966415465897661863160754340906 mod (2 ^ 255 - 20) = 33571254355584656770626135024958495672004571378828430603201527538389522211264 mod (2 ^ 255 - 20 :: int)"
proof -
  have "oeq (opow (O4 (O2 OZ)) (O2 OZ) 74058212732561358302231226437062788676166966415465897661863160754340906)
      (oct_int 33571254355584656770626135024958495672004571378828430603201527538389522211264)"
    by (simp only: oct_eval)
  from opow_correct [OF this] show ?thesis by (simp only: oval_literals zero_less_numeral)
qed

lemma pow_q: "2 ^ 74058212732561358302231226437062788676166966415465897661863160754340906 mod 74058212732561358302231226437062788676166966415465897661863160754340907 = 1 mod (74058212732561358302231226437062788676166966415465897661863160754340907 :: int)"
  by (rule power_mod_divisor [OF pow_q_wide, where t = 453309 and c = 781764]) (simp, simp only: chain_eval)

theorem prime_q: "is_prime 74058212732561358302231226437062788676166966415465897661863160754340907"
proof (rule pocklington [where q = 75445702479781427272750846543864801 and m = 981609426360740691344999861639072106 and a = 2 and cs = "[(981609426360740691344999861639072092, 74630408356199290473511989975035123), (490804713180370345672499930819536049, 112760906657881072509506841531382360), (327203142120246897114999953879690700, 125471072758441666521505125383498107)]"])
  show "is_prime 75445702479781427272750846543864801" by (rule prime_q1)
  have "(69490809710348678725736597923071784769591275419387514694139338586948360 - 1) * (70463328703800545008217672123162676565183935400628861884889913886334520 :: int) = 66117633491858138461393741777649859022484251587227054915412604379442197 * 74058212732561358302231226437062788676166966415465897661863160754340907 + 1" by (simp only: chain_eval diff_numeral_special sub_num_simps BitM.simps)
  then show "coprime (2 ^ 981609426360740691344999861639072106 - 1) (74058212732561358302231226437062788676166966415465897661863160754340907 :: int)" by (rule coprime_pred [OF pow_q_m])
  have "1 mod (74058212732561358302231226437062788676166966415465897661863160754340907 :: int) = 1" by (rule mod_pos_pos_trivial) simp_all
  moreover have "nat (74058212732561358302231226437062788676166966415465897661863160754340907 - 1) = 74058212732561358302231226437062788676166966415465897661863160754340906" by simp
  ultimately show "2 ^ nat (74058212732561358302231226437062788676166966415465897661863160754340907 - 1) mod 74058212732561358302231226437062788676166966415465897661863160754340907 = (1 :: int)" using pow_q by (simp only:)
  show "excludes 74058212732561358302231226437062788676166966415465897661863160754340907 75445702479781427272750846543864801 (75445702479781427272750846543864801 + 1) [(981609426360740691344999861639072092, 74630408356199290473511989975035123), (490804713180370345672499930819536049, 112760906657881072509506841531382360), (327203142120246897114999953879690700, 125471072758441666521505125383498107)]" by (simp only: chain_eval)
qed simp_all

section \<open>The modulus\<close>

lemma modulus_literal: "2 ^ 255 - 19 = (57896044618658097711785492504343953926634992332820282019728792003956564819949 :: int)"
  by simp

lemma base_half: "14802493890 ^ 28948022309329048855892746252171976963317496166410141009864396001978282409974 mod (2 ^ 255 - 19) = 57896044618658097711785492504343953926634992332820282019728792003956564819948 mod (2 ^ 255 - 19 :: int)"
proof -
  have "oeq (opow (O3 (O2 OZ)) (O2 (O0 (O7 (O0 (O2 (O0 (O3 (O2 (O2 (O6 (O5 (O1 OZ)))))))))))) 28948022309329048855892746252171976963317496166410141009864396001978282409974)
      (oct_int 57896044618658097711785492504343953926634992332820282019728792003956564819948)"
    by (simp only: oct_eval)
  from opow_correct [OF this] show ?thesis by (simp only: oval_literals zero_less_numeral)
qed

theorem euler_d: "14802493890 ^ 28948022309329048855892746252171976963317496166410141009864396001978282409974 mod 57896044618658097711785492504343953926634992332820282019728792003956564819949 = (- 1) mod (57896044618658097711785492504343953926634992332820282019728792003956564819949 :: int)"
proof -
  have "(57896044618658097711785492504343953926634992332820282019728792003956564819948 :: int) mod 57896044618658097711785492504343953926634992332820282019728792003956564819949 = (- 1) mod 57896044618658097711785492504343953926634992332820282019728792003956564819949"
    using mod_add_self1 [of "57896044618658097711785492504343953926634992332820282019728792003956564819949" "- 1 :: int"] by simp
  then show ?thesis using base_half unfolding modulus_literal by (rule trans [rotated])
qed

lemma base_m_wide: "14802493890 ^ 781764 mod (2 ^ 255 - 19) = 20909520643987556847778711110693979710867742264783034635400894742951462752642 mod (2 ^ 255 - 19 :: int)"
proof -
  have "oeq (opow (O3 (O2 OZ)) (O2 (O0 (O7 (O0 (O2 (O0 (O3 (O2 (O2 (O6 (O5 (O1 OZ)))))))))))) 781764)
      (oct_int 20909520643987556847778711110693979710867742264783034635400894742951462752642)"
    by (simp only: oct_eval)
  from opow_correct [OF this] show ?thesis by (simp only: oval_literals zero_less_numeral)
qed

lemma base_m: "14802493890 ^ 781764 mod 57896044618658097711785492504343953926634992332820282019728792003956564819949 = 20909520643987556847778711110693979710867742264783034635400894742951462752642 mod (57896044618658097711785492504343953926634992332820282019728792003956564819949 :: int)"
  using base_m_wide unfolding modulus_literal .

theorem prime_p25519: "is_prime p25519"
proof -
  have p: "p25519 = 57896044618658097711785492504343953926634992332820282019728792003956564819949" by (simp add: p25519_def)
  show ?thesis
    unfolding p
  proof (rule pocklington [where q = 74058212732561358302231226437062788676166966415465897661863160754340907 and m = 781764 and a = 14802493890 and cs = "[]"])
    show "is_prime 74058212732561358302231226437062788676166966415465897661863160754340907" by (rule prime_q)
    have "(20909520643987556847778711110693979710867742264783034635400894742951462752642 - 1) * (3028103445185691201823788458927359826302338697109258327247741379376329895047 :: int) = 1093618604108150259904924447694966872541021677936736463992306573080091502174 * 57896044618658097711785492504343953926634992332820282019728792003956564819949 + 1" by (simp only: chain_eval diff_numeral_special sub_num_simps BitM.simps)
    then show "coprime (14802493890 ^ 781764 - 1) (57896044618658097711785492504343953926634992332820282019728792003956564819949 :: int)" by (rule coprime_pred [OF base_m])
    have "x ^ (h + h) mod n = 1" if "x ^ h mod n = (- 1) mod n" "1 < n" for x n :: int and h
    proof -
      have "x ^ (h + h) mod n = ((x ^ h mod n) * (x ^ h mod n)) mod n" by (simp only: power_add mod_mult_eq)
      also have "\<dots> = ((- 1) * (- 1)) mod n" by (simp only: that(1) mod_mult_eq)
      finally show ?thesis using that(2) by simp
    qed
    note square = this
    have "14802493890 ^ (28948022309329048855892746252171976963317496166410141009864396001978282409974 + 28948022309329048855892746252171976963317496166410141009864396001978282409974) mod 57896044618658097711785492504343953926634992332820282019728792003956564819949 = (1 :: int)" by (rule square [OF euler_d]) simp
    moreover have "nat (57896044618658097711785492504343953926634992332820282019728792003956564819949 - 1) = 28948022309329048855892746252171976963317496166410141009864396001978282409974 + 28948022309329048855892746252171976963317496166410141009864396001978282409974" by simp
    ultimately show "14802493890 ^ nat (57896044618658097711785492504343953926634992332820282019728792003956564819949 - 1) mod 57896044618658097711785492504343953926634992332820282019728792003956564819949 = (1 :: int)" by (simp only:)
  qed simp_all
qed

end
