(* ===== verification/Fp_Field.thy ===== *)
theory Fp_Field
  imports Prime25519 Field_Pow
begin

unbundle bit_operations_syntax

text \<open>
  The residues modulo \<open>p25519\<close> as a type that is an instance of the library's class of fields, so that its
  field and ring automation applies to the coordinates of points, and the element \<open>fe a\<close> of this type a limb vector stands for.
  The primality of the modulus gives the inverse.
\<close>

section \<open>The field\<close>

typedef fp = "{0 ..< p25519}"
  morphisms residue Abs_fp
  using p25519_pos by (intro exI [of _ 0]) simp

setup_lifting type_definition_fp

lemma p25519_gt_1: "1 < p25519"
  by (simp add: p25519_def)

instantiation fp :: comm_ring_1
begin

lift_definition zero_fp :: fp is 0 using p25519_pos by simp
lift_definition one_fp :: fp is 1 using p25519_gt_1 by simp
lift_definition plus_fp :: "fp \<Rightarrow> fp \<Rightarrow> fp" is fp_add by (simp add: fp_add_def fp_range)
lift_definition minus_fp :: "fp \<Rightarrow> fp \<Rightarrow> fp" is fp_sub by (simp add: fp_sub_def fp_range)
lift_definition uminus_fp :: "fp \<Rightarrow> fp" is fp_neg by (simp add: fp_neg_def fp_range)
lift_definition times_fp :: "fp \<Rightarrow> fp \<Rightarrow> fp" is fp_mul by (simp add: fp_mul_def fp_range)

instance
proof
  fix a b c :: fp
  show "a + b + c = a + (b + c)" by transfer (simp add: fp_defs mod_add_left_eq mod_add_right_eq add.assoc)
  show "a + b = b + a" by transfer (simp add: fp_defs add.commute)
  show "0 + a = a" by transfer (simp add: fp_defs)
  show "- a + a = 0" by transfer (simp add: fp_defs mod_add_left_eq)
  show "a - b = a + - b" by transfer (simp add: fp_defs mod_add_right_eq)
  show "a * b * c = a * (b * c)" by transfer (simp add: fp_defs mod_mult_left_eq mod_mult_right_eq mult.assoc)
  show "a * b = b * a" by transfer (simp add: fp_defs mult.commute)
  show "1 * a = a" by transfer (simp add: fp_defs)
  show "(a + b) * c = a * c + b * c"
    by transfer (simp add: fp_defs mod_mult_left_eq mod_add_eq distrib_right)
  show "(0 :: fp) \<noteq> 1" by transfer simp
qed

end

lemma residue_range: "0 \<le> residue x" "residue x < p25519"
  using residue [of x] by simp_all

lemma residue_of_nat: "residue (of_nat n) = int n mod p25519"
proof (induction n)
  case 0
  then show ?case by (simp add: zero_fp.rep_eq)
next
  case (Suc n)
  then show ?case by (simp add: plus_fp.rep_eq one_fp.rep_eq fp_add_def mod_add_right_eq)
qed

lemma residue_of_int: "residue (of_int n) = n mod p25519"
proof (cases n rule: int_cases2)
  case (nonneg m)
  then show ?thesis by (simp add: residue_of_nat)
next
  case (nonpos m)
  then show ?thesis by (simp add: uminus_fp.rep_eq fp_neg_def residue_of_nat mod_minus_eq)
qed

lemma of_int_residue [simp]: "of_int (residue x) = x"
  using residue_range [of x] by (simp add: residue_inject [symmetric] residue_of_int)

lemma of_int_fp_eq_iff: "(of_int m :: fp) = of_int n \<longleftrightarrow> m mod p25519 = n mod p25519"
  by (simp add: residue_inject [symmetric] residue_of_int)

lemma of_int_fp_eq_0_iff: "(of_int m :: fp) = 0 \<longleftrightarrow> p25519 dvd m"
  using of_int_fp_eq_iff [of m 0] by (simp add: dvd_eq_mod_eq_0)

lemma of_int_mod_p [simp]: "(of_int (m mod p25519) :: fp) = of_int m"
  by (simp add: of_int_fp_eq_iff)

lemma fermat_fp:
  assumes "(x :: fp) \<noteq> 0"
  shows "x ^ nat (p25519 - 1) = 1"
proof -
  have "\<not> p25519 dvd residue x" using assms of_int_fp_eq_0_iff [of "residue x"] by simp
  note fermat_little [OF prime_p25519 this]
  then have "(of_int (residue x ^ nat (p25519 - 1)) :: fp) = of_int 1"
    using p25519_gt_1 by (simp only: of_int_fp_eq_iff mod_pos_pos_trivial)
  then show ?thesis by simp
qed

instantiation fp :: field
begin

definition inverse_fp :: "fp \<Rightarrow> fp" where "inverse_fp x = x ^ nat (p25519 - 2)"

definition divide_fp :: "fp \<Rightarrow> fp \<Rightarrow> fp" where "divide_fp x y = x * inverse y"

instance
proof
  fix a b :: fp
  show "inverse a * a = 1" if "a \<noteq> 0"
  proof -
    have "nat (p25519 - 1) = Suc (nat (p25519 - 2))" by (simp add: p25519_def)
    then show ?thesis using fermat_fp [OF that] by (simp add: inverse_fp_def mult.commute)
  qed
  show "a div b = a * inverse b" by (simp add: divide_fp_def)
  have "nat (p25519 - 2) \<noteq> 0" by (simp add: p25519_def)
  then show "inverse (0 :: fp) = 0" by (simp add: inverse_fp_def zero_power)
qed

end

lemma numeral_fp_eq_iff: "(numeral m :: fp) = numeral n \<longleftrightarrow> (numeral m :: int) mod p25519 = numeral n mod p25519"
  using of_int_fp_eq_iff [of "numeral m" "numeral n"] by simp

lemma numeral_fp_nonzero:
  assumes "numeral m < p25519"
  shows "(numeral m :: fp) \<noteq> 0"
proof
  assume "(numeral m :: fp) = 0"
  then have "(numeral m :: int) mod p25519 = 0"
    using of_int_fp_eq_0_iff [of "numeral m"] by (simp add: dvd_eq_mod_eq_0)
  with assms show False by simp
qed

lemma two_fp_nonzero: "(2 :: fp) \<noteq> 0"
  by (rule numeral_fp_nonzero) (simp add: p25519_def)

section \<open>Limb vectors as field elements\<close>

definition fe :: "bignum25519 \<Rightarrow> fp" where
  "fe a = of_int (fval a)"

lemma of_int_feval [simp]: "of_int (feval a) = fe a"
  by (simp add: fe_def feval_def)

lemma residue_fe: "residue (fe a) = feval a"
  by (simp add: fe_def feval_def residue_of_int)

lemma fe_eq_iff: "fe a = fe b \<longleftrightarrow> feval a = feval b"
  by (simp add: residue_fe [symmetric] residue_inject)

lemma of_int_fp_ops:
  "(of_int (fp_add x y) :: fp) = of_int x + of_int y"
  "(of_int (fp_sub x y) :: fp) = of_int x - of_int y"
  "(of_int (fp_neg x) :: fp) = - of_int x"
  "(of_int (fp_mul x y) :: fp) = of_int x * of_int y"
  "(of_int (fp_sqr x) :: fp) = of_int x * of_int x"
  "(of_int (fp_pow x n) :: fp) = of_int x ^ n"
  by (simp_all add: fp_defs)

lemma fe_via: "feval c = x \<Longrightarrow> fe c = of_int x"
  using of_int_feval [of c] by simp

named_theorems fe_fp

lemma fe_basic_ops [fe_fp]:
  "loose a \<Longrightarrow> loose b \<Longrightarrow> fe (curve25519_mul a b) = fe a * fe b"
  "loose a \<Longrightarrow> fe (curve25519_square a) = fe a * fe a"
  "tight a \<Longrightarrow> tight b \<Longrightarrow> fe (curve25519_add a b) = fe a + fe b"
  "basic a \<Longrightarrow> basic b \<Longrightarrow> fe (curve25519_add_after_basic a b) = fe a + fe b"
  "tight a \<Longrightarrow> tight b \<Longrightarrow> fe (curve25519_sub a b) = fe a - fe b"
  "basic a \<Longrightarrow> basic b \<Longrightarrow> fe (curve25519_sub_after_basic a b) = fe a - fe b"
  by (simp_all add: fe_via [OF mul_val] fe_via [OF square_val] fe_via [OF add_val(1)] fe_via [OF add_val(2)]
      fe_via [OF sub_val(1)] fe_via [OF sub_val(2)] of_int_fp_ops)

lemma fe_reduce_ops [fe_fp]:
  "basic a \<Longrightarrow> basic b \<Longrightarrow> fe (curve25519_add_reduce a b) = fe a + fe b"
  "basic a \<Longrightarrow> basic b \<Longrightarrow> fe (curve25519_sub_reduce a b) = fe a - fe b"
  "tight a \<Longrightarrow> fe (curve25519_neg a) = - fe a"
  by (simp_all add: fe_via [OF reduce_val(1)] fe_via [OF reduce_val(2)] fe_via [OF reduce_val(3)] of_int_fp_ops)

lemma fe_recip [fe_fp]: "loose a \<Longrightarrow> fe (curve25519_recip a) = inverse (fe a)"
proof -
  assume a: "loose a"
  have e: "2 ^ 255 - 21 = nat (p25519 - 2)" by (simp add: p25519_def)
  show ?thesis
    by (simp only: fe_via [OF recip_correct(2) [OF a]] of_int_fp_ops of_int_feval inverse_fp_def e)
qed

lemma fe_pow_two252m3 [fe_fp]: "loose a \<Longrightarrow> fe (curve25519_pow_two252m3 a) = fe a ^ (2 ^ 252 - 3)"
  by (simp only: fe_via [OF pow_two252m3_correct(2)] of_int_fp_ops of_int_feval)

lemma fe_expand [fe_fp]: "length bs = 32 \<Longrightarrow> fe (curve25519_expand bs) = of_int (le_val bs mod 2 ^ 255)"
  by (simp only: fe_via [OF expand_val] of_int_mod_p)

lemma contract_residue: "loose a \<Longrightarrow> curve25519_contract a = le_bytes 32 (residue (fe a))"
  by (simp add: contract_val residue_fe)

lemma fe_copy [simp]: "curve25519_copy a = a"
  by (simp add: curve25519_copy_def)

lemma fe_constants [simp]: "fe (Fe 0 0 0 0 0) = 0" "fe (Fe 1 0 0 0 0) = 1" "fe (Fe 2 0 0 0 0) = 2"
  by (simp_all add: fe_def)

lemma tight_constants [fe_bound]: "tight (Fe 0 0 0 0 0)" "tight (Fe 1 0 0 0 0)" "tight (Fe 2 0 0 0 0)"
  by (simp_all add: tight_def)

text \<open>The constant-time selections are the conditionals they implement.\<close>

lemma swap_conditional_if:
  "curve25519_swap_conditional a b (of_bool c) = (if c then (b, a) else (a, b))"
proof (cases a; cases b)
  fix a0 a1 a2 a3 a4 b0 b1 b2 b3 b4
  assume ab: "a = Fe a0 a1 a2 a3 a4" "b = Fe b0 b1 b2 b3 b4"
  have x: "x XOR (x XOR y) = y" "y XOR (x XOR y) = x" for x y :: u64
    by (simp_all add: bit_eq_iff bit_xor_iff) blast+
  show ?thesis by (cases c) (simp_all add: ab Let_def x)
qed

lemma move_conditional_word_if: "move_conditional_word (of_bool c) x y = (if c then y else x)"
  by (cases c) (simp_all add: move_conditional_word_def)

end
