(* ===== verification/Edwards_Points.thy ===== *)
theory Edwards_Points
  imports Edwards_Group Fp_Field Edwards
begin

text \<open>
  The curve of the code: its constants in the field of \<open>Fp_Field\<close> satisfy the contract of
  \<open>Edwards_Group\<close>, and the points form a type of the library's class of commutative groups.
\<close>

section \<open>The constants\<close>

definition curve_d :: fp where "curve_d = fe ge25519_ecd"
definition curve_i :: fp where "curve_i = fe ge25519_sqrtneg1"

lemma of_int_fp_cong: "m mod p25519 = n mod p25519 \<Longrightarrow> (of_int m :: fp) = of_int n"
  by (simp add: of_int_fp_eq_iff)

lemma octal_product:
  "oeq (oredmul (O3 (O2 OZ)) m n) r \<Longrightarrow> (oval m * oval n) mod (2 ^ 255 - 19) = oval r mod (2 ^ 255 - 19)"
  using oval_oredmul [of "O3 (O2 OZ)" m n] by (simp add: oeq_def)

lemma curve_d_fraction: "curve_d * 121666 = - 121665"
proof -
  have "(of_int (fval ge25519_ecd * 121666) :: fp) = of_int (- 121665)"
    by (rule of_int_fp_cong) (simp add: ge25519_ecd_def p25519_def)
  then show ?thesis by (simp add: curve_d_def fe_def)
qed

lemma curve_i_square: "curve_i * curve_i = - 1"
proof -
  define x where "x = oct_int 0x2b8324804fc1df0b2b4d00993dfbd7a72f431806ad2fe478c4ee1b274a0ea0b0"
  have "oeq (oredmul (O3 (O2 OZ)) x x) (oct_int 0x7fffffffffffffffffffffffffffffffffffffffffffffffffffffffffffffec)" by (simp only: x_def oct_eval)
  moreover have "fval ge25519_sqrtneg1 = oval x" by (simp add: x_def ge25519_sqrtneg1_def oval_oct_int)
  ultimately have "(of_int (fval ge25519_sqrtneg1 * fval ge25519_sqrtneg1) :: fp) = of_int 0x7fffffffffffffffffffffffffffffffffffffffffffffffffffffffffffffec"
    by (intro of_int_fp_cong) (simp only: octal_product p25519_def oval_literals)
  also have "\<dots> = of_int (- 1)" by (rule of_int_fp_cong) (simp add: p25519_def)
  finally have "(of_int (fval ge25519_sqrtneg1 * fval ge25519_sqrtneg1) :: fp) = of_int (- 1)" .
  then show ?thesis by (simp add: curve_i_def fe_def)
qed

lemma fe_ec2d [fe_fp]: "fe ge25519_ec2d = 2 * curve_d"
proof -
  have "(of_int (fval ge25519_ec2d) :: fp) = of_int (2 * fval ge25519_ecd)"
    by (rule of_int_fp_cong) (simp add: ge25519_ec2d_def ge25519_ecd_def p25519_def)
  then show ?thesis by (simp add: curve_d_def fe_def)
qed

lemma fe_ecd [fe_fp]: "fe ge25519_ecd = curve_d" "fe ge25519_sqrtneg1 = curve_i"
  by (simp_all add: curve_d_def curve_i_def)

lemma tight_curve_constants [fe_bound]: "tight ge25519_ecd" "tight ge25519_ec2d" "tight ge25519_sqrtneg1"
  by (simp_all add: tight_def ge25519_ecd_def ge25519_ec2d_def ge25519_sqrtneg1_def)

text \<open>
  \<open>d\<close> is not a square: \<open>- d\<close> times a square is \<open>121665 * 121666\<close>, whose power at \<open>(p - 1) / 2\<close> is \<open>-1\<close>, while
  that of a square is 1.
\<close>

lemma half_power_square:
  assumes "(s :: fp) * s \<noteq> 0"
  shows "(s * s) ^ nat ((p25519 - 1) div 2) = 1"
proof -
  have "s * s = s ^ 2" by (simp add: power2_eq_square)
  moreover have "2 * nat ((p25519 - 1) div 2) = nat (p25519 - 1)" by (simp add: p25519_def)
  ultimately show ?thesis using fermat_fp [of s] assms by (simp only: power_mult [symmetric]) auto
qed

lemma half_power_121665: "(121665 * 121666 :: fp) ^ nat ((p25519 - 1) div 2) = - 1"
proof -
  have e: "nat ((p25519 - 1) div 2) =
      28948022309329048855892746252171976963317496166410141009864396001978282409974"
    and p: "p25519 = 57896044618658097711785492504343953926634992332820282019728792003956564819949"
    by (simp_all add: p25519_def)
  have "(of_int (14802493890 ^ nat ((p25519 - 1) div 2)) :: fp) = of_int (- 1)"
    by (rule of_int_fp_cong, unfold e, unfold p) (rule euler_d)
  then have "(of_int 14802493890 :: fp) ^ nat ((p25519 - 1) div 2) = - 1"
    by (simp only: of_int_power of_int_minus of_int_1)
  moreover have "(121665 * 121666 :: fp) = of_int 14802493890" by simp
  ultimately show ?thesis by (simp only:)
qed

lemma minus_one_fp_neq: "(- 1 :: fp) \<noteq> 1"
proof
  assume "(- 1 :: fp) = 1"
  then have "(2 :: fp) = 0" by (simp add: eq_neg_iff_add_eq_0 [symmetric])
  with two_fp_nonzero show False by simp
qed

lemma curve_d_nonsquare: "r * r \<noteq> curve_d"
proof
  assume r: "r * r = curve_d"
  define s where "s = curve_i * 121666 * r"
  have "s * s = (curve_i * curve_i) * ((r * r * 121666) * 121666)" by (simp only: s_def ac_simps)
  then have s: "s * s = 121665 * 121666" by (simp only: curve_i_square r curve_d_fraction) simp
  have "s * s \<noteq> 0"
    unfolding s using numeral_fp_nonzero [of "num.Bit0 num.One"] numeral_fp_nonzero by (simp add: p25519_def)
  from half_power_square [OF this] half_power_121665 minus_one_fp_neq show False
    unfolding s by simp
qed

interpretation c25519: edwards_curve curve_d curve_i
  by unfold_locales (rule curve_i_square two_fp_nonzero curve_d_nonsquare)+

section \<open>The group of points\<close>

typedef point = "{P. c25519.on_curve P}"
  morphisms coords Abs_point
  using c25519.neutral_closed by blast

setup_lifting type_definition_point

instantiation point :: ab_group_add
begin

lift_definition zero_point :: point is "(0, 1)" by (rule c25519.neutral_closed)
lift_definition plus_point :: "point \<Rightarrow> point \<Rightarrow> point" is c25519.plus_pt by (rule c25519.closed)
lift_definition uminus_point :: "point \<Rightarrow> point" is c25519.minus_pt by (rule c25519.minus_closed)
lift_definition minus_point :: "point \<Rightarrow> point \<Rightarrow> point" is "\<lambda>P Q. c25519.plus_pt P (c25519.minus_pt Q)"
  by (intro c25519.closed c25519.minus_closed)

instance
proof
  fix P Q R :: point
  show "P + Q + R = P + (Q + R)" by transfer (rule c25519.plus_pt_assoc)
  show "P + Q = Q + P" by transfer (rule c25519.plus_pt_comm)
  show "0 + P = P" by transfer (rule c25519.plus_pt_neutral)
  show "- P + P = 0" by transfer (rule c25519.plus_pt_inverse)
  show "P - Q = P + - Q" by transfer simp
qed

end

definition px :: "point \<Rightarrow> fp" where "px P = fst (coords P)"
definition py :: "point \<Rightarrow> fp" where "py P = snd (coords P)"

lemma point_eqI: "px P = px Q \<Longrightarrow> py P = py Q \<Longrightarrow> P = Q"
  by (simp add: px_def py_def coords_inject [symmetric] prod_eq_iff)

lemma point_on_curve: "c25519.on_curve (px P, py P)"
  using coords [of P] by (simp add: px_def py_def)

lemma point_equation: "- (px P * px P) + py P * py P = 1 + curve_d * (px P * px P) * (py P * py P)"
  using point_on_curve [of P] by (simp add: c25519.on_curve_def)

lemma point_of_coords:
  assumes "- (x * x) + y * y = 1 + curve_d * (x * x) * (y * y)"
  obtains P where "px P = x" "py P = y"
  using assms that [of "Abs_point (x, y)"] by (simp add: px_def py_def Abs_point_inverse c25519.on_curve_def)

lemma coords_pair: "coords P = (px P, py P)"
  by (simp add: px_def py_def)

lemma point_zero [simp]: "px 0 = 0" "py 0 = 1"
  by (simp_all add: px_def py_def zero_point.rep_eq)

lemma point_uminus [simp]: "px (- P) = - px P" "py (- P) = py P"
  by (simp_all add: px_def py_def uminus_point.rep_eq c25519.minus_pt_def split: prod.split)

abbreviation sum_term :: "point \<Rightarrow> point \<Rightarrow> fp" where
  "sum_term P Q \<equiv> curve_d * px P * px Q * py P * py Q"

lemma sum_denominators: "1 + sum_term P Q \<noteq> 0" "1 - sum_term P Q \<noteq> 0"
  by (rule c25519.complete [OF point_on_curve point_on_curve])+

lemma point_plus:
  "px (P + Q) = (px P * py Q + px Q * py P) / (1 + sum_term P Q)"
  "py (P + Q) = (py P * py Q + px P * px Q) / (1 - sum_term P Q)"
proof -
  have "coords (P + Q) = c25519.plus_pt (px P, py P) (px Q, py Q)"
    by (simp only: plus_point.rep_eq coords_pair [of P] coords_pair [of Q])
  then show "px (P + Q) = (px P * py Q + px Q * py P) / (1 + sum_term P Q)"
    "py (P + Q) = (py P * py Q + px P * px Q) / (1 - sum_term P Q)"
    by (simp_all add: px_def [of "P + Q"] py_def [of "P + Q"] c25519.plus_pt_def)
qed

end
