(* ===== verification/Multiples.thy ===== *)
theory Multiples
  imports Main
begin

text \<open>Integer multiples in a commutative group, written additively.\<close>

primrec nmul :: "nat \<Rightarrow> 'a :: ab_group_add \<Rightarrow> 'a" where
  "nmul 0 P = 0"
| "nmul (Suc n) P = P + nmul n P"

definition smul :: "int \<Rightarrow> 'a :: ab_group_add \<Rightarrow> 'a" where
  "smul k P = (if 0 \<le> k then nmul (nat k) P else - nmul (nat (- k)) P)"

lemma nmul_add: "nmul (m + n) P = nmul m P + nmul n P"
  by (induction m) (simp_all add: add.assoc)

lemma smul_0 [simp]: "smul 0 P = 0"
  by (simp add: smul_def)

lemma smul_1 [simp]: "smul 1 P = P"
  by (simp add: smul_def)

lemma smul_int: "smul (int n) P = nmul n P"
  by (simp add: smul_def)

lemma smul_diff: "smul (int m - int n) P = nmul m P - nmul n P"
proof (cases "n \<le> m")
  case True
  then obtain k where "m = n + k" by (metis le_Suc_ex)
  then show ?thesis by (simp add: smul_int nmul_add)
next
  case False
  then obtain k where k: "n = m + k" "0 < k" by (metis less_imp_add_positive not_le)
  then show ?thesis by (simp add: smul_def nmul_add)
qed

lemma smul_add: "smul (j + k) P = smul j P + smul k P"
proof -
  obtain a b where j: "j = int a - int b" using int_diff_cases by blast
  obtain m n where k: "k = int m - int n" using int_diff_cases by blast
  have "j + k = int (a + m) - int (b + n)" by (simp add: j k)
  then have "smul (j + k) P = nmul (a + m) P - nmul (b + n) P" by (simp only: smul_diff)
  also have "\<dots> = smul j P + smul k P" by (simp add: j k smul_diff nmul_add)
  finally show ?thesis .
qed

lemma smul_minus [simp]: "smul (- k) P = - smul k P"
  using smul_add [of "- k" k P] by (simp add: eq_neg_iff_add_eq_0)

lemma smul_sub: "smul (j - k) P = smul j P - smul k P"
  using smul_add [of j "- k" P] by simp

lemma smul_point_0 [simp]: "smul k 0 = 0"
proof -
  have "nmul n 0 = (0 :: 'a)" for n by (induction n) simp_all
  then show ?thesis by (simp add: smul_def)
qed

lemma nmul_distrib: "nmul n (P + Q) = nmul n P + nmul n Q"
  by (induction n) (simp_all add: algebra_simps)

lemma smul_distrib: "smul k (P + Q) = smul k P + smul k Q"
  by (simp add: smul_def nmul_distrib)

lemma smul_neg_point [simp]: "smul k (- P) = - smul k P"
  using smul_distrib [of k "- P" P] by (simp add: eq_neg_iff_add_eq_0)

lemma nmul_smul: "nmul n (smul k P) = smul (int n * k) P"
  by (induction n) (simp_all add: smul_add algebra_simps)

lemma smul_smul: "smul j (smul k P) = smul (j * k) P"
proof (cases "0 \<le> j")
  case True
  then show ?thesis by (simp add: smul_def [of j] nmul_smul)
next
  case False
  then have "smul j (smul k P) = - smul (int (nat (- j)) * k) P" by (simp add: smul_def [of j] nmul_smul)
  also have "\<dots> = smul (- (int (nat (- j)) * k)) P" by (simp only: smul_minus)
  finally show ?thesis using False by simp
qed

lemma smul_2: "smul 2 P = P + P"
  using smul_add [of 1 1 P] by simp

lemma smul_mod: "smul l P = 0 \<Longrightarrow> smul (k mod l) P = smul k P"
proof -
  assume l: "smul l P = 0"
  have "smul k P = smul (k div l * l + k mod l) P" by simp
  also have "\<dots> = smul (k div l) (smul l P) + smul (k mod l) P" by (simp only: smul_add smul_smul)
  finally show ?thesis by (simp add: l)
qed

end
