(* ===== verification/Edwards_Correct.thy ===== *)
theory Edwards_Correct
  imports Edwards_Points Multiples
begin

unbundle bit_operations_syntax

text \<open>
  The point operations of the code compute the group law.  A structure of the code represents a point of
  the group by projective coordinates within their limb bounds; each operation maps representations of
  its arguments to a representation of the sum, double, or difference.
\<close>

section \<open>Representations\<close>

definition rep_partial :: "ge25519 \<Rightarrow> point \<Rightarrow> bool" where
  "rep_partial r P \<longleftrightarrow> tight (ge_x r) \<and> tight (ge_y r) \<and> tight (ge_z r) \<and> fe (ge_z r) \<noteq> 0 \<and>
     fe (ge_x r) = px P * fe (ge_z r) \<and> fe (ge_y r) = py P * fe (ge_z r)"

definition represents :: "ge25519 \<Rightarrow> point \<Rightarrow> bool" where
  "represents r P \<longleftrightarrow> rep_partial r P \<and> tight (ge_t r) \<and> fe (ge_t r) = px P * py P * fe (ge_z r)"

definition rep_p1p1 :: "ge25519_p1p1 \<Rightarrow> point \<Rightarrow> bool" where
  "rep_p1p1 r P \<longleftrightarrow> loose (pp_x r) \<and> loose (pp_y r) \<and> loose (pp_z r) \<and> loose (pp_t r) \<and>
     fe (pp_z r) \<noteq> 0 \<and> fe (pp_t r) \<noteq> 0 \<and>
     fe (pp_x r) = px P * fe (pp_z r) \<and> fe (pp_y r) = py P * fe (pp_t r)"

definition rep_niels :: "ge25519_niels \<Rightarrow> point \<Rightarrow> bool" where
  "rep_niels q P \<longleftrightarrow> tight (n_ysubx q) \<and> tight (n_xaddy q) \<and> tight (n_t2d q) \<and>
     fe (n_ysubx q) = py P - px P \<and> fe (n_xaddy q) = py P + px P \<and>
     fe (n_t2d q) = 2 * curve_d * px P * py P"

definition rep_pniels :: "ge25519_pniels \<Rightarrow> point \<Rightarrow> bool" where
  "rep_pniels q P \<longleftrightarrow> basic (pn_ysubx q) \<and> basic (pn_xaddy q) \<and> tight (pn_z q) \<and> tight (pn_t2d q) \<and>
     fe (pn_z q) \<noteq> 0 \<and> fe (pn_ysubx q) = (py P - px P) * fe (pn_z q) \<and>
     fe (pn_xaddy q) = (py P + px P) * fe (pn_z q) \<and>
     fe (pn_t2d q) = 2 * curve_d * px P * py P * fe (pn_z q)"

lemmas rep_defs = rep_partial_def represents_def rep_p1p1_def rep_niels_def rep_pniels_def

lemma represents_partial: "represents r P \<Longrightarrow> rep_partial r P"
  by (simp add: represents_def)

lemma rep_partial_unique: "rep_partial r P \<Longrightarrow> rep_partial r Q \<Longrightarrow> P = Q"
  by (rule point_eqI) (simp_all add: rep_partial_def)

text \<open>
  A completed sum: numerators and denominators of the addition law, with a common nonzero factor.
\<close>

lemma rep_p1p1_sumI:
  assumes "loose (pp_x r)" "loose (pp_y r)" "loose (pp_z r)" "loose (pp_t r)" "w \<noteq> 0"
    and "fe (pp_x r) = w * (px P * py Q + px Q * py P)" "fe (pp_y r) = w * (py P * py Q + px P * px Q)"
    and "fe (pp_z r) = w * (1 + sum_term P Q)" "fe (pp_t r) = w * (1 - sum_term P Q)"
  shows "rep_p1p1 r (P + Q)"
  using assms sum_denominators [of P Q] by (simp add: rep_p1p1_def point_plus)

lemma rep_p1p1_diffI:
  assumes "loose (pp_x r)" "loose (pp_y r)" "loose (pp_z r)" "loose (pp_t r)" "w \<noteq> 0"
    and "fe (pp_x r) = w * (px P * py Q - px Q * py P)" "fe (pp_y r) = w * (py P * py Q - px P * px Q)"
    and "fe (pp_z r) = w * (1 - sum_term P Q)" "fe (pp_t r) = w * (1 + sum_term P Q)"
  shows "rep_p1p1 r (P - Q)"
  using rep_p1p1_sumI [of r w P "- Q"] assms by simp

section \<open>Conversions\<close>

lemma p1p1_to_full_correct: "rep_p1p1 r P \<Longrightarrow> represents (ge25519_p1p1_to_full r) P"
  by (simp add: rep_defs ge25519_p1p1_to_full_def fe_bound fe_fp)

lemma p1p1_to_partial_correct: "rep_p1p1 r P \<Longrightarrow> rep_partial (ge25519_p1p1_to_partial s r) P"
  by (simp add: rep_defs ge25519_p1p1_to_partial_def fe_bound fe_fp)

lemma full_to_pniels_correct: "represents r P \<Longrightarrow> rep_pniels (ge25519_full_to_pniels r) P"
  by (simp add: rep_defs ge25519_full_to_pniels_def fe_bound fe_fp algebra_simps)

section \<open>Adding and doubling\<close>

lemma add_p1p1_correct:
  assumes "represents p P" "represents q Q"
  shows "rep_p1p1 (ge25519_add_p1p1 p q) (P + Q)"
  by (rule rep_p1p1_sumI [where w = "2 * fe (ge_z p) * fe (ge_z q)"])
    (simp_all add: assms [unfolded rep_defs] ge25519_add_p1p1_def Let_def fe_bound fe_fp two_fp_nonzero algebra_simps)

lemma double_p1p1_correct:
  assumes "rep_partial p P"
  shows "rep_p1p1 (ge25519_double_p1p1 p) (P + P)"
proof (rule rep_p1p1_sumI [where w = "fe (ge_z p) * fe (ge_z p)"])
  note r = assms [unfolded rep_partial_def]
  have e: "py P * py P - px P * px P = 1 + sum_term P P" using point_equation [of P] by (simp add: algebra_simps)
  have "(py P * fe (ge_z p)) * (py P * fe (ge_z p)) - (px P * fe (ge_z p)) * (px P * fe (ge_z p))
      = fe (ge_z p) * fe (ge_z p) * (py P * py P - px P * px P)" by (simp add: algebra_simps)
  note z = this [unfolded e]
  show "fe (pp_z (ge25519_double_p1p1 p)) = fe (ge_z p) * fe (ge_z p) * (1 + sum_term P P)"
    using r z by (simp add: ge25519_double_p1p1_def Let_def fe_bound fe_fp)
  show "fe (pp_t (ge25519_double_p1p1 p)) = fe (ge_z p) * fe (ge_z p) * (1 - sum_term P P)"
    using r z by (simp add: ge25519_double_p1p1_def Let_def fe_bound fe_fp) (simp add: algebra_simps)
qed (simp_all add: assms [unfolded rep_defs] ge25519_double_p1p1_def Let_def fe_bound fe_fp algebra_simps)

lemma double_correct: "rep_partial p P \<Longrightarrow> represents (ge25519_double p) (P + P)"
  by (simp add: ge25519_double_def p1p1_to_full_correct double_p1p1_correct)

lemma double_partial_correct: "rep_partial p P \<Longrightarrow> rep_partial (ge25519_double_partial r p) (P + P)"
  by (simp add: ge25519_double_partial_def p1p1_to_partial_correct double_p1p1_correct)

lemma add_correct: "represents p P \<Longrightarrow> represents q Q \<Longrightarrow> represents (ge25519_add p q) (P + Q)"
  by (simp add: ge25519_add_def p1p1_to_full_correct add_p1p1_correct)

text \<open>The mixed additions add the operand for the sign bit 0 and subtract it for 1.\<close>

lemma nielsadd2_p1p1_correct:
  assumes "represents p P" "rep_niels q Q"
  shows "rep_p1p1 (ge25519_nielsadd2_p1p1 p q 0) (P + Q)" "rep_p1p1 (ge25519_nielsadd2_p1p1 p q 1) (P - Q)"
proof -
  show "rep_p1p1 (ge25519_nielsadd2_p1p1 p q 0) (P + Q)"
    by (rule rep_p1p1_sumI [where w = "2 * fe (ge_z p)"])
      (simp_all add: assms [unfolded rep_defs] ge25519_nielsadd2_p1p1_def p1p1_of_array_def Let_def fe_bound fe_fp
        two_fp_nonzero algebra_simps)
  show "rep_p1p1 (ge25519_nielsadd2_p1p1 p q 1) (P - Q)"
    by (rule rep_p1p1_diffI [where w = "2 * fe (ge_z p)"])
      (simp_all add: assms [unfolded rep_defs] ge25519_nielsadd2_p1p1_def p1p1_of_array_def Let_def fe_bound fe_fp
        two_fp_nonzero algebra_simps)
qed

lemma pnielsadd_p1p1_correct:
  assumes "represents p P" "rep_pniels q Q"
  shows "rep_p1p1 (ge25519_pnielsadd_p1p1 p q 0) (P + Q)" "rep_p1p1 (ge25519_pnielsadd_p1p1 p q 1) (P - Q)"
proof -
  show "rep_p1p1 (ge25519_pnielsadd_p1p1 p q 0) (P + Q)"
    by (rule rep_p1p1_sumI [where w = "2 * fe (ge_z p) * fe (pn_z q)"])
      (simp_all add: assms [unfolded rep_defs] ge25519_pnielsadd_p1p1_def p1p1_of_array_def Let_def fe_bound fe_fp
        two_fp_nonzero algebra_simps)
  show "rep_p1p1 (ge25519_pnielsadd_p1p1 p q 1) (P - Q)"
    by (rule rep_p1p1_diffI [where w = "2 * fe (ge_z p) * fe (pn_z q)"])
      (simp_all add: assms [unfolded rep_defs] ge25519_pnielsadd_p1p1_def p1p1_of_array_def Let_def fe_bound fe_fp
        two_fp_nonzero algebra_simps)
qed

lemma nielsadd2_correct:
  assumes "represents p P" "rep_niels q Q"
  shows "represents (ge25519_nielsadd2 p q) (P + Q)"
proof -
  define r where "r = \<lparr>pp_x = curve25519_sub (curve25519_mul (curve25519_add (ge_y p) (ge_x p)) (n_xaddy q))
      (curve25519_mul (curve25519_sub (ge_y p) (ge_x p)) (n_ysubx q)),
    pp_y = curve25519_add (curve25519_mul (curve25519_add (ge_y p) (ge_x p)) (n_xaddy q))
      (curve25519_mul (curve25519_sub (ge_y p) (ge_x p)) (n_ysubx q)),
    pp_z = curve25519_add_after_basic (curve25519_add (ge_z p) (ge_z p)) (curve25519_mul (ge_t p) (n_t2d q)),
    pp_t = curve25519_sub_after_basic (curve25519_add (ge_z p) (ge_z p)) (curve25519_mul (ge_t p) (n_t2d q))\<rparr>"
  have "rep_p1p1 r (P + Q)"
    by (rule rep_p1p1_sumI [where w = "2 * fe (ge_z p)"])
      (simp_all add: assms [unfolded rep_defs] r_def fe_bound fe_fp two_fp_nonzero algebra_simps)
  moreover have "ge25519_nielsadd2 p q = ge25519_p1p1_to_full r"
    by (simp add: ge25519_nielsadd2_def ge25519_p1p1_to_full_def r_def Let_def)
  ultimately show ?thesis by (simp add: p1p1_to_full_correct)
qed

lemma pnielsadd_correct:
  assumes "represents p P" "rep_pniels q Q"
  shows "rep_pniels (ge25519_pnielsadd p q) (P + Q)"
proof -
  define r where "r = \<lparr>pp_x = curve25519_sub (curve25519_mul (curve25519_add (ge_y p) (ge_x p)) (pn_xaddy q))
      (curve25519_mul (curve25519_sub (ge_y p) (ge_x p)) (pn_ysubx q)),
    pp_y = curve25519_add (curve25519_mul (curve25519_add (ge_y p) (ge_x p)) (pn_xaddy q))
      (curve25519_mul (curve25519_sub (ge_y p) (ge_x p)) (pn_ysubx q)),
    pp_z = curve25519_add_after_basic (curve25519_add (curve25519_mul (ge_z p) (pn_z q)) (curve25519_mul (ge_z p) (pn_z q)))
      (curve25519_mul (ge_t p) (pn_t2d q)),
    pp_t = curve25519_sub_after_basic (curve25519_add (curve25519_mul (ge_z p) (pn_z q)) (curve25519_mul (ge_z p) (pn_z q)))
      (curve25519_mul (ge_t p) (pn_t2d q))\<rparr>"
  have "rep_p1p1 r (P + Q)"
    by (rule rep_p1p1_sumI [where w = "2 * fe (ge_z p) * fe (pn_z q)"])
      (simp_all add: assms [unfolded rep_defs] r_def fe_bound fe_fp two_fp_nonzero algebra_simps)
  then have "represents (ge25519_p1p1_to_full r) (P + Q)" by (rule p1p1_to_full_correct)
  note f = this [unfolded rep_defs]
  have "ge25519_pnielsadd p q = (let s = ge25519_p1p1_to_full r in
      \<lparr>pn_ysubx = curve25519_sub (ge_y s) (ge_x s), pn_xaddy = curve25519_add (ge_x s) (ge_y s),
       pn_z = ge_z s, pn_t2d = curve25519_mul (ge_t s) ge25519_ec2d\<rparr>)"
    by (simp add: ge25519_pnielsadd_def ge25519_p1p1_to_full_def r_def Let_def)
  then show ?thesis by (simp add: rep_pniels_def Let_def f fe_bound fe_fp algebra_simps)
qed

text \<open>The neutral element.\<close>

lemma neutral_correct: "represents ge25519_neutral 0"
  by (simp add: rep_defs ge25519_neutral_def fe_bound)

end
