(* ===== verification/Scalarmult_Correct.thy ===== *)
theory Scalarmult_Correct
  imports Edwards_Correct Ristretto_Correct Modm_Recode
begin

unbundle bit_operations_syntax

text \<open>
  The scalar multiplications compute multiples in the group: the constant-time table lookups select
  the entry of the digit, and the loops evaluate the signed digits of the recoded scalar.
\<close>

section \<open>Digits\<close>

lemma digit_signbit_exact: "- 128 \<le> d \<Longrightarrow> d < 128 \<Longrightarrow> digit_signbit d = of_bool (d < 0)"
proof -
  assume d: "- 128 \<le> d" "d < 128"
  have "uint (digit_signbit d) = (d mod 256) div 128"
    by (simp add: digit_signbit_def bitval uint_word_of_int)
  also have "\<dots> = of_bool (d < 0)"
  proof (cases "d < 0")
    case True
    have "d mod 256 = (d + 256) mod 256" by simp
    also have "\<dots> = d + 256" by (rule mod_pos_pos_trivial) (use d True in simp_all)
    finally have "d mod 256 = d + 256" .
    moreover have "(d + 256) div 128 = 1" using d True by (simp add: div_pos_geq)
    ultimately show ?thesis using True by simp
  qed (use d in simp)
  also have "\<dots> = uint (of_bool (d < 0) :: u8)" by simp
  finally show ?thesis by (simp only: word_uint_eq_iff)
qed

lemma signed_pnielsadd_correct:
  assumes "represents p P" "rep_pniels q (smul \<bar>d\<bar> Q)" "- 128 \<le> d" "d < 128"
  shows "rep_p1p1 (ge25519_pnielsadd_p1p1 p q (digit_signbit d)) (P + smul d Q)"
  using pnielsadd_p1p1_correct [OF assms(1,2)] assms(3,4)
  by (cases "d < 0") (simp_all add: digit_signbit_exact)

lemma signed_nielsadd2_correct:
  assumes "represents p P" "rep_niels q (smul \<bar>d\<bar> Q)" "- 128 \<le> d" "d < 128"
  shows "rep_p1p1 (ge25519_nielsadd2_p1p1 p q (digit_signbit d)) (P + smul d Q)"
  using nielsadd2_p1p1_correct [OF assms(1,2)] assms(3,4)
  by (cases "d < 0") (simp_all add: digit_signbit_exact)

section \<open>The constant-time lookup\<close>

lemma cmove_loop_selects:
  assumes "k \<le> m"
  shows "cmove_stride4b_loop mem (k * 20 + i) (j * 20 + i) (m * 20 + i) 20 x =
    (if k \<le> j \<and> j < m then take 4 (drop (j * 20 + i) mem) else x)"
  using assms
proof (induction "m - k" arbitrary: k x)
  case 0
  then show ?case by (auto simp: cmove_stride4b_loop.simps)
next
  case (Suc n)
  have "cmove_stride4b_loop mem (k * 20 + i) (j * 20 + i) (m * 20 + i) 20 x =
      cmove_stride4b_loop mem (Suc k * 20 + i) (j * 20 + i) (m * 20 + i) 20
        (if k = j then take 4 (drop (k * 20 + i) mem) else x)"
    using Suc(2) by (subst cmove_stride4b_loop.simps) (auto simp: Let_def ac_simps)
  also have "\<dots> = (if Suc k \<le> j \<and> j < m then take 4 (drop (j * 20 + i) mem)
      else if k = j then take 4 (drop (k * 20 + i) mem) else x)"
    using Suc by (intro Suc(1)) simp_all
  finally show ?case using Suc(2) by auto
qed

lemma cmove_selects:
  assumes "j < m"
  shows "ge25519_cmove_stride4b mem i (j * 20 + i) (m * 20 + i) 20 = take 4 (drop (j * 20 + i) mem)"
  using cmove_loop_selects [of 1 m mem i j] assms
  by (cases j) (auto simp: ge25519_cmove_stride4b_def ac_simps)

lemma length_pniels_words [simp]: "length (pniels_words q) = 20"
  by (cases "pn_ysubx q"; cases "pn_xaddy q"; cases "pn_z q"; cases "pn_t2d q") (simp add: pniels_words_def)

lemma pniels_of_words [simp]: "pniels_of_words (pniels_words q) = q"
  by (cases "pn_ysubx q"; cases "pn_xaddy q"; cases "pn_z q"; cases "pn_t2d q")
    (simp add: pniels_words_def pniels_of_words_def fe_of_words_def)

lemma take_drop_concat:
  assumes "\<And>x. x \<in> set xs \<Longrightarrow> length (f x) = n" "j < length xs"
  shows "take n (drop (j * n) (concat (map f xs))) = f (xs ! j)"
  using assms
proof (induction xs arbitrary: j)
  case (Cons x xs)
  then show ?case by (cases j) auto
qed simp

lemma move_conditional_pniels_array_selects:
  assumes "pos < length pre"
  shows "ge25519_move_conditional_pniels_array pre pos (length pre) = pre ! pos"
proof -
  define mem where "mem = concat (map pniels_words pre)"
  define w where "w = pniels_words (pre ! pos)"
  have w: "take 20 (drop (pos * 20) mem) = w" "length w = 20"
    unfolding mem_def w_def by (rule take_drop_concat [OF _ assms]) simp_all
  have part: "ge25519_cmove_stride4b mem i (pos * 20 + i) (length pre * 20 + i) 20 = take 4 (drop i w)"
    if "i \<le> 16" for i
  proof -
    have "take 4 (drop i w) = take 4 (drop i (take 20 (drop (pos * 20) mem)))" by (simp only: w)
    also have "\<dots> = take 4 (drop (pos * 20 + i) mem)" using that by (simp add: drop_take ac_simps)
    finally show ?thesis by (simp only: cmove_selects [OF assms])
  qed
  have "concat (map (\<lambda>i. take 4 (drop i w)) [0, 4, 8, 12, 16]) = w"
  proof -
    have "take 4 v @ drop 4 v = v" for v :: "u64 list" by simp
    have "take 4 (drop 16 w) = drop 16 w" using w(2) by simp
    then show ?thesis
      using append_take_drop_id [of 4 w] append_take_drop_id [of 4 "drop 4 w"]
        append_take_drop_id [of 4 "drop 8 w"] append_take_drop_id [of 4 "drop 12 w"] by simp
  qed
  then show ?thesis
    by (simp add: ge25519_move_conditional_pniels_array_def Let_def mem_def [symmetric] part part [of 0, simplified]) (simp add: w_def)
qed

text \<open>
  The loops keep their accumulator without the extended coordinate and the completed point it came from, from
  which the extended coordinate is recovered at the end.
\<close>

definition accumulates :: "ge25519 \<times> ge25519_p1p1 \<Rightarrow> point \<Rightarrow> bool" where
  "accumulates st P \<longleftrightarrow> (\<exists>r. fst st = ge25519_p1p1_to_partial r (snd st)) \<and> rep_p1p1 (snd st) P"

lemma accumulates_partial: "accumulates st P \<Longrightarrow> rep_partial (fst st) P"
  by (auto simp: accumulates_def p1p1_to_partial_correct)

lemma accumulates_full:
  assumes "accumulates (r, t) P"
  shows "represents (r\<lparr>ge_t := curve25519_mul (pp_x t) (pp_y t)\<rparr>) P"
proof -
  obtain s where "r = ge25519_p1p1_to_partial s t" "rep_p1p1 t P" using assms by (auto simp: accumulates_def)
  then have "r\<lparr>ge_t := curve25519_mul (pp_x t) (pp_y t)\<rparr> = ge25519_p1p1_to_full t"
    by (simp add: ge25519_p1p1_to_partial_def ge25519_p1p1_to_full_def)
  with p1p1_to_full_correct [OF \<open>rep_p1p1 t P\<close>] show ?thesis by simp
qed

section \<open>Constant-time multiplication of a variable point\<close>

definition pniels_multiples :: "point \<Rightarrow> ge25519_pniels list \<Rightarrow> bool" where
  "pniels_multiples P pre \<longleftrightarrow> (\<forall>k<length pre. rep_pniels (pre ! k) (smul (int k) P))"

lemma pniels_multiples_snoc:
  "pniels_multiples P pre \<Longrightarrow> rep_pniels q (smul (int (length pre)) P) \<Longrightarrow> pniels_multiples P (pre @ [q])"
  by (auto simp: pniels_multiples_def nth_append less_Suc_eq)

lemma set_neutral_correct: "represents ge25519_set_neutral 0"
  using neutral_correct by (simp add: ge25519_set_neutral_def ge25519_neutral_def zero_def one_def)

lemma scalarmult_tg_table_correct:
  assumes "represents p P"
  shows "length (scalarmult_tg_table p) = 9" "pniels_multiples P (scalarmult_tg_table p)"
proof -
  define d1 where "d1 = ge25519_double p"
  define pre where "pre = [ge25519_full_to_pniels ge25519_set_neutral, ge25519_full_to_pniels p, ge25519_full_to_pniels d1]"
  define f where "f n = foldl (\<lambda>pre i. pre @ [ge25519_pnielsadd d1 (pre ! i)]) pre [1..<Suc n]" for n
  have d1: "represents d1 (smul 2 P)"
    using double_correct [OF represents_partial [OF assms]] by (simp add: d1_def smul_2)
  have pre: "length pre = 3" "pniels_multiples P pre"
    using full_to_pniels_correct [OF set_neutral_correct] full_to_pniels_correct [OF assms] full_to_pniels_correct [OF d1]
    by (auto simp: pniels_multiples_def pre_def less_Suc_eq numeral_3_eq_3 numeral_2_eq_2)
  have step: "length (f n) = n + 3 \<and> pniels_multiples P (f n)" for n
  proof (induction n)
    case 0
    then show ?case using pre by (simp add: f_def)
  next
    case (Suc n)
    have "f (Suc n) = f n @ [ge25519_pnielsadd d1 (f n ! Suc n)]" by (simp add: f_def)
    moreover have "rep_pniels (ge25519_pnielsadd d1 (f n ! Suc n)) (smul 2 P + smul (int (Suc n)) P)"
      using Suc by (intro pnielsadd_correct [OF d1]) (simp add: pniels_multiples_def del: of_nat_Suc)
    then have "rep_pniels (ge25519_pnielsadd d1 (f n ! Suc n)) (smul (int (length (f n))) P)"
      using Suc by (simp add: smul_add [symmetric] add.commute)
    ultimately show ?case using Suc pniels_multiples_snoc by simp
  qed
  have "scalarmult_tg_table p = f 6" by (simp add: scalarmult_tg_table_def Let_def f_def pre_def d1_def)
  with step [of 6] show "length (scalarmult_tg_table p) = 9" "pniels_multiples P (scalarmult_tg_table p)"
    by simp_all
qed

lemma scalarmult_tg_step_correct:
  assumes "rep_partial (fst st) Q" "length pre = 9" "pniels_multiples P pre" "\<bar>ds ! i\<bar> \<le> 8"
  shows "accumulates (scalarmult_tg_step pre ds st i) (smul 16 Q + smul (ds ! i) P)"
proof -
  define d where "d = ds ! i"
  define r1 where "r1 = ge25519_double_partial (fst st) (fst st)"
  define r2 where "r2 = ge25519_double_partial r1 r1"
  define r3 where "r3 = ge25519_double_partial r2 r2"
  define r4 where "r4 = ge25519_p1p1_to_full (ge25519_double_p1p1 r3)"
  define q where "q = ge25519_move_conditional_pniels_array pre (nat \<bar>d\<bar>) 9"
  have "rep_partial r3 (smul 8 Q)"
    unfolding r3_def r2_def r1_def
    using double_partial_correct [OF double_partial_correct [OF double_partial_correct [OF assms(1)]]]
    by (simp only: smul_2 [symmetric] smul_smul) simp
  then have r4: "represents r4 (smul 16 Q)"
    unfolding r4_def using p1p1_to_full_correct [OF double_p1p1_correct [of r3 "smul 8 Q"]]
    by (simp add: smul_2 [symmetric] smul_smul)
  have "q = pre ! nat \<bar>d\<bar>" "nat \<bar>d\<bar> < length pre"
    using move_conditional_pniels_array_selects [of "nat \<bar>d\<bar>" pre] assms(2,4) by (simp_all add: q_def d_def)
  then have "rep_pniels q (smul \<bar>d\<bar> P)"
    using assms(3) by (auto simp: pniels_multiples_def)
  then have "rep_p1p1 (ge25519_pnielsadd_p1p1 r4 q (digit_signbit d)) (smul 16 Q + smul d P)"
    using assms(4) by (intro signed_pnielsadd_correct [OF r4]) (simp_all add: d_def)
  moreover have "scalarmult_tg_step pre ds st i = (let t = ge25519_pnielsadd_p1p1 r4 q (digit_signbit d)
      in (ge25519_p1p1_to_partial r4 t, t))"
    by (simp add: scalarmult_tg_step_def Let_def d_def r1_def r2_def r3_def r4_def q_def)
  ultimately show ?thesis by (auto simp: accumulates_def Let_def d_def)
qed

lemma smul_next_digit:
  "k < length ds \<Longrightarrow> smul b (smul (digits_val b (drop (Suc k) ds)) P) + smul (ds ! k) P = smul (digits_val b (drop k ds)) P"
  by (simp only: smul_smul smul_add [symmetric]) (simp add: Cons_nth_drop_Suc [symmetric] add.commute)

lemma scalarmult_tg_loop_correct:
  fixes t0 :: ge25519_p1p1
  assumes "represents p P" "length ds = 64" "\<And>i. i < 64 \<Longrightarrow> \<bar>ds ! i\<bar> \<le> 8" "n \<le> 64"
  defines "loop k \<equiv> foldl (scalarmult_tg_step (scalarmult_tg_table p) ds) (ge25519_set_neutral, t0) (rev [k..<64])"
  shows "rep_partial (fst (loop (64 - n))) (smul (digits_val 16 (drop (64 - n) ds)) P) \<and>
    (0 < n \<longrightarrow> accumulates (loop (64 - n)) (smul (digits_val 16 (drop (64 - n) ds)) P))"
  using assms(4)
proof (induction n)
  case 0
  then show ?case using represents_partial [OF set_neutral_correct] assms(2) by (simp add: loop_def)
next
  case (Suc n)
  define k where "k = 63 - n"
  have k: "64 - Suc n = k" "64 - n = Suc k" "k < 64" using Suc(2) by (simp_all add: k_def)
  have "rep_partial (fst (loop (Suc k))) (smul (digits_val 16 (drop (Suc k) ds)) P)"
    using Suc unfolding k by simp
  from scalarmult_tg_step_correct [OF this scalarmult_tg_table_correct [OF assms(1)] assms(3) [OF k(3)]]
  have "accumulates (scalarmult_tg_step (scalarmult_tg_table p) ds (loop (Suc k)) k) (smul (digits_val 16 (drop k ds)) P)"
    using k(3) assms(2) by (simp only: smul_next_digit)
  moreover have "loop k = scalarmult_tg_step (scalarmult_tg_table p) ds (loop (Suc k)) k"
    using k(3) upt_conv_Cons [of k 64] by (simp add: loop_def)
  ultimately show ?case unfolding k by (simp add: accumulates_partial)
qed

lemma scalarmult_tg_correct:
  assumes "represents p P" "sc_limbs (2 ^ 32) s" "sval s < 2 ^ 255"
  shows "represents (ge25519_scalarmult_tg p s) (smul (sval s) P)"
proof -
  define ds where "ds = contract256_window4_modm s"
  note w = contract256_window4_modm_correct [OF assms(2,3), folded ds_def]
  have "\<bar>ds ! i\<bar> \<le> 8" if "i < 64" for i
    using w(3) [of i] w(4) that by (cases "i = 63") auto
  from scalarmult_tg_loop_correct [OF assms(1) w(2) this, of 64]
  have "accumulates (foldl (scalarmult_tg_step (scalarmult_tg_table p) ds)
      (ge25519_set_neutral, \<lparr>pp_x = zero, pp_y = zero, pp_z = zero, pp_t = zero\<rparr>) (rev [0..<64])) (smul (sval s) P)"
    by (simp add: w(1))
  then show ?thesis
    unfolding ge25519_scalarmult_tg_def Let_def ds_def by (auto simp: accumulates_full split: prod.split)
qed

section \<open>The double multiplication of verification\<close>

lemma length_odd_multiples [simp]: "length (odd_multiples d1 q n) = n"
  by (induction n arbitrary: q) simp_all

lemma odd_multiples_correct:
  assumes "represents d1 (smul 2 P)" "rep_pniels q (smul m P)" "k < n"
  shows "rep_pniels (odd_multiples d1 q n ! k) (smul (2 * int k + m) P)"
  using assms(2,3)
proof (induction n arbitrary: q m k)
  case (Suc n)
  have q: "rep_pniels (ge25519_pnielsadd d1 q) (smul (2 + m) P)"
    using pnielsadd_correct [OF assms(1) Suc(2)] by (simp add: smul_add)
  show ?case
  proof (cases k)
    case (Suc j)
    with Suc.IH [OF q, of j] Suc.prems show ?thesis by (simp add: algebra_simps)
  qed (use Suc.prems in simp)
qed simp

definition odd_niels :: "point \<Rightarrow> ge25519_niels list \<Rightarrow> bool" where
  "odd_niels B table \<longleftrightarrow> (\<forall>k<length table. rep_niels (table ! k) (smul (2 * int k + 1) B))"

definition odd_pniels :: "point \<Rightarrow> ge25519_pniels list \<Rightarrow> bool" where
  "odd_pniels P pre \<longleftrightarrow> (\<forall>k<length pre. rep_pniels (pre ! k) (smul (2 * int k + 1) P))"

lemma odd_index:
  assumes "d \<noteq> 0" "sliding_digit m d"
  shows "2 * int (nat \<bar>d\<bar> div 2) + 1 = \<bar>d\<bar>" "\<bar>d\<bar> \<le> m"
proof -
  have "odd (nat \<bar>d\<bar>)" using assms by (simp add: sliding_digit_def even_nat_iff)
  then have "int (2 * (nat \<bar>d\<bar> div 2) + 1) = int (nat \<bar>d\<bar>)" by (rule arg_cong [OF odd_two_times_div_two_succ])
  then show "2 * int (nat \<bar>d\<bar> div 2) + 1 = \<bar>d\<bar>" by simp
  show "\<bar>d\<bar> \<le> m" using assms by (auto simp: sliding_digit_def)
qed

lemma odd_entry_niels:
  assumes "odd_niels B table" "length table = 32" "d \<noteq> 0" "sliding_digit 63 d"
  shows "rep_niels (table ! (nat \<bar>d\<bar> div 2)) (smul \<bar>d\<bar> B)"
proof -
  note o = odd_index [OF assms(3,4)]
  then have "nat \<bar>d\<bar> div 2 < length table" using assms(2) by linarith
  with assms(1) o(1) show ?thesis by (auto simp: odd_niels_def)
qed

lemma odd_entry_pniels:
  assumes "odd_pniels P pre" "length pre = 8" "d \<noteq> 0" "sliding_digit 15 d"
  shows "rep_pniels (pre ! (nat \<bar>d\<bar> div 2)) (smul \<bar>d\<bar> P)"
proof -
  note o = odd_index [OF assms(3,4)]
  then have "nat \<bar>d\<bar> div 2 < length pre" using assms(2) by linarith
  with assms(1) o(1) show ?thesis by (auto simp: odd_pniels_def)
qed

lemma double_scalarmult_step_correct:
  assumes "rep_partial r Q" "odd_pniels P pre" "length pre = 8" "odd_niels B table" "length table = 32"
    and "sliding_digit 15 d1" "sliding_digit 63 d2"
  shows "accumulates (double_scalarmult_step pre table d1 d2 r) (smul 2 Q + (smul d1 P + smul d2 B))"
proof -
  define t1 where "t1 = ge25519_double_p1p1 r"
  define st2 where "st2 = (if d1 \<noteq> 0 then let r = ge25519_p1p1_to_full t1
      in (r, ge25519_pnielsadd_p1p1 r (pre ! (nat \<bar>d1\<bar> div 2)) (digit_signbit d1)) else (r, t1))"
  define st3 where "st3 = (if d2 \<noteq> 0 then let r = ge25519_p1p1_to_full (snd st2)
      in (r, ge25519_nielsadd2_p1p1 r (table ! (nat \<bar>d2\<bar> div 2)) (digit_signbit d2)) else st2)"
  have t1: "rep_p1p1 t1 (smul 2 Q)" using double_p1p1_correct [OF assms(1)] by (simp add: t1_def smul_2)
  have rng: "- 128 \<le> d1" "d1 < 128" "- 128 \<le> d2" "d2 < 128" using assms(6,7) by (auto simp: sliding_digit_def)
  have t2: "rep_p1p1 (snd st2) (smul 2 Q + smul d1 P)"
    using t1 signed_pnielsadd_correct [OF p1p1_to_full_correct [OF t1] odd_entry_pniels [OF assms(2,3) _ assms(6)] rng(1,2)]
    by (auto simp: st2_def Let_def)
  have "rep_p1p1 (snd st3) (smul 2 Q + smul d1 P + smul d2 B)"
    using t2 signed_nielsadd2_correct [OF p1p1_to_full_correct [OF t2] odd_entry_niels [OF assms(4,5) _ assms(7)] rng(3,4)]
    by (auto simp: st3_def Let_def)
  moreover have "double_scalarmult_step pre table d1 d2 r = (ge25519_p1p1_to_partial (fst st3) (snd st3), snd st3)"
    by (simp add: double_scalarmult_step_def st3_def st2_def t1_def Let_def)
  ultimately show ?thesis by (auto simp: accumulates_def add.assoc)
qed

lemma double_scalarmult_loop_correct:
  assumes "odd_pniels P pre" "length pre = 8" "odd_niels B table" "length table = 32"
    and "length a = 256" "length b = 256" "\<And>d. d \<in> set a \<Longrightarrow> sliding_digit 15 d" "\<And>d. d \<in> set b \<Longrightarrow> sliding_digit 63 d"
    and "rep_partial (fst st) (smul (digits_val 2 (drop n a)) P + smul (digits_val 2 (drop n b)) B)" "n \<le> 256"
  shows "rep_partial (fst (double_scalarmult_loop pre table a b n st)) (smul (digits_val 2 a) P + smul (digits_val 2 b) B) \<and>
    (0 < n \<longrightarrow> accumulates (double_scalarmult_loop pre table a b n st) (smul (digits_val 2 a) P + smul (digits_val 2 b) B))"
  using assms(9,10)
proof (induction n arbitrary: st)
  case (Suc n)
  define Q where "Q = smul (digits_val 2 (drop (Suc n) a)) P + smul (digits_val 2 (drop (Suc n) b)) B"
  define st' where "st' = double_scalarmult_step pre table (a ! n) (b ! n) (fst st)"
  have n: "n < length a" "n < length b" using Suc(3) assms(5,6) by simp_all
  have "accumulates st' (smul 2 Q + (smul (a ! n) P + smul (b ! n) B))"
    unfolding st'_def Q_def using Suc(2) n
    by (intro double_scalarmult_step_correct [OF _ assms(1-4)]) (simp_all add: assms(7,8))
  also have "smul 2 Q + (smul (a ! n) P + smul (b ! n) B) =
      smul (digits_val 2 (drop n a)) P + smul (digits_val 2 (drop n b)) B"
    unfolding Q_def smul_distrib smul_next_digit [OF n(1), symmetric] smul_next_digit [OF n(2), symmetric]
    by (simp only: ac_simps)
  finally have acc: "accumulates st' (smul (digits_val 2 (drop n a)) P + smul (digits_val 2 (drop n b)) B)" .
  from Suc(1) [OF accumulates_partial [OF acc]] Suc(3) acc show ?case
    by (cases n) (auto simp: st'_def accumulates_partial)
qed simp

lemma skip_zero_digits_correct:
  assumes "n \<le> length a" "n \<le> length b" "digits_val v (drop n a) = 0" "digits_val v (drop n b) = 0"
  shows "skip_zero_digits a b n \<le> n \<and> digits_val v (drop (skip_zero_digits a b n) a) = 0 \<and>
    digits_val v (drop (skip_zero_digits a b n) b) = 0"
  using assms
proof (induction n)
  case (Suc n)
  then have "digits_val v (drop n a) = a ! n" "digits_val v (drop n b) = b ! n"
    by (simp_all add: Cons_nth_drop_Suc [symmetric])
  with Suc show ?case by (auto simp: le_SucI)
qed simp

lemma double_scalarmult_correct:
  assumes "represents p P" "odd_niels B table" "length table = 32"
    and "sc_limbs (2 ^ 32) s1" "sval s1 < 2 ^ 255" "sc_limbs (2 ^ 32) s2" "sval s2 < 2 ^ 255"
  shows "rep_partial (ge25519_double_scalarmult_vartime table t_uninit p s1 s2) (smul (sval s1) P + smul (sval s2) B)"
    and "sval s1 \<noteq> 0 \<or> sval s2 \<noteq> 0 \<Longrightarrow>
      represents (ge25519_double_scalarmult_vartime table t_uninit p s1 s2) (smul (sval s1) P + smul (sval s2) B)"
proof -
  define a b where "a = contract256_slidingwindow_modm s1 5" and "b = contract256_slidingwindow_modm s2 7"
  define pre where "pre = odd_multiples (ge25519_double p) (ge25519_full_to_pniels p) 8"
  define n where "n = skip_zero_digits a b 256"
  define loop where "loop = double_scalarmult_loop pre table a b n (ge25519_neutral, t_uninit)"
  have a: "length a = 256" "digits_val 2 a = sval s1" "\<And>d. d \<in> set a \<Longrightarrow> sliding_digit 15 d"
    using contract256_slidingwindow_modm_correct [OF assms(4,5), of 5] by (simp_all add: a_def)
  have b: "length b = 256" "digits_val 2 b = sval s2" "\<And>d. d \<in> set b \<Longrightarrow> sliding_digit 63 d"
    using contract256_slidingwindow_modm_correct [OF assms(6,7), of 7] by (simp_all add: b_def)
  have n: "n \<le> 256" "digits_val 2 (drop n a) = 0" "digits_val 2 (drop n b) = 0"
    using skip_zero_digits_correct [of 256 a b 2] a(1) b(1) by (simp_all add: n_def)
  have "represents (ge25519_double p) (smul 2 P)"
    using double_correct [OF represents_partial [OF assms(1)]] by (simp add: smul_2)
  moreover have "rep_pniels (ge25519_full_to_pniels p) (smul 1 P)" using full_to_pniels_correct [OF assms(1)] by simp
  ultimately have pre: "odd_pniels P pre" "length pre = 8"
    using odd_multiples_correct by (simp_all add: odd_pniels_def pre_def)
  have start: "rep_partial (fst (ge25519_neutral, t_uninit)) (smul (digits_val 2 (drop n a)) P + smul (digits_val 2 (drop n b)) B)"
    using represents_partial [OF neutral_correct] by (simp add: n)
  note main = double_scalarmult_loop_correct [OF pre assms(2,3) a(1) b(1) a(3) b(3) start n(1), folded loop_def, unfolded a(2) b(2)]
  have r: "ge25519_double_scalarmult_vartime table t_uninit p s1 s2 =
      (fst loop)\<lparr>ge_t := curve25519_mul (pp_x (snd loop)) (pp_y (snd loop))\<rparr>"
    by (simp add: ge25519_double_scalarmult_vartime_def Let_def loop_def n_def a_def b_def pre_def
        S1_SWINDOWSIZE_def S2_SWINDOWSIZE_def S1_TABLE_SIZE_def split_beta)
  show "rep_partial (ge25519_double_scalarmult_vartime table t_uninit p s1 s2) (smul (sval s1) P + smul (sval s2) B)"
    unfolding r using main by (simp add: rep_partial_def)
  assume "sval s1 \<noteq> 0 \<or> sval s2 \<noteq> 0"
  then have "0 < n" using n(2,3) a(2) b(2) by (cases n) auto
  then show "represents (ge25519_double_scalarmult_vartime table t_uninit p s1 s2) (smul (sval s1) P + smul (sval s2) B)"
    unfolding r using main accumulates_full [of "fst loop" "snd loop"] by simp
qed

end
