(* ===== verification/Ristretto_Field.thy ===== *)
theory Ristretto_Field
  imports Scalarmult_Correct
begin

unbundle bit_operations_syntax

text \<open>
  Signs, comparisons and square roots in the field as \<open>ristretto255.c\<close> computes them: an element is negative
  when its residue is odd, and \<open>curve25519_sqrt_ratio_i\<close> finds the nonnegative root of \<open>u / v\<close>, or of \<open>i u / v\<close>
  when \<open>u / v\<close> is not a square.
\<close>

section \<open>Signs\<close>

definition fneg :: "fp \<Rightarrow> bool" where
  "fneg x \<longleftrightarrow> odd (residue x)"

definition fp_abs :: "fp \<Rightarrow> fp" where
  "fp_abs x = (if fneg x then - x else x)"

lemma residue_uminus: "x \<noteq> 0 \<Longrightarrow> residue (- x) = p25519 - residue x"
proof -
  assume "x \<noteq> 0"
  then have "residue x \<noteq> 0" by (metis residue_inject zero_fp.rep_eq)
  then have r: "0 < residue x" "residue x < p25519" using residue_range [of x] by simp_all
  have "- residue x mod p25519 = (p25519 - residue x) mod p25519" by simp
  also have "\<dots> = p25519 - residue x" using r by (intro mod_pos_pos_trivial) simp_all
  finally show ?thesis by (simp add: uminus_fp.rep_eq fp_neg_def)
qed

lemma odd_p25519: "odd p25519"
  by (simp add: p25519_def)

lemma fneg_uminus: "x \<noteq> 0 \<Longrightarrow> fneg (- x) \<longleftrightarrow> \<not> fneg x"
  using odd_p25519 by (simp add: fneg_def residue_uminus)

lemma fneg_zero [simp]: "\<not> fneg 0"
  by (simp add: fneg_def zero_fp.rep_eq)

lemma fp_abs_nonneg [simp]: "\<not> fneg (fp_abs x)"
  by (cases "x = 0") (auto simp: fp_abs_def fneg_uminus)

lemma fp_abs_uminus [simp]: "fp_abs (- x) = fp_abs x"
  by (cases "x = 0") (auto simp: fp_abs_def fneg_uminus)

lemma fp_abs_square: "fp_abs x * fp_abs x = x * x"
  by (simp add: fp_abs_def)

lemma fp_abs_zero [simp]: "fp_abs 0 = 0" "fp_abs x = 0 \<longleftrightarrow> x = 0"
  by (auto simp: fp_abs_def)

lemma square_eq_fp: "(x :: fp) * x = y * y \<longleftrightarrow> x = y \<or> x = - y"
  by (rule square_eq_iff)

lemma fp_abs_eq_iff: "fp_abs x = fp_abs y \<longleftrightarrow> x * x = y * y"
proof
  assume "fp_abs x = fp_abs y"
  then show "x * x = y * y" by (metis fp_abs_square)
next
  assume "x * x = y * y"
  then show "fp_abs x = fp_abs y" by (auto simp: square_eq_fp)
qed

lemma nonneg_root_unique: "\<not> fneg x \<Longrightarrow> \<not> fneg y \<Longrightarrow> x * x = y * y \<Longrightarrow> x = y"
  using fp_abs_eq_iff [of x y] by (simp add: fp_abs_def)

lemma is_negative_contract: "loose a \<Longrightarrow> bignum25519_is_negative (curve25519_contract a) = of_bool (fneg (fe a))"
proof -
  assume a: "loose a"
  have "curve25519_contract a ! 0 = word_of_int (residue (fe a))"
    using le_bytes.simps(2) [of 31 "residue (fe a)"] by (simp add: contract_residue [OF a] del: le_bytes.simps)
  moreover have "(word_of_int k :: u8) AND 1 = of_bool (odd k)" for k
    by (rule bit_word_eqI) (auto simp: bit_and_iff bit_1_iff bit_of_bool_iff bit_0 bit_word_of_int_iff)
  ultimately show ?thesis by (simp add: bignum25519_is_negative_def fneg_def)
qed

lemma le_bytes_residue_eq_iff: "le_bytes 32 (residue x) = le_bytes 32 (residue y) \<longleftrightarrow> x = y"
proof
  have "le_val (le_bytes 32 (residue z)) = residue z" for z
    using residue_range [of z] p25519_less by (subst le_val_le_bytes) simp_all
  moreover assume "le_bytes 32 (residue x) = le_bytes 32 (residue y)"
  ultimately have "residue x = residue y" by metis
  then show "x = y" by (simp add: residue_inject)
qed simp

lemma bignum25519_ct_eq_exact: "loose a \<Longrightarrow> loose b \<Longrightarrow> bignum25519_ct_eq a b = of_bool (fe a = fe b)"
  by (simp add: bignum25519_ct_eq_def uint8_32_ct_eq_exact contract_residue le_bytes_residue_eq_iff)

section \<open>Square roots\<close>

lemma curve_i_nonzero: "curve_i \<noteq> 0"
  using curve_i_square by auto

lemma curve_i_nonsquare: "r * r \<noteq> curve_i"
proof
  assume r: "r * r = curve_i"
  have "curve_i ^ nat ((p25519 - 1) div 2) = 1"
    using half_power_square [of r] curve_i_nonzero by (simp add: r)
  moreover have "nat ((p25519 - 1) div 2) = 2 * nat ((p25519 - 1) div 4)" "odd (nat ((p25519 - 1) div 4))"
    by (simp_all add: p25519_def)
  moreover define k where "k = nat ((p25519 - 1) div 4)"
  ultimately have "(curve_i ^ 2) ^ k = 1" "odd k" by (simp_all add: power_mult)
  then have "(- 1 :: fp) = 1" by (simp add: power2_eq_square curve_i_square)
  with minus_one_fp_neq show False by contradiction
qed

lemma fourth_root_of_unity:
  assumes "(c :: fp) ^ 4 = 1"
  shows "c = 1 \<or> c = - 1 \<or> c = curve_i \<or> c = - curve_i"
proof -
  have "(c * c - 1) * (c * c + 1) = 0" using assms by (simp add: power4_eq_xxxx algebra_simps)
  then consider "c * c = 1 * 1" | "c * c = curve_i * curve_i"
    by (auto simp: curve_i_square eq_neg_iff_add_eq_0)
  then show ?thesis unfolding square_eq_fp by cases auto
qed

lemma roots_distinct:
  "(1 :: fp) \<noteq> - 1" "curve_i \<noteq> 1" "curve_i \<noteq> - 1" "- curve_i \<noteq> 1" "curve_i \<noteq> - curve_i"
proof -
  have one: "(1 :: fp) \<noteq> - 1" using minus_one_fp_neq by (rule not_sym)
  have ne: "curve_i \<noteq> x" if "x * x = 1" for x
    using that curve_i_square one by force
  show "curve_i \<noteq> 1" by (rule ne) simp
  show "curve_i \<noteq> - 1" by (rule ne) simp
  then show "- curve_i \<noteq> 1" unfolding minus_equation_iff [of curve_i 1] by (rule not_sym)
  show "curve_i \<noteq> - curve_i"
  proof
    assume "curve_i = - curve_i"
    then have "curve_i + curve_i = 0" unfolding eq_neg_iff_add_eq_0 .
    then have "2 * curve_i = 0" unfolding mult_2 .
    with two_fp_nonzero curve_i_nonzero show False by simp
  qed
  show "(1 :: fp) \<noteq> - 1" by (rule one)
qed

text \<open>The candidate root \<open>r\<close> has \<open>v r\<^sup>2 = c u\<close> for a fourth root of unity \<open>c\<close>.\<close>

lemma sqrt_candidate:
  fixes u v :: fp
  assumes "u \<noteq> 0" "v \<noteq> 0"
  defines "r \<equiv> (u * (v * v * v * (v * v * v) * v)) ^ (2 ^ 252 - 3) * u * (v * v * v)"
  obtains c where "c ^ 4 = 1" "v * (r * r) = c * u"
proof -
  define w where "w = u * (v * v * v * (v * v * v) * v)"
  define n :: nat where "n = 2 ^ 252 - 3"
  have "w \<noteq> 0" using assms by (simp add: w_def)
  have e: "(2 * n + 1) * 4 = nat (p25519 - 1)" by (simp add: n_def p25519_def)
  have "(w ^ (2 * n + 1)) ^ 4 = 1"
    unfolding power_mult [symmetric] e by (rule fermat_fp [OF \<open>w \<noteq> 0\<close>])
  moreover have "w ^ (2 * n + 1) = w ^ n * w ^ n * w" by (simp add: power_add mult_2)
  moreover have "v * (r * r) = (w ^ n * w ^ n * w) * u"
    unfolding r_def w_def [symmetric] n_def [symmetric] by (simp add: w_def ac_simps)
  ultimately show ?thesis using that [of "w ^ n * w ^ n * w"] by (simp only:)
qed

text \<open>What the function returns: the nonnegative root and whether it is a root of \<open>u / v\<close>.\<close>

definition sqrt_ratio_spec :: "fp \<Rightarrow> fp \<Rightarrow> fp \<Rightarrow> bool \<Rightarrow> bool" where
  "sqrt_ratio_spec u v r sq \<longleftrightarrow> \<not> fneg r \<and>
     (if u = 0 then r = 0 \<and> sq else if v = 0 then r = 0 \<and> \<not> sq
      else v * (r * r) = (if sq then u else curve_i * u))"

lemma SQRT_M1_constants [fe_bound, fe_fp]: "tight SQRT_M1" "fe SQRT_M1 = curve_i"
proof -
  have "SQRT_M1 = ge25519_sqrtneg1" by (simp add: SQRT_M1_def ge25519_sqrtneg1_def)
  then show "tight SQRT_M1" "fe SQRT_M1 = curve_i" by (simp_all add: fe_bound fe_fp)
qed

lemma of_bool_or: "of_bool a OR of_bool b = (of_bool (a \<or> b) :: 'a :: len word)"
  by (cases a; cases b) simp_all

lemma ucast_of_bool: "ucast (of_bool b :: u8) = (of_bool b :: u64)"
  by (cases b) simp_all

lemma swap_first: "(case curve25519_swap_conditional a b (of_bool c) of (x, y) \<Rightarrow> f x) = f (if c then b else a)"
  by (simp add: swap_conditional_if)

text \<open>The idiom that makes an element nonnegative.\<close>

definition limb_abs :: "bignum25519 \<Rightarrow> bignum25519" where
  "limb_abs r = (if fneg (fe r) then curve25519_neg r else r)"

lemma limb_abs_correct [fe_bound, fe_fp]: "tight r \<Longrightarrow> tight (limb_abs r)" "tight r \<Longrightarrow> fe (limb_abs r) = fp_abs (fe r)"
  by (simp_all add: limb_abs_def fp_abs_def fe_bound fe_fp)

lemma conditional_negate:
  "tight r \<Longrightarrow> (case curve25519_swap_conditional r (curve25519_neg r) (ucast (bignum25519_is_negative (curve25519_contract r)))
     of (x, y) \<Rightarrow> f x) = f (limb_abs r)"
  by (simp only: is_negative_contract [OF tight_loose] ucast_of_bool swap_first limb_abs_def)

lemma sqrt_ratio_i_correct:
  assumes "tight u" "loose v"
  obtains r sq where "curve25519_sqrt_ratio_i u v = (r, of_bool sq)" "tight r" "sqrt_ratio_spec (fe u) (fe v) (fe r) sq"
proof -
  define U V where "U = fe u" and "V = fe v"
  define v3 where "v3 = curve25519_mul (curve25519_square v) v"
  define v7 where "v7 = curve25519_mul (curve25519_square v3) v"
  define r0 where "r0 = curve25519_mul (curve25519_mul (curve25519_pow_two252m3 (curve25519_mul u v7)) u) v3"
  define R where "R = (U * (V * V * V * (V * V * V) * V)) ^ (2 ^ 252 - 3) * U * (V * V * V)"
  have r0: "tight r0" "fe r0 = R"
    using assms by (simp_all add: r0_def v3_def v7_def R_def U_def V_def fe_bound fe_fp del: power_eq_if)
  define A where "A \<longleftrightarrow> V * (R * R) = U"
  define B where "B \<longleftrightarrow> V * (R * R) = - U"
  define C where "C \<longleftrightarrow> V * (R * R) = - U * curve_i"
  define r1 where "r1 = (if B \<or> C then curve25519_mul r0 SQRT_M1 else r0)"
  define r2 where "r2 = limb_abs r1"
  have r1: "tight r1" "fe r1 = (if B \<or> C then R * curve_i else R)"
    using r0 by (simp_all add: r1_def fe_bound fe_fp)
  have chk: "bignum25519_ct_eq (curve25519_mul v (curve25519_square r0)) u = of_bool A"
    "bignum25519_ct_eq (curve25519_mul v (curve25519_square r0)) (curve25519_neg u) = of_bool B"
    "bignum25519_ct_eq (curve25519_mul v (curve25519_square r0)) (curve25519_mul (curve25519_neg u) SQRT_M1) = of_bool C"
    using assms r0 by (simp_all add: bignum25519_ct_eq_exact fe_bound fe_fp A_def B_def C_def U_def V_def del: of_bool_eq)
  have "curve25519_sqrt_ratio_i u v = (let (r, r_prime) = curve25519_swap_conditional r0 (curve25519_mul r0 SQRT_M1) (of_bool (B \<or> C));
      (r, r_negative) = curve25519_swap_conditional r (curve25519_neg r) (ucast (bignum25519_is_negative (curve25519_contract r)))
      in (curve25519_copy r, of_bool (A \<or> B)))"
    unfolding curve25519_sqrt_ratio_i_def Let_def v3_def [symmetric] v7_def [symmetric] r0_def [symmetric] chk of_bool_or ucast_of_bool
    by (rule refl)
  also have "\<dots> = (r2, of_bool (A \<or> B))"
    unfolding Let_def swap_first r1_def [symmetric] conditional_negate [OF r1(1)] r2_def by simp
  finally have "curve25519_sqrt_ratio_i u v = (r2, of_bool (A \<or> B))" .
  moreover have "sqrt_ratio_spec U V (fe r2) (A \<or> B)"
  proof -
    have r2: "fe r2 = fp_abs (fe r1)" using r1(1) by (simp add: r2_def fe_fp)
    consider "U = 0" | "U \<noteq> 0" "V = 0" | "U \<noteq> 0" "V \<noteq> 0" by blast
    then show ?thesis
    proof cases
      case 3
      obtain c where c: "c ^ 4 = 1" "V * (R * R) = c * U" unfolding R_def by (rule sqrt_candidate [OF 3])
      have sq: "V * (R * curve_i * (R * curve_i)) = - (c * U)" using c(2) curve_i_square by algebra
      have flags: "A \<longleftrightarrow> c = 1" "B \<longleftrightarrow> c = - 1" "C \<longleftrightarrow> c = - curve_i"
        using mult_right_cancel [OF 3(1), of c 1] mult_right_cancel [OF 3(1), of c "- 1"]
          mult_right_cancel [OF 3(1), of c "- curve_i"]
        by (simp_all only: A_def B_def C_def c(2) mult_1_left mult_minus_left mult.commute [of U curve_i])
      from fourth_root_of_unity [OF c(1)] have "V * (fe r2 * fe r2) = (if A \<or> B then U else curve_i * U)"
        unfolding flags r2 fp_abs_square r1(2) using c(2) sq roots_distinct by auto
      then show ?thesis using 3 by (simp add: sqrt_ratio_spec_def r2)
    qed (auto simp: sqrt_ratio_spec_def r2 r1(2) A_def B_def C_def R_def)
  qed
  ultimately show ?thesis using that [of r2 "A \<or> B"] r1(1)
    by (simp add: r2_def U_def V_def fe_bound)
qed

end
