(* ===== verification/Ristretto_Group.thy ===== *)
theory Ristretto_Group
  imports Ristretto_Field
begin

text \<open>
  The Ristretto encoding identifies points that differ by a multiple of the point \<open>(i, 0)\<close> of order four.  Its cosets
  have at most one representative with nonnegative abscissa and nonnegative product of coordinates; the encoding
  of the coset is the nonnegative root \<open>s\<close> of \<open>(1 - y) / (1 + y)\<close> there.
\<close>

section \<open>Cosets\<close>

definition torsion :: point where
  "torsion = Abs_point (curve_i, 0)"

lemma torsion_coords [simp]: "px torsion = curve_i" "py torsion = 0"
proof -
  have "coords torsion = (curve_i, 0)"
    unfolding torsion_def by (rule Abs_point_inverse) (simp add: c25519.on_curve_def curve_i_square)
  then show "px torsion = curve_i" "py torsion = 0" by (simp_all add: px_def py_def)
qed

lemma plus_torsion: "px (P + torsion) = curve_i * py P" "py (P + torsion) = curve_i * px P"
  by (simp_all add: point_plus mult.commute)

definition same_coset :: "point \<Rightarrow> point \<Rightarrow> bool" where
  "same_coset P Q \<longleftrightarrow> (\<exists>k. Q = P + smul k torsion)"

lemma same_coset_refl: "same_coset P P"
  unfolding same_coset_def by (rule exI [of _ 0]) simp

lemma same_coset_sym: "same_coset P Q \<Longrightarrow> same_coset Q P"
  unfolding same_coset_def by (metis add.right_cancel add_minus_cancel diff_add_cancel minus_add_cancel smul_minus add.assoc add.commute)

lemma same_coset_trans: "same_coset P Q \<Longrightarrow> same_coset Q R \<Longrightarrow> same_coset P R"
  unfolding same_coset_def by (metis add.assoc smul_add)

lemma i_i_mult: "curve_i * (curve_i * x) = - x"
  by (simp add: mult.assoc [symmetric] curve_i_square)

lemma torsion_4: "smul 4 torsion = 0"
proof -
  have "torsion + torsion + torsion + torsion = 0"
    by (rule point_eqI) (simp_all add: plus_torsion add.assoc [symmetric] i_i_mult curve_i_square)
  moreover have "smul 4 torsion = smul 2 (smul 2 torsion)" by (simp add: smul_smul)
  ultimately show ?thesis by (simp only: smul_2 add.assoc)
qed

text \<open>The four points of a coset.\<close>

lemma same_coset_cases:
  assumes "same_coset P Q"
  obtains "px Q = px P" "py Q = py P" | "px Q = - px P" "py Q = - py P"
  | "px Q = curve_i * py P" "py Q = curve_i * px P" | "px Q = - (curve_i * py P)" "py Q = - (curve_i * px P)"
proof -
  obtain k where "Q = P + smul k torsion" using assms by (auto simp: same_coset_def)
  then have Q: "Q = P + smul (k mod 4) torsion" by (simp add: smul_mod [OF torsion_4])
  have "k mod 4 = 0 \<or> k mod 4 = 1 \<or> k mod 4 = 2 \<or> k mod 4 = 3" by presburger
  moreover have "smul 3 torsion = smul 2 torsion + smul 1 torsion" unfolding smul_add [symmetric] by simp
  ultimately consider "Q = P" | "Q = P + torsion" | "Q = P + torsion + torsion" | "Q = P + torsion + torsion + torsion"
    using Q by (auto simp: smul_2 add.assoc)
  then show ?thesis
    using that by cases (simp_all add: plus_torsion i_i_mult)
qed

lemma same_coset_rotated:
  assumes "px Q = curve_i * py P" "py Q = curve_i * px P"
  shows "same_coset P Q"
proof -
  have "Q = P + smul 1 torsion" by (rule point_eqI) (simp_all add: assms plus_torsion)
  then show ?thesis unfolding same_coset_def by blast
qed

lemma same_coset_negated:
  assumes "px Q = - px P" "py Q = - py P"
  shows "same_coset P Q"
proof -
  have "Q = P + torsion + torsion" by (rule point_eqI) (simp_all add: assms plus_torsion i_i_mult)
  then have "Q = P + smul 2 torsion" by (simp add: smul_2 add.assoc)
  then show ?thesis unfolding same_coset_def by blast
qed

section \<open>Canonical representatives\<close>

definition canonical :: "point \<Rightarrow> bool" where
  "canonical Q \<longleftrightarrow> px Q \<noteq> 0 \<and> py Q \<noteq> 0 \<and> \<not> fneg (px Q) \<and> \<not> fneg (px Q * py Q)"

lemma canonical_unique:
  assumes "canonical P" "canonical Q" "same_coset P Q"
  shows "P = Q"
  using assms(3)
proof (cases rule: same_coset_cases)
  case 1
  then show ?thesis by (intro point_eqI) simp_all
next
  case 2
  then show ?thesis using assms(1,2) by (simp add: canonical_def fneg_uminus)
next
  case 3
  then have "px Q * py Q = - (px P * py P)" by (simp add: i_i_mult algebra_simps)
  then show ?thesis using assms(1,2) fneg_uminus [of "px P * py P"] by (simp add: canonical_def)
next
  case 4
  then have "px Q * py Q = - (px P * py P)" by (simp add: i_i_mult algebra_simps)
  then show ?thesis using assms(1,2) fneg_uminus [of "px P * py P"] by (simp add: canonical_def)
qed

text \<open>
  A point is encodable when \<open>1 - y\<^sup>2\<close> is a square, which the doubles are.
\<close>

definition encodable :: "point \<Rightarrow> bool" where
  "encodable P \<longleftrightarrow> (\<exists>r. r * r = 1 - py P * py P)"

lemma coordinate_product: "(1 - py P * py P) * (1 + px P * px P) = (- 1 - curve_d) * (px P * px P * (py P * py P))"
  using point_equation [of P] by algebra

lemma axis_points: "py P * py P = 1 \<Longrightarrow> px P = 0"
proof -
  assume "py P * py P = 1"
  then have "px P * px P * (- 1 - curve_d) = 0" using point_equation [of P] by algebra
  moreover have "- 1 - curve_d \<noteq> 0"
  proof
    assume "- 1 - curve_d = 0"
    then have "curve_d = curve_i * curve_i" by (simp add: curve_i_square)
    with curve_d_nonsquare [of curve_i] show False by simp
  qed
  ultimately show "px P = 0" by auto
qed

lemma INVSQRT_A_MINUS_D_constants [fe_bound, fe_fp]:
  "tight INVSQRT_A_MINUS_D" "fe INVSQRT_A_MINUS_D * fe INVSQRT_A_MINUS_D * (- 1 - curve_d) = 1"
proof -
  show "tight INVSQRT_A_MINUS_D" by (simp add: tight_def INVSQRT_A_MINUS_D_def)
  define x y e where "x = oct_int 0x786c8905cfaffca216c27b91fe01d8409d2f16175a4172be99c8fdaa805d40ea" and "y = oct_int 0x7ffffffffffffffffffffffffffffffffffffffffffffffffffffffffffe24ab"
    and "e = oct_int 0x52036cee2b6ffe738cc740797779e89800700a4d4141d8ab75eb4dca135978a4"
  have "fval INVSQRT_A_MINUS_D = oval x" by (simp add: x_def INVSQRT_A_MINUS_D_def oval_oct_int)
  moreover have "oeq (oredmul (O3 (O2 OZ)) x x) y" "oeq (oredmul (O3 (O2 OZ)) y e) (oct_int 0x7fffffffffffffffffffffffffffffffffffffffffffffffffffffffffffffec)"
    by (simp_all only: x_def y_def e_def oct_eval)
  note products = this [THEN octal_product]
  ultimately have "(of_int (fval INVSQRT_A_MINUS_D * fval INVSQRT_A_MINUS_D) :: fp) = of_int (oval y)"
    by (intro of_int_fp_cong) (simp only: products(1) p25519_def)
  moreover have "fval ge25519_ecd + 1 = oval e" by (simp add: e_def ge25519_ecd_def oval_oct_int)
  moreover have "(of_int (oval y * oval e) :: fp) = of_int 0x7fffffffffffffffffffffffffffffffffffffffffffffffffffffffffffffec"
    by (intro of_int_fp_cong) (simp only: products(2) p25519_def oval_literals)
  moreover have "(of_int 0x7fffffffffffffffffffffffffffffffffffffffffffffffffffffffffffffec :: fp) = of_int (- 1)" by (rule of_int_fp_cong) (simp add: p25519_def)
  moreover have "curve_d + 1 = of_int (fval ge25519_ecd + 1)" by (simp add: curve_d_def fe_def)
  ultimately have "fe INVSQRT_A_MINUS_D * fe INVSQRT_A_MINUS_D * (curve_d + 1) = - 1"
    by (simp only: fe_def of_int_mult of_int_minus of_int_1)
  then show "fe INVSQRT_A_MINUS_D * fe INVSQRT_A_MINUS_D * (- 1 - curve_d) = 1" by algebra
qed

lemma quotient_root:
  fixes a b k :: fp
  assumes "b * b * k = a * a" "b \<noteq> 0"
  shows "(a / b) * (a / b) = k"
proof -
  have "(a / b) * (a / b) = (b * b * k) / (b * b)" by (simp add: assms(1))
  then show ?thesis using assms(2) by simp
qed

lemma double_encodable:
  assumes "px (Q + Q) * py (Q + Q) \<noteq> 0"
  shows "encodable (Q + Q)"
proof -
  define x y where "x = px (Q + Q)" and "y = py (Q + Q)"
  define n m where "n = py Q * py Q - px Q * px Q" and "m = py Q * py Q + px Q * px Q"
  have e: "n = 1 + sum_term Q Q" using point_equation [of Q] by (simp add: n_def algebra_simps)
  then have n: "n \<noteq> 0" using sum_denominators(1) [of Q Q] by simp
  have "x * n = px Q * py Q + px Q * py Q" using n by (simp add: x_def point_plus e [symmetric])
  then have "(1 + x * x) * (n * n) = m * m" unfolding n_def m_def by algebra
  define c where "c = fe INVSQRT_A_MINUS_D"
  have c: "c * c * (- 1 - curve_d) = 1" unfolding c_def by (rule INVSQRT_A_MINUS_D_constants(2))
  have "m \<noteq> 0"
  proof
    assume "m = 0"
    with \<open>(1 + x * x) * (n * n) = m * m\<close> n have "1 + x * x = 0" by simp
    then have "(- 1 - curve_d) * (x * x * (y * y)) = 0"
      using coordinate_product [of "Q + Q"] by (simp add: x_def y_def)
    with c assms show False by (auto simp: x_def y_def)
  qed
  have "(m * c) * (m * c) * (1 - y * y) = (x * y * n) * (x * y * n)"
    using coordinate_product [of "Q + Q", folded x_def y_def] \<open>(1 + x * x) * (n * n) = m * m\<close> c by algebra
  then have "(x * y * n / (m * c)) * (x * y * n / (m * c)) = 1 - y * y"
    by (rule quotient_root) (use \<open>m \<noteq> 0\<close> c in auto)
  then show ?thesis unfolding encodable_def y_def by blast
qed

lemma encodable_coset:
  assumes "encodable P" "same_coset P Q" "px P * py P \<noteq> 0"
  shows "encodable Q"
proof -
  obtain r where r: "r * r = 1 - py P * py P" using assms(1) by (auto simp: encodable_def)
  define c where "c = fe INVSQRT_A_MINUS_D"
  have c: "c * c * (- 1 - curve_d) = 1" unfolding c_def by (rule INVSQRT_A_MINUS_D_constants(2))
  have "r \<noteq> 0" using r axis_points [of P] assms(3) by auto
  have "(r * c) * (r * c) * (1 + px P * px P) = (px P * py P) * (px P * py P)"
    using r c coordinate_product [of P] by algebra
  then have x: "(px P * py P / (r * c)) * (px P * py P / (r * c)) = 1 + px P * px P"
    by (rule quotient_root) (use \<open>r \<noteq> 0\<close> c in auto)
  have y: "curve_i * px P * (curve_i * px P) = - (px P * px P)" by (simp add: algebra_simps i_i_mult)
  from assms(2) show ?thesis
  proof (cases rule: same_coset_cases)
    case 1
    then show ?thesis using r by (auto simp: encodable_def)
  next
    case 2
    then show ?thesis using r by (auto simp: encodable_def)
  next
    case 3
    then show ?thesis using x y unfolding encodable_def by (metis diff_minus_eq_add)
  next
    case 4
    then show ?thesis using x y unfolding encodable_def by (metis diff_minus_eq_add minus_mult_minus)
  qed
qed

section \<open>The code of a coset\<close>

definition coset_code :: "point \<Rightarrow> fp \<Rightarrow> bool" where
  "coset_code P s \<longleftrightarrow> \<not> fneg s \<and>
     (if px P * py P = 0 then s = 0
      else \<exists>Q. same_coset P Q \<and> canonical Q \<and> s * s * (1 + py Q) = 1 - py Q)"

lemma coset_product_zero: "same_coset P Q \<Longrightarrow> px Q * py Q = 0 \<longleftrightarrow> px P * py P = 0"
  using curve_i_nonzero by (auto elim: same_coset_cases)

lemma ordinate_plus_one: "px Q \<noteq> 0 \<Longrightarrow> 1 + py Q \<noteq> 0"
proof
  assume x: "px Q \<noteq> 0" and "1 + py Q = 0"
  then have "py Q = - 1" by (simp add: eq_neg_iff_add_eq_0 add.commute)
  then have "py Q * py Q = 1" by simp
  with axis_points x show False by blast
qed

lemma coset_code_unique:
  assumes "coset_code P s" "coset_code P' s'" "same_coset P P'"
  shows "s = s'"
proof (cases "px P * py P = 0")
  case True
  then show ?thesis using assms coset_product_zero [OF assms(3)] by (simp only: coset_code_def if_True)
next
  case False
  then have "px P' * py P' \<noteq> 0" using coset_product_zero [OF assms(3)] by simp
  then obtain Q' where Q': "same_coset P' Q'" "canonical Q'" "s' * s' * (1 + py Q') = 1 - py Q'"
    using assms(2) unfolding coset_code_def by (simp only: if_False) blast
  obtain Q where Q: "same_coset P Q" "canonical Q" "s * s * (1 + py Q) = 1 - py Q"
    using assms(1) False unfolding coset_code_def by (simp only: if_False) blast
  have "same_coset Q Q'" using same_coset_trans same_coset_sym Q(1) Q'(1) assms(3) by blast
  then have "Q = Q'" by (rule canonical_unique [OF Q(2) Q'(2)])
  then have "s * s * (1 + py Q) = s' * s' * (1 + py Q)" using Q Q' by simp
  moreover have "1 + py Q \<noteq> 0" using Q(2) by (simp add: ordinate_plus_one canonical_def)
  ultimately have "s * s = s' * s'" by simp
  then show ?thesis using assms(1,2) unfolding coset_code_def by (blast intro: nonneg_root_unique)
qed

lemma coset_code_rotated:
  assumes "x * y \<noteq> 0" "- (x * x) + y * y = 1 + curve_d * (x * x) * (y * y)"
    and "i * i = (- 1 :: fp)" "c * c * (- 1 - curve_d) = 1" "s * s * (x * x * (y * y)) = (1 - y * y) * (c * c) * ((1 - y0) * (1 - y0))"
    and "y0 * y0 = - (x * x)"
  shows "s * s * (1 + y0) = 1 - y0"
proof -
  have "(1 - y * y) * (1 + x * x) = (- 1 - curve_d) * (x * x * (y * y))" using assms(2) by algebra
  then have "(1 - y * y) * (1 - y0 * y0) * (c * c) = x * x * (y * y)" using assms(4,6) by algebra
  then have "(s * s * (1 + y0) - (1 - y0)) * (x * x * (y * y)) = 0" using assms(5) by algebra
  then show ?thesis using assms(1) by simp
qed

lemma represents_tight:
  assumes "represents r P"
  shows "tight (ge_x r)" "tight (ge_y r)" "tight (ge_z r)" "tight (ge_t r)"
  using assms by (simp_all add: rep_defs)

text \<open>The selections of \<open>ristretto_encode\<close>, with the field elements they choose between.\<close>

lemma one_zero_constants [fe_bound, fe_fp]: "tight one" "tight zero" "fe one = 1" "fe zero = 0"
  by (simp_all add: one_def zero_def fe_bound)

lemma encode_selects:
  assumes "represents r P"
  obtains I sq s where "sqrt_ratio_spec 1 (fe (ge_z r) * fe (ge_z r) * (1 - py P * py P) * ((fe (ge_z r) * fe (ge_z r) * (px P * py P)) * (fe (ge_z r) * fe (ge_z r) * (px P * py P)))) I sq"
    and "ristretto_encode r = le_bytes 32 (residue (fp_abs s))"
    and "s = (let Z = fe (ge_z r); x = px P; y = py P; u1 = Z * Z * (1 - y * y); u2 = Z * Z * (x * y); i1 = I * u1; i2 = I * u2;
           zinv = i2 * (x * y * Z) * i1; rotate = fneg (x * y * Z * zinv);
           x' = (if rotate then y * Z * curve_i else x * Z); y' = (if rotate then x * Z * curve_i else y * Z);
           i' = (if rotate then i1 * fe INVSQRT_A_MINUS_D else i2);
           y'' = (if fneg (x' * zinv) then - y' else y') in i' * (Z - y''))"
proof -
  note t = represents_tight [OF assms]
  define tmp where "tmp = curve25519_mul (curve25519_mul (curve25519_add_reduce (ge_z r) (ge_y r)) (curve25519_sub_reduce (ge_z r) (ge_y r)))
    (curve25519_square (curve25519_mul (ge_x r) (ge_y r)))"
  have tmp: "tight tmp" unfolding tmp_def using t by (simp add: fe_bound)
  obtain I sq where I: "curve25519_sqrt_ratio_i one tmp = (I, of_bool sq)" "tight I" "sqrt_ratio_spec (fe one) (fe tmp) (fe I) sq"
    by (rule sqrt_ratio_i_correct [OF one_zero_constants(1) tight_loose [OF tmp]])
  have v: "fe tmp = fe (ge_z r) * fe (ge_z r) * (1 - py P * py P) * ((fe (ge_z r) * fe (ge_z r) * (px P * py P)) * (fe (ge_z r) * fe (ge_z r) * (px P * py P)))"
    unfolding tmp_def using assms by (simp add: rep_defs fe_bound fe_fp algebra_simps)
  define u1 where "u1 = curve25519_mul (curve25519_add_reduce (ge_z r) (ge_y r)) (curve25519_sub_reduce (ge_z r) (ge_y r))"
  define u2 where "u2 = curve25519_mul (ge_x r) (ge_y r)"
  define i1 where "i1 = curve25519_mul I u1"
  define i2 where "i2 = curve25519_mul I u2"
  define zinv where "zinv = curve25519_mul (curve25519_mul i2 (ge_t r)) i1"
  define rotate where "rotate = fneg (fe (curve25519_mul (ge_t r) zinv))"
  define x' where "x' = (if rotate then curve25519_mul (ge_y r) SQRT_M1 else ge_x r)"
  define y' where "y' = (if rotate then curve25519_mul (ge_x r) SQRT_M1 else ge_y r)"
  define i' where "i' = (if rotate then curve25519_mul i1 INVSQRT_A_MINUS_D else i2)"
  define y'' where "y'' = (if fneg (fe (curve25519_mul x' zinv)) then curve25519_neg y' else y')"
  define s where "s = curve25519_mul i' (curve25519_sub_reduce (ge_z r) y'')"
  have b: "tight u1" "tight u2" "tight i1" "tight i2" "tight zinv" "tight x'" "tight y'" "tight i'" "tight y''" "tight s"
  proof -
    show u: "tight u1" "tight u2" unfolding u1_def u2_def using t by (simp_all add: fe_bound)
    then show i: "tight i1" "tight i2" unfolding i1_def i2_def using I(2) by (simp_all add: fe_bound)
    then show "tight zinv" unfolding zinv_def using t by (simp add: fe_bound)
    show "tight x'" unfolding x'_def using t by (simp add: fe_bound)
    show "tight y'" unfolding y'_def using t by (simp add: fe_bound)
    then show "tight y''" unfolding y''_def by (simp add: fe_bound)
    moreover show "tight i'" unfolding i'_def using i by (simp add: fe_bound)
    ultimately show "tight s" unfolding s_def using t by (simp add: fe_bound)
  qed
  have neg: "ucast (bignum25519_is_negative (curve25519_contract (curve25519_mul (ge_t r) zinv))) = (of_bool rotate :: u64)"
    "ucast (bignum25519_is_negative (curve25519_contract (curve25519_mul x' zinv))) = (of_bool (fneg (fe (curve25519_mul x' zinv))) :: u64)"
    using b t by (simp_all add: is_negative_contract fe_bound rotate_def ucast_of_bool del: of_bool_eq)
  have "ristretto_encode r = curve25519_contract (limb_abs s)"
    unfolding ristretto_encode_def Let_def curve25519_invsqrt_def tmp_def [symmetric] I(1) prod.case fe_copy
    unfolding u1_def [symmetric] u2_def [symmetric] i1_def [symmetric] i2_def [symmetric]
    unfolding zinv_def [symmetric] neg(1) swap_first
    unfolding x'_def [symmetric] y'_def [symmetric] i'_def [symmetric] neg(2) swap_first
    unfolding y''_def [symmetric] s_def [symmetric]
    by (rule conditional_negate [OF b(10)])
  then have enc: "ristretto_encode r = le_bytes 32 (residue (fp_abs (fe s)))"
    using b(10) by (simp add: contract_residue fe_bound fe_fp)
  have f: "fe u1 = fe (ge_z r) * fe (ge_z r) * (1 - py P * py P)" "fe u2 = fe (ge_z r) * fe (ge_z r) * (px P * py P)"
    unfolding u1_def u2_def using assms by (simp_all add: rep_defs fe_bound fe_fp algebra_simps)
  have g: "fe i1 = fe I * fe u1" "fe i2 = fe I * fe u2" "fe zinv = fe i2 * fe (ge_t r) * fe i1"
    "fe (curve25519_mul (ge_t r) zinv) = fe (ge_t r) * fe zinv" "fe (curve25519_mul x' zinv) = fe x' * fe zinv"
    "fe y'' = (if fneg (fe x' * fe zinv) then - fe y' else fe y')" "fe s = fe i' * (fe (ge_z r) - fe y'')"
    unfolding i1_def i2_def zinv_def y''_def s_def using b t I(2) by (simp_all add: fe_bound fe_fp if_distrib [of fe])
  have h: "fe x' = (if rotate then py P * fe (ge_z r) * curve_i else px P * fe (ge_z r))"
    "fe y' = (if rotate then px P * fe (ge_z r) * curve_i else py P * fe (ge_z r))"
    "fe i' = (if rotate then fe i1 * fe INVSQRT_A_MINUS_D else fe i2)"
    unfolding x'_def y'_def i'_def using b t assms by (simp_all add: rep_defs fe_bound fe_fp)
  have rt: "fe (ge_t r) = px P * py P * fe (ge_z r)" using assms by (simp add: rep_defs)
  show ?thesis
  proof (rule that [OF _ enc])
    show "sqrt_ratio_spec 1 (fe (ge_z r) * fe (ge_z r) * (1 - py P * py P) * ((fe (ge_z r) * fe (ge_z r) * (px P * py P)) * (fe (ge_z r) * fe (ge_z r) * (px P * py P)))) (fe I) sq"
      using I(3) by (simp only: v one_zero_constants)
  qed (simp only: Let_def g h rotate_def f rt)
qed

lemma coset_codeI:
  assumes "px P * py P \<noteq> 0" "same_coset P Q" "canonical Q" "s * s * (1 + py Q) = 1 - py Q"
  shows "coset_code P (fp_abs s)"
  unfolding coset_code_def fp_abs_square using assms by auto

text \<open>The two choices of the encoder, by the sign of the product of the coordinates.\<close>

lemma code_plain:
  assumes "px P * py P \<noteq> 0" "\<not> fneg (px P * py P)"
    and u: "u1 = Z * Z * (1 - py P * py P)" "u1 * (u2 * u2) * (I * I) = 1"
  shows "coset_code P (fp_abs (I * u2 * (Z - (if fneg (px P) then - py P else py P) * Z)))"
proof -
  define Q where "Q = (if fneg (px P) then P + torsion + torsion else P)"
  have Q: "px Q = fp_abs (px P)" "py Q = (if fneg (px P) then - py P else py P)"
    by (simp_all add: Q_def plus_torsion i_i_mult fp_abs_def)
  have "Q = P + smul 0 torsion \<or> Q = P + smul (1 + 1) torsion" unfolding smul_add by (simp add: Q_def add.assoc)
  then have "same_coset P Q" unfolding same_coset_def by blast
  moreover have "canonical Q" using assms(1,2) unfolding canonical_def Q by (auto simp: fp_abs_def fneg_uminus)
  moreover define s where "s = I * u2 * (Z - py Q * Z)"
  moreover have "py Q * py Q = py P * py P" by (simp add: Q)
  then have "s * s * (1 + py Q) = (u1 * (u2 * u2) * (I * I)) * (1 - py Q)" unfolding s_def u(1) by algebra
  then have "s * s * (1 + py Q) = 1 - py Q" by (simp only: u(2) mult_1_left)
  ultimately show ?thesis using coset_codeI [OF assms(1)] by (simp only: Q)
qed

lemma code_rotated:
  assumes "px P * py P \<noteq> 0" "fneg (px P * py P)" "Z \<noteq> 0"
    and u: "u1 = Z * Z * (1 - py P * py P)" "u2 = Z * Z * (px P * py P)" "u1 * (u2 * u2) * (I * I) = 1"
    and c: "c * c * (- 1 - curve_d) = 1"
  shows "coset_code P (fp_abs (I * u1 * c * (Z - (if fneg (curve_i * py P) then - (curve_i * px P) else curve_i * px P) * Z)))"
proof -
  define x y where "x = px P" and "y = py P"
  define Q where "Q = (if fneg (curve_i * y) then P + torsion + torsion + torsion else P + torsion)"
  have Q: "px Q = fp_abs (curve_i * y)" "py Q = (if fneg (curve_i * y) then - (curve_i * x) else curve_i * x)"
    by (simp_all add: Q_def plus_torsion i_i_mult x_def y_def fp_abs_def)
  have "Q = P + smul 1 torsion \<or> Q = P + smul (1 + 1 + 1) torsion" unfolding smul_add by (simp add: Q_def add.assoc)
  then have "same_coset P Q" unfolding same_coset_def by blast
  moreover have "px Q * py Q = - (x * y)" unfolding Q fp_abs_def by (auto simp: algebra_simps i_i_mult)
  then have "canonical Q" using assms(1,2) fneg_uminus [of "x * y"] curve_i_nonzero unfolding canonical_def
    by (auto simp: Q x_def y_def)
  moreover define s where "s = I * u1 * c * (Z - py Q * Z)"
  moreover have "s * s * (1 + py Q) = 1 - py Q"
  proof (rule coset_code_rotated [where x = x and y = y, OF _ _ curve_i_square c])
    show "py Q * py Q = - (x * x)" by (auto simp: Q algebra_simps i_i_mult)
    have "s * s * (u2 * u2) = (u1 * (u2 * u2) * (I * I)) * u1 * (c * c) * (Z * Z * ((1 - py Q) * (1 - py Q)))"
      unfolding s_def by algebra
    then have "(Z * Z * (Z * Z)) * (s * s * (x * x * (y * y)) - (1 - y * y) * (c * c) * ((1 - py Q) * (1 - py Q))) = 0"
      unfolding u(3) unfolding u(1,2) x_def y_def by algebra
    then show "s * s * (x * x * (y * y)) = (1 - y * y) * (c * c) * ((1 - py Q) * (1 - py Q))"
      using assms(3) by simp
  qed (use assms(1) point_equation [of P] in \<open>simp_all add: x_def y_def\<close>)
  ultimately show ?thesis using coset_codeI [OF assms(1)] by (simp only: Q x_def y_def)
qed

lemma encode_correct:
  assumes "represents r P" "encodable P"
  obtains s where "coset_code P s" "ristretto_encode r = le_bytes 32 (residue s)"
proof -
  define x y Z c where "x = px P" and "y = py P" and "Z = fe (ge_z r)" and "c = fe INVSQRT_A_MINUS_D"
  have Z: "Z \<noteq> 0" using assms(1) by (simp add: rep_defs Z_def)
  have c: "c * c * (- 1 - curve_d) = 1" unfolding c_def by (rule INVSQRT_A_MINUS_D_constants(2))
  define u1 u2 where "u1 = Z * Z * (1 - y * y)" and "u2 = Z * Z * (x * y)"
  obtain I sq s where I: "sqrt_ratio_spec 1 (u1 * (u2 * u2)) I sq"
    and enc: "ristretto_encode r = le_bytes 32 (residue (fp_abs s))"
    and s: "s = (let i1 = I * u1; i2 = I * u2; zinv = i2 * (x * y * Z) * i1; rotate = fneg (x * y * Z * zinv);
           x' = (if rotate then y * Z * curve_i else x * Z); y' = (if rotate then x * Z * curve_i else y * Z);
           i' = (if rotate then i1 * c else i2);
           y'' = (if fneg (x' * zinv) then - y' else y') in i' * (Z - y''))"
    by (rule encode_selects [OF assms(1)]) (simp only: Let_def u1_def u2_def x_def y_def Z_def c_def)
  have "coset_code P (fp_abs s)"
  proof (cases "x * y = 0")
    case True
    then have "u2 = 0" by (simp add: u2_def)
    then have "I = 0" using I by (simp add: sqrt_ratio_spec_def)
    then have "s = 0" by (simp add: s Let_def)
    then show ?thesis using True by (simp add: coset_code_def x_def y_def)
  next
    case False
    obtain q where q: "q * q = 1 - y * y" using assms(2) by (auto simp: encodable_def y_def)
    have "y * y \<noteq> 1" using axis_points [of P] False by (auto simp: x_def y_def)
    then have u: "u1 \<noteq> 0" "u2 \<noteq> 0" using False Z by (simp_all add: u1_def u2_def)
    have "(Z * q * u2 * I) * (Z * q * u2 * I) = u1 * (u2 * u2) * (I * I)" using q unfolding u1_def by algebra
    with curve_i_nonsquare [of "Z * q * u2 * I"] have I1: "u1 * (u2 * u2) * (I * I) = 1"
      using I u by (auto simp: sqrt_ratio_spec_def split: if_splits)
    define zinv where "zinv = I * u2 * (x * y * Z) * (I * u1)"
    have "Z * zinv = 1" using I1 unfolding zinv_def u2_def by algebra
    then have za: "a * Z * zinv = a" "a * Z * b * zinv = a * b" for a b by algebra+
    show ?thesis
    proof (cases "fneg (x * y)")
      case rot: False
      then have "s = I * u2 * (Z - (if fneg x then - y else y) * Z)"
        by (simp add: s Let_def zinv_def [symmetric] za)
      then show ?thesis
        using code_plain [of P u1 Z u2 I, folded x_def y_def, OF False rot u1_def I1] by (simp only:)
    next
      case rot: True
      then have "s = I * u1 * c * (Z - (if fneg (curve_i * y) then - (curve_i * x) else curve_i * x) * Z)"
        unfolding s Let_def zinv_def [symmetric] za if_P [OF rot] mult.commute [of y curve_i]
        by (simp only: minus_mult_left [symmetric] mult.assoc mult.commute [of Z curve_i] mult.left_commute [of x curve_i] split: if_split) blast
      then show ?thesis
        using code_rotated [of P Z u1 u2 I c, folded x_def y_def, OF False rot Z u1_def u2_def I1 c] by (simp only:)
    qed
  qed
  with enc show ?thesis by (rule that [rotated])
qed

section \<open>Decoding\<close>

lemma EDWARDS_D_constants [fe_bound, fe_fp]: "tight EDWARDS_D" "fe EDWARDS_D = curve_d"
proof -
  have "EDWARDS_D = ge25519_ecd" by (simp add: EDWARDS_D_def ge25519_ecd_def)
  then show "tight EDWARDS_D" "fe EDWARDS_D = curve_d" by (simp_all add: fe_bound fe_fp)
qed

lemma decode_selects:
  assumes "length bs = 32"
  defines "S \<equiv> fe (curve25519_expand bs)"
  defines "u1 \<equiv> 1 - S * S" and "u2 \<equiv> 1 + S * S"
  defines "v \<equiv> - curve_d * (u1 * u1) - u2 * u2"
  obtains I sq r where "sqrt_ratio_spec 1 (v * (u2 * u2)) I sq"
    and "ristretto_decode bs = (if bs = le_bytes 32 (residue S) \<and> \<not> fneg S \<and> sq \<and>
      \<not> fneg (fe (ge_x r) * fe (ge_y r)) \<and> fe (ge_y r) \<noteq> 0 then Some r else None)"
    and "tight (ge_x r)" "tight (ge_y r)" "tight (ge_z r)" "tight (ge_t r)"
    and "fe (ge_x r) = fp_abs ((S + S) * (I * u2))" "fe (ge_y r) = u1 * (I * (I * u2 * v))" "fe (ge_z r) = 1"
    and "fe (ge_t r) = fe (ge_x r) * fe (ge_y r)"
proof -
  define ls where "ls = curve25519_expand bs"
  have ls: "tight ls" "fe ls = S" unfolding ls_def S_def using assms(1) by (simp_all add: fe_bound)
  define l1 where "l1 = curve25519_sub_reduce one (curve25519_square ls)"
  define l2 where "l2 = curve25519_add_reduce one (curve25519_square ls)"
  have l12: "tight l1" "tight l2" "fe l1 = u1" "fe l2 = u2"
    unfolding l1_def l2_def u1_def u2_def using ls by (simp_all add: fe_bound fe_fp)
  define lv where "lv = curve25519_sub_reduce (curve25519_mul (curve25519_neg EDWARDS_D) (curve25519_square l1)) (curve25519_square l2)"
  define tmp where "tmp = curve25519_mul lv (curve25519_square l2)"
  have lv: "tight lv" "fe lv = v" "tight tmp" "fe tmp = v * (u2 * u2)"
    unfolding tmp_def lv_def v_def using l12 by (simp_all add: fe_bound fe_fp)
  obtain I sq where I: "curve25519_sqrt_ratio_i one tmp = (I, of_bool sq)" "tight I" "sqrt_ratio_spec (fe one) (fe tmp) (fe I) sq"
    by (rule sqrt_ratio_i_correct [OF one_zero_constants(1) tight_loose [OF lv(3)]])
  define dx where "dx = curve25519_mul I l2"
  define dy where "dy = curve25519_mul I (curve25519_mul dx lv)"
  define x0 where "x0 = curve25519_mul (curve25519_add_reduce ls ls) dx"
  define y where "y = curve25519_mul l1 dy"
  define t where "t = curve25519_mul (limb_abs x0) y"
  have dxy: "tight dx" "fe dx = fe I * u2" "tight dy" "fe dy = fe I * (fe I * u2 * v)"
    unfolding dy_def dx_def using I(2) l12 lv by (simp_all add: fe_bound fe_fp)
  have x0: "tight x0" "fe x0 = (S + S) * (fe I * u2)"
    unfolding x0_def using dxy ls by (simp_all add: fe_bound fe_fp)
  have y: "tight y" "fe y = u1 * (fe I * (fe I * u2 * v))"
    unfolding y_def using dxy l12 by (simp_all add: fe_bound fe_fp)
  have t: "tight t" "fe t = fp_abs (fe x0) * fe y"
    unfolding t_def using x0(1) y(1) by (simp_all add: fe_bound fe_fp)
  define r where "r = \<lparr>ge_x = limb_abs x0, ge_y = y, ge_z = one, ge_t = t\<rparr>"
  have canon: "uint8_32_ct_eq bs (curve25519_contract ls) = of_bool (bs = le_bytes 32 (residue S))"
    using assms(1) ls by (simp add: uint8_32_ct_eq_exact contract_residue fe_bound del: of_bool_eq)
  have neg: "bignum25519_is_negative (curve25519_contract ls) = of_bool (fneg S)"
    "bignum25519_is_negative (curve25519_contract t) = of_bool (fneg (fe t))"
    "bignum25519_ct_eq zero y = of_bool (0 = fe y)"
    using ls t y by (simp_all add: is_negative_contract bignum25519_ct_eq_exact fe_bound fe_fp del: of_bool_eq)
  have "ristretto_decode bs = (if of_bool (bs = le_bytes 32 (residue S)) = (0 :: u8) \<or> of_bool (fneg S) = (1 :: u8) then None
      else if of_bool sq = (0 :: u8) \<or> of_bool (fneg (fe t)) = (1 :: u8) \<or> of_bool (0 = fe y) = (1 :: u8) then None else Some r)"
    unfolding ristretto_decode_def Let_def curve25519_invsqrt_def fe_copy ls_def [symmetric]
    unfolding l1_def [symmetric] l2_def [symmetric]
    unfolding lv_def [symmetric] tmp_def [symmetric] I(1) prod.case
    unfolding dx_def [symmetric] dy_def [symmetric]
    unfolding x0_def [symmetric] y_def [symmetric]
    unfolding conditional_negate [OF x0(1)] t_def [symmetric] canon neg r_def [symmetric]
    by (rule refl)
  then have dec: "ristretto_decode bs = (if bs = le_bytes 32 (residue S) \<and> \<not> fneg S \<and> sq \<and> \<not> fneg (fe t) \<and> fe y \<noteq> 0 then Some r else None)"
    unfolding of_bool_eq_0_iff of_bool_eq_1_iff by (auto split: if_split)
  show ?thesis
  proof (rule that [of "fe I" sq r])
    show "sqrt_ratio_spec 1 (v * (u2 * u2)) (fe I) sq" using I(3) by (simp only: lv one_zero_constants)
    show "ristretto_decode bs = (if bs = le_bytes 32 (residue S) \<and> \<not> fneg S \<and> sq \<and>
      \<not> fneg (fe (ge_x r) * fe (ge_y r)) \<and> fe (ge_y r) \<noteq> 0 then Some r else None)"
      using dec x0 by (simp add: r_def t(2) fe_fp)
  qed (use x0 y t in \<open>simp_all add: r_def fe_bound fe_fp\<close>)
qed

text \<open>The point that the formulas of the decoder describe, for a code \<open>s\<close> and the root \<open>I\<close>.\<close>

lemma decoded_point:
  fixes S I :: fp
  defines "u1 \<equiv> 1 - S * S" and "u2 \<equiv> 1 + S * S"
  defines "v \<equiv> - curve_d * (u1 * u1) - u2 * u2"
  defines "y \<equiv> u1 * (I * (I * u2 * v))" and "x \<equiv> fp_abs ((S + S) * (I * u2))"
  assumes "v * (u2 * u2) * (I * I) = 1"
  shows "- (x * x) + y * y = 1 + curve_d * (x * x) * (y * y)" and "y * u2 = u1" and "u2 \<noteq> 0"
    and "S * S * (1 + y) = 1 - y" and "x = 0 \<longleftrightarrow> S = 0"
proof -
  show u2: "u2 \<noteq> 0" and y: "y * u2 = u1"
    using assms(6) unfolding y_def by (auto, algebra)
  have nz: "v \<noteq> 0" "I \<noteq> 0" using assms(6) by auto
  have xx: "x * x = 4 * (S * S) * (I * I) * (u2 * u2)" unfolding x_def fp_abs_square by (simp add: algebra_simps)
  then have "v * (x * x) = 4 * (S * S) * (v * (u2 * u2) * (I * I))" by algebra
  then have vx: "v * (x * x) = 4 * (S * S)" by (simp only: assms(6) mult_1_right)
  have "(v * (u2 * u2)) * (- (x * x) + y * y - (1 + curve_d * (x * x) * (y * y))) =
      - (v * (x * x)) * (u2 * u2) + v * ((y * u2) * (y * u2)) - v * (u2 * u2) - curve_d * (v * (x * x)) * ((y * u2) * (y * u2))"
    by algebra
  also have "\<dots> = 0" unfolding vx y unfolding v_def u1_def u2_def by algebra
  finally show "- (x * x) + y * y = 1 + curve_d * (x * x) * (y * y)" using nz u2 by simp
  have "u2 * (S * S * (1 + y) - (1 - y)) = S * S * (u2 + y * u2) - (u2 - y * u2)" by algebra
  also have "\<dots> = 0" unfolding y unfolding u1_def u2_def by algebra
  finally show "S * S * (1 + y) = 1 - y" using u2 by simp
  have "(2 :: fp) * S = 0 \<longleftrightarrow> S = 0" using two_fp_nonzero by simp
  then show "x = 0 \<longleftrightarrow> S = 0" unfolding x_def fp_abs_zero using nz(2) u2 by (simp add: mult_2 [symmetric])
qed

lemma axis_coset:
  assumes "px P * py P = 0"
  shows "same_coset 0 P"
proof -
  have "py P * py P = 1 * 1" if "px P = 0" using point_equation [of P] that by simp
  moreover have "px P * px P = curve_i * curve_i" if "py P = 0"
    using point_equation [of P] that by (simp add: curve_i_square minus_equation_iff)
  ultimately consider "px P = 0" "py P = 1" | "px P = 0" "py P = - 1" | "py P = 0" "px P = curve_i" | "py P = 0" "px P = - curve_i"
    using assms unfolding mult_eq_0_iff square_eq_fp by blast
  then show ?thesis
  proof cases
    case 1
    then have "P = 0" by (intro point_eqI) simp_all
    then show ?thesis by (simp add: same_coset_refl)
  next
    case 2
    then show ?thesis by (intro same_coset_negated) simp_all
  next
    case 3
    then show ?thesis by (intro same_coset_rotated) simp_all
  next
    case 4
    then have "same_coset P (P + torsion)" "P + torsion = 0"
      by (auto intro: same_coset_rotated point_eqI simp: plus_torsion i_i_mult curve_i_square)
    then show ?thesis by (metis same_coset_sym)
  qed
qed

lemma code_of_canonical:
  assumes "canonical Q" "\<not> fneg s" "s * s * (1 + py Q) = 1 - py Q"
  shows "coset_code Q s"
  unfolding coset_code_def using assms same_coset_refl by (auto simp: canonical_def)

lemma encodable_by_code: "s * s * (1 + py Q) = 1 - py Q \<Longrightarrow> encodable Q"
proof -
  assume "s * s * (1 + py Q) = 1 - py Q"
  then have "(s * (1 + py Q)) * (s * (1 + py Q)) = 1 - py Q * py Q" by algebra
  then show ?thesis unfolding encodable_def by blast
qed

lemma decode_sound:
  assumes "length bs = 32" "ristretto_decode bs = Some r"
  obtains Q s where "represents r Q" "encodable Q" "coset_code Q s" "bs = le_bytes 32 (residue s)"
proof -
  define S u1 u2 where "S = fe (curve25519_expand bs)" and "u1 = 1 - S * S" and "u2 = 1 + S * S"
  define v where "v = - curve_d * (u1 * u1) - u2 * u2"
  obtain I sq q where I: "sqrt_ratio_spec 1 (v * (u2 * u2)) I sq"
    and dec: "ristretto_decode bs = (if bs = le_bytes 32 (residue S) \<and> \<not> fneg S \<and> sq \<and>
      \<not> fneg (fe (ge_x q) * fe (ge_y q)) \<and> fe (ge_y q) \<noteq> 0 then Some q else None)"
    and q: "tight (ge_x q)" "tight (ge_y q)" "tight (ge_z q)" "tight (ge_t q)"
      "fe (ge_x q) = fp_abs ((S + S) * (I * u2))" "fe (ge_y q) = u1 * (I * (I * u2 * v))" "fe (ge_z q) = 1"
      "fe (ge_t q) = fe (ge_x q) * fe (ge_y q)"
    unfolding S_def u1_def u2_def v_def by (rule decode_selects [OF assms(1)])
  have ok: "r = q" "bs = le_bytes 32 (residue S)" "\<not> fneg S" sq "\<not> fneg (fe (ge_x q) * fe (ge_y q))" "fe (ge_y q) \<noteq> 0"
    using dec assms(2) by (auto split: if_splits)
  have "v * (u2 * u2) * (I * I) = 1" using I ok(4) by (auto simp: sqrt_ratio_spec_def split: if_splits)
  note pt = decoded_point [OF this [unfolded v_def u1_def u2_def], folded u1_def u2_def, folded v_def, folded q(5,6)]
  obtain Q where Q: "px Q = fe (ge_x q)" "py Q = fe (ge_y q)" by (rule point_of_coords [OF pt(1)])
  have "represents r Q" using q ok(1) by (simp add: rep_defs Q)
  moreover have "encodable Q" by (rule encodable_by_code [of S]) (simp only: Q pt(4))
  moreover have "coset_code Q S"
  proof (cases "S = 0")
    case True
    then show ?thesis using pt(5) by (simp add: coset_code_def Q)
  next
    case False
    have "canonical Q" using ok(5,6) pt(5) False fp_abs_nonneg [of "(S + S) * (I * u2)"] q(5) by (simp add: canonical_def Q)
    then show ?thesis by (rule code_of_canonical [OF _ ok(3)]) (simp only: Q pt(4))
  qed
  ultimately show ?thesis using ok(2) that by blast
qed

lemma residue_bytes: "fe (curve25519_expand (le_bytes 32 (residue s))) = s"
proof -
  have "residue s < 2 ^ 255" "0 \<le> residue s" using residue_range [of s] p25519_less by simp_all
  then have "le_val (le_bytes 32 (residue s)) mod 2 ^ 255 = residue s" by (simp add: le_val_le_bytes)
  then show ?thesis by (simp add: fe_fp)
qed

lemma root_of_square:
  assumes "sqrt_ratio_spec 1 (w * w) I sq" "w \<noteq> 0"
  shows sq "w * w * (I * I) = 1"
proof -
  have "(w * I) * (w * I) = w * w * (I * I)" by (simp only: ac_simps)
  with curve_i_nonsquare [of "w * I"] show sq "w * w * (I * I) = 1"
    using assms by (auto simp: sqrt_ratio_spec_def split: if_splits)
qed

text \<open>The decoder succeeds when its discriminant is a nonzero square and its point has the right signs.\<close>

lemma decode_succeeds:
  fixes s :: fp
  defines "u1 \<equiv> 1 - s * s" and "u2 \<equiv> 1 + s * s"
  defines "v \<equiv> - curve_d * (u1 * u1) - u2 * u2"
  assumes "w * w = v * (u2 * u2)" "w \<noteq> 0" "\<not> fneg s"
    and "v * (px Q * px Q) = 4 * (s * s)" "py Q * u2 = u1" "\<not> fneg (px Q)" "\<not> fneg (px Q * py Q)" "py Q \<noteq> 0"
  obtains r where "ristretto_decode (le_bytes 32 (residue s)) = Some r" "represents r Q"
proof -
  define bs where "bs = le_bytes 32 (residue s)"
  have S: "fe (curve25519_expand bs) = s" and len: "length bs = 32" by (simp_all add: bs_def residue_bytes)
  obtain I sq r where I: "sqrt_ratio_spec 1 (v * (u2 * u2)) I sq"
    and dec: "ristretto_decode bs = (if bs = le_bytes 32 (residue s) \<and> \<not> fneg s \<and> sq \<and>
      \<not> fneg (fe (ge_x r) * fe (ge_y r)) \<and> fe (ge_y r) \<noteq> 0 then Some r else None)"
    and r: "tight (ge_x r)" "tight (ge_y r)" "tight (ge_z r)" "tight (ge_t r)"
      "fe (ge_x r) = fp_abs ((s + s) * (I * u2))" "fe (ge_y r) = u1 * (I * (I * u2 * v))" "fe (ge_z r) = 1"
      "fe (ge_t r) = fe (ge_x r) * fe (ge_y r)"
    unfolding u1_def u2_def v_def by (rule decode_selects [OF len, unfolded S])
  note root = root_of_square [of w I sq, OF _ assms(5), unfolded assms(4), OF I]
  note pt = decoded_point [OF root(2) [unfolded v_def u1_def u2_def], folded u1_def u2_def, folded v_def, folded r(5,6)]
  have y: "fe (ge_y r) = py Q" using pt(2,3) assms(8) by (metis mult_right_cancel)
  have "v * (fe (ge_x r) * fe (ge_x r)) = 4 * (s * s) * (v * (u2 * u2) * (I * I))"
    unfolding r(5) fp_abs_square by algebra
  then have "v * (fe (ge_x r) * fe (ge_x r)) = v * (px Q * px Q)" by (simp only: root(2) assms(7) mult_1_right)
  moreover have "v \<noteq> 0" using assms(4,5) by auto
  ultimately have "fe (ge_x r) * fe (ge_x r) = px Q * px Q" by simp
  moreover have "\<not> fneg (fe (ge_x r))" unfolding r(5) by (rule fp_abs_nonneg)
  ultimately have x: "fe (ge_x r) = px Q" using assms(9) nonneg_root_unique by blast
  show ?thesis
  proof (rule that [of r])
    show "ristretto_decode (le_bytes 32 (residue s)) = Some r"
      using dec assms(6,10,11) root(1) x y by (simp add: bs_def)
    show "represents r Q" using r x y by (simp add: rep_defs)
  qed
qed

lemma decode_canonical:
  assumes "canonical Q" "\<not> fneg s" "s * s * (1 + py Q) = 1 - py Q"
  obtains r where "ristretto_decode (le_bytes 32 (residue s)) = Some r" "represents r Q"
proof -
  define u1 u2 where "u1 = 1 - s * s" and "u2 = 1 + s * s"
  define v where "v = - curve_d * (u1 * u1) - u2 * u2"
  define x y where "x = px Q" and "y = py Q"
  have nz: "x \<noteq> 0" "y \<noteq> 0" "1 + y \<noteq> 0" using assms(1) ordinate_plus_one [of Q] by (simp_all add: canonical_def x_def y_def)
  have e: "s * s * (1 + y) = 1 - y" using assms(3) by (simp add: y_def)
  have u2: "u2 * (1 + y) = 2" and u1: "u1 * (1 + y) = 2 * y" unfolding u1_def u2_def using e by algebra+
  have "u2 \<noteq> 0" using u2 two_fp_nonzero by auto
  have "(y * u2 - u1) * (1 + y) = 0" using u1 u2 by algebra
  then have yu: "y * u2 = u1" using nz(3) by simp
  have "v * (x * x) = u2 * u2 - u1 * u1"
    unfolding v_def yu [symmetric] using point_equation [of Q, folded x_def y_def] by algebra
  then have vx: "v * (x * x) = 4 * (s * s)" unfolding u1_def u2_def by algebra
  have "s \<noteq> 0"
  proof
    assume "s = 0"
    then have "y * y = 1" using e by simp
    with axis_points [of Q] nz(1) show False by (simp add: x_def y_def)
  qed
  have "(2 * s * u2 / x) * (2 * s * u2 / x) = v * (u2 * u2)"
    by (rule quotient_root) (use vx nz(1) in algebra, rule nz(1))
  moreover have "2 * s * u2 / x \<noteq> 0" using \<open>s \<noteq> 0\<close> \<open>u2 \<noteq> 0\<close> nz(1) two_fp_nonzero by simp
  ultimately show ?thesis
    using decode_succeeds [of "2 * s * u2 / x" s Q, folded u1_def u2_def, folded v_def] assms(1,2) vx yu that
    by (auto simp: canonical_def x_def y_def)
qed

lemma decode_complete:
  assumes "coset_code P s"
  obtains r Q where "ristretto_decode (le_bytes 32 (residue s)) = Some r" "represents r Q" "same_coset P Q" "encodable Q"
proof (cases "px P * py P = 0")
  case False
  then obtain Q where Q: "same_coset P Q" "canonical Q" "s * s * (1 + py Q) = 1 - py Q" "\<not> fneg s"
    using assms unfolding coset_code_def by (simp only: if_False) blast
  obtain r where "ristretto_decode (le_bytes 32 (residue s)) = Some r" "represents r Q"
    by (rule decode_canonical [OF Q(2,4,3)])
  with Q that encodable_by_code show ?thesis by blast
next
  case True
  define c where "c = fe INVSQRT_A_MINUS_D"
  have c: "c * c * (- 1 - curve_d) = 1" unfolding c_def by (rule INVSQRT_A_MINUS_D_constants(2))
  have "s = 0" using assms True by (simp add: coset_code_def)
  have w: "(c * (- 1 - curve_d)) * (c * (- 1 - curve_d)) = - curve_d - 1" using c by algebra
  have "c * (- 1 - curve_d) \<noteq> 0" using c by auto
  then obtain r where "ristretto_decode (le_bytes 32 (residue s)) = Some r" "represents r 0"
    by (rule decode_succeeds [of "c * (- 1 - curve_d)" s 0, rotated]) (simp_all only: \<open>s = 0\<close> w, simp_all)
  moreover have "same_coset P 0" using axis_coset [OF True] by (rule same_coset_sym)
  moreover have "encodable 0" by (rule encodable_by_code [of 0]) simp
  ultimately show ?thesis using that by blast
qed

end
