(* ===== verification/Ristretto_Quotient.thy ===== *)
theory Ristretto_Quotient
  imports Ristretto_Group
begin

unbundle bit_operations_syntax

text \<open>
  The group that the encoding works on: the points that have an encoding form a subgroup, encodings are equal exactly for
  points of one coset of the torsion, and the neutral element encodes to zero.
\<close>

section \<open>The neutral element\<close>

lemma is_negative_bool: obtains c where "bignum25519_is_negative bs = of_bool c"
proof -
  have "bs ! 0 AND 1 = of_bool (bit (bs ! 0) 0)"
    by (rule bit_word_eqI) (auto simp: bit_and_iff bit_1_iff bit_of_bool_iff)
  then show ?thesis using that by (simp add: bignum25519_is_negative_def)
qed

text \<open>The neutral element encodes to zero whatever its fourth coordinate holds, and so does a structure of zeros.\<close>

lemma encode_zero:
  assumes t: "tight (ge_x r)" "tight (ge_y r)" "tight (ge_z r)" and e: "fe (ge_x r) = 0" "fe (ge_y r) = fe (ge_z r)"
  shows "ristretto_encode r = le_bytes 32 0"
proof -
  define tmp where "tmp = curve25519_mul (curve25519_mul (curve25519_add_reduce (ge_z r) (ge_y r)) (curve25519_sub_reduce (ge_z r) (ge_y r)))
    (curve25519_square (curve25519_mul (ge_x r) (ge_y r)))"
  have tmp: "tight tmp" unfolding tmp_def using t by (simp add: fe_bound)
  obtain I sq where I: "curve25519_sqrt_ratio_i one tmp = (I, of_bool sq)" "tight I"
    by (rule sqrt_ratio_i_correct [OF one_zero_constants(1) tight_loose [OF tmp]])
  define u1 where "u1 = curve25519_mul (curve25519_add_reduce (ge_z r) (ge_y r)) (curve25519_sub_reduce (ge_z r) (ge_y r))"
  define u2 where "u2 = curve25519_mul (ge_x r) (ge_y r)"
  define i1 where "i1 = curve25519_mul I u1"
  define i2 where "i2 = curve25519_mul I u2"
  define zinv where "zinv = curve25519_mul (curve25519_mul i2 (ge_t r)) i1"
  obtain rotate where rotate: "bignum25519_is_negative (curve25519_contract (curve25519_mul (ge_t r) zinv)) = of_bool rotate"
    by (rule is_negative_bool)
  define x' where "x' = (if rotate then curve25519_mul (ge_y r) SQRT_M1 else ge_x r)"
  define y' where "y' = (if rotate then curve25519_mul (ge_x r) SQRT_M1 else ge_y r)"
  define i' where "i' = (if rotate then curve25519_mul i1 INVSQRT_A_MINUS_D else i2)"
  obtain negative where negative: "bignum25519_is_negative (curve25519_contract (curve25519_mul x' zinv)) = of_bool negative"
    by (rule is_negative_bool)
  define y'' where "y'' = (if negative then curve25519_neg y' else y')"
  define s where "s = curve25519_mul i' (curve25519_sub_reduce (ge_z r) y'')"
  have u: "tight u1" "tight u2" "fe u1 = 0" "fe u2 = 0"
    unfolding u1_def u2_def using t e by (simp_all add: fe_bound fe_fp)
  then have i: "tight i1" "tight i2" "fe i1 = 0" "fe i2 = 0" unfolding i1_def i2_def using I(2) by (simp_all add: fe_bound fe_fp)
  then have "tight i'" "fe i' = 0" unfolding i'_def by (simp_all add: fe_bound fe_fp)
  moreover have "tight y''" unfolding y''_def y'_def using t by (simp add: fe_bound)
  ultimately have s: "tight s" "fe s = 0" unfolding s_def using t by (simp_all add: fe_bound fe_fp)
  have "ristretto_encode r = curve25519_contract (limb_abs s)"
    unfolding ristretto_encode_def Let_def curve25519_invsqrt_def tmp_def [symmetric] I(1) prod.case fe_copy
    unfolding u1_def [symmetric] u2_def [symmetric] i1_def [symmetric] i2_def [symmetric]
    unfolding zinv_def [symmetric] rotate ucast_of_bool swap_first
    unfolding x'_def [symmetric] y'_def [symmetric] i'_def [symmetric] negative ucast_of_bool swap_first
    unfolding y''_def [symmetric] s_def [symmetric]
    by (rule conditional_negate [OF s(1)])
  moreover have "residue (fp_abs 0) = 0" using residue_of_int [of 0] by (simp add: fp_abs_def)
  ultimately show ?thesis using s by (simp add: contract_residue fe_bound fe_fp)
qed

lemma encode_neutral: "rep_partial r 0 \<Longrightarrow> ristretto_encode r = le_bytes 32 0"
  by (rule encode_zero) (simp_all add: rep_partial_def)

section \<open>Encodings of group elements\<close>

text \<open>The bytes \<open>bs\<close> stand for the coset of the point \<open>P\<close>.\<close>

definition encodes :: "point \<Rightarrow> bytes \<Rightarrow> bool" where
  "encodes P bs \<longleftrightarrow> encodable P \<and> (\<exists>s. coset_code P s \<and> bs = le_bytes 32 (residue s))"

lemma encodable_axis: "px P * py P = 0 \<Longrightarrow> encodable P"
proof -
  assume "px P * py P = 0"
  then have "py P = 0 \<or> py P * py P = 1" using point_equation [of P] by auto
  then have "1 * 1 = 1 - py P * py P \<or> 0 * 0 = 1 - py P * py P" by auto
  then show ?thesis unfolding encodable_def by blast
qed

lemma encodable_double: "encodable (Q + Q)"
  using double_encodable encodable_axis by blast

lemma encodable_same_coset: "encodable P \<Longrightarrow> same_coset P Q \<Longrightarrow> encodable Q"
  using encodable_coset encodable_axis coset_product_zero by blast

lemma encode_encodes: "represents r P \<Longrightarrow> encodable P \<Longrightarrow> encodes P (ristretto_encode r)"
  unfolding encodes_def by (blast elim: encode_correct)

lemma encodes_unique: "encodes P bs \<Longrightarrow> encodes Q bs' \<Longrightarrow> same_coset P Q \<Longrightarrow> bs = bs'"
  unfolding encodes_def using coset_code_unique by blast

lemma encodes_decode:
  assumes "encodes P bs"
  obtains r Q where "ristretto_decode bs = Some r" "represents r Q" "same_coset P Q" "encodable Q"
  using assms unfolding encodes_def by (blast elim: decode_complete)

lemma encodes_coset: 
  assumes "encodes P bs" "encodes Q bs"
  shows "same_coset P Q"
proof -
  obtain r P' where P: "ristretto_decode bs = Some r" "represents r P'" "same_coset P P'" 
    by (rule encodes_decode [OF assms(1)])
  obtain r' Q' where "ristretto_decode bs = Some r'" "represents r' Q'" "same_coset Q Q'"
    by (rule encodes_decode [OF assms(2)])
  with P rep_partial_unique [of r P' Q'] have "Q' = P'" by (simp add: represents_partial)
  with P(3) \<open>same_coset Q Q'\<close> show ?thesis using same_coset_sym same_coset_trans by blast
qed

lemma same_coset_add: "same_coset P P' \<Longrightarrow> same_coset Q Q' \<Longrightarrow> same_coset (P + Q) (P' + Q')"
proof -
  assume "same_coset P P'" "same_coset Q Q'"
  then obtain j k where "P' = P + smul j torsion" "Q' = Q + smul k torsion" by (auto simp: same_coset_def)
  then have "P' + Q' = P + Q + smul (j + k) torsion" by (simp add: smul_add algebra_simps)
  then show ?thesis unfolding same_coset_def by blast
qed

lemma same_coset_smul: "same_coset P P' \<Longrightarrow> same_coset (smul k P) (smul k P')"
proof -
  assume "same_coset P P'"
  then obtain j where "P' = P + smul j torsion" by (auto simp: same_coset_def)
  then have "smul k P' = smul k P + smul (k * j) torsion" by (simp add: smul_distrib smul_smul)
  then show ?thesis unfolding same_coset_def by blast
qed

lemma encodes_below: "encodes P bs \<Longrightarrow> le_val bs < p25519"
proof -
  assume "encodes P bs"
  then obtain s where "bs = le_bytes 32 (residue s)" by (auto simp: encodes_def)
  then have "le_val bs = residue s mod 256 ^ 32" by (simp add: le_val_le_bytes)
  also have "\<dots> \<le> residue s" using residue_range [of s] by (simp add: zmod_le_nonneg_dividend)
  finally show ?thesis using residue_range [of s] by simp
qed

lemma encodes_same_coset: "encodes P bs \<Longrightarrow> same_coset P Q \<Longrightarrow> encodes Q bs"
proof -
  assume P: "encodes P bs" and PQ: "same_coset P Q"
  then obtain s where s: "coset_code P s" "bs = le_bytes 32 (residue s)" by (auto simp: encodes_def)
  have "same_coset Q R \<longleftrightarrow> same_coset P R" for R using PQ same_coset_sym same_coset_trans by blast
  then have "coset_code Q s" using s(1) coset_product_zero [OF PQ] unfolding coset_code_def by simp
  with s(2) P PQ encodable_same_coset show ?thesis unfolding encodes_def by blast
qed

lemma decode_rejects_unreduced: "length bs = 32 \<Longrightarrow> p25519 \<le> le_val bs \<Longrightarrow> ristretto_decode bs = None"
proof (cases "ristretto_decode bs")
  case (Some r)
  assume "length bs = 32" "p25519 \<le> le_val bs"
  obtain Q s where "encodable Q" "coset_code Q s" "bs = le_bytes 32 (residue s)"
    by (rule decode_sound [OF \<open>length bs = 32\<close> Some])
  then have "encodes Q bs" by (auto simp: encodes_def)
  with \<open>p25519 \<le> le_val bs\<close> show ?thesis using encodes_below by force
qed

section \<open>The encodable points form a subgroup\<close>

lemma descent_identity:
  fixes x1 y1 x2 y2 d :: fp
  assumes "- (x1 * x1) + y1 * y1 = 1 + d * (x1 * x1) * (y1 * y1)" "- (x2 * x2) + y2 * y2 = 1 + d * (x2 * x2) * (y2 * y2)"
  shows "(1 - d * x1 * x2 * y1 * y2 + y1 * y2 + x1 * x2) * ((y2 - y1) * (y2 - y1)) * (- 1 - d) =
    (1 - d * x1 * x2 * y1 * y2 - y1 * y2 - x1 * x2) * ((1 + d * (y1 * y1)) * (1 + d * (y2 * y2))) * ((x2 - x1) * (x2 - x1))"
  using assms by algebra

lemma ordinate_square:
  "x * x * (1 + curve_d * (y * y)) = - (1 - y * y)" if "- (x * x) + y * y = 1 + curve_d * (x * x) * (y * y)" for x y :: fp
  using that by algebra

lemma same_ordinate: "py P = py Q \<Longrightarrow> P = Q \<or> P = - Q"
proof -
  assume y: "py P = py Q"
  have "px P * px P * (1 + curve_d * (py Q * py Q)) = px Q * px Q * (1 + curve_d * (py Q * py Q))"
    using ordinate_square [OF point_equation [of P]] ordinate_square [OF point_equation [of Q]] by (simp add: y)
  moreover have "1 + curve_d * (py Q * py Q) \<noteq> 0"
  proof
    assume z: "1 + curve_d * (py Q * py Q) = 0"
    then have "py Q * py Q = 1" using ordinate_square [OF point_equation [of Q]] by simp
    with z have "curve_d = curve_i * curve_i" by (simp add: curve_i_square eq_neg_iff_add_eq_0 add.commute)
    then show False using curve_d_nonsquare by metis
  qed
  ultimately have "px P * px P = px Q * px Q" by simp
  then have "px P = px Q \<or> px P = - px Q" by (simp add: square_eq_iff)
  then show ?thesis using y by (auto intro: point_eqI)
qed

lemma encodable_add_generic:
  assumes "encodable P" "encodable Q" "px P \<noteq> 0" "px Q \<noteq> 0" "py P \<noteq> py Q"
  shows "encodable (P + Q)"
proof -
  define x1 y1 x2 y2 y3 where "x1 = px P" and "y1 = py P" and "x2 = px Q" and "y2 = py Q" and "y3 = py (P + Q)"
  define c where "c = fe INVSQRT_A_MINUS_D"
  define k where "k = curve_d * x1 * x2 * y1 * y2"
  have c: "c * c * (- 1 - curve_d) = 1" unfolding c_def by (rule INVSQRT_A_MINUS_D_constants(2))
  obtain r1 r2 where r: "r1 * r1 = 1 - y1 * y1" "r2 * r2 = 1 - y2 * y2"
    using assms(1,2) by (auto simp: encodable_def y1_def y2_def)
  note e = point_equation [of P, folded x1_def y1_def] point_equation [of Q, folded x2_def y2_def]
  have k: "1 - k \<noteq> 0" "y3 * (1 - k) = y1 * y2 + x1 * x2"
    using sum_denominators(2) [of P Q] by (simp_all add: k_def y3_def point_plus x1_def y1_def x2_def y2_def)
  define w where "w = x1 * x2 * (y2 - y1)"
  have w: "w \<noteq> 0" using assms(3,4,5) by (simp add: w_def x1_def x2_def y1_def y2_def)
  define t where "t = c * r1 * r2 * (x2 - x1)"
  have sq: "t * t = (c * c) * ((1 - y1 * y1) * (1 - y2 * y2)) * ((x2 - x1) * (x2 - x1))"
    unfolding t_def r [symmetric] by algebra
  have "(1 - k + y1 * y2 + x1 * x2) * ((y2 - y1) * (y2 - y1)) * (- 1 - curve_d) =
    (1 - k - y1 * y2 - x1 * x2) * ((1 + curve_d * (y1 * y1)) * (1 + curve_d * (y2 * y2))) * ((x2 - x1) * (x2 - x1))"
    unfolding k_def by (rule descent_identity [OF e])
  then have "(1 - k) * ((1 + y3) * ((y2 - y1) * (y2 - y1)) * (- 1 - curve_d)) =
    (1 - k) * ((1 - y3) * ((1 + curve_d * (y1 * y1)) * (1 + curve_d * (y2 * y2))) * ((x2 - x1) * (x2 - x1)))"
    using k(2) by algebra
  then have "(1 + y3) * ((y2 - y1) * (y2 - y1)) * (- 1 - curve_d) =
    (1 - y3) * ((1 + curve_d * (y1 * y1)) * (1 + curve_d * (y2 * y2))) * ((x2 - x1) * (x2 - x1))"
    using k(1) by simp
  then have "(1 + y3) * (w * w) = (1 - y3) * (t * t)"
    unfolding sq w_def using ordinate_square [OF e(1)] ordinate_square [OF e(2)] c by algebra
  then have "((1 - y3) * (t / w)) * ((1 - y3) * (t / w)) = 1 - y3 * y3"
    using w by (simp add: divide_simps) algebra
  then show ?thesis unfolding encodable_def y3_def by blast
qed

lemma encodable_add:
  assumes "encodable P" "encodable Q"
  shows "encodable (P + Q)"
proof -
  have axis: "encodable (A + C)" if "px A * py A = 0" "encodable C" for A C
  proof -
    have "same_coset (0 + C) (A + C)" using axis_coset [OF that(1)] same_coset_refl by (rule same_coset_add)
    then show ?thesis using that(2) encodable_same_coset by simp
  qed
  consider "px P = 0" | "px Q = 0" | "py P = py Q" | "px P \<noteq> 0" "px Q \<noteq> 0" "py P \<noteq> py Q" by blast
  then show ?thesis
  proof cases
    case 1
    then show ?thesis using axis [of P Q] assms by simp
  next
    case 2
    then show ?thesis using axis [of Q P] assms by (simp add: add.commute)
  next
    case 3
    then show ?thesis using same_ordinate encodable_double encodable_double [of 0] by fastforce
  next
    case 4
    then show ?thesis using encodable_add_generic assms by blast
  qed
qed

lemma encodable_neg: "encodable P \<Longrightarrow> encodable (- P)"
  by (simp add: encodable_def)

lemma encodable_smul: "encodable P \<Longrightarrow> encodable (smul k P)"
proof -
  assume P: "encodable P"
  have "encodable (smul (int n) P)" for n
  proof (induction n)
    case 0
    then show ?case using encodable_double [of 0] by simp
  next
    case (Suc n)
    then show ?case using encodable_add [OF P] by (simp add: smul_add)
  qed
  then show ?thesis using encodable_neg by (cases k rule: int_cases2) (simp_all)
qed
end
