(* ===== verification/Row_Check.thy ===== *)
theory Row_Check
  imports Octal Base_Tables
begin

text \<open>
  Executable checks on octal numbers, modulo \<open>2\<^sup>2\<^sup>5\<^sup>5 - 19\<close>, that decide whether the coordinates listed in the precomputed
  tables belong to sums and doubles of points.  A point \<open>(x, y)\<close> is listed as \<open>u = y - x\<close> and \<open>v = y + x\<close>; that the checks
  are sound is shown in \<open>Table_Check\<close>.
\<close>

definition c19 :: oct where "c19 = O3 (O2 OZ)"

text \<open>Differences; the subtrahend has 85 digits.\<close>

definition osub :: "oct \<Rightarrow> oct \<Rightarrow> oct" where
  "osub m n = ofold c19 (oadd m (oadd (ocomp digits85 n) (ocomp digits85 (O4 (O4 OZ)))))"

definition ored :: "oct \<Rightarrow> bool" where
  "ored n \<longleftrightarrow> oeq (ohigh digits85 n) OZ"

section \<open>Sums and doubles\<close>

definition sum_final :: "oct \<Rightarrow> oct \<Rightarrow> oct \<Rightarrow> oct \<Rightarrow> oct \<Rightarrow> bool" where
  "sum_final A B C a b \<longleftrightarrow> ored A \<and> ored C \<and>
     oeq (oredmul c19 a (oadd (O0 (O1 OZ)) C)) (ofold c19 (O0 (osub B A))) \<and>
     oeq (oredmul c19 b (osub (O0 (O1 OZ)) C)) (ofold c19 (O0 (oadd B A)))"

definition sum_ok :: "oct \<Rightarrow> oct \<Rightarrow> oct \<Rightarrow> oct \<Rightarrow> oct \<Rightarrow> oct \<Rightarrow> oct \<Rightarrow> oct \<Rightarrow> bool" where
  "sum_ok u1 v1 z1 u2 v2 w2 u3 v3 \<longleftrightarrow> ored u3 \<and>
     sum_final (oredmul c19 u1 u2) (oredmul c19 v1 v2) (oredmul c19 w2 z1) (osub v3 u3) (oadd v3 u3)"

definition dbl_final :: "oct \<Rightarrow> oct \<Rightarrow> oct \<Rightarrow> oct \<Rightarrow> oct \<Rightarrow> bool" where
  "dbl_final m a b a3 b3 \<longleftrightarrow> ored m \<and> oeq (oredmul c19 a3 m) (oredmul c19 a b) \<and>
     oeq (oredmul c19 b3 (osub (O2 OZ) m)) (ofold c19 (oadd (oredmul c19 a a) (oadd m m)))"

definition dbl_ok :: "oct \<Rightarrow> oct \<Rightarrow> oct \<Rightarrow> oct \<Rightarrow> bool" where
  "dbl_ok u v u3 v3 \<longleftrightarrow> ored u \<and> ored u3 \<and> dbl_final (oredmul c19 u v) (osub v u) (oadd u v) (osub v3 u3) (oadd u3 v3)"

section \<open>Rows of a table\<close>

text \<open>
  The third coordinate of a row is \<open>2 c x y\<close> with \<open>c = d\<close>, or \<open>c = 1\<close> in the rows of position 0.  It is checked against
  \<open>4 x y\<close>, with \<open>121666 d = - 121665\<close>.
\<close>

definition times_d_ok :: "oct \<Rightarrow> oct \<Rightarrow> bool" where
  "times_d_ok w z \<longleftrightarrow> oeq (ofold c19 (oadd (omul w (O2 (O0 (O5 (O5 (O5 (O3 OZ)))))))
     (omul z (O1 (O0 (O5 (O5 (O5 (O3 OZ))))))))) (ocomp digits85 (O2 (O2 OZ)))"

definition product_ok :: "bool \<Rightarrow> oct \<Rightarrow> oct \<Rightarrow> oct \<Rightarrow> bool" where
  "product_ok with_d u v w \<longleftrightarrow> ored u \<and>
     (if with_d then times_d_ok (oadd w w) (oredmul c19 (osub v u) (oadd u v))
      else oeq (ofold c19 (oadd w w)) (oredmul c19 (osub v u) (oadd u v)))"

text \<open>A row is 96 bytes, three field elements of 32 bytes each.\<close>

definition next_field :: "oct \<Rightarrow> oct" where
  "next_field n = ohigh (Suc 0) (omul (ohigh digits85 n) (O4 OZ))"

definition third_field :: "oct \<Rightarrow> oct \<Rightarrow> oct \<Rightarrow> oct \<times> oct \<times> oct" where
  "third_field u v t = (u, v, olow digits85 t)"

definition fields_from :: "oct \<Rightarrow> oct \<Rightarrow> oct \<times> oct \<times> oct" where
  "fields_from n t = third_field (olow digits85 n) (olow digits85 t) (next_field t)"

definition row_fields :: "int \<Rightarrow> oct \<times> oct \<times> oct" where
  "row_fields x = fields_from (oct_int x) (next_field (oct_int x))"

lemmas row_fields_defs = row_fields_def fields_from_def third_field_def

section \<open>Successive multiples\<close>

text \<open>Each row is the sum of the one before and a fixed point.\<close>

fun multiples_ok :: "bool \<Rightarrow> oct \<Rightarrow> oct \<Rightarrow> oct \<Rightarrow> (oct \<times> oct \<times> oct) list \<Rightarrow> bool" where
  "multiples_ok b u1 v1 z1 ((u, v, w) # (u', v', w') # ts) \<longleftrightarrow>
     sum_ok u1 v1 z1 u v w u' v' \<and> product_ok b u' v' w' \<and> multiples_ok b u1 v1 z1 ((u', v', w') # ts)"
| "multiples_ok b u1 v1 z1 ts \<longleftrightarrow> True"

text \<open>The eight rows of a position, the first a given point.\<close>

definition d_oct :: oct where
  "d_oct = oct_int 0x52036cee2b6ffe738cc740797779e89800700a4d4141d8ab75eb4dca135978a3"

definition step_term :: "bool \<Rightarrow> oct \<Rightarrow> oct" where
  "step_term b z = (if b then z else oredmul c19 d_oct z)"

fun position_ok :: "bool \<Rightarrow> (oct \<times> oct \<times> oct) list \<Rightarrow> bool" where
  "position_ok b ((u, v, w) # ts) \<longleftrightarrow> product_ok b u v w \<and>
     multiples_ok b u v (step_term b (oredmul c19 (osub v u) (oadd u v))) ((u, v, w) # ts)"
| "position_ok b [] \<longleftrightarrow> True"

text \<open>Repeated doubling.\<close>

fun doubles_ok :: "(oct \<times> oct) list \<Rightarrow> bool" where
  "doubles_ok ((u, v) # (u', v') # ts) \<longleftrightarrow> dbl_ok u v u' v' \<and> doubles_ok ((u', v') # ts)"
| "doubles_ok ts \<longleftrightarrow> True"

section \<open>Blocks of sixteen rows\<close>

text \<open>A block holds two positions; the last row of a position, doubled five times, is the first row of the next.\<close>

fun row_uv :: "oct \<times> oct \<times> oct \<Rightarrow> oct \<times> oct" where
  "row_uv (u, v, w) = (u, v)"

fun oct_pair :: "int \<times> int \<Rightarrow> oct \<times> oct" where
  "oct_pair (u, v) = (oct_int u, oct_int v)"

definition link_ok :: "int \<Rightarrow> (int \<times> int) list \<Rightarrow> int \<Rightarrow> bool" where
  "link_ok x ls y \<longleftrightarrow> doubles_ok (row_uv (row_fields x) # map oct_pair ls @ [row_uv (row_fields y)])"

section \<open>Sums of rows\<close>

text \<open>
  A sum of rows is checked term by term against its partial sums, each row with the flag that says whether its third
  field has the factor \<open>d\<close> and whether it is subtracted.
\<close>

fun signed_row :: "bool \<Rightarrow> oct \<times> oct \<times> oct \<Rightarrow> oct \<times> oct \<times> oct" where
  "signed_row neg (u, v, w) = (if neg then (v, u, osub OZ w) else (u, v, w))"

definition coords_term :: "oct \<times> oct \<Rightarrow> oct" where
  "coords_term t = oredmul c19 (osub (snd t) (fst t)) (oadd (fst t) (snd t))"

fun add_row_ok :: "oct \<times> oct \<Rightarrow> bool \<Rightarrow> oct \<times> oct \<times> oct \<Rightarrow> oct \<times> oct \<Rightarrow> bool" where
  "add_row_ok (u1, v1) b (u, v, w) (u', v') \<longleftrightarrow> ored u1 \<and> sum_ok u1 v1 (step_term b (coords_term (u1, v1))) u v w u' v'"

fun sums_ok :: "oct \<times> oct \<Rightarrow> ((bool \<times> bool \<times> int) \<times> (int \<times> int)) list \<Rightarrow> bool" where
  "sums_ok a (((b, neg, x), t) # rs) \<longleftrightarrow> ored (snd (snd (row_fields x))) \<and>
     add_row_ok a b (signed_row neg (row_fields x)) (oct_pair t) \<and> sums_ok (oct_pair t) rs"
| "sums_ok a [] \<longleftrightarrow> True"

section \<open>Evaluation\<close>

lemma take_8: "take 8 (a # b # c # d # e # f # g # h # xs) = [a, b, c, d, e, f, g, h]"
  by (simp add: numeral_eq_Suc)

lemma drop_8: "drop 8 (a # b # c # d # e # f # g # h # xs) = xs"
  by (simp add: numeral_eq_Suc)

lemma nth_16:
  "(a # xs) ! 0 = a" "(a # b # c # d # e # f # g # h # xs) ! 7 = h" "(a # b # c # d # e # f # g # h # i # xs) ! 8 = i"
  "(a # b # c # d # e # f # g # h # i # j # k # l # m # n # p # q # xs) ! 15 = q"
  by (simp_all add: numeral_eq_Suc)

lemmas check_eval = oct_eval c19_def osub_def ored_def sum_final_def sum_ok_def dbl_final_def dbl_ok_def times_d_ok_def
  product_ok_def next_field_def row_fields_defs multiples_ok.simps d_oct_def step_term_def position_ok.simps doubles_ok.simps
  row_uv.simps oct_pair.simps link_ok_def take_8 drop_8 nth_16 list.map append.simps if_True if_False simp_thms

lemmas sums_eval = signed_row.simps coords_term_def add_row_ok.simps sums_ok.simps fst_conv snd_conv

end
