(* ===== verification/Basemult_Correct.thy ===== *)
theory Basemult_Correct
  imports Scalarmult_Correct
begin

unbundle bit_operations_syntax

text \<open>
  The fixed-base multiplication.  Row \<open>8 pos + i\<close> of the packed table holds the multiple
  \<open>(i + 1) 256\<^sup>p\<^sup>o\<^sup>s\<close> of the base point; the rows of position 0 store \<open>2 x y\<close> instead of \<open>2 d x y\<close>.  The lookup scans all
  eight rows of a position.
\<close>

section \<open>The lookup\<close>

lemma windowb_equal_exact: "ge25519_windowb_equal b c = of_bool (b = c)" if "uint b < 2 ^ 31" "uint c < 2 ^ 31"
proof -
  define x where "x = b XOR c"
  have "uint x < 2 ^ 31"
    using that XOR_upper [of "uint b" 31 "uint c"] by (simp add: x_def unsigned_xor_eq)
  have "uint (drop_bit 31 (x - 1)) = of_bool (x = 0)"
  proof (cases "x = 0")
    case True
    then show ?thesis by simp
  next
    case False
    then have "0 < uint x" by (simp add: word_gt_0 uint_0_iff order_less_le)
    then have "uint (x - 1) = uint x - 1" by (simp add: uint_sub_if_size)
    with \<open>uint x < 2 ^ 31\<close> \<open>0 < uint x\<close> False show ?thesis by (simp add: bitval)
  qed
  moreover have "x = 0 \<longleftrightarrow> b = c" by (auto simp: x_def bit_eq_iff bit_xor_iff)
  ultimately have "uint (ge25519_windowb_equal b c) = uint (of_bool (b = c) :: u32)"
    by (simp add: ge25519_windowb_equal_def x_def [symmetric])
  then show ?thesis by (simp only: word_uint_eq_iff)
qed

lemma expand_take: "curve25519_expand (take 32 bs) = curve25519_expand bs" if "32 \<le> length bs"
proof -
  have "U8TO64_LE (drop k (take 32 bs)) = U8TO64_LE (drop k bs)" if "k \<le> 24" for k
    using that \<open>32 \<le> length bs\<close> by (simp add: U8TO64_LE_def)
  from this [of 0] this [of 8] this [of 16] this [of 24] show ?thesis
    by (simp add: curve25519_expand_def)
qed

lemma words_round_trip: "length p = 96 \<Longrightarrow> concat (map U64TO8_LE (words_of_bytes p)) = p"
proof -
  assume p: "length p = 96"
  have w: "U64TO8_LE (U8TO64_LE (drop (8 * i) p)) = take 8 (drop (8 * i) p)" if "i < 12" for i
    using that p le_bytes_le_val [of "take 8 (drop (8 * i) p)"]
    by (simp add: U64TO8_LE_le_bytes uint_U8TO64_LE)
  have "concat (map (\<lambda>i. take 8 (drop (8 * i) p)) [0..<n]) = take (8 * n) p" for n
  proof (induction n)
    case (Suc n)
    then show ?case using take_add [of "8 * n" 8 p] by (simp add: add.commute)
  qed simp
  moreover have "map U64TO8_LE (words_of_bytes p) = map (\<lambda>i. take 8 (drop (8 * i) p)) [0..<12]"
    unfolding words_of_bytes_def map_map by (rule map_cong) (use w in auto)
  ultimately show ?thesis using p by simp
qed

lemma move_conditional_bytes_if:
  assumes "length a = 96" "length b = 96"
  shows "curve25519_move_conditional_bytes a b (of_bool c) = (if c then b else a)"
proof -
  have len: "length (words_of_bytes a) = 12" "length (words_of_bytes b) = 12" by (simp_all add: words_of_bytes_def)
  have "map2 (move_conditional_word (of_bool c)) (words_of_bytes a) (words_of_bytes b) =
      words_of_bytes (if c then b else a)"
    by (rule nth_equalityI) (use len in \<open>auto simp: move_conditional_word_if\<close>)
  then show ?thesis using words_round_trip assms by (simp only: curve25519_move_conditional_bytes_def) simp
qed

definition packed_niels :: "fp \<Rightarrow> bytes \<Rightarrow> point \<Rightarrow> bool" where
  "packed_niels c row P \<longleftrightarrow> length row = 96 \<and> fe (curve25519_expand row) = py P - px P \<and>
     fe (curve25519_expand (drop 32 row)) = py P + px P \<and>
     fe (curve25519_expand (drop 64 row)) = 2 * c * px P * py P"

definition neutral_row :: bytes where
  "neutral_row = (replicate 96 0)[0 := 1, 32 := 1]"

lemma neutral_row_correct: "packed_niels c neutral_row 0"
proof -
  have "take 32 neutral_row = 1 # replicate 31 0" "take 32 (drop 32 neutral_row) = 1 # replicate 31 0"
    "take 32 (drop 64 neutral_row) = replicate 32 0"
    by (simp_all add: neutral_row_def numeral_eq_Suc)
  moreover have "le_val (1 # replicate 31 0) = 1" "le_val (replicate 32 0) = 0"
    by (simp_all add: numeral_eq_Suc)
  moreover have "length neutral_row = 96" by (simp add: neutral_row_def)
  ultimately have "fe (curve25519_expand (take 32 neutral_row)) = 1"
    "fe (curve25519_expand (take 32 (drop 32 neutral_row))) = 1" "fe (curve25519_expand (take 32 (drop 64 neutral_row))) = 0"
    by (simp_all add: fe_fp)
  then show ?thesis using \<open>length neutral_row = 96\<close> by (simp add: packed_niels_def expand_take)
qed

lemma scan_rows:
  assumes "length r = 96" "\<And>i. i < n \<Longrightarrow> length (f i) = 96" "uint u < 2 ^ 31" "n < 2 ^ 30"
  shows "foldl (\<lambda>packed i. curve25519_move_conditional_bytes packed (f i)
      (ucast (ge25519_windowb_equal u (word_of_nat i + 1)))) r [0..<n] =
    (if 0 < uint u \<and> uint u \<le> int n then f (nat (uint u) - 1) else r)"
  using assms(2,4)
proof (induction n)
  case (Suc n)
  define x where "x = (if 0 < uint u \<and> uint u \<le> int n then f (nat (uint u) - 1) else r)"
  have v: "uint (word_of_nat n + 1 :: u32) = int n + 1"
  proof -
    have "(word_of_nat n + 1 :: u32) = word_of_nat (Suc n)" by simp
    moreover have "take_bit 32 (Suc n) = Suc n" using Suc(3) by (intro take_bit_nat_eq_self) simp
    ultimately show ?thesis by (simp add: unsigned_of_nat del: of_nat_Suc)
  qed
  then have "ge25519_windowb_equal u (word_of_nat n + 1) = of_bool (u = word_of_nat n + 1)"
    using Suc(3) assms(3) by (intro windowb_equal_exact) simp_all
  moreover have "(u = word_of_nat n + 1) \<longleftrightarrow> uint u = int n + 1" by (simp add: word_uint_eq_iff v)
  ultimately have flag: "ucast (ge25519_windowb_equal u (word_of_nat n + 1)) = (of_bool (uint u = int n + 1) :: u64)"
    by (simp del: of_bool_eq)
  have "length (f (nat (uint u) - 1)) = 96" if "uint u \<le> int n"
    using that by (intro Suc(2)) linarith
  then have "length x = 96" using assms(1) by (simp only: x_def split: if_split) blast
  moreover have "length (f n) = 96" using Suc(2) by simp
  ultimately have "curve25519_move_conditional_bytes x (f n) (of_bool (uint u = int n + 1)) =
      (if uint u = int n + 1 then f n else x)" by (rule move_conditional_bytes_if)
  moreover have "unat u = Suc n" if "uint u = int n + 1"
    using that by (metis int_eq_iff of_nat_Suc add.commute unat_eq_nat_uint nat_int)
  ultimately show ?case using Suc by (auto simp: x_def flag)
qed auto


text \<open>The absolute value the code forms with the sign mask.\<close>

lemma masked_abs:
  assumes "- 128 \<le> b" "b < 128"
  defines "sign \<equiv> (ucast (digit_signbit b) :: u32)"
  shows "uint ((word_of_int b + NOT (sign - 1)) XOR NOT (sign - 1)) = \<bar>b\<bar>"
proof (cases "b < 0")
  case True
  have "(word_of_int b + - 1 :: u32) XOR - 1 = NOT (word_of_int b - 1)" by (simp add: not_eq_complement)
  also have "\<dots> = word_of_int (- b)" by (simp add: not_eq_complement)
  finally have "(word_of_int b + NOT (sign - 1)) XOR NOT (sign - 1) = word_of_int (- b)"
    using True assms(1,2) by (simp add: sign_def digit_signbit_exact)
  moreover have "uint (word_of_int (- b) :: u32) = - b"
    unfolding uint_word_of_int using True assms(1) by (intro mod_pos_pos_trivial) simp_all
  ultimately show ?thesis using True by simp
next
  case False
  then show ?thesis using assms(1,2)
    by (simp add: sign_def digit_signbit_exact uint_word_of_int)
qed

definition position_rows :: "fp \<Rightarrow> point \<Rightarrow> bytes list \<Rightarrow> nat \<Rightarrow> bool" where
  "position_rows c P table pos \<longleftrightarrow> (\<forall>i<8. packed_niels c (table ! (pos * 8 + i)) (smul (int i + 1) P))"

lemma choose_niels_correct:
  assumes "position_rows c P table pos" "- 8 \<le> b" "b \<le> 8"
  defines "t \<equiv> ge25519_scalarmult_base_choose_niels table pos b"
  shows "tight (n_ysubx t)" "tight (n_xaddy t)" "tight (n_t2d t)"
    and "fe (n_ysubx t) = py (smul b P) - px (smul b P)" "fe (n_xaddy t) = py (smul b P) + px (smul b P)"
    and "fe (n_t2d t) = 2 * c * px (smul b P) * py (smul b P)"
proof -
  define sign where "sign = (ucast (digit_signbit b) :: u32)"
  define u where "u = (word_of_int b + NOT (sign - 1)) XOR NOT (sign - 1)"
  define row where "row = (if 0 < uint u \<and> uint u \<le> int 8 then table ! (pos * 8 + (nat (uint u) - 1)) else neutral_row)"
  have u: "uint u = \<bar>b\<bar>" using masked_abs [of b] assms(2,3) by (simp add: u_def sign_def)
  have sign: "ucast sign = (of_bool (b < 0) :: u64)" using assms(2,3) by (simp add: sign_def digit_signbit_exact)
  have rows: "packed_niels c (table ! (pos * 8 + i)) (smul (int i + 1) P)" if "i < 8" for i
    using assms(1) that by (simp add: position_rows_def)
  have row: "packed_niels c row (smul \<bar>b\<bar> P)"
  proof (cases "b = 0")
    case False
    define i where "i = nat (uint u) - 1"
    have "int i + 1 = \<bar>b\<bar>" "i < 8" using False u assms(2,3) unfolding i_def by linarith+
    moreover have "row = table ! (pos * 8 + i)" using u False assms(2,3) by (auto simp: row_def i_def)
    ultimately show ?thesis using rows [of i] by simp
  qed (use u in \<open>simp add: row_def neutral_row_correct\<close>)
  have "foldl (\<lambda>packed i. curve25519_move_conditional_bytes packed (table ! (pos * 8 + i))
      (ucast (ge25519_windowb_equal u (word_of_nat i + 1)))) neutral_row [0..<8] = row"
    unfolding row_def
    by (rule scan_rows) (use rows u assms(2,3) in \<open>auto simp: packed_niels_def neutral_row_def\<close>)
  then have t: "t = (let (ysubx, xaddy) = curve25519_swap_conditional (curve25519_expand row) (curve25519_expand (drop 32 row)) (of_bool (b < 0));
      (t2d, neg) = curve25519_swap_conditional (curve25519_expand (drop 64 row)) (curve25519_neg (curve25519_expand (drop 64 row))) (of_bool (b < 0))
      in \<lparr>n_ysubx = ysubx, n_xaddy = xaddy, n_t2d = t2d\<rparr>)"
    unfolding t_def ge25519_scalarmult_base_choose_niels_def
    by (simp only: Let_def sign_def [symmetric] u_def [symmetric] neutral_row_def [symmetric] sign)
  have len: "length row = 96" using row by (simp add: packed_niels_def)
  have tights: "tight (curve25519_expand row)" "tight (curve25519_expand (drop 32 row))" "tight (curve25519_expand (drop 64 row))"
    using expand_tight [of "take 32 row"] expand_tight [of "take 32 (drop 32 row)"] expand_tight [of "take 32 (drop 64 row)"] len
    by (simp_all add: expand_take)
  have pt: "px (smul b P) = (if b < 0 then - px (smul \<bar>b\<bar> P) else px (smul \<bar>b\<bar> P))" "py (smul b P) = py (smul \<bar>b\<bar> P)"
    by (cases "b < 0"; simp)+
  show "tight (n_ysubx t)" "tight (n_xaddy t)" "tight (n_t2d t)"
    unfolding t by (simp_all add: swap_conditional_if tights fe_bound)
  show "fe (n_ysubx t) = py (smul b P) - px (smul b P)" "fe (n_xaddy t) = py (smul b P) + px (smul b P)"
    "fe (n_t2d t) = 2 * c * px (smul b P) * py (smul b P)"
    unfolding t pt using row by (auto simp: swap_conditional_if tights fe_fp packed_niels_def)
qed

section \<open>The multiplication\<close>

definition base_table_ok :: "point \<Rightarrow> bytes list \<Rightarrow> bool" where
  "base_table_ok B table \<longleftrightarrow>
     (\<forall>pos<32. position_rows (if pos = 0 then 1 else curve_d) (smul (256 ^ pos) B) table pos)"

lemma base_niels_add_correct:
  assumes "base_table_ok B table" "represents r Q" "2 \<le> i" "i < 64" "- 8 \<le> ds ! i" "ds ! i \<le> 8"
  shows "represents (base_niels_add table ds r i) (Q + smul (ds ! i * 256 ^ (i div 2)) B)"
proof -
  define pos where "pos = i div 2"
  have pos: "pos \<noteq> 0" "pos < 32" using assms(3,4) unfolding pos_def by linarith+
  have "position_rows (if pos = 0 then 1 else curve_d) (smul (256 ^ pos) B) table pos"
    using assms(1) pos(2) unfolding base_table_ok_def by blast
  then have "position_rows curve_d (smul (256 ^ pos) B) table pos" unfolding if_not_P [OF pos(1)] .
  then have "position_rows curve_d (smul (256 ^ (i div 2)) B) table (i div 2)" unfolding pos_def .
  note c = choose_niels_correct [OF this assms(5,6)]
  have "rep_niels (ge25519_scalarmult_base_choose_niels table (i div 2) (ds ! i)) (smul (ds ! i) (smul (256 ^ (i div 2)) B))"
    unfolding rep_niels_def using c by (intro conjI)
  from nielsadd2_correct [OF assms(2) this] show ?thesis by (simp add: base_niels_add_def smul_smul)
qed

lemma base_niels_fold_correct:
  assumes "base_table_ok B table" "\<And>i. i < 64 \<Longrightarrow> - 8 \<le> ds ! i \<and> ds ! i \<le> 8" "represents r Q" "o2 = 2 \<or> o2 = (3 :: nat)" "n \<le> 31"
  shows "represents (foldl (base_niels_add table ds) r (map (\<lambda>k. 2 * k + o2) [0..<n]))
    (Q + smul (\<Sum>k<n. ds ! (2 * k + o2) * 256 ^ (k + 1)) B)"
  using assms(5)
proof (induction n)
  case (Suc n)
  have i: "2 \<le> 2 * n + o2" "2 * n + o2 < 64" "(2 * n + o2) div 2 = n + 1" using assms(4) Suc(2) by auto
  from base_niels_add_correct [OF assms(1) Suc(1) i(1,2)] assms(2) [OF i(2)] Suc(2) show ?case
    by (simp add: i(3) smul_add add.assoc)
qed (use assms(3) in simp)

lemma digits_val_sum: "digits_val v ds = (\<Sum>i<length ds. ds ! i * v ^ i)"
proof (induction ds)
  case (Cons d ds)
  have "(\<Sum>i<length (d # ds). (d # ds) ! i * v ^ i) = d + (\<Sum>i<length ds. ds ! i * v ^ Suc i)"
    by (simp only: length_Cons sum.lessThan_Suc_shift) simp
  then show ?case using Cons by (simp add: sum_distrib_left algebra_simps)
qed simp

lemma digits_val_pairs:
  assumes "length ds = 2 * n"
  shows "digits_val 16 ds = (\<Sum>k<n. ds ! (2 * k) * 256 ^ k) + 16 * (\<Sum>k<n. ds ! (2 * k + 1) * 256 ^ k)"
proof -
  have "(\<Sum>i<2 * n. f i) = (\<Sum>k<n. f (2 * k)) + (\<Sum>k<n. f (2 * k + 1))" for f :: "nat \<Rightarrow> int"
    by (induction n) simp_all
  moreover have "(16 :: int) ^ (2 * k) = 256 ^ k" for k by (simp add: power_mult)
  ultimately show ?thesis by (simp add: digits_val_sum assms sum_distrib_left algebra_simps)
qed

lemma smul_16:
  assumes "rep_partial r Q"
  shows "represents (ge25519_double (ge25519_double_partial (ge25519_double_partial (ge25519_double_partial r r) (ge25519_double_partial r r))
    (ge25519_double_partial (ge25519_double_partial r r) (ge25519_double_partial r r)))) (smul 16 Q)"
  using double_correct [OF double_partial_correct [OF double_partial_correct [OF double_partial_correct [OF assms]]]]
  by (simp only: smul_2 [symmetric] smul_smul) simp

lemma scalarmult_base_correct:
  assumes "base_table_ok B table" "sc_limbs (2 ^ 32) s" "sval s < 2 ^ 255"
  shows "represents (ge25519_scalarmult_base_niels table s) (smul (sval s) B)"
proof -
  define ds where "ds = contract256_window4_modm s"
  note w = contract256_window4_modm_correct [OF assms(2,3), folded ds_def]
  have rng: "- 8 \<le> ds ! i \<and> ds ! i \<le> 8" if "i < 64" for i
    using w(3) [of i] w(4) that by (cases "i = 63") auto
  have pos0: "position_rows 1 B table 0" using assms(1) by (auto simp: base_table_ok_def dest!: spec [of _ 0])
  define t1 where "t1 = ge25519_scalarmult_base_choose_niels table 0 (ds ! 1)"
  define r1 where "r1 = \<lparr>ge_x = curve25519_sub_reduce (n_xaddy t1) (n_ysubx t1),
    ge_y = curve25519_add_reduce (n_xaddy t1) (n_ysubx t1), ge_z = Fe 2 0 0 0 0, ge_t = curve25519_copy (n_t2d t1)\<rparr>"
  note c1 = choose_niels_correct [OF pos0, of "ds ! 1", folded t1_def]
  have r1: "represents r1 (smul (ds ! 1) B)"
    using c1 rng [of 1] by (simp add: r1_def rep_defs fe_bound fe_fp two_fp_nonzero)
  define r2 where "r2 = foldl (base_niels_add table ds) r1 (map (\<lambda>k. 2 * k + 3) [0..<31])"
  have r2: "represents r2 (smul (\<Sum>k<32. ds ! (2 * k + 1) * 256 ^ k) B)"
  proof -
    have "(\<Sum>k<32. ds ! (2 * k + 1) * 256 ^ k) = ds ! 1 + (\<Sum>k<31. ds ! (2 * k + 3) * 256 ^ (k + 1))"
      using sum.lessThan_Suc_shift [of "\<lambda>k. ds ! (2 * k + 1) * 256 ^ k" 31] by (simp add: numeral_3_eq_3)
    with base_niels_fold_correct [OF assms(1) rng r1, of 3 31] show ?thesis
      by (simp only: r2_def smul_add) simp
  qed
  define r3 where "r3 = ge25519_double (ge25519_double_partial (ge25519_double_partial (ge25519_double_partial r2 r2) (ge25519_double_partial r2 r2))
    (ge25519_double_partial (ge25519_double_partial r2 r2) (ge25519_double_partial r2 r2)))"
  have r3: "represents r3 (smul 16 (smul (\<Sum>k<32. ds ! (2 * k + 1) * 256 ^ k) B))"
    unfolding r3_def by (rule smul_16 [OF represents_partial [OF r2]])
  define t0 where "t0 = ge25519_scalarmult_base_choose_niels table 0 (ds ! 0)"
  note c0 = choose_niels_correct [OF pos0, of "ds ! 0", folded t0_def]
  have "rep_niels (t0\<lparr>n_t2d := curve25519_mul (n_t2d t0) ge25519_ecd\<rparr>) (smul (ds ! 0) B)"
    using c0 rng [of 0] by (simp add: rep_niels_def fe_bound fe_fp)
  note r4 = nielsadd2_correct [OF r3 this]
  have "(\<Sum>k<32. ds ! (2 * k) * 256 ^ k) = ds ! 0 + (\<Sum>k<31. ds ! (2 * k + 2) * 256 ^ (k + 1))"
    using sum.lessThan_Suc_shift [of "\<lambda>k. ds ! (2 * k) * 256 ^ k" 31] by (simp add: numeral_2_eq_2)
  then have "sval s = 16 * (\<Sum>k<32. ds ! (2 * k + 1) * 256 ^ k) + ds ! 0 + (\<Sum>k<31. ds ! (2 * k + 2) * 256 ^ (k + 1))"
    using digits_val_pairs [of ds 32] w(1,2) by simp
  then have sum: "smul 16 (smul (\<Sum>k<32. ds ! (2 * k + 1) * 256 ^ k) B) + smul (ds ! 0) B
      + smul (\<Sum>k<31. ds ! (2 * k + 2) * 256 ^ (k + 1)) B = smul (sval s) B"
    by (simp only: smul_smul smul_add)
  have "ge25519_scalarmult_base_niels table s = foldl (base_niels_add table ds)
      (ge25519_nielsadd2 r3 (t0\<lparr>n_t2d := curve25519_mul (n_t2d t0) ge25519_ecd\<rparr>)) (map (\<lambda>k. 2 * k + 2) [0..<31])"
    by (simp only: ge25519_scalarmult_base_niels_def Let_def ds_def t1_def r1_def r2_def r3_def t0_def)
  with base_niels_fold_correct [OF assms(1) rng r4, of 2 31] sum show ?thesis by (simp only: simp_thms order_refl)
qed

end
