(* ===== verification/Table_Check.thy ===== *)
theory Table_Check
  imports Row_Check Basemult_Correct
begin

text \<open>
  The checks of \<open>Row_Check\<close> are sound: what they accept are the coordinates of sums, doubles and multiples of points.
\<close>

section \<open>Octal numbers as field elements\<close>

definition ofe :: "oct \<Rightarrow> fp" where
  "ofe n = of_int (oval n)"

lemma p25519_c19: "2 ^ 255 - oval c19 = p25519"
  by (simp add: c19_def p25519_def)

lemma ofe_mod: "oval m mod p25519 = k mod p25519 \<Longrightarrow> ofe m = of_int k"
  by (simp add: ofe_def of_int_fp_eq_iff)

lemma ofe_ops [simp]:
  "ofe (oadd m n) = ofe m + ofe n" "ofe (omul m n) = ofe m * ofe n" "ofe (ofold c19 m) = ofe m"
  "ofe (oredmul c19 m n) = ofe m * ofe n"
proof -
  show "ofe (oadd m n) = ofe m + ofe n" "ofe (omul m n) = ofe m * ofe n" by (simp_all add: ofe_def)
  show "ofe (ofold c19 m) = ofe m"
    using ofe_mod [of "ofold c19 m" "oval m"] oval_ofold [of c19 m] unfolding p25519_c19 by (simp add: ofe_def)
  show "ofe (oredmul c19 m n) = ofe m * ofe n"
    using ofe_mod [of "oredmul c19 m n" "oval m * oval n"] oval_oredmul [of c19 m n] unfolding p25519_c19 by (simp add: ofe_def)
qed

lemma ofe_digits [simp]:
  "ofe OZ = 0" "ofe (O0 n) = 8 * ofe n" "ofe (O1 n) = 8 * ofe n + 1" "ofe (O2 n) = 8 * ofe n + 2" "ofe (O3 n) = 8 * ofe n + 3"
  "ofe (O4 n) = 8 * ofe n + 4" "ofe (O5 n) = 8 * ofe n + 5" "ofe (O6 n) = 8 * ofe n + 6" "ofe (O7 n) = 8 * ofe n + 7"
  by (simp_all add: ofe_def)

lemma oeq_ofe: "oeq m n \<Longrightarrow> ofe m = ofe n"
  by (simp add: oeq_def ofe_def)

lemma ofe_osub: "ored n \<Longrightarrow> ofe (osub m n) = ofe m - ofe n"
proof -
  assume "ored n"
  then have "oval (olow digits85 n) = oval n"
    using oval_split [of n digits85] by (simp add: ored_def oeq_def)
  then have n: "oval (ocomp digits85 n) = 2 ^ 255 - 1 - oval n" by (simp add: oval_ocomp digits85_eq)
  have "olow digits85 (O4 (O4 OZ)) = O4 (O4 OZ)" by (simp add: digits85_def)
  then have "oval (ocomp digits85 (O4 (O4 OZ))) = 2 ^ 255 - 37" by (simp add: oval_ocomp digits85_eq)
  then have "oval (oadd m (oadd (ocomp digits85 n) (ocomp digits85 (O4 (O4 OZ))))) = oval m - oval n + 2 * p25519"
    by (simp add: n p25519_def)
  then have "ofe (oadd m (oadd (ocomp digits85 n) (ocomp digits85 (O4 (O4 OZ))))) = of_int (oval m - oval n + 2 * p25519)"
    by (simp only: ofe_def)
  moreover have "(of_int p25519 :: fp) = 0" by (simp add: of_int_fp_eq_0_iff)
  ultimately show ?thesis by (simp only: osub_def ofe_ops(3)) (simp add: ofe_def)
qed

section \<open>Sums and doubles\<close>

definition has_coords :: "oct \<Rightarrow> oct \<Rightarrow> point \<Rightarrow> bool" where
  "has_coords u v P \<longleftrightarrow> ofe u = py P - px P \<and> ofe v = py P + px P"

lemma half_coords:
  fixes u v x y :: fp
  assumes "v - u = 2 * x" "v + u = 2 * y"
  shows "u = y - x" "v = y + x"
proof -
  have "2 * (u - (y - x)) = 0" "2 * (v - (y + x)) = 0" using assms by algebra+
  then show "u = y - x" "v = y + x" using two_fp_nonzero unfolding mult_eq_0_iff by simp_all
qed

lemma has_coordsI:
  assumes "ofe v3 - ofe u3 = 2 * px P" "ofe v3 + ofe u3 = 2 * py P"
  shows "has_coords u3 v3 P"
  unfolding has_coords_def using half_coords [OF assms] by blast

lemma sum_ok_correct:
  assumes "sum_ok u1 v1 z1 u2 v2 w2 u3 v3" "has_coords u1 v1 P" "has_coords u2 v2 Q"
    and "ofe w2 * ofe z1 = 8 * sum_term P Q"
  shows "has_coords u3 v3 (P + Q)"
proof -
  define c where "c = sum_term P Q"
  have r: "ored u3" and f: "sum_final (oredmul c19 u1 u2) (oredmul c19 v1 v2) (oredmul c19 w2 z1) (osub v3 u3) (oadd v3 u3)"
    using assms(1) unfolding sum_ok_def by blast+
  have rr: "ored (oredmul c19 u1 u2)" "ored (oredmul c19 w2 z1)"
    and e1: "oeq (oredmul c19 (osub v3 u3) (oadd (O0 (O1 OZ)) (oredmul c19 w2 z1))) (ofold c19 (O0 (osub (oredmul c19 v1 v2) (oredmul c19 u1 u2))))"
    and e2: "oeq (oredmul c19 (oadd v3 u3) (osub (O0 (O1 OZ)) (oredmul c19 w2 z1))) (ofold c19 (O0 (oadd (oredmul c19 v1 v2) (oredmul c19 u1 u2))))"
    using f unfolding sum_final_def by blast+
  have C: "ofe w2 * ofe z1 = 8 * c" using assms(4) unfolding c_def .
  have uv: "ofe v1 * ofe v2 - ofe u1 * ofe u2 = 2 * (px P * py Q + px Q * py P)"
    "ofe v1 * ofe v2 + ofe u1 * ofe u2 = 2 * (py P * py Q + px P * px Q)"
    using assms(2,3) unfolding has_coords_def by algebra+
  have "(ofe v3 - ofe u3) * (8 + 8 * c) = 8 * (2 * (px P * py Q + px Q * py P))"
    using oeq_ofe [OF e1] by (simp only: ofe_ops ofe_osub [OF r] ofe_osub [OF rr(1)] ofe_digits C uv) simp
  moreover have "(ofe v3 + ofe u3) * (8 - 8 * c) = 8 * (2 * (py P * py Q + px P * px Q))"
    using oeq_ofe [OF e2] by (simp only: ofe_ops ofe_osub [OF rr(2)] ofe_digits C uv) simp
  moreover have "px (P + Q) * (1 + c) = px P * py Q + px Q * py P" "py (P + Q) * (1 - c) = py P * py Q + px P * px Q"
    using sum_denominators [of P Q] unfolding c_def by (simp_all add: point_plus)
  ultimately have "8 * (1 + c) * (ofe v3 - ofe u3 - 2 * px (P + Q)) = 0" "8 * (1 - c) * (ofe v3 + ofe u3 - 2 * py (P + Q)) = 0"
    by algebra+
  moreover have "(8 :: fp) \<noteq> 0" by (rule numeral_fp_nonzero) (simp add: p25519_def)
  ultimately show ?thesis
    using sum_denominators [of P Q] unfolding c_def mult_eq_0_iff by (intro has_coordsI) simp_all
qed

lemma dbl_ok_correct:
  assumes "dbl_ok u v u3 v3" "has_coords u v P"
  shows "has_coords u3 v3 (P + P)"
proof -
  define x y where "x = px P" and "y = py P"
  have r: "ored u" "ored u3" and f: "dbl_final (oredmul c19 u v) (osub v u) (oadd u v) (osub v3 u3) (oadd u3 v3)"
    using assms(1) unfolding dbl_ok_def by blast+
  have rr: "ored (oredmul c19 u v)"
    and e1: "oeq (oredmul c19 (osub v3 u3) (oredmul c19 u v)) (oredmul c19 (osub v u) (oadd u v))"
    and e2: "oeq (oredmul c19 (oadd u3 v3) (osub (O2 OZ) (oredmul c19 u v)))
      (ofold c19 (oadd (oredmul c19 (osub v u) (osub v u)) (oadd (oredmul c19 u v) (oredmul c19 u v))))"
    using f unfolding dbl_final_def by blast+
  have uv: "ofe u = y - x" "ofe v = y + x" using assms(2) unfolding has_coords_def x_def y_def by blast+
  define c where "c = sum_term P P"
  have curve: "(y - x) * (y + x) = 1 + c" using point_equation [of P] unfolding c_def x_def y_def by algebra
  have "(ofe v3 - ofe u3) * (1 + c) = (2 * x) * (2 * y)"
    using oeq_ofe [OF e1] unfolding ofe_ops ofe_osub [OF r(1)] ofe_osub [OF r(2)] uv curve by algebra
  moreover have "(ofe u3 + ofe v3) * (1 - c) = 2 * (x * x) + 2 * (y * y)"
    using oeq_ofe [OF e2, unfolded ofe_ops ofe_osub [OF r(1)] ofe_osub [OF rr] ofe_digits uv curve] curve by algebra
  moreover have "px (P + P) * (1 + c) = 2 * (x * y)" "py (P + P) * (1 - c) = y * y + x * x"
    using sum_denominators [of P P] unfolding c_def x_def y_def by (simp_all add: point_plus)
  ultimately have "(1 + c) * (ofe v3 - ofe u3 - 2 * px (P + P)) = 0" "(1 - c) * (ofe v3 + ofe u3 - 2 * py (P + P)) = 0"
    by algebra+
  then show ?thesis
    using sum_denominators [of P P] unfolding c_def mult_eq_0_iff by (intro has_coordsI) simp_all
qed

section \<open>Rows of a table\<close>

definition with_factor :: "bool \<Rightarrow> fp" where
  "with_factor b = (if b then curve_d else 1)"

lemma ofe_p: "ofe (ocomp digits85 (O2 (O2 OZ))) = 0"
proof -
  have "olow digits85 (O2 (O2 OZ)) = O2 (O2 OZ)" by (simp add: digits85_def)
  then have "oval (ocomp digits85 (O2 (O2 OZ))) = p25519" by (simp add: oval_ocomp digits85_eq p25519_def)
  then show ?thesis by (simp add: ofe_def of_int_fp_eq_0_iff)
qed

lemma times_d_ok_correct: "times_d_ok w z \<Longrightarrow> ofe w = curve_d * ofe z"
proof -
  assume "times_d_ok w z"
  from oeq_ofe [OF this [unfolded times_d_ok_def]] have "ofe w * 121666 + ofe z * 121665 = 0"
    by (simp add: ofe_p)
  moreover have "a * (ofe w - curve_d * ofe z) = 0" if "ofe w * a + ofe z * b = 0" "curve_d * a = - b" for a b
    using that by algebra
  ultimately have "121666 * (ofe w - curve_d * ofe z) = 0" using curve_d_fraction by blast
  moreover have "(121666 :: fp) \<noteq> 0" by (rule numeral_fp_nonzero) (simp add: p25519_def)
  ultimately show ?thesis by simp
qed

lemma coords_product:
  assumes "ored u" "has_coords u v P"
  shows "ofe (oredmul c19 (osub v u) (oadd u v)) = 4 * px P * py P"
  using assms(2) unfolding has_coords_def ofe_ops ofe_osub [OF assms(1)] by algebra

lemma product_ok_correct:
  assumes "product_ok b u v w" "has_coords u v P"
  shows "ofe w = 2 * with_factor b * px P * py P"
proof -
  have u: "ored u" using assms(1) by (simp add: product_ok_def)
  note z = coords_product [OF u assms(2)]
  have "2 * ofe w = with_factor b * (4 * px P * py P)"
  proof (cases b)
    case True
    then have "times_d_ok (oadd w w) (oredmul c19 (osub v u) (oadd u v))" using assms(1) by (simp add: product_ok_def)
    from times_d_ok_correct [OF this] z True show ?thesis by (simp add: with_factor_def)
  next
    case False
    then have "oeq (ofold c19 (oadd w w)) (oredmul c19 (osub v u) (oadd u v))" using assms(1) by (simp add: product_ok_def)
    from oeq_ofe [OF this] z False show ?thesis by (simp add: with_factor_def)
  qed
  then have "2 * (ofe w - 2 * with_factor b * px P * py P) = 0" by algebra
  then show ?thesis using two_fp_nonzero unfolding mult_eq_0_iff by simp
qed

lemma oval_ohigh: "oval (ohigh k n) = oval n div 8 ^ k"
  using oval_split [of n k] oval_olow_less [of k n] oval_nonneg [of "olow k n"] by (simp add: div_add1_eq)

lemma oval_olow: "oval (olow k n) = oval n mod 8 ^ k"
  using oval_split [of n k] oval_olow_less [of k n] oval_nonneg [of "olow k n"]
  by (metis add.commute int_mod_pos_eq mult.commute)

lemma oval_next_field: "oval (next_field n) = oval n div 2 ^ 256"
proof -
  have "oval n div 2 ^ 255 * 4 div 8 = oval n div 2 ^ 255 div 2" by linarith
  then show ?thesis by (simp add: next_field_def oval_ohigh digits85_eq zdiv_zmult2_eq [symmetric])
qed

definition row_triple :: "bool \<Rightarrow> oct \<times> oct \<times> oct \<Rightarrow> point \<Rightarrow> bool" where
  "row_triple b t P \<longleftrightarrow> has_coords (fst t) (fst (snd t)) P \<and> ofe (snd (snd t)) = 2 * with_factor b * px P * py P"

lemma expand_row_field:
  assumes "j < 3"
  shows "fe (curve25519_expand (drop (32 * j) (le_bytes 96 x))) = of_int (x div 2 ^ (256 * j) mod 2 ^ 255)"
proof -
  have "le_bytes 96 x = le_bytes (32 * j) x @ le_bytes (96 - 32 * j) (x div 256 ^ (32 * j))"
    using le_bytes_append [of "32 * j" "96 - 32 * j" x] assms by simp
  then have "drop (32 * j) (le_bytes 96 x) = le_bytes (32 + (64 - 32 * j)) (x div 256 ^ (32 * j))"
    using assms by (simp add: add.commute)
  then have "take 32 (drop (32 * j) (le_bytes 96 x)) = le_bytes 32 (x div 256 ^ (32 * j))"
    unfolding le_bytes_append by simp
  moreover have "(256 :: int) ^ (32 * j) = 2 ^ (256 * j)" by (simp add: power_mult)
  ultimately have "feval (curve25519_expand (drop (32 * j) (le_bytes 96 x))) = (x div 2 ^ (256 * j) mod 256 ^ 32 mod 2 ^ 255) mod p25519"
    using expand_take [of "drop (32 * j) (le_bytes 96 x)"] assms expand_val [of "le_bytes 32 (x div 2 ^ (256 * j))"]
    by (simp add: le_val_le_bytes)
  moreover have "y mod 256 ^ 32 mod 2 ^ 255 = y mod 2 ^ 255" for y :: int by (rule mod_mod_cancel) simp
  ultimately show ?thesis unfolding of_int_feval [symmetric] by (simp only: of_int_fp_eq_iff mod_mod_trivial)
qed

lemma row_fields_packed:
  assumes "row_triple b (row_fields x) P" "0 < x"
  shows "packed_niels (with_factor b) (le_bytes 96 x) P"
  using assms expand_row_field [of 0 x] expand_row_field [of 1 x] expand_row_field [of 2 x]
  unfolding row_triple_def packed_niels_def has_coords_def ofe_def
  by (simp add: row_fields_defs oval_olow oval_next_field oval_oct_int digits85_eq zdiv_zmult2_eq [symmetric])

section \<open>Successive multiples\<close>

lemma sum_ok_factors:
  assumes "sum_ok u1 v1 z1 u v w u' v'" "has_coords u1 v1 P" "with_factor b * ofe z1 = 4 * curve_d * px P * py P"
    and "has_coords u v Q" "ofe w = 2 * with_factor b * px Q * py Q"
  shows "has_coords u' v' (Q + P)"
proof -
  have "ofe w * ofe z1 = 8 * sum_term P Q" using assms(3,5) by algebra
  from sum_ok_correct [OF assms(1,2,4) this] show ?thesis by (simp add: add.commute)
qed

lemma multiples_ok_correct:
  assumes "has_coords u1 v1 P" "with_factor b * ofe z1 = 4 * curve_d * px P * py P"
    and "multiples_ok b u1 v1 z1 ts" "ts \<noteq> []" "row_triple b (hd ts) Q" "i < length ts"
  shows "row_triple b (ts ! i) (Q + smul (int i) P)"
  using assms
proof (induction b u1 v1 z1 ts arbitrary: Q i rule: multiples_ok.induct)
  case (1 b u1 v1 z1 u v w u' v' w' ts)
  show ?case
  proof (cases i)
    case (Suc k)
    have ok: "sum_ok u1 v1 z1 u v w u' v'" "product_ok b u' v' w'" "multiples_ok b u1 v1 z1 ((u', v', w') # ts)"
      using 1(4) by simp_all
    have "has_coords u' v' (Q + P)" using sum_ok_factors [OF ok(1) 1(2,3)] 1(6) by (simp add: row_triple_def)
    then have "row_triple b (u', v', w') (Q + P)" using product_ok_correct [OF ok(2)] by (simp add: row_triple_def)
    from 1(1) [OF 1(2,3) ok(3), of "Q + P" k] this 1(7) Suc show ?thesis by (simp add: smul_add add.assoc)
  qed (use 1 in simp)
qed simp_all

lemma d_oct: "ofe d_oct = curve_d"
proof -
  have "times_d_ok d_oct (O1 OZ)" by (simp only: times_d_ok_def d_oct_def oct_eval c19_def)
  from times_d_ok_correct [OF this] show ?thesis by simp
qed

lemma position_ok_correct:
  assumes "position_ok b ts" "ts \<noteq> []" "has_coords (fst (hd ts)) (fst (snd (hd ts))) P" "i < length ts"
  shows "row_triple b (ts ! i) (smul (int i + 1) P)"
proof -
  obtain u v w ts' where ts: "ts = (u, v, w) # ts'" using assms(2) by (cases ts) auto
  have ok: "product_ok b u v w" "multiples_ok b u v (step_term b (oredmul c19 (osub v u) (oadd u v))) ts"
    using assms(1) by (simp_all add: ts)
  have uv: "has_coords u v P" using assms(3) by (simp add: ts)
  have "ored u" using ok(1) by (simp add: product_ok_def)
  from coords_product [OF this uv] have z: "with_factor b * ofe (step_term b (oredmul c19 (osub v u) (oadd u v))) = 4 * curve_d * px P * py P"
    by (simp add: step_term_def with_factor_def d_oct)
  have "row_triple b (u, v, w) P" using product_ok_correct [OF ok(1) uv] uv by (simp add: row_triple_def)
  with multiples_ok_correct [OF uv z ok(2), of P i] assms(2,4) show ?thesis by (simp add: ts smul_add add.commute)
qed

lemma doubles_ok_correct:
  assumes "doubles_ok ts" "ts \<noteq> []" "has_coords (fst (hd ts)) (snd (hd ts)) P"
  shows "has_coords (fst (last ts)) (snd (last ts)) (smul (2 ^ (length ts - 1)) P)"
  using assms
proof (induction ts arbitrary: P rule: doubles_ok.induct)
  case (1 u v u' v' ts)
  then have "dbl_ok u v u' v'" "doubles_ok ((u', v') # ts)" by simp_all
  moreover have "smul (2 ^ length ts) (P + P) = smul (2 ^ Suc (length ts)) P"
    by (simp add: smul_2 [symmetric] smul_smul mult.commute)
  ultimately show ?case using 1(1) [of "P + P"] dbl_ok_correct [of u v u' v' P] 1(4) by simp
qed simp_all

section \<open>Blocks of sixteen rows\<close>

definition first_row :: "int \<Rightarrow> point \<Rightarrow> bool" where
  "first_row x P \<longleftrightarrow> has_coords (fst (row_fields x)) (fst (snd (row_fields x))) P"

definition row_holds :: "bool \<Rightarrow> int \<Rightarrow> point \<Rightarrow> bool" where
  "row_holds b x P \<longleftrightarrow> row_triple b (row_fields x) P \<and> packed_niels (with_factor b) (le_bytes 96 x) P"

definition block_holds :: "bool \<Rightarrow> int list \<Rightarrow> point \<Rightarrow> bool" where
  "block_holds b xs P \<longleftrightarrow> length xs = 16 \<and> first_row (xs ! 15) (smul 2048 P) \<and>
     (\<forall>i<8. row_holds b (xs ! i) (smul (int i + 1) P)) \<and>
     (\<forall>i<8. row_holds True (xs ! (8 + i)) (smul (int i + 1) (smul 256 P)))"

lemma row_triple_first: "row_triple b (row_fields x) P \<Longrightarrow> first_row x P"
  by (simp add: row_triple_def first_row_def)

lemma position_holds:
  assumes "position_ok b (map row_fields xs)" "length xs = 8" "first_row (xs ! 0) P" "\<forall>x\<in>set xs. 0 < x" "i < 8"
  shows "row_holds b (xs ! i) (smul (int i + 1) P)" "first_row (xs ! i) (smul (int i + 1) P)"
proof -
  have "map row_fields xs \<noteq> []" "hd (map row_fields xs) = row_fields (xs ! 0)" using assms(2) by (cases xs; simp)+
  with position_ok_correct [OF assms(1), of P i] assms(2,3,5)
  have t: "row_triple b (row_fields (xs ! i)) (smul (int i + 1) P)" by (simp add: first_row_def)
  have "0 < xs ! i" using assms(2,4,5) by simp
  with t show "row_holds b (xs ! i) (smul (int i + 1) P)" by (simp add: row_holds_def row_fields_packed)
  show "first_row (xs ! i) (smul (int i + 1) P)" using t by (rule row_triple_first)
qed

lemma link_ok_correct:
  assumes "link_ok x ls y" "length ls = 4" "first_row x P"
  shows "first_row y (smul 32 P)"
proof -
  have uv: "row_uv t = (fst t, fst (snd t))" for t by (cases t) auto
  from doubles_ok_correct [OF assms(1) [unfolded link_ok_def]] assms(2,3) show ?thesis
    by (simp add: first_row_def uv)
qed

lemma block_holdsI:
  assumes "position_ok b (map row_fields (take 8 xs))" "position_ok True (map row_fields (drop 8 xs))"
    and "link_ok (xs ! 7) ls (xs ! 8)" "length ls = 4" "length xs = 16" "\<forall>x\<in>set xs. 0 < x" "first_row (xs ! 0) P"
  shows "block_holds b xs P"
proof -
  have pos: "\<forall>x\<in>set (take 8 xs). 0 < x" "\<forall>x\<in>set (drop 8 xs). 0 < x"
    using assms(6) set_take_subset [of 8 xs] set_drop_subset [of 8 xs] by blast+
  note p1 = position_holds [OF assms(1) _ _ pos(1), of P]
  have "first_row (xs ! 7) (smul 8 P)" using p1(2) [of 7] assms(5,7) by simp
  from link_ok_correct [OF assms(3,4) this] have f: "first_row (xs ! 8) (smul 256 P)" by (simp add: smul_smul)
  note p2 = position_holds [OF assms(2) _ _ pos(2), of "smul 256 P"]
  show ?thesis unfolding block_holds_def
    using p1(1) p2 [of 7] p2(1) assms(5,7) f by (simp add: smul_smul)
qed

lemma next_block:
  assumes "block_holds b xs P" "link_ok (xs ! 15) ls (ys ! 0)" "length ls = 4"
  shows "first_row (ys ! 0) (smul 65536 P)"
  using link_ok_correct [OF assms(2,3), of "smul 2048 P"] assms(1) by (simp add: block_holds_def smul_smul)

section \<open>Sums of rows\<close>

definition coords_of :: "oct \<times> oct \<Rightarrow> point \<Rightarrow> bool" where
  "coords_of t P \<longleftrightarrow> has_coords (fst t) (snd t) P"

definition signed_point :: "bool \<Rightarrow> point \<Rightarrow> point" where
  "signed_point neg P = (if neg then - P else P)"

lemma signed_row_correct:
  assumes "row_triple b t P" "ored (snd (snd t))"
  shows "row_triple b (signed_row neg t) (signed_point neg P)"
proof -
  obtain u v w where t: "t = (u, v, w)" by (cases t)
  show ?thesis using assms by (simp add: t row_triple_def has_coords_def signed_point_def ofe_osub)
qed

lemma add_row_ok_correct:
  assumes "add_row_ok a b t r" "coords_of a P" "row_triple b t Q"
  shows "coords_of r (Q + P)"
proof -
  obtain u1 v1 u v w u' v' where e: "a = (u1, v1)" "t = (u, v, w)" "r = (u', v')" by (metis prod.exhaust)
  have ok: "sum_ok u1 v1 (step_term b (coords_term (u1, v1))) u v w u' v'" "ored u1" using assms(1) by (simp_all add: e)
  have P: "has_coords u1 v1 P" using assms(2) by (simp add: e coords_of_def)
  from coords_product [OF ok(2) P] have "with_factor b * ofe (step_term b (coords_term (u1, v1))) = 4 * curve_d * px P * py P"
    by (simp add: step_term_def coords_term_def with_factor_def d_oct)
  from sum_ok_factors [OF ok(1) P this] assms(3) show ?thesis by (simp add: e coords_of_def row_triple_def)
qed

lemma sums_ok_correct:
  assumes "sums_ok a rs" "coords_of a P" "list_all2 (\<lambda>((b, neg, x), t) Q. row_holds b x Q) rs Qs"
  shows "coords_of (if rs = [] then a else oct_pair (snd (last rs)))
    (sum_list (map2 (\<lambda>((b, neg, x), t) Q. signed_point neg Q) rs Qs) + P)"
  using assms
proof (induction a rs arbitrary: P Qs rule: sums_ok.induct)
  case (1 a b neg x t rs)
  obtain Q Qs' where Qs: "Qs = Q # Qs'" "row_holds b x Q" "list_all2 (\<lambda>((b, neg, x), t) Q. row_holds b x Q) rs Qs'"
    using 1(4) by (auto simp: list_all2_Cons1)
  have ok: "ored (snd (snd (row_fields x)))" "add_row_ok a b (signed_row neg (row_fields x)) (oct_pair t)" "sums_ok (oct_pair t) rs"
    using 1(2) by simp_all
  have "row_triple b (signed_row neg (row_fields x)) (signed_point neg Q)"
    using signed_row_correct ok(1) Qs(2) by (simp add: row_holds_def)
  from 1(1) [OF ok(3) add_row_ok_correct [OF ok(2) 1(3) this] Qs(3)] show ?case
    by (auto simp: Qs(1) add.assoc add.left_commute split: if_splits)
qed simp_all

end
