(* ===== verification/Base_Point.thy ===== *)
theory Base_Point
  imports Table_Check
begin

text \<open>
  The base point: the point with \<open>y = 4 / 5\<close> and even \<open>x\<close>, whose coordinates are those of \<open>ge25519_basepoint\<close>.
\<close>

definition base_x :: oct where
  "base_x = oct_int 0x216936D3CD6E53FEC0A4E231FDD6DC5C692CC7609525A7B2C9562D608F25D51A"

definition base_y :: oct where
  "base_y = oct_int 0x6666666666666666666666666666666666666666666666666666666666666658"

definition on_curve_ok :: "oct \<Rightarrow> oct \<Rightarrow> bool" where
  "on_curve_ok a b \<longleftrightarrow> ored a \<and>
     oeq (osub b a) (ofold c19 (oadd (O1 OZ) (oredmul c19 d_oct (oredmul c19 a b))))"

lemma on_curve_ok_correct:
  assumes "on_curve_ok (oredmul c19 x x) (oredmul c19 y y)"
  shows "- (ofe x * ofe x) + ofe y * ofe y = 1 + curve_d * (ofe x * ofe x) * (ofe y * ofe y)"
proof -
  have o: "ored (oredmul c19 x x)"
    and e: "oeq (osub (oredmul c19 y y) (oredmul c19 x x))
      (ofold c19 (oadd (O1 OZ) (oredmul c19 d_oct (oredmul c19 (oredmul c19 x x) (oredmul c19 y y)))))"
    using assms unfolding on_curve_ok_def by blast+
  from oeq_ofe [OF e] have "ofe y * ofe y - ofe x * ofe x = 1 + curve_d * (ofe x * ofe x * (ofe y * ofe y))"
    unfolding ofe_osub [OF o] ofe_ops ofe_digits d_oct by simp
  then show ?thesis by algebra
qed

lemma base_on_curve: "on_curve_ok (oredmul c19 base_x base_x) (oredmul c19 base_y base_y)"
  by (simp only: on_curve_ok_def base_x_def base_y_def check_eval)

definition base_point :: point where
  "base_point = Abs_point (ofe base_x, ofe base_y)"

lemma base_coords: "px base_point = ofe base_x" "py base_point = ofe base_y"
  using on_curve_ok_correct [OF base_on_curve]
  by (simp_all add: base_point_def px_def py_def Abs_point_inverse c25519.on_curve_def)

lemma base_point_rfc8032: "5 * py base_point = 4" "even (residue (px base_point))"
proof -
  have "oeq (ofold c19 (omul base_y (O5 OZ))) (oadd (O4 OZ) (ocomp digits85 (O2 (O2 OZ))))" by (simp only: base_y_def oct_eval c19_def)
  from oeq_ofe [OF this] show "5 * py base_point = 4" by (simp add: base_coords ofe_p mult.commute)
  have "oval base_x mod p25519 = 0x216936D3CD6E53FEC0A4E231FDD6DC5C692CC7609525A7B2C9562D608F25D51A"
    by (simp add: base_x_def oval_oct_int p25519_def)
  moreover have "even (0x216936D3CD6E53FEC0A4E231FDD6DC5C692CC7609525A7B2C9562D608F25D51A :: int)" by simp
  ultimately show "even (residue (px base_point))" by (simp only: base_coords ofe_def residue_of_int)
qed

text \<open>Whether \<open>u\<close> and \<open>v\<close> are the difference and the sum of the coordinates.\<close>

definition base_pair_ok :: "oct \<times> oct \<Rightarrow> bool" where
  "base_pair_ok t \<longleftrightarrow> ored (fst t) \<and> oeq (osub (snd t) (fst t)) (ofold c19 (oadd base_x base_x)) \<and>
     oeq (ofold c19 (oadd (fst t) (snd t))) (ofold c19 (oadd base_y base_y))"

lemma base_pair_correct: "base_pair_ok t \<Longrightarrow> coords_of t base_point"
  unfolding base_pair_ok_def coords_of_def
  by (intro has_coordsI) (auto dest!: oeq_ofe simp: base_coords ofe_osub add.commute)

lemma base_first_row: "first_row (niels_base_rows_0 ! 0) base_point"
proof -
  have uv: "row_uv t = (fst t, fst (snd t))" for t by (cases t) simp
  have "base_pair_ok (row_uv (row_fields (niels_base_rows_0 ! 0)))"
    by (simp only: base_pair_ok_def base_x_def base_y_def niels_base_rows_0_def check_eval sums_eval)
  from base_pair_correct [OF this] show ?thesis by (simp add: first_row_def coords_of_def uv)
qed

lemma basepoint_correct: "represents ge25519_basepoint base_point"
proof -
  have f: "fval (ge_x ge25519_basepoint) = oval base_x" "fval (ge_y ge25519_basepoint) = oval base_y"
    by (simp_all add: ge25519_basepoint_def fval.simps base_x_def base_y_def oval_oct_int)
  define t where "t = oct_int 0x67875F0FD78B766566EA4E8E64ABE37D20F09F80775152F56DDE8AB3A5B7DDA3"
  have t: "fval (ge_t ge25519_basepoint) = oval t"
    by (simp add: ge25519_basepoint_def fval.simps t_def oval_oct_int)
  have "oeq (oredmul c19 base_x base_y) t" by (simp only: t_def base_x_def base_y_def oct_eval c19_def)
  from oeq_ofe [OF this] have "ofe t = px base_point * py base_point" by (simp add: base_coords)
  then have "fe (ge_t ge25519_basepoint) = px base_point * py base_point" by (simp add: fe_def t ofe_def)
  moreover have "fe (ge_x ge25519_basepoint) = px base_point" "fe (ge_y ge25519_basepoint) = py base_point"
    by (simp_all add: fe_def f base_coords ofe_def)
  moreover have "fe (ge_z ge25519_basepoint) = 1" by (simp add: ge25519_basepoint_def fe_def fval.simps)
  ultimately show ?thesis unfolding rep_defs
    by (simp add: ge25519_basepoint_def tight_def limbs_below.simps)
qed

end
