(* ===== verification/Base_Rows.thy ===== *)
theory Base_Rows
  imports Row_Check
begin

text \<open>
  The rows of \<open>ge25519_niels_base_multiples\<close>, block by block, pass the checks: the eight rows of each position are the first
  eight multiples of its first row, and the last row, doubled five times through the points listed, is the first row of the
  next position.
\<close>

section \<open>Block 0\<close>

lemma low_0: "position_ok False (map row_fields (take 8 niels_base_rows_0))"
  by (simp only: niels_base_rows_0_def check_eval)

lemma high_0: "position_ok True (map row_fields (drop 8 niels_base_rows_0))"
  by (simp only: niels_base_rows_0_def check_eval)

lemma inner_0: "link_ok (niels_base_rows_0 ! 7)
   [(0x4cf210ec5a9a8883e6b5e4193288d1e7a71284cba64878b37ec851ca553e2df3, 0x143b1cf8aa64fe61587a3a4342d20b09b9c19f3375c6bf9c322d04a52d9021f6),
    (0xa653ca5c9eab371f55c3dcfb5bf34face0ed4565313ed3ca94ff858a2888343, 0x7e041577f86ee9650060ea09cc31e1f69a15377846049335490a7a45d185218f),
    (0x371f3acaed2dd714d601f57fe88b30a3e108cb61033342f20a851b9f679d651b, 0x4314030b051e293c0fe71772f6c623f552d9595bd8e6efe3ed280fbec816ad31),
    (0x714de12e58533ac83ff4ae942d83104498aee71d0de5cae19ffe9e92177ba962, 0x60895e91ab49f8d887fa8412632827b3adb5dc655a2cbf625b433149f91b6483)]
   (niels_base_rows_0 ! 8)"
  by (simp only: niels_base_rows_0_def check_eval)

lemma outer_0: "link_ok (niels_base_rows_0 ! 15)
   [(0x5c95b686a0788cd2a69f5645e3cc394b066d04ccca791e6a9267806c567c49d8, 0x56bd36cfb78ac3627d43f49307cd55aa35d0384252c6b51c97d980e0aa39f7d2),
    (0x5b2c78885483b1dd5e87d2b3fd564b2fda1258888f1b4309aa66bf547344e5ab, 0xad7cc8752eaccfb29001f5a3c8b05c57ef55cf1fac4173215baeb74d6a8797a),
    (0x6aa11b5bbb9e039c59db910ee37aa7e6f257f9d59729e67d78e79dade9413d77, 0x79f2942d3a5c8143d78ac93261d57e288960823193bfa988da6d53265b0fd48b),
    (0x659bf72e5ac160d925a4e62065ea5963f4dcc637d27163f7360692f8087d8e31, 0x1c3bab17ae1097178eee6e6de933290abf9d2d4e071a13c79aafb9b05ee38c5b)]
   (niels_base_rows_1 ! 0)"
  by (simp only: niels_base_rows_0_def niels_base_rows_1_def check_eval)

section \<open>Block 1\<close>

lemma low_1: "position_ok True (map row_fields (take 8 niels_base_rows_1))"
  by (simp only: niels_base_rows_1_def check_eval)

lemma high_1: "position_ok True (map row_fields (drop 8 niels_base_rows_1))"
  by (simp only: niels_base_rows_1_def check_eval)

lemma inner_1: "link_ok (niels_base_rows_1 ! 7)
   [(0xed489b3f50d1ed60e84ed3a55bbd344feaf48ae32e71f750b70bf5d3f0af0b, 0xe53dc78bf2b6d47f5e9059af33601979ab68fd988e100f73906c72aed261ae5),
    (0x2b67916429e90ccd601fcd0d267cc138d86dc38e72f95270d11ff05154b260ce, 0x3bbc2b22d99ce282b658f27f022663f7a5b4fbbbd8d0a864a98285d187eaffdb),
    (0x72364713fc79963e5f3e7b33accdc0eac4a8e90248eb32dfad1054b1cde1c22a, 0x699154d1f893ded9f7d4c40bd3c959bc437fcf7c88ea03fe139693063520e0b5),
    (0x265cc261e09a0f5b48519034c1953fe9530cb525c0fbc73b822bee438c01bcec, 0x31bc531d6b7de992f421b2e9eddae875a2aae91e5608150af0d54e4f22ed39a7)]
   (niels_base_rows_1 ! 8)"
  by (simp only: niels_base_rows_1_def check_eval)

lemma outer_1: "link_ok (niels_base_rows_1 ! 15)
   [(0x702d67a3333c4a81e93a47aa92df75812c9162830acc20edd833d7beec2a4c38, 0x2cb8b3a5b483b03fbcac008a78eda01563137a1d7c8de80d3a4a369a2f89c8a1),
    (0x5766120b47a1b47ce35dfb42e02e545fb3f1ef89c1cf989d59f73c773fefee9d, 0x1a4714cede2e767b28e57f183f90d6e43ca1205322cc809491925dccbd83157d),
    (0x685f349a45c7915d87089226b8a6b104ee449e3408b4802b98bcb118a9d0ddbc, 0x7a47d70d34ecb40f99c92aed11adb147b6733181082652519b41acf85c74ccf1),
    (0x65942131361517c639af1378f664bd012d69a4efe506d00885683916c11a1897, 0x584161cd26d946e4033d1f7870c6b0baa7059de561732e60c0accf90b4d3b66d)]
   (niels_base_rows_2 ! 0)"
  by (simp only: niels_base_rows_1_def niels_base_rows_2_def check_eval)

section \<open>Block 2\<close>

lemma low_2: "position_ok True (map row_fields (take 8 niels_base_rows_2))"
  by (simp only: niels_base_rows_2_def check_eval)

lemma high_2: "position_ok True (map row_fields (drop 8 niels_base_rows_2))"
  by (simp only: niels_base_rows_2_def check_eval)

lemma inner_2: "link_ok (niels_base_rows_2 ! 7)
   [(0x53b16d2324ccca79aab3995fc7d2c11e7018058ee8db2d1df8ae4d2ad8453902, 0x2a887f78f7635510030ebed6f0d24ac87dbaed33ebca657623264d66b2cae0b5),
    (0x7b9f2fe8032d71c98347f8e68b250e96bc2d142189298f02bb0d18fd029c6421, 0x32c21b57fb60bdfb2e5111954eaa7d5761699176e13a85a4dd63589386f86d9c),
    (0x7093bae1b521e23f807bec7c9468d4159824ee415ed508242ed227266f0f5dec, 0x7301f4ceb4eae15d72a079d89d73e2b058615171f9df8c6cdc07ac631c5d3afa),
    (0x20a365142bb40f49232fcf25c593546d5005093537fc5b51d531b8bd2b7b9af6, 0x681e3351bff0e4e2c522d02e7bbfcdb72254ae83d22f78436eccd85278d941ed)]
   (niels_base_rows_2 ! 8)"
  by (simp only: niels_base_rows_2_def check_eval)

lemma outer_2: "link_ok (niels_base_rows_2 ! 15)
   [(0x2bc24e04b22122869d8e2ed12a0c754004f4cd5b4fbfaf1ad550095bab6f4985, 0x519ef577b5e09b0a58e2ea8978b5fd6ec384f0afdbb1747e09d4b60b2fe09a14),
    (0x5f6041b45b9212d00753702d614f42b0de06e1db692ae16a4bcef17f06ffca16, 0x7fa00425802e1e683b5d9567a98c196e18947cf181055340d1ab324e1b3a1273),
    (0xd07daacd32d7d5da3148fafb9c1c36d1508722628208bee8416ebd40b50babc, 0x680d04a7fc603dc3118b2dc2fbc08c26e6bee5dcd0e86de73241c00e7d65318c),
    (0x34cebd64b9a0a22363df3f81d1765a894b93fbd05368a5dd46d46280c729989e, 0x61d9b76988258f816512ebf7dabd8512900b0409b946d6ae5e2702878af34ceb)]
   (niels_base_rows_3 ! 0)"
  by (simp only: niels_base_rows_2_def niels_base_rows_3_def check_eval)

section \<open>Block 3\<close>

lemma low_3: "position_ok True (map row_fields (take 8 niels_base_rows_3))"
  by (simp only: niels_base_rows_3_def check_eval)

lemma high_3: "position_ok True (map row_fields (drop 8 niels_base_rows_3))"
  by (simp only: niels_base_rows_3_def check_eval)

lemma inner_3: "link_ok (niels_base_rows_3 ! 7)
   [(0x720814ecaa064b726eb632dc8abd16a28b938270db7469a3e2790aae4d077c41, 0x72de6c984a25a1e40c4a762185927432d7e0e507862f74ce315c29c795115389),
    (0x3b3c833687abe7438a71420e0b797035e3724edde19e93c54d572251857eedf4, 0x79d995a8419334eeab6c52bc636fdd8615a7a27e98fbb296f5396425b23545a4),
    (0x1e3a5272f5c0753c83604432238dde87736e412f6132bb7f5f0601d1cbd0f2d3, 0x30376e5d2c29284f2dc94df6424df6e401581b7a3fabd7178b3172b7ad56651d),
    (0x5d55f8012cf25f384d20e5b1d00afc075192d5d008b0ad73e7a254db49e95a81, 0x119dff99ead7b9fdb7021ba75f3f8d52c6b0c46e6ef41a28ca651e848011937c)]
   (niels_base_rows_3 ! 8)"
  by (simp only: niels_base_rows_3_def check_eval)

lemma outer_3: "link_ok (niels_base_rows_3 ! 15)
   [(0x140345133932a0a268441d72e14141f499aeed3e154d04f2caf55ec27c59b23f, 0x42881af2bd6a743c4b09e1ed2c99a1fa0eb955a85217c771d91430e0dc028c3c),
    (0x11b065a2ade312335da385110692ac244ac5938cd10e0266781a439e417becb5, 0x5265ac2f2adf95921f8f24fa1112270333dad6ef370aa8777914892847927e9f),
    (0x6976c7509888df7b62962b8b9a402cd983f438d4b6a369c397c749eeb701cb96, 0x1bcfde61201d1e76a06351375f77af9bda096a51fea8f5495b97946582ffa02a),
    (0x6e2a7316319afa28f870c6b7bd487bdebefc048590e0ffe33d420811d06d4a67, 0x76627935aaecfccc948ac7810d743c4f0ad6f3cee9a78bec9624778c3e94a8ab)]
   (niels_base_rows_4 ! 0)"
  by (simp only: niels_base_rows_3_def niels_base_rows_4_def check_eval)

section \<open>Block 4\<close>

lemma low_4: "position_ok True (map row_fields (take 8 niels_base_rows_4))"
  by (simp only: niels_base_rows_4_def check_eval)

lemma high_4: "position_ok True (map row_fields (drop 8 niels_base_rows_4))"
  by (simp only: niels_base_rows_4_def check_eval)

lemma inner_4: "link_ok (niels_base_rows_4 ! 7)
   [(0x48ea295bad8a2c07e222fbfbe1d928c5256dc48cc04212f247b837f753242cec, 0x2c435c24a44d9fe13004806447235ab396cb929e6b686d90299b1c3f57c5715e),
    (0x57369f0bdefc96b6d17c975adcad6fbf4baf8445059979df8487e3d02bc73659, 0x1b6cc62016736148775b7a925289f681757f1b1b69e539521cecd0a0045224c2),
    (0x3ba2504f049b673c9a498330af74181b15801004e2663135e1f6b79ebf8469ad, 0x73d86b7abb6f723a00e7d4ae8ac805927fe2b5109eb63ad89a6ce876760321fd),
    (0x3aa1d11faf60a4d861e96a8042f15ef4f9c6f635b26f1beedbdae701c5738dd3, 0x59aab07a0d40166af33ae4f552a2c8b43b084cfe2f53b96514fd6dfa726ccc74)]
   (niels_base_rows_4 ! 8)"
  by (simp only: niels_base_rows_4_def check_eval)

lemma outer_4: "link_ok (niels_base_rows_4 ! 15)
   [(0x403a395b53909e62ae64b9004fdd3c75366ad9dd99f42827216ab2ca8da7d2ef, 0x5ffb9cd6082dfeb01667267a1e93597f6a330476a27c45186c5fc16861b7e9a),
    (0x50a2f7dfd447b99a6bfa45822e1a9405f550e7ed2414e1f0b39d761b02de888, 0x39d0003546871017f0b35da8c81af9c64ae4f19350c67f2cb89c444879639302),
    (0x6528e42d824601732869b96a05a3d470d7a0b145aa372b60f2a7af510354c13d, 0x5293b1730437c850147cdf410d4de6b7e603d8815df1459395265514d71eb524),
    (0x730291bd6901995a17202acfd366b6b2ed377b799ca26ded5a91d1151039372, 0x26c20fe74d26235a8d18b427758559f6b99f55778a4d1abbbb40a859182362d6)]
   (niels_base_rows_5 ! 0)"
  by (simp only: niels_base_rows_4_def niels_base_rows_5_def check_eval)

section \<open>Block 5\<close>

lemma low_5: "position_ok True (map row_fields (take 8 niels_base_rows_5))"
  by (simp only: niels_base_rows_5_def check_eval)

lemma high_5: "position_ok True (map row_fields (drop 8 niels_base_rows_5))"
  by (simp only: niels_base_rows_5_def check_eval)

lemma inner_5: "link_ok (niels_base_rows_5 ! 7)
   [(0x507903ce77ac193cf471bf39b7c27a5fa750fe8580ab5938b496123a6b6c6609, 0x4f620ffe0c736fb97dff85d87f90df7cf22552ae5bf1e009ff91a66a90166220),
    (0x2f9faf620bbacf5e7943c8c495b6b1ff0eb1b9c1c1c5795dbd68230ec7e9b16f, 0x4180512fd5323b26f02ea1c9d7b65e0d56a0d241812eb1fe2c7c4415c9022b55),
    (0x3d4e8dbba668baa696ef5329c7e899cb53623cb0f8341d4d1616a4e3c715a0d2, 0x854fc44544cd3b2660c572e8fab3ab59c7531555c3e34eeee0f0fddd087a25f),
    (0x1d753b84c76f5046d4b37b27b1cbe278ca123c21bb3f830b6841435a7c06d912, 0x28dd4abfe06404684b84abac1930c7507cb5697e11e14f15b0c53bf73337e94c)]
   (niels_base_rows_5 ! 8)"
  by (simp only: niels_base_rows_5_def check_eval)

lemma outer_5: "link_ok (niels_base_rows_5 ! 15)
   [(0xb251172a50c38a2cc34a7f05bbb4be7e82fef94e53a0e29fd0d75879cf12657, 0x478d99d9350004f232dacaa0511229412ba851bea3ce36719532f48fcc5cd29b),
    (0x5265797cb6abd7847ef6de304df42cb43f77e6f7979f0dc8e3828c400f8086b6, 0x6bbc7cb4c411c847e873943da025a516d75d25a5378621253ad3e3ebf36c4975),
    (0x3a6b259e263ae002cb5c5b85df10ece62866eee21211f58a2b6812b1cc9249d, 0x7c77897b81439b4777ef5569a9b1232798ca78abc02912300d8d2909e2e505b6),
    (0xe434b3b1f499c8f00943eac2581b02ebc470c5f5a05060d14722af4b73c2ddb, 0x241d350660d32643e1c681f4c1163b5b7b5a52a2116f8ec702cde6de1306a233)]
   (niels_base_rows_6 ! 0)"
  by (simp only: niels_base_rows_5_def niels_base_rows_6_def check_eval)

section \<open>Block 6\<close>

lemma low_6: "position_ok True (map row_fields (take 8 niels_base_rows_6))"
  by (simp only: niels_base_rows_6_def check_eval)

lemma high_6: "position_ok True (map row_fields (drop 8 niels_base_rows_6))"
  by (simp only: niels_base_rows_6_def check_eval)

lemma inner_6: "link_ok (niels_base_rows_6 ! 7)
   [(0x3a73b70472e40365a56fe104c1fada960cc45aa41c0679597afcd613efa9d697, 0x39c80b16e71743adef5c9525ec9cde7fc4c7132b81c616757b26e56b9e2d4734),
    (0x7bb51279cb3c042fc75e33c740d6c71b22e6f55d95f2dd9d196c80a4ddd4ccbd, 0x5da8acdab8c63d5d1ad40f095e67ed3bde0b1361e881c05de332ced43ba6945a),
    (0x1b4822e9d4467668bacccebc0f189d56c9118e82206457174e3dcbdad1bff7f9, 0x5c294d270212a7e5b5b6ee0c41cb1aeec649dbb069482ef233bef2bd68bcd52c),
    (0x1f354134b1a29ee74cea314087d64ac93849e8d499c1238346ab13c8347cbc9d, 0x5cb7173cb46c59eb37e7a9b4d55e1b89faf24948d67ceae1960e737b6ecb9d17)]
   (niels_base_rows_6 ! 8)"
  by (simp only: niels_base_rows_6_def check_eval)

lemma outer_6: "link_ok (niels_base_rows_6 ! 15)
   [(0x68aee70642287cffdef7aaa8ea31609f054442883f955bb7dfdacbee4324c0e9, 0x7b9b1fb5dea1959e076353d40aadbf45e3bc096a9c82bad1f68fe2e8809de054),
    (0x6b8341ee8bf90d58ccd2ca913d21cd0fa8da8a9a85624bb7fac5d2065b35b8da, 0x3619b5d7560916d83c619f0b87a8bb19a8ded2b6e454ead3bf019cce7aee7a52),
    (0x14ddff9ee5b006592f16a6a38309a969d1afdc258bcf097b751a50b9d85c0fb8, 0x270a0b0557843e0c46d602b0f7552411dbfb2385e9c3d539d6d70996f12309d6),
    (0x48f9dbfa0e9918d34caa800612a9a8d5632fe8a0d61f23f4dc84e93563144691, 0x5507d7d2bc41ebb473bf9f455e8e351f4ea37689e78d7d58d594b3333a8a85f8)]
   (niels_base_rows_7 ! 0)"
  by (simp only: niels_base_rows_6_def niels_base_rows_7_def check_eval)

section \<open>Block 7\<close>

lemma low_7: "position_ok True (map row_fields (take 8 niels_base_rows_7))"
  by (simp only: niels_base_rows_7_def check_eval)

lemma high_7: "position_ok True (map row_fields (drop 8 niels_base_rows_7))"
  by (simp only: niels_base_rows_7_def check_eval)

lemma inner_7: "link_ok (niels_base_rows_7 ! 7)
   [(0x4065947223973f035337653b8b9ea480dbd42ea046a4e27216faa8fb532f7428, 0x1819bb953f2e9e0da6e3ca115af229724a1c5e2477bd9fbbf7c0a19c1a54a044),
    (0x4472f648d0531db4c9240afee42284defd9be89e34348716d60ecbb74245ec41, 0x77d221232709b339df3cda102255dfac45ba803260804b17c8d69d0a57274ed5),
    (0xcde561eec4310b9512d11594e26cab199dbff8a9e22fd928dec31faef3ee475, 0x185cba721bcb9deeaa074dddf21d33d365f8f7a449beab7e2d5fa9855a4e586a),
    (0x35f63353d3ec3fd0e3effdd01b5505a5e8d518e70edcbc1ff6be021068de1ce1, 0x28bc77a5838ece00e5ba8ff53a7852a77c21b5566b2c6e533b7f3bd49323a902)]
   (niels_base_rows_7 ! 8)"
  by (simp only: niels_base_rows_7_def check_eval)

lemma outer_7: "link_ok (niels_base_rows_7 ! 15)
   [(0x3cbdabd9fee5046ede2a2572e7a38e432a4bb87ca8b4df34591e4a5610628564, 0x53177fda52c230e6de9391aacadffecb962e4325f85a0e9e81aebbdd2cd13070),
    (0x6c11fce4cb1332824464ee12e459f3c2758094a186ec5822d9354df64131c1bd, 0x79d99f946eae5ff8e20e84200d89bfca9bea41d2e9b46cd621c9d9920d591737),
    (0x47204d08d72fdbf9ac8d0a9b23e990aee210adf6b0fbc26a535fd60613037524, 0x5468d6201405b0437950934d8116f451ef96306b9bccc8707242eb30d4b497f),
    (0x5dd996c122aadeb344328ef842e7b42b69cffc96651e9c4ba2b072e95c8c2ace, 0x1876789117166130d0708c1339fd87f7abf894d3c9a934b5b4f23c425ef83207)]
   (niels_base_rows_8 ! 0)"
  by (simp only: niels_base_rows_7_def niels_base_rows_8_def check_eval)

section \<open>Block 8\<close>

lemma low_8: "position_ok True (map row_fields (take 8 niels_base_rows_8))"
  by (simp only: niels_base_rows_8_def check_eval)

lemma high_8: "position_ok True (map row_fields (drop 8 niels_base_rows_8))"
  by (simp only: niels_base_rows_8_def check_eval)

lemma inner_8: "link_ok (niels_base_rows_8 ! 7)
   [(0x6409010bea8de75a25cffc2dd6dea4532127190385ce4cf9b2a426e3b646025, 0x2e05d9eaf61f6fefa535a456e35d190fcc0b9ec0cc4db39fd67cded679d34aa0),
    (0x487f3f112815d5e07f35715a21a0147aad75b15e4e5018986809e7007069096, 0x50b8c2d031e47b4f89f293209b5395b5cb70d0e2b15815c916c795d6a11ff200),
    (0x7b7c242958ce7211d2a541c6c1da0f1fbb12f85cd979cb496b0b697ff0d844c8, 0x2857bf16275008614c45306c1cb12ec7410276cd6cfbf17e00d9cdfd69771d02),
    (0x8af9d4e4ff298b9e7426ed7a2ea2d3fbad34540fcb6093df10d3c29ce28ca6e, 0x4b5303af78ebd7b02d3989bc545f0879660d06b896203dba1530653616521f7e)]
   (niels_base_rows_8 ! 8)"
  by (simp only: niels_base_rows_8_def check_eval)

lemma outer_8: "link_ok (niels_base_rows_8 ! 15)
   [(0xaba390eab0bf2dab0721d71d0850050a3c31a20e085c1450c9c5303f7957be4, 0x7bc92fc9b9fa74ede027b34f1bad0249df2b9e60388b4995529fdffe638c7bf3),
    (0x741d1fcbab2ca2a5937e1a2617f58f74a4286bec82b34c1c48b2ca8b260885e4, 0x232ca21ef736e2c829eb29ce7ec544e1eb9ca6257a4849dbee9ba729398ca7f5),
    (0x97b0bf22092a6c2f0d73c2bb93a9ef3ee805bcf648aae45ff35f5cb9e1516f4, 0xd6592233127db161734a1d70d5f7c9b411fd93efad1b8b77be44ce7a7a2e1ac),
    (0x6a704fec92fbce6b241cd1d679bd3fde7f42ed71a847b9ec36d9b8de78f39b2d, 0x4a0aff6d62825fc8f1f24cc446978f9b724bae854c08dcbe4433c0b0fac5e7be)]
   (niels_base_rows_9 ! 0)"
  by (simp only: niels_base_rows_8_def niels_base_rows_9_def check_eval)

section \<open>Block 9\<close>

lemma low_9: "position_ok True (map row_fields (take 8 niels_base_rows_9))"
  by (simp only: niels_base_rows_9_def check_eval)

lemma high_9: "position_ok True (map row_fields (drop 8 niels_base_rows_9))"
  by (simp only: niels_base_rows_9_def check_eval)

lemma inner_9: "link_ok (niels_base_rows_9 ! 7)
   [(0x74f46e69f10ff8cadd9f24bdd5deadcb0c04422d3b934d453175a7205d21a77, 0x2633f1b9d071081be1bbec521f79c557e15cb4aa4b17ad0f0de9b204a059a445),
    (0x382e2720c476c019edb52fec8d3454cb0960f3972bcac52fa515a31b2259fb4e, 0x38b6898d4c5c2d09470480eaa06ebef9863337f98d09383feeae106e8e86997),
    (0xfb17f9fef968b6c8f7baa8a86fbfe7bbe1baf910e9412ec9c9c85ea63fe2e89, 0x2d8b78e712780c685848e1e6ce5c0b9610b953dd0d86a53d59a16676706ff64e),
    (0x97c29e8c1ce1ea56ef5967653fcffe76d4c6bb87fd1cda21d06005ca5b1b143, 0x5a845ae80df09fd5cfba639a858954479cc9a61d06c08df25c3cecb943f5a53b)]
   (niels_base_rows_9 ! 8)"
  by (simp only: niels_base_rows_9_def check_eval)

lemma outer_9: "link_ok (niels_base_rows_9 ! 15)
   [(0x4559135b25b1720ce09a0e3791937bcc30cb610d43ccf30888bd438cd11e0d4a, 0x28a7c99ebc57be52303001fcce5dd155f9c189af1fb9bdbe1ea436837c6da1e9),
    (0xf7a7fd1705fa7a3e3725a6e80af8c794a43b3b35b203a020dae8767b55f6e08, 0x307a3b41c192168f066fcc11104222fd66ed42c241e301df33912553c821b11d),
    (0xf513815db8b5a3d3f622fed00e188c48145457cff936988f3da5139a5d1ee89, 0x5846a27cacd1039d31385b03531ed1b753cac6d9865cddd70fff04fe149443cf),
    (0x1e6c47b3db0324e5486d2b258910dd79a01a9bc53c710e114630119e40d8f78c, 0x46e3a616bc89b9e000ae3049911a0bafbf8fd1c8ace2e376a2134bcc4a9c8f2)]
   (niels_base_rows_10 ! 0)"
  by (simp only: niels_base_rows_9_def niels_base_rows_10_def check_eval)

section \<open>Block 10\<close>

lemma low_10: "position_ok True (map row_fields (take 8 niels_base_rows_10))"
  by (simp only: niels_base_rows_10_def check_eval)

lemma high_10: "position_ok True (map row_fields (drop 8 niels_base_rows_10))"
  by (simp only: niels_base_rows_10_def check_eval)

lemma inner_10: "link_ok (niels_base_rows_10 ! 7)
   [(0xe545daea51874d9ba4190e2c3c7e0846c2fcb99c63c2a944c59023fcb3efb7c, 0x22a48f9a90c99bc9bbc7a670345796de2a1c770a8e60f098957b8b8b0df53c30),
    (0x14d23dd4ce71b975f8064056f4dabc69f81e1bd58405be5020ad660839e31e32, 0x60525513ad730f150ba2ac649a2a17f77128347afb02b55748515a8bbd24839),
    (0x624a170e2bddf9be5b82c0ae4e70483c9f0e16ee5897c73cb204585e5edc1a43, 0x33cb966e33bb6c4a00c052e5996b110225e49c405477130c253f4f8dfa2d5597),
    (0x46002ef03a7349bea040a4a4772c2070729d2ca1af318fd78337d9cd440bfc31, 0x3420d60b342277f97223c98a31283b65219429b2e22034b4481875c6c0e31488)]
   (niels_base_rows_10 ! 8)"
  by (simp only: niels_base_rows_10_def check_eval)

lemma outer_10: "link_ok (niels_base_rows_10 ! 15)
   [(0x4929c6f72b2ffaba56e89052c1ff734dc64bdd6ea0c97263b5a2d50c7ec20d3e, 0x5786f312cd754524412f7e9968a01c89af8f9862b268fd65358ecba293a36247),
    (0xa37c37075b7744beefd595325344402e13e9fab60c3f1bb0ff853852871b96e, 0x78a1531a8b05dc53614ba0a5aee1d61cba4c2e1a4f5f6a43413ba057a40b4484),
    (0x2fd9ccf13b530ee2b1e35b5fd40290b155b2c97f512b636ec720cb6153ead9a3, 0x2852709881569b538323dec8161974382470c8ff933225269d05ba7d43c31794),
    (0x1f699a54d78a2619ed2995ff36b70a360611d7253fded2a08c99cc5a8b3f55c3, 0x74071475bc927d0b0a6de44ec3a4a3fb817fcc7ded6c0af21466f5af5307fa11)]
   (niels_base_rows_11 ! 0)"
  by (simp only: niels_base_rows_10_def niels_base_rows_11_def check_eval)

section \<open>Block 11\<close>

lemma low_11: "position_ok True (map row_fields (take 8 niels_base_rows_11))"
  by (simp only: niels_base_rows_11_def check_eval)

lemma high_11: "position_ok True (map row_fields (drop 8 niels_base_rows_11))"
  by (simp only: niels_base_rows_11_def check_eval)

lemma inner_11: "link_ok (niels_base_rows_11 ! 7)
   [(0x413051e1a4e0b0f55da87aa04795e4412c7fba5d4442454ef19aeac733a63aef, 0x933f804ec38ab40658c07f4eace22732b65ce72c3286108852dd1fd3d578bbe),
    (0x1c1e5fba38b3fb23fa0fc9d6416a378117029a4daf60b73fc8583c3d258d2bcd, 0x14afa0954ba48f48a13ac2e378250e4f281b229944882a5304211559ae8e7c3),
    (0x1e7fbcf18e91e92a199a3776a4f573be468b878df242029796324edd12e0c9ef, 0x53c092084a485345324a983b54cef201808c69233c351026b5f16b630817e7a6),
    (0x7fa3f19058b40da15651735f8f15e562faef33794f6f448673f93d36101b95eb, 0x1d1b056fa7f0844ec4fe3b122f823deb2370cfa19a619e69a03fc862059d699e)]
   (niels_base_rows_11 ! 8)"
  by (simp only: niels_base_rows_11_def check_eval)

lemma outer_11: "link_ok (niels_base_rows_11 ! 15)
   [(0x80dbafe936361d8b0ed13925c8b4ad840536e169a317409f65c5ea200814cf, 0x1fe8cca8420f49aa41f7247015af9b781156aaa99fd54a298ce5aad0c9cb971f),
    (0x114d578497263b5d2c38cb97be6ebd5c9b93a8672fc2d8ba899dea51abf3ff5f, 0x822024f8632abd7977182561d484d858db2b2b6e36fd79358e84c6f20816247),
    (0xaf51d7d18c14eebee90e500a48426ac4cd4b4962361cc0cd63d8483ef30c5cf, 0x4099ce5e7e441278d1f10eeb3603cb2e769f4beedc308a94a57ba4a01efcae9e),
    (0x1de443df1b0094080ca77b4ccf1508591b30b4c6da512664a311ddc26b89792d, 0x1c14b03eff5f447e3a4f9692bae1f4e4f9fab7a37d586eed8e793a7acc36e6e0)]
   (niels_base_rows_12 ! 0)"
  by (simp only: niels_base_rows_11_def niels_base_rows_12_def check_eval)

section \<open>Block 12\<close>

lemma low_12: "position_ok True (map row_fields (take 8 niels_base_rows_12))"
  by (simp only: niels_base_rows_12_def check_eval)

lemma high_12: "position_ok True (map row_fields (drop 8 niels_base_rows_12))"
  by (simp only: niels_base_rows_12_def check_eval)

lemma inner_12: "link_ok (niels_base_rows_12 ! 7)
   [(0x44c218671c9742878d5cfe45b941a8a405d270d6109abf4e7906ee72f7bd2e6b, 0x51fc2b28d43921c0b0e5b13f5839e9ce993580d4d8152e65745f9d56296bc318),
    (0x2d292459908e0df92554b3c854749c87d841c0c7e11c4025dff25fce4b1de151, 0x5f4c802cc3a06f42c2b620a5c6ef99c4736b54dc56e421516b7c5f10f80cb088),
    (0x304f5a191c542767f3d43e8c7b2490527176bcd5c7ff29d796dfb35dc10b287, 0x246affa06074400cb8248bb0d3597dce8cc15f87f5e96ccacd54e06b7f37e4eb),
    (0x510e987f7e7d89e2e86e365a138672cad03fcbc8ee9521b72746dd4b15350d61, 0x80153b7503b179d549e1e4d8bedfdcc8db7536120a1c059cb5a7d638e47077c)]
   (niels_base_rows_12 ! 8)"
  by (simp only: niels_base_rows_12_def check_eval)

lemma outer_12: "link_ok (niels_base_rows_12 ! 15)
   [(0x32239861fa237a409baa8e1cc6aa2cd0b1e035093bf420bf3f50a50a4ffb81ef, 0x55be9a25f5bb050c7b8591bfc528d59931de0f433a6607c3fb735ac2004a35d1),
    (0x9a6755ca05603fb5d22749556a6495cc06302ffbc7939378451f9e05e4e89dd, 0x16bedd0e86ba374e5f0169297881e40e2207659a3592ff3af1d3b681a05071b9),
    (0x656d8997c8d2eb2b33193026501fef7e4520b71f8b25b32d49125c9cf4702ee1, 0x22c5b9284662198b035f73a4a8bcc4ccafec33d96a09c8806f2b3be4d5d3b002),
    (0x215d4d27e87d3b68c1a72d020aa48b34eab2aa12decda59b21bb41c6120cf9c6, 0x3f2602d4b6dc32245edad6eea35373816cb00ee8ad37a38bb43108e5695a0b05)]
   (niels_base_rows_13 ! 0)"
  by (simp only: niels_base_rows_12_def niels_base_rows_13_def check_eval)

section \<open>Block 13\<close>

lemma low_13: "position_ok True (map row_fields (take 8 niels_base_rows_13))"
  by (simp only: niels_base_rows_13_def check_eval)

lemma high_13: "position_ok True (map row_fields (drop 8 niels_base_rows_13))"
  by (simp only: niels_base_rows_13_def check_eval)

lemma inner_13: "link_ok (niels_base_rows_13 ! 7)
   [(0x49128c7f727275c930738c9cf151316db62658e24179a88d738b38d787ce8f89, 0x606175f6332e25d2c6409d99f53eabc669e6a2d7d2f8674604dbbc17f75396b9),
    (0x42889e7e530d2e5824f3ef0959e33cc46c3a760edbfa25ea96cd5640df90f3e7, 0x1f5ec83d3f9846e2b1cbcd50cc5236a6fbcd6ea198fe352b1da1965774049e9d),
    (0x35ff7fc33ae4cc0e79ac432370e2e652e3df9e993399ebdd0a64e28c55dc18fe, 0x48c8a121bbe6c9e5961e32405e08f7b52dbb1f8c3efdcabf9c13a6a52dd8f7a9),
    (0x3c5e464a690d10da788286306a9242d9421da5000d1d96e184c5aa9062de37a1, 0x4b16281ea8791e7b342f824ecd02563271435e206fd13746e57ed8475ab10761)]
   (niels_base_rows_13 ! 8)"
  by (simp only: niels_base_rows_13_def check_eval)

lemma outer_13: "link_ok (niels_base_rows_13 ! 15)
   [(0x71ade8bb68be03f5c1ff7326aded81bbdf7191b729297a3acbb5b5556c032bff, 0x3d88d66a81cd8b708b67d958b378d262c5f6997be75d607b1e6284c5806b467c),
    (0xa5d94969cdd5fcd77dcb07773cc32f626457d6dd4736092e05da1a7e1f5bf49, 0x6d6d9d5d1fda4beb0ec276a6874793244d7adc75aa578016fce219072a7b31b4),
    (0x2dddfea269970df72da53be58ccdbc3e5e20741ecb4f92c5f6c968731ae8cab4, 0x1b9438aa4e76d5c6e88c6620817f13efcba3635b842db7eebeaece313db342a8),
    (0x8eab1148267a4a815b083663c787a60f88c766af463d143aea8b07fa902030f, 0x2fe934b6ad7df0d82317dc4fade85ec66660245b5ccd9a6bdc1409bd002d0ac)]
   (niels_base_rows_14 ! 0)"
  by (simp only: niels_base_rows_13_def niels_base_rows_14_def check_eval)

section \<open>Block 14\<close>

lemma low_14: "position_ok True (map row_fields (take 8 niels_base_rows_14))"
  by (simp only: niels_base_rows_14_def check_eval)

lemma high_14: "position_ok True (map row_fields (drop 8 niels_base_rows_14))"
  by (simp only: niels_base_rows_14_def check_eval)

lemma inner_14: "link_ok (niels_base_rows_14 ! 7)
   [(0x3305354793e1ea87ced59285f3fbc7b7ec4c348fc987f0c4e9dcd756b637ff2d, 0x6e2b7f3266cc7982816045c3d195a086cd656769716fd5c801c18980c5fe9f94),
    (0x749a098f68dce4eab76c23d242838f178e5d4c3c4eaf031ac4c2a74354dab774, 0x6cab6ac256d19c1d058930072604e557580f893e18f4a0c287f82cf3b6ca6ecd),
    (0x2c84e4e3e498d0c5d53078233894cb28b78e00498a1fbf512550d37f42ad2ee, 0x5278c510a57aae7fef4aa79ba45448b64c98afc4f285940e4493896880baaa52),
    (0x37130f364785a142e587ff910114db882b0b6fb72184b7820c1ffea44f901e5c, 0x4400b638a1130e1f24a0a1af89ea664e2a2013c7fc28c46b1215505c0d58359f)]
   (niels_base_rows_14 ! 8)"
  by (simp only: niels_base_rows_14_def check_eval)

lemma outer_14: "link_ok (niels_base_rows_14 ! 15)
   [(0x4309c1f8cab82bad7b1ff677f093c2222b501131a12bb1cd300a9035393aa6d8, 0xe378d60696155799574e091f820979a8753189047efc8dfaf44842db0285f37),
    (0x5df98d4bad296cb84f17c951257341a3134636dd1e9421a187dfbd1428878f2d, 0x272630e3d58e00a93aa244067eace91344775dec2d4c3330e2004b5bb833a98a),
    (0x52e085fb2b62fbc0b65b04f06b5d1fe3aeefffe23e3df161bfd4e13f201839a0, 0x5d8b0d2f3c859bdd499fbe88a6f03f4fb04a1eeafe4719c6185d43f89e92ed1a),
    (0x3b0e574da2c2ebe8b7f88dca5d9cad071624c348b35ff244cbac84debfd3c856, 0x56e6c439ad7da74886a12b852f0bfd20ca2d4aaed62708721d022591a5313084)]
   (niels_base_rows_15 ! 0)"
  by (simp only: niels_base_rows_14_def niels_base_rows_15_def check_eval)

section \<open>Block 15\<close>

lemma low_15: "position_ok True (map row_fields (take 8 niels_base_rows_15))"
  by (simp only: niels_base_rows_15_def check_eval)

lemma high_15: "position_ok True (map row_fields (drop 8 niels_base_rows_15))"
  by (simp only: niels_base_rows_15_def check_eval)

lemma inner_15: "link_ok (niels_base_rows_15 ! 7)
   [(0x63ab1b5d3f1bc1834af01ca700837e290f9abeaae6f73ddfe7547449bc7cd692, 0x15f18fc3cd07e3ef33540f80e0b67a726a0b06c12b4f3ff4c11ee5e854c53fae),
    (0x48b46beebaa1d1b98e49e035d4ccffca1a8c6a2d80abc617f37ca2ab3d343dff, 0x5fba433dd082ed00b9ef494db7cbabbd243b9c526f9ac26bcc991b4138b41246),
    (0x2617e120cdb8f73cec2fb0d9ada957346c6663d9c4ad2b538497404d0d55e274, 0x5a71945b48e2d1f11d0e8463850c369971b177cc0b98369e3bd82dbfda777df6),
    (0x17377bd75bb810f93ea732dc21858dea3e50f49f1651be017eb9efb23fe24c74, 0x5fca747aa82adf18090820304b6292bec2d4a2032b64cee028302e71630ef9f6)]
   (niels_base_rows_15 ! 8)"
  by (simp only: niels_base_rows_15_def check_eval)

end
