(* ===== verification/Base_Sums.thy ===== *)
theory Base_Sums
  imports Row_Check
begin

text \<open>
  Checks of the table \<open>ge25519_niels_sliding_multiples\<close>, and of a sum of table rows that gives the multiple of the base point
  by \<open>l - 2\<^sup>2\<^sup>5\<^sup>2\<close>, for \<open>l\<close> the order of the group.
\<close>

section \<open>The sliding window table\<close>

definition sliding_rows :: "(int \<times> int \<times> int) list" where
  "sliding_rows = [
    (0x44fd2f9298f81267a5c18434688f8a09fd399f05d140beb39d103905d740913e,
     0x7cf9d3a33d4ba65270b4898643d42c2cf932dc6fb8c0e192fbc93c6f58c3b85,
     0x6f117b689f0c65a85a1b7dcbdd43598c26d9e823ccaac49eabc91205877aaa68),
    (0x2ab91587555bda628131f31a214bd6bd3bd353fde5c1ba7d56611fe8a4fcd265,
     0x7a164e1b9a80f8f4c11b50029f016732025a8430e8864b8aaf25b0a84cee9730,
     0x5a2826af12b9b4c6d170e5458cf2db4c589423221c35da6214ae933f0dd0d889),
    (0x154a7e73eb1b55f3e33cf11cb864a087d50014d14b2729b77f9182c3a447d6ba,
     0x2945ccf146e206ebdd1beb0c5abfec448d5048c3c75eed02a212bc4408a5bb33,
     0x43aabe696b3bb69ab41b670b1bbda72d270e0807d0bdd1fcbcbbdbf1812a8285),
    (0x1d6edd5d2e5317e09dea764f92192c3a6ca021533bba23a7ba6f2c9aaa3221b1,
     0x461bea69283c927e71b2528228542e497470353ab39dc0d26b1a5cd0944ea3bf,
     0x7a9fbb1c6a0f90a7529c41ba5877adf3b3035f47053ea49af1836dc801b8b3a2),
    (0x49c05a51fadc9c8f96cbc608e75eb04498a081b6f520419bf36e217e039d8064,
     0x34b9ed338add7f59ceb233c9c686f5b5a6509e6f51bc46c59b2e678aa6a8632f,
     0x73c172021b008b06aaf6fc2993d4cf16e2ff83e8a719d22f06b4e8bf9045af1b),
    (0x18ab598029d5c77fa3a075556a8deb953ed6b36977088381315f5b0249864348,
     0x4275aae2546d8faf113e847117703406e5d9fecf02302e272fbf00848a802ade,
     0x3dc65522b53df94844311199b51a8622031eb4a13282e4a4d82b2cc5fd6089e9),
    (0x267882d176024a79d12b232aaad5968aefcebc99b776f6b506f013b327fbf93,
     0x234fd7eec346f241537a0e12fb07ba07bf84b39ab5bcdedbbf70c222a2007f6d,
     0x497ba6fdaa097863a2ef37f891a7e5332437e6b1df8dd4715360a119732ea378),
    (0x43b5cd4218d05ebf7508300807b25192d3829ba42a9910d6040bcd86468ccf0b,
     0x61e22917f12de72b2dbdbdfac1f2d4d08648c28d189c246d24cecc0313cfeaa0,
     0x511d61210ae4d842032e5a7d93d64270eb38af4e373fdeee5d9a762f9bd0b516),
    (0x71a7fe6fe248281039fa4e2729942d258a1cf016b592edb4081386484420de87,
     0x6d325924ddb855e3aa9b36646f8f1248a54620cdc0d7044f92c676ef950e9d81,
     0x4746c4b6559eeaa972cf591883778d0c33fd1479fe5f2a036c7182b8a5c8c854),
    (0x219663497db5e6d6ff939a760672a3327d35aedd0efcc849348546c864741147,
     0x5c9a51de34fe9fb745651cf7b53a16b5defab2276f89f617d3777b3c6dc69a2b,
     0x4804503c608223bb09c3a71710142277ffdddaa1e658515bf510f1cf79f10e67),
    (0x771e098858de4c5e5d9e5ce420838a47bbb40aa7e99b9e323b6821d23a36d175,
     0x553398a51650696d88a96ed7c96e0e23a059a0e3a615acabc4249ed02ca37fc7,
     0x5a5ed1d68ff5a611477f4a2d9fa595083ada5d7985899ccb9a12f5d278451edf),
    (0x19b60135fefdc4428653c1eda1cabe9392e5c19cadb9d7ebae5e0c558527359,
     0x44acb897d8bf92f07387f8291e711e20cf209a257e4b35d81195122afe150e83,
     0x150c49fde6ad2f92506e88a8fc1a3ed7c4f5e64f24304c161e6068145e134b83),
    (0x78a6d7791e05fbc1fe3ee3560c36168dc83f44dbb8714ad0b849863c9cdca868,
     0x6b2b5a075bb9992210af79c425a708ad5d6fef394f75a6518e7bf29509471138,
     0x725c7ffc4ad55d00aa2b1fb1d542f590a601b355741748d558bf704b47a0b976),
    (0x4cd54625f855fae7df585d714902994cfe416ca4ed5e636691802bf71cd098c0,
     0x794cc9277cb1f3a323d1157b8b12109f7352d51102a20d34e4426715d1cf99b2,
     0x7008357b6fcc8e852ad032f10a311021bc9aedad32f672584af6c426c2ac5053),
    (0x13a92a3669d6d428b631639c4853620247ab6463d2b4792bd01b9fbb82584a34,
     0x6ef7e9851ad0f6a8d2dd5a3b9ad29b6b8ccc8fa95fbccfb0b88672738773f01,
     0x3c296ddf8a2af86a24680f01d802e0717540e41e5035dc5cca93771cc0577de5),
    (0xa892c700747717bfc71a37dd0a1ad05b89510c740adb91ffceb4d2ebb1f2541,
     0x7a99d393490c77baaff823179f53d730a92f7bf98c8ff912aead15f9d914a713,
     0x286762d28302f7d2a5a96563262f9ce077a8c84157e807948f52ed2436bda3e8),
    (0x7686f2a3d6f1767a154a179f3bbb89b8e4986cb46747bc637c558e2bce2ef5bd,
     0x32f1da046a9d9d3a0cc192d3cbc7b83f82e1181db26baa974e7836093ce35b25,
     0x561305f8a9ad28a63f91dc73c209b0228f11930304d3852baa8d12a66d597c6a),
    (0x30a1aef2c57cc6ccaf68da7d7010a61709de9bbdb075c536722cc28e7b0c0d5,
     0xaaec53e35d4d2c83131b22d847ba48ca43d5434d6d73e5100c978dec92aed1,
     0x20be9c1c240654807821dc86520ed23e0b3f29802b2166087bb1f773003ad2aa),
    (0x69764c545067e311105d639cf95a0d1cb03b3b2fcbdcb93820e0e44ae2025e60,
     0x750ab3361f0ac1de1c7f9a81c36f63b55943bc2df546e493e15387d8249673a6,
     0x54f96b3fb7075040b72fd15bac2e25636f2eda23bd7fcbf11e8a3283a2f81037),
    (0x78e6839fbe85dbf0b7a8a110e6ece78589764b9cfa576479177dafc616b11ecd,
     0x3d7fe9c52bb7539e6f3d94828c5760f13adda2047d7d724a0fadf20429669279,
     0x70f268f350088242320ff74aa0e59e2275d05d43041a178a70332df737b8856b),
    (0x404e56c039b8c4b9b31ddeed3552b698380cc97ee7fce1172324112070dcf355,
     0x7c0d345cfad889d9e9874eb71e4cb006f535c5d160dd7c1966864583b1805f47,
     0x20d754762aaec7775cbc4152b45f3d44a0366ab167e0b5e1591f1f4b8c78338a),
    (0x38b8ada8790b4ce1e9322b0757138ba984b37df1de8c956c9d74feb135b9f543,
     0x2b8f1e46f3ceec62a9934a7d903bc922ace543a5363cbb9a5e8fc36fc73bb758,
     0x49aeb32ceba19531d106d8b328b66da2b3952aecb1fdeacb5c04a9cdf51f95d),
    (0x51c665e0c8d625fcb6676861e14f7c13209c594897856e40d7767d3c63dcfe7e,
     0x795ee17530f674fc1d82542b396b39300fef924b7a6725d3aa507d0b75fc7931,
     0x6cd19bf49dc54477e6a24d0dcaee4a315d411f6ee034afe7254a5b0a52ecbd81),
    (0x7520f3db40b2e63880a2baa88499711e571d0a060b2c9f857e87619052179ca3,
     0x5e01b3a7429e43e776f6627e20990baa082a2a88b8d51b101ffe612165afc386,
     0x71092c9ccef3c9861a309a64df311e6e967b6cdd599e94a53db50be3d39357a1),
    (0xea15b03d0257ba7080b4a9e6681e5a4a2b404f43fab6b1c53d8523f0364918c,
     0x4173a5bb7137abde3a4ae7cbc9743ceb03f6a40855b7aa1e856bd8ac74051dcf,
     0x5fc565614a4e3a67f7931668f4b2f1765a696e2b1afc470817c56e31f0f9218a),
    (0x62711c414c454aa159549f03310dad860fd0aacc54f8dc8f136e570dc46d7ae5,
     0x3214c7409d46651be3b0819ae5923eed01d5950f1c5cd7224892e1e67790988e,
     0x5bea94073ecb833cd9b6b8ec185d223c3ba4a0668a2794361329827406651770),
    (0x3aacd5c148f61eecabfe9e02f697b065acf38b317d6e579c641dbf0912c89be4,
     0x4ad0785944f1bd2f35da51a1a2117b6f0067ba8f0543e8f1b470ce63f343d2f8,
     0x3aff0cb1d902853d34085b2ed39da88cdc99c04707316826858e3b34c3318301),
    (0x110e7e86f4cd251d29252e48ad29d5f98ee311efedad56c987c5c7eb3a20405e,
     0x2ccf9f732bd99e7f09ef33788fd327c668e49c13261f22839226430bf4c53505,
     0x5c557e0b9693a3753172709a02e3bb712888628f0b0200c57c0d89ed603f5e4),
    (0x6e154c178fe9875ae15b7ea08bed25dd7a3f263011f9fdaed8f9ce311fc97e6f,
     0x289fef0841861205b6b93f4e634421fb61f85bf6fa0fd85cf776bbb089c20eb0,
     0x6afbf642a95ca31913789765753a7fe79b16e4e78335c94fcf616336fed69abf),
    (0xdb4b851b95038c47deb6ada0dad70e098fc3da4b00e7b9a7da8de0c62f5d2c1,
     0x12c093cedb801ed9da2956b690ead4897d1d167b2b0cf5615de55070f913a8cc,
     0x33aa8799c6635ce6cee75572dac7d7fd06969da0a11ae310fc147f9308b8190f),
    (0x233c6f29e8e21a866ec2bfe15060033c78f51a8967d33f1faf0ff51ebd085cf2,
     0x212cd0c1c8d589a6e2262d5c87ca5ab66da2ba9b1a0a6d278348f588fc156cb1,
     0x1db7778911914ce3a70a862a3d3d3341122ecdf2527e9d28d2f4d5107f18c781),
    (0x31ad97ad26e2adfc7c74f43abf79a3307a97e2cc53d50113ddf352397c6bc26f,
     0x7ae2ca8a017d24be15df4161fd2ac852e2b8ded419cf8da5b3394769dd701ab6,
     0x1ed1fc53a6622c83e491c14f25560a641e8518cc3f19da9db7e817ed0920b962)]"

lemma sliding_rows_eq:
  "map (\<lambda>q. (fval (n_ysubx q), fval (n_xaddy q), fval (n_t2d q))) ge25519_niels_sliding_multiples = sliding_rows"
  by (simp add: ge25519_niels_sliding_multiples_def sliding_rows_def)

fun oct_triple :: "int \<times> int \<times> int \<Rightarrow> oct \<times> oct \<times> oct" where
  "oct_triple (u, v, w) = (oct_int u, oct_int v, oct_int w)"

definition doubled_base :: "oct \<times> oct" where
  "doubled_base = oct_pair (0x6bb595a669c92555e09e236bb16e37aa8f2b810c4e60acf68a99a56042b4d5a8,
     0x590c063fa87d2e2e5aa69a65e1d607029f469d967a0ff5b59224e7fc933c71d7)"

fun multiples_of_ok :: "oct \<times> oct \<Rightarrow> (oct \<times> oct \<times> oct) list \<Rightarrow> bool" where
  "multiples_of_ok (u, v) ((u', v', w') # ts) \<longleftrightarrow> ored u \<and> product_ok True u' v' w' \<and>
     multiples_ok True u v (coords_term (u, v)) ((u', v', w') # ts)"
| "multiples_of_ok t [] \<longleftrightarrow> True"

lemma doubled_base_ok: "doubles_ok [oct_pair (0x44fd2f9298f81267a5c18434688f8a09fd399f05d140beb39d103905d740913e, 0x7cf9d3a33d4ba65270b4898643d42c2cf932dc6fb8c0e192fbc93c6f58c3b85), doubled_base]"
  by (simp only: doubled_base_def check_eval)

lemma sliding_ok: "multiples_of_ok doubled_base (map oct_triple sliding_rows)"
  by (simp only: sliding_rows_def doubled_base_def multiples_of_ok.simps oct_triple.simps check_eval sums_eval)

section \<open>The order of the base point\<close>

definition odd_terms :: "((bool \<times> bool \<times> int) \<times> int \<times> int) list" where
  "odd_terms = [
    ((False, True, niels_base_rows_0 ! 0),
     (0x7cf9d3a33d4ba65270b4898643d42c2cf932dc6fb8c0e192fbc93c6f58c3b85,
      0x44fd2f9298f81267a5c18434688f8a09fd399f05d140beb39d103905d740913e)),
    ((True, True, niels_base_rows_0 ! 10),
     (0x58d6823af28389e12a3feb15a983eba67a7de8ecedbb3202685cae441d3d1d9,
      0x348d4e60634fce6f684f3607a2de050e284a7047b8b0bfbfa24f81bbe24afb16)),
    ((True, True, niels_base_rows_1 ! 0),
     (0x486209e6ce2cff1c7e275e9f05b38f9646dcf706970803b74b4ad63886ef62a6,
      0x3369a4ca8279a930a3328df86799a632dfc0c9baa45ff6298ad89e3dea1e83c1)),
    ((True, False, niels_base_rows_1 ! 13),
     (0x33fc4ff4b24b4bd317d2691205ac07b37263dac4f8d7e02c9589bbcd948d56e2,
      0x7ebebb52c669f80d9224859fc4824c039ac376cf9b1371c392985b6e44e565c8)),
    ((True, False, niels_base_rows_2 ! 1),
     (0x299a729ac3bbcaa69c251715985746fa7503f87c3e23eec3a7416cc365010fba,
      0x5d75e69e2328e831da0f307b4c8d5f7025856b8d2327784e2c66684847d1bbba)),
    ((True, False, niels_base_rows_2 ! 13),
     (0x6771346ac7ca5ed65e554e78ec092eb1f903197ca6968d180fd5b7f7e847b992,
      0x6751b26b6b3aef3c5df1c32051b3d9a728b8ba347c14e0afd0172f2863db0ce0)),
    ((True, False, niels_base_rows_3 ! 0),
     (0x721a90bc4938b5fe997e86af6f419d0d80b96b5703a5fa224c7786288c6ff4b9,
      0x64b1a4aaa3b9591bd4dd505f14d0b809c7d9a1418f5b8a01eed619f074f9b048)),
    ((True, False, niels_base_rows_3 ! 12),
     (0x30b442985d0a0931cd0bdd7a82d7f68ffd103efacbbf917790a00793276936e2,
      0x50c99002fbddae9de8245b1827f8fe78dfc56599aeb96eea9820c46879e6bfca)),
    ((True, True, niels_base_rows_4 ! 2),
     (0x779c306f6bf85501e74138bd50b8773b4b1b9463a153fdf545e225c348374442,
      0x6ad71458ad02da56d2aac033edd755d686d08351e20389293a51768092a0e71e)),
    ((True, True, niels_base_rows_4 ! 13),
     (0x81437742983d84ebf3e791db59250a0301706a4c884203c16146727d779873f,
      0x497a214849e816d953c5335a56942725825267128e38348d2c57b85441e57e3a)),
    ((True, True, niels_base_rows_5 ! 0),
     (0x7f58317943402d51b0f4ddafbf3b4ef993abd7ff1c28586a0b646871ee8ccea2,
      0xf351b484534ee488c9614f4996eaf0323d4e655d59fabd1186009b49bb797d4)),
    ((True, True, niels_base_rows_5 ! 13),
     (0x3b555853215b8037cbaa57d3dc1389d98dfc45388ceb95d20e04a3e6a85dffee,
      0x6af7e18824f205bdbd442cded955d3a4f3374d940df93ef9f57ada5e27f88485)),
    ((True, True, niels_base_rows_6 ! 1),
     (0x2b2b06c71307c8bdfdd335b3bbb2faca27dbcb07afba57cfd264bffdf737e6c7,
      0xf6c79060d6a22a2a488e062dced6517be87d7dd295a705e9fe46429754cdd7d)),
    ((True, True, niels_base_rows_7 ! 1),
     (0x77f452b2b23346275f702f8512cf65c39160fdf587ace69d0385e20a47f24f9c,
      0x4e91cf28133bac1698e7d83684791eebe9b519e2c333be67ed4817c3a744d525)),
    ((True, False, niels_base_rows_7 ! 8),
     (0x7e841bdc968f8541c392c59875d83cba62def5ba13e21a0cfbc08ee75a3d1d1a,
      0x69e616a204ea6ed8f7736d48d3d39fbd79f457aa782ca9125d151494766157c9))]"

definition even_terms :: "((bool \<times> bool \<times> int) \<times> int \<times> int) list" where
  "even_terms = [
    ((False, True, niels_base_rows_0 ! 2),
     (0x66c0b5481e100e7d334cc31674e0251ddbdb9122841e6189deb214f25a58e604,
      0x7d43999d3feb0a99f468193683b7c68bc6817e1e6c8bf22a5f966da7ad51fa86)),
    ((True, False, niels_base_rows_0 ! 11),
     (0x783958e7230c3012bdfea7894ecd0019c74f26d683e05259e6d8acbc686e0047,
      0x75634fcfae4935c0d835772f2a72c341e8472fd35c9b2b4f9f16127325912f61)),
    ((True, False, niels_base_rows_1 ! 5),
     (0x78a762c6f572bfd42e0a97dd4dd4050f3b2c9052268f6ebdc76b6c77820d4b01,
      0x77c20c877961720e6184f32ee175fea5d75c7eb8643e485378f6e22130dcd365)),
    ((True, True, niels_base_rows_1 ! 10),
     (0x7af3be44d9124a1991cee7c8eaa494ac3fe40e466dda587997c8544a93369c43,
      0x5f12ead38e4b49e55201bf69fc5454f4dd076e3fb26e9ec13e24856c11cbd5a2)),
    ((True, True, niels_base_rows_2 ! 5),
     (0x1c5ce49416c0dbc19d47d9ec6dbb8c2fc8c4c3de82c0f3735636554e5875bfbe,
      0x47b430f0513e3969cf595c847a261124b8c145193bdfaf853bcd6610123eb99d)),
    ((True, False, niels_base_rows_2 ! 10),
     (0x216a55c2b1be01f5a46a6f27ff03994e2ffec6e6856ca286f50ed58188dd7cf4,
      0x2e266d8c57888c1a84a0153e73a1cfda8ad5d5b0e06a187ad3917dcea19dff0b)),
    ((True, False, niels_base_rows_3 ! 1),
     (0x5fa6011e966f2ff9d056c321218e8e32aad6c929a7b995b16dfd9de402712ef7,
      0x7979363767711ca4ab8c988f7606359335bfe264bdcb850b9804528f13e65538)),
    ((True, False, niels_base_rows_3 ! 15),
     (0x49e15c82e52697a039473d4229749f5f068bb1d2d78624ebb769055743515b75,
      0x76ede989f55c151d97eeb4c50f66b3d672d3f94dd0efe590bb0ad9b8174e47bb)),
    ((True, False, niels_base_rows_4 ! 5),
     (0x4afc1a75010d4069d13b2a5a242a304c7383b8f766f601ca7fbd2d2c75def6f7,
      0x66ed43bdbe5b31c4e3f1a02e47c833b9bb020ba683bdd915b2ed05d87c1a9856)),
    ((True, True, niels_base_rows_4 ! 10),
     (0xc1eb446a5d87487e245a5551e278f63dd7be034933067568a1f73986487c913,
      0x4d62ca66f9f9d4c6f0f0a086ef1e5fdf5ee2e238a1a65fc761ed3bd4a0368785)),
    ((True, False, niels_base_rows_5 ! 7),
     (0x30ef1312476acb7d8fa6f57bc2222363200985369f502a417b54483d34731686,
      0x58caf7f276348a59abc3fca6ae1bce8e4c25583af3b535efb711c287e0e73c3f)),
    ((True, False, niels_base_rows_5 ! 10),
     (0x16a6050c3151417e82d7ba7207ba376fa09553a406c26a0a571a78ab15f9b48f,
      0x317243168ea7568ea27483f2b48c18a022dcd9afabeb3c58ef13fff8202e3176)),
    ((True, True, niels_base_rows_6 ! 0),
     (0x1c467c546820f5074b9d7c5fc3b2cb96620b446d439ef989fdfe116a4e7598e3,
      0x55661219ec8c847db94b61696b5f89be911b59d0d3f650a6dadfe541f90855f6)),
    ((True, True, niels_base_rows_6 ! 13),
     (0x7360069e8b98d05ccc480a7e187186a6567c96d34e4607e5e911849c11e92e15,
      0x6368fe4735a594657d105def3396d7a6b843f17d09feec03583d33356609d10d)),
    ((True, True, niels_base_rows_7 ! 0),
     (0x7b706fe4bc0f69608d9268658cd7da6206317ac4445814e5bfdea7274d231d6d,
      0x7dfbd60cc318567d416a063ca05490296b54f7af65eed9a89fca25d3628b44cd)),
    ((True, False, niels_base_rows_7 ! 12),
     (0x499238d0ba0eafaaa4b11c1a735517be94c0fce83c7b27a56ab5dcb85b1c16b7,
      0x7579229e2f2adec13455fb7f2c7a91abbd448f3e16b687b3b1507ca1ab1c6eb9))]"

lemma index_Suc:
  "(1 :: nat) = Suc 0" "(2 :: nat) = Suc (Suc (0))" "(3 :: nat) = Suc (Suc (Suc (0)))" "(4 :: nat) = Suc (Suc (Suc (Suc (0))))" "(5 :: nat) = Suc (Suc (Suc (Suc (Suc (0)))))" "(6 :: nat) = Suc (Suc (Suc (Suc (Suc (Suc (0))))))" "(7 :: nat) = Suc (Suc (Suc (Suc (Suc (Suc (Suc (0)))))))" "(8 :: nat) = Suc (Suc (Suc (Suc (Suc (Suc (Suc (Suc (0))))))))" "(9 :: nat) = Suc (Suc (Suc (Suc (Suc (Suc (Suc (Suc (Suc (0)))))))))" "(10 :: nat) = Suc (Suc (Suc (Suc (Suc (Suc (Suc (Suc (Suc (Suc (0))))))))))" "(11 :: nat) = Suc (Suc (Suc (Suc (Suc (Suc (Suc (Suc (Suc (Suc (Suc (0)))))))))))" "(12 :: nat) = Suc (Suc (Suc (Suc (Suc (Suc (Suc (Suc (Suc (Suc (Suc (Suc (0))))))))))))" "(13 :: nat) = Suc (Suc (Suc (Suc (Suc (Suc (Suc (Suc (Suc (Suc (Suc (Suc (Suc (0)))))))))))))" "(14 :: nat) = Suc (Suc (Suc (Suc (Suc (Suc (Suc (Suc (Suc (Suc (Suc (Suc (Suc (Suc (0))))))))))))))" "(15 :: nat) = Suc (Suc (Suc (Suc (Suc (Suc (Suc (Suc (Suc (Suc (Suc (Suc (Suc (Suc (Suc (0)))))))))))))))"
  by simp_all

lemma odd_sum_ok: "sums_ok (O1 OZ, O1 OZ) odd_terms"
  by (simp only: odd_terms_def niels_base_rows_0_def niels_base_rows_1_def niels_base_rows_2_def niels_base_rows_3_def niels_base_rows_4_def niels_base_rows_5_def niels_base_rows_6_def niels_base_rows_7_def
      index_Suc nth_Cons_Suc nth_Cons_0 check_eval sums_eval)

definition shifted_sum :: "(int \<times> int) list" where
  "shifted_sum = [
    (0x7e841bdc968f8541c392c59875d83cba62def5ba13e21a0cfbc08ee75a3d1d1a,
     0x69e616a204ea6ed8f7736d48d3d39fbd79f457aa782ca9125d151494766157c9),
    (0x173ce1aeb430d393aa012acfb5f553d73abca735e605dbaef63877b7907a51f9,
     0x17af9d3d9683541445daca7144f3c8e383016141ff3a13dae52c8db39470ae92),
    (0x3c5f095f4219f3e4a20f1f69a8cfbdd6aee7cabf8e49bc1fa2ce629e31c6f064,
     0x36673a08383472de2d8960e8f6d9f2d51b1b46aa18c79a09e6234b629dbb7859),
    (0x4681d81d485ae515dc2e87bb33fd2a3ad1595ef66f659608abbfa9bd8700fa3b,
     0x352391df97b844eb92d17e908dff4410bb432f09b676836b101b44f410f75b40),
    (0x500335a8ec7dd08f29d10625b4a51eaff841b47f2ef0eb4d7d141b88e0d837f5,
     0x14a45263e156793aa6b4a9f25a0d42ee12582d714560e1ddba3e57f7b5309757)]"

lemma shift_ok: "doubles_ok (map oct_pair shifted_sum)"
  by (simp only: shifted_sum_def check_eval)

lemma even_sum_ok: "sums_ok (oct_pair (last shifted_sum)) even_terms"
  by (simp only: shifted_sum_def last.simps list.distinct even_terms_def niels_base_rows_0_def niels_base_rows_1_def niels_base_rows_2_def niels_base_rows_3_def niels_base_rows_4_def niels_base_rows_5_def niels_base_rows_6_def niels_base_rows_7_def
      index_Suc nth_Cons_Suc nth_Cons_0 check_eval sums_eval)

lemma top_ok: "doubles_ok [row_uv (row_fields (niels_base_rows_15 ! 15)), prod.swap (oct_pair (snd (last even_terms)))]"
  by (simp only: even_terms_def niels_base_rows_15_def last.simps list.distinct prod.swap_def check_eval sums_eval)

end
