(* ===== verification/Base_Correct.thy ===== *)
theory Base_Correct
  imports Base_Point Base_Rows Base_Sums
begin

text \<open>
  The precomputed tables hold the multiples of the base point that the scalar multiplications rely on, and the base point
  has the order \<open>l = 2\<^sup>2\<^sup>5\<^sup>2 + 27742317777372353535851937790883648493\<close>.
\<close>

section \<open>All blocks\<close>

definition block_shape :: "int list \<Rightarrow> bool" where
  "block_shape xs \<longleftrightarrow> length xs = 16 \<and> list_all (\<lambda>x. 0 < x) xs"

lemma block_shapeI: "length xs = 16 \<Longrightarrow> list_all (\<lambda>x. 0 < x) xs \<Longrightarrow> block_shape xs"
  by (simp add: block_shape_def)

lemma block_holds_first:
  assumes "block_shape xs" "position_ok b (map row_fields (take 8 xs))" "position_ok True (map row_fields (drop 8 xs))"
    and "link_ok (xs ! 7) ls (xs ! 8)" "length ls = 4" "first_row (xs ! 0) P"
  shows "block_holds b xs P"
  using block_holdsI [OF assms(2,3,4,5)] assms(1,6) by (simp add: block_shape_def list_all_iff)

lemma block_holds_next:
  assumes "block_holds c ys (smul k P)" "link_ok (ys ! 15) ls' (xs ! 0)" "length ls' = 4"
    and "block_shape xs" "position_ok b (map row_fields (take 8 xs))" "position_ok True (map row_fields (drop 8 xs))"
    and "link_ok (xs ! 7) ls (xs ! 8)" "length ls = 4"
  shows "block_holds b xs (smul (65536 * k) P)"
  using block_holds_first [OF assms(4,5,6,7,8) next_block [OF assms(1,2,3)]] by (simp add: smul_smul)

lemma shape_0: "block_shape niels_base_rows_0"
  by (rule block_shapeI)
    (simp_all only: niels_base_rows_0_def list.pred_inject zero_less_numeral simp_thms list.size)

lemma shape_1: "block_shape niels_base_rows_1"
  by (rule block_shapeI)
    (simp_all only: niels_base_rows_1_def list.pred_inject zero_less_numeral simp_thms list.size)

lemma shape_2: "block_shape niels_base_rows_2"
  by (rule block_shapeI)
    (simp_all only: niels_base_rows_2_def list.pred_inject zero_less_numeral simp_thms list.size)

lemma shape_3: "block_shape niels_base_rows_3"
  by (rule block_shapeI)
    (simp_all only: niels_base_rows_3_def list.pred_inject zero_less_numeral simp_thms list.size)

lemma shape_4: "block_shape niels_base_rows_4"
  by (rule block_shapeI)
    (simp_all only: niels_base_rows_4_def list.pred_inject zero_less_numeral simp_thms list.size)

lemma shape_5: "block_shape niels_base_rows_5"
  by (rule block_shapeI)
    (simp_all only: niels_base_rows_5_def list.pred_inject zero_less_numeral simp_thms list.size)

lemma shape_6: "block_shape niels_base_rows_6"
  by (rule block_shapeI)
    (simp_all only: niels_base_rows_6_def list.pred_inject zero_less_numeral simp_thms list.size)

lemma shape_7: "block_shape niels_base_rows_7"
  by (rule block_shapeI)
    (simp_all only: niels_base_rows_7_def list.pred_inject zero_less_numeral simp_thms list.size)

lemma shape_8: "block_shape niels_base_rows_8"
  by (rule block_shapeI)
    (simp_all only: niels_base_rows_8_def list.pred_inject zero_less_numeral simp_thms list.size)

lemma shape_9: "block_shape niels_base_rows_9"
  by (rule block_shapeI)
    (simp_all only: niels_base_rows_9_def list.pred_inject zero_less_numeral simp_thms list.size)

lemma shape_10: "block_shape niels_base_rows_10"
  by (rule block_shapeI)
    (simp_all only: niels_base_rows_10_def list.pred_inject zero_less_numeral simp_thms list.size)

lemma shape_11: "block_shape niels_base_rows_11"
  by (rule block_shapeI)
    (simp_all only: niels_base_rows_11_def list.pred_inject zero_less_numeral simp_thms list.size)

lemma shape_12: "block_shape niels_base_rows_12"
  by (rule block_shapeI)
    (simp_all only: niels_base_rows_12_def list.pred_inject zero_less_numeral simp_thms list.size)

lemma shape_13: "block_shape niels_base_rows_13"
  by (rule block_shapeI)
    (simp_all only: niels_base_rows_13_def list.pred_inject zero_less_numeral simp_thms list.size)

lemma shape_14: "block_shape niels_base_rows_14"
  by (rule block_shapeI)
    (simp_all only: niels_base_rows_14_def list.pred_inject zero_less_numeral simp_thms list.size)

lemma shape_15: "block_shape niels_base_rows_15"
  by (rule block_shapeI)
    (simp_all only: niels_base_rows_15_def list.pred_inject zero_less_numeral simp_thms list.size)

lemma block_0: "block_holds False niels_base_rows_0 (smul 1 base_point)"
  by (rule block_holds_first [OF shape_0 low_0 high_0 inner_0]) (simp_all add: base_first_row)

lemma block_1: "block_holds True niels_base_rows_1 (smul (65536 ^ 1) base_point)"
  using block_holds_next [OF block_0 outer_0 _ shape_1 low_1 high_1 inner_1] by simp

lemma block_2: "block_holds True niels_base_rows_2 (smul (65536 ^ 2) base_point)"
  using block_holds_next [OF block_1 outer_1 _ shape_2 low_2 high_2 inner_2] by simp

lemma block_3: "block_holds True niels_base_rows_3 (smul (65536 ^ 3) base_point)"
  using block_holds_next [OF block_2 outer_2 _ shape_3 low_3 high_3 inner_3] by simp

lemma block_4: "block_holds True niels_base_rows_4 (smul (65536 ^ 4) base_point)"
  using block_holds_next [OF block_3 outer_3 _ shape_4 low_4 high_4 inner_4] by simp

lemma block_5: "block_holds True niels_base_rows_5 (smul (65536 ^ 5) base_point)"
  using block_holds_next [OF block_4 outer_4 _ shape_5 low_5 high_5 inner_5] by simp

lemma block_6: "block_holds True niels_base_rows_6 (smul (65536 ^ 6) base_point)"
  using block_holds_next [OF block_5 outer_5 _ shape_6 low_6 high_6 inner_6] by simp

lemma block_7: "block_holds True niels_base_rows_7 (smul (65536 ^ 7) base_point)"
  using block_holds_next [OF block_6 outer_6 _ shape_7 low_7 high_7 inner_7] by simp

lemma block_8: "block_holds True niels_base_rows_8 (smul (65536 ^ 8) base_point)"
  using block_holds_next [OF block_7 outer_7 _ shape_8 low_8 high_8 inner_8] by simp

lemma block_9: "block_holds True niels_base_rows_9 (smul (65536 ^ 9) base_point)"
  using block_holds_next [OF block_8 outer_8 _ shape_9 low_9 high_9 inner_9] by simp

lemma block_10: "block_holds True niels_base_rows_10 (smul (65536 ^ 10) base_point)"
  using block_holds_next [OF block_9 outer_9 _ shape_10 low_10 high_10 inner_10] by simp

lemma block_11: "block_holds True niels_base_rows_11 (smul (65536 ^ 11) base_point)"
  using block_holds_next [OF block_10 outer_10 _ shape_11 low_11 high_11 inner_11] by simp

lemma block_12: "block_holds True niels_base_rows_12 (smul (65536 ^ 12) base_point)"
  using block_holds_next [OF block_11 outer_11 _ shape_12 low_12 high_12 inner_12] by simp

lemma block_13: "block_holds True niels_base_rows_13 (smul (65536 ^ 13) base_point)"
  using block_holds_next [OF block_12 outer_12 _ shape_13 low_13 high_13 inner_13] by simp

lemma block_14: "block_holds True niels_base_rows_14 (smul (65536 ^ 14) base_point)"
  using block_holds_next [OF block_13 outer_13 _ shape_14 low_14 high_14 inner_14] by simp

lemma block_15: "block_holds True niels_base_rows_15 (smul (65536 ^ 15) base_point)"
  using block_holds_next [OF block_14 outer_14 _ shape_15 low_15 high_15 inner_15] by simp

lemma block_row_low:
  assumes "block_holds b xs (smul k B)" "i < 8"
  shows "row_holds b (xs ! i) (smul ((int i + 1) * k) B)"
  using assms by (simp add: block_holds_def smul_smul)

lemma block_row_high:
  assumes "block_holds b xs (smul k B)" "8 \<le> i" "i < 16"
  shows "row_holds True (xs ! i) (smul ((int i - 7) * (256 * k)) B)"
proof -
  have "\<forall>i<8. row_holds True (xs ! (8 + i)) (smul (int i + 1) (smul 256 (smul k B)))"
    using assms(1) by (simp add: block_holds_def)
  then have "row_holds True (xs ! (8 + (i - 8))) (smul (int (i - 8) + 1) (smul 256 (smul k B)))"
    using assms(2,3) by (elim allE [of _ "i - 8"]) linarith
  moreover have "int (i - 8) + 1 = int i - 7" "8 + (i - 8) = i" using assms(2) by simp_all
  ultimately show ?thesis by (simp only: smul_smul)
qed

section \<open>The fixed base table\<close>

definition base_blocks :: "int list list" where
  "base_blocks = [niels_base_rows_0, niels_base_rows_1, niels_base_rows_2, niels_base_rows_3, niels_base_rows_4, niels_base_rows_5, niels_base_rows_6, niels_base_rows_7, niels_base_rows_8, niels_base_rows_9, niels_base_rows_10, niels_base_rows_11, niels_base_rows_12, niels_base_rows_13, niels_base_rows_14, niels_base_rows_15]"

lemma concat_uniform:
  assumes "\<forall>ys\<in>set xss. length ys = k" "i < k" "j < length xss"
  shows "concat xss ! (j * k + i) = xss ! j ! i"
  using assms
proof (induction xss arbitrary: j)
  case (Cons ys xss)
  then show ?case by (cases j) (simp_all add: nth_append add.assoc)
qed simp

lemma base_blocks_concat: "ge25519_niels_base_multiples = map (le_bytes 96) (concat base_blocks)"
  by (simp add: ge25519_niels_base_multiples_def base_blocks_def)

lemma base_blocks_length: "length base_blocks = 16" "\<forall>ys\<in>set base_blocks. length ys = 16"
  using shape_0 shape_1 shape_2 shape_3 shape_4 shape_5 shape_6 shape_7 shape_8 shape_9 shape_10 shape_11 shape_12 shape_13 shape_14 shape_15
  by (simp_all add: base_blocks_def block_shape_def)

lemma base_multiples_nth:
  assumes "j < 16" "i < 16"
  shows "ge25519_niels_base_multiples ! (j * 16 + i) = le_bytes 96 (base_blocks ! j ! i)"
proof -
  have "length (concat base_blocks) = 256" using base_blocks_length by (simp add: length_concat base_blocks_def)
  then show ?thesis
    using concat_uniform [OF base_blocks_length(2) assms(2), of j] assms base_blocks_length by (simp add: base_blocks_concat)
qed

lemma base_blocks_hold: "j < 16 \<Longrightarrow> block_holds (j \<noteq> 0) (base_blocks ! j) (smul (65536 ^ j) base_point)"
proof -
  assume "j < 16"
  then have "j = 0 \<or> j = 1 \<or> j = 2 \<or> j = 3 \<or> j = 4 \<or> j = 5 \<or> j = 6 \<or> j = 7 \<or> j = 8 \<or> j = 9 \<or> j = 10 \<or> j = 11 \<or> j = 12 \<or> j = 13 \<or> j = 14 \<or> j = 15" by presburger
  then show ?thesis
    by (elim disjE) (use block_0 block_1 block_2 block_3 block_4 block_5 block_6 block_7 block_8 block_9 block_10 block_11 block_12 block_13 block_14 block_15 in \<open>simp_all only: base_blocks_def index_Suc nth_Cons_Suc nth_Cons_0 nat.distinct power_0 simp_thms\<close>)
qed

lemma base_table_correct: "base_table_ok base_point ge25519_niels_base_multiples"
proof -
  have "packed_niels (if pos = 0 then 1 else curve_d) (ge25519_niels_base_multiples ! (pos * 8 + i))
      (smul (int i + 1) (smul (256 ^ pos) base_point))" if "pos < 32" "i < 8" for pos i
  proof -
    define j where "j = pos div 2"
    have j: "j < 16" using that(1) by (simp add: j_def)
    note hold = base_blocks_hold [OF j]
    show ?thesis
    proof (cases "even pos")
      case True
      then have pos: "pos = 2 * j" by (simp add: j_def)
      have "(256 :: int) ^ pos = 65536 ^ j" by (simp add: pos power_mult)
      with block_row_low [OF hold that(2)] base_multiples_nth [OF j, of i] that(2) show ?thesis
        by (simp add: pos row_holds_def with_factor_def smul_smul mult.commute split: if_splits)
    next
      case False
      then have pos: "pos = 2 * j + 1" by (simp add: j_def)
      have e: "(256 :: int) ^ pos = 256 * 65536 ^ j" "pos * 8 + i = j * 16 + (8 + i)" "pos \<noteq> 0" by (simp_all add: pos power_mult)
      have "row_holds True (base_blocks ! j ! (8 + i)) (smul ((int i + 1) * 256 ^ pos) base_point)"
        using block_row_high [OF hold, of "8 + i"] that(2) by (simp add: e add.commute)
      then show ?thesis using base_multiples_nth [OF j, of "8 + i"] that(2)
        by (simp add: e(2,3) row_holds_def with_factor_def smul_smul)
    qed
  qed
  then show ?thesis by (simp add: base_table_ok_def position_rows_def)
qed

section \<open>The sliding window table\<close>

definition base_pair :: "int \<times> int" where
  "base_pair = (0x44fd2f9298f81267a5c18434688f8a09fd399f05d140beb39d103905d740913e,
     0x7cf9d3a33d4ba65270b4898643d42c2cf932dc6fb8c0e192fbc93c6f58c3b85)"

lemma base_pair_oct: "coords_of (oct_pair base_pair) base_point"
proof -
  have "base_pair_ok (oct_pair base_pair)"
    by (simp only: base_pair_ok_def base_pair_def base_x_def base_y_def check_eval sums_eval)
  then show ?thesis by (rule base_pair_correct)
qed

lemma doubled_base_coords: "coords_of doubled_base (smul 2 base_point)"
  using doubles_ok_correct [OF doubled_base_ok, of base_point] base_pair_oct by (simp add: coords_of_def base_pair_def)

lemma sliding_multiples:
  assumes "k < 32"
  shows "row_triple True (oct_triple (sliding_rows ! k)) (smul (2 * int k + 1) base_point)"
proof -
  obtain u2 v2 where d: "doubled_base = (u2, v2)" by (cases doubled_base)
  define ts where "ts = map oct_triple sliding_rows"
  have len: "length ts = 32" by (simp add: ts_def sliding_rows_def)
  obtain u v w ts' where ts: "ts = (u, v, w) # ts'" using len by (cases ts) (auto intro: prod_cases3)
  have ok: "ored u2" "product_ok True u v w" "multiples_ok True u2 v2 (coords_term (u2, v2)) ts"
    using sliding_ok by (simp_all add: ts_def [symmetric] ts d)
  have uv2: "has_coords u2 v2 (smul 2 base_point)" using doubled_base_coords by (simp add: d coords_of_def)
  have "(u, v) = oct_pair base_pair"
    using ts by (simp add: ts_def sliding_rows_def base_pair_def)
  then have "has_coords u v base_point" using base_pair_oct by (metis coords_of_def fst_conv snd_conv)
  then have "row_triple True (hd ts) base_point" using product_ok_correct [OF ok(2)] by (simp add: ts row_triple_def)
  moreover have "with_factor True * ofe (coords_term (u2, v2)) = 4 * curve_d * px (smul 2 base_point) * py (smul 2 base_point)"
    using coords_product [OF ok(1) uv2] by (simp add: coords_term_def with_factor_def)
  ultimately have "row_triple True (ts ! k) (base_point + smul (int k) (smul 2 base_point))"
    using multiples_ok_correct [OF uv2 _ ok(3), of base_point k] assms len ts by simp
  moreover have "base_point + smul (int k) (smul 2 base_point) = smul (2 * int k + 1) base_point"
    by (simp add: smul_add smul_smul mult.commute add.commute)
  moreover have "ts ! k = oct_triple (sliding_rows ! k)" using assms len by (simp add: ts_def)
  ultimately show ?thesis by simp
qed

lemma sliding_limbs:
  "list_all (\<lambda>q. tight (n_ysubx q) \<and> tight (n_xaddy q) \<and> tight (n_t2d q)) ge25519_niels_sliding_multiples"
  by (simp add: ge25519_niels_sliding_multiples_def tight_def)

lemma sliding_positive: "list_all (\<lambda>(u, v, w). 0 < u \<and> 0 < v \<and> 0 < w) sliding_rows"
  by (simp add: sliding_rows_def)

lemma sliding_length: "length ge25519_niels_sliding_multiples = 32"
  by (simp add: ge25519_niels_sliding_multiples_def)

lemma sliding_table_correct: "odd_niels base_point ge25519_niels_sliding_multiples"
proof -
  have "rep_niels (ge25519_niels_sliding_multiples ! k) (smul (2 * int k + 1) base_point)" if "k < 32" for k
  proof -
    define q where "q = ge25519_niels_sliding_multiples ! k"
    have row: "sliding_rows ! k = (fval (n_ysubx q), fval (n_xaddy q), fval (n_t2d q))"
      unfolding q_def sliding_rows_eq [symmetric] using that by (simp add: sliding_length)
    have "sliding_rows ! k \<in> set sliding_rows" using that by (intro nth_mem) (simp add: sliding_rows_eq [symmetric] sliding_length)
    then have "0 < fval (n_ysubx q)" "0 < fval (n_xaddy q)" "0 < fval (n_t2d q)"
      using sliding_positive unfolding row list_all_iff by blast+
    then have "has_coords (oct_int (fval (n_ysubx q))) (oct_int (fval (n_xaddy q))) (smul (2 * int k + 1) base_point)"
      and t: "ofe (oct_int (fval (n_t2d q))) = 2 * curve_d * px (smul (2 * int k + 1) base_point) * py (smul (2 * int k + 1) base_point)"
      using sliding_multiples [OF that] by (simp_all add: row row_triple_def with_factor_def)
    moreover have "tight (n_ysubx q) \<and> tight (n_xaddy q) \<and> tight (n_t2d q)"
      using sliding_limbs that unfolding q_def list_all_length sliding_length by blast
    ultimately show ?thesis unfolding q_def [symmetric] rep_niels_def
      using \<open>0 < fval (n_ysubx q)\<close> \<open>0 < fval (n_xaddy q)\<close> \<open>0 < fval (n_t2d q)\<close>
      by (simp add: has_coords_def ofe_def oval_oct_int fe_def)
  qed
  then show ?thesis by (simp add: odd_niels_def sliding_length)
qed

section \<open>The order of the base point\<close>

definition odd_factors :: "int list" where
  "odd_factors = [
    1,
    768,
    65536,
    100663296,
    8589934592,
    6597069766656,
    281474976710656,
    360287970189639680,
    55340232221128654848,
    28334198897217871282176,
    1208925819614629174706176,
    1856910058928070412348686336,
    158456325028528675187087900672,
    10384593717069655257060992658440192,
    1329227995784915872903807060280344576]"

lemma odd_rows:
  "list_all2 (\<lambda>((b, neg, x), t) Q. row_holds b x Q) odd_terms (map (\<lambda>k. smul k base_point) odd_factors)"
  by (simp add: odd_terms_def odd_factors_def
    block_row_low [OF block_0, of 0, simplified]
    block_row_high [OF block_0, of 10, simplified]
    block_row_low [OF block_1, of 0, simplified]
    block_row_high [OF block_1, of 13, simplified]
    block_row_low [OF block_2, of 1, simplified]
    block_row_high [OF block_2, of 13, simplified]
    block_row_low [OF block_3, of 0, simplified]
    block_row_high [OF block_3, of 12, simplified]
    block_row_low [OF block_4, of 2, simplified]
    block_row_high [OF block_4, of 13, simplified]
    block_row_low [OF block_5, of 0, simplified]
    block_row_high [OF block_5, of 13, simplified]
    block_row_low [OF block_6, of 1, simplified]
    block_row_low [OF block_7, of 1, simplified]
    block_row_high [OF block_7, of 8, simplified])

definition even_factors :: "int list" where
  "even_factors = [
    3,
    1024,
    393216,
    50331648,
    25769803776,
    3298534883328,
    562949953421312,
    576460752303423488,
    110680464442257309696,
    14167099448608935641088,
    9671406556917033397649408,
    928455029464035206174343168,
    79228162514264337593543950336,
    121694457621910022543683507716096,
    5192296858534827628530496329220096,
    6646139978924579364519035301401722880]"

lemma even_rows:
  "list_all2 (\<lambda>((b, neg, x), t) Q. row_holds b x Q) even_terms (map (\<lambda>k. smul k base_point) even_factors)"
  by (simp add: even_terms_def even_factors_def
    block_row_low [OF block_0, of 2, simplified]
    block_row_high [OF block_0, of 11, simplified]
    block_row_low [OF block_1, of 5, simplified]
    block_row_high [OF block_1, of 10, simplified]
    block_row_low [OF block_2, of 5, simplified]
    block_row_high [OF block_2, of 10, simplified]
    block_row_low [OF block_3, of 1, simplified]
    block_row_high [OF block_3, of 15, simplified]
    block_row_low [OF block_4, of 5, simplified]
    block_row_high [OF block_4, of 10, simplified]
    block_row_low [OF block_5, of 7, simplified]
    block_row_high [OF block_5, of 10, simplified]
    block_row_low [OF block_6, of 0, simplified]
    block_row_high [OF block_6, of 13, simplified]
    block_row_low [OF block_7, of 0, simplified]
    block_row_high [OF block_7, of 12, simplified])

lemma signed_smul: "signed_point neg (smul k P) = smul (if neg then - k else k) P"
  by (simp add: signed_point_def)

lemma odd_sum: "coords_of (oct_pair (snd (last odd_terms))) (smul 1318843241753373815191832450937322751 base_point)"
proof -
  have "coords_of (O1 OZ, O1 OZ) 0" by (simp add: coords_of_def has_coords_def)
  from sums_ok_correct [OF odd_sum_ok this odd_rows] show ?thesis
    by (simp add: odd_terms_def odd_factors_def signed_smul add.assoc smul_add [symmetric] del: smul_minus smul_1)
qed

lemma shifted_sum: "coords_of (oct_pair (last shifted_sum)) (smul (16 * 1318843241753373815191832450937322751) base_point)"
proof -
  have "hd (map oct_pair shifted_sum) = oct_pair (snd (last odd_terms))"
    by (simp add: shifted_sum_def odd_terms_def)
  moreover have "length shifted_sum = 5" by (simp add: shifted_sum_def)
  moreover from this have "last (map oct_pair shifted_sum) = oct_pair (last shifted_sum)" "shifted_sum \<noteq> []"
    by (auto intro!: last_map)
  ultimately show ?thesis
    using doubles_ok_correct [OF shift_ok, of "smul 1318843241753373815191832450937322751 base_point"] odd_sum unfolding coords_of_def by (simp add: smul_smul)
qed

lemma even_sum: "coords_of (oct_pair (snd (last even_terms))) (smul 27742317777372353535851937790883648493 base_point)"
  using sums_ok_correct [OF even_sum_ok shifted_sum even_rows]
  by (simp add: even_terms_def even_factors_def signed_smul add.assoc smul_add [symmetric] del: smul_minus)

lemma has_coords_swap:
  assumes "has_coords u v P" "has_coords v u Q"
  shows "Q = - P"
proof -
  have "2 * (px Q + px P) = 0" "2 * (py Q - py P) = 0" using assms unfolding has_coords_def by algebra+
  then have "px Q = - px P" "py Q = py P" using two_fp_nonzero unfolding mult_eq_0_iff by (simp_all add: eq_neg_iff_add_eq_0)
  then show ?thesis by (intro point_eqI) simp_all
qed

theorem base_point_order: "smul ell base_point = 0"
proof -
  define c where "c = (27742317777372353535851937790883648493 :: int)"
  define t where "t = oct_pair (snd (last even_terms))"
  have t: "has_coords (fst t) (snd t) (smul c base_point)" using even_sum unfolding coords_of_def t_def c_def .
  have uv: "row_uv r = (fst r, fst (snd r))" for r by (cases r) simp
  have "row_holds True (niels_base_rows_15 ! 15) (smul ((int 15 - 7) * (256 * 65536 ^ 15)) base_point)"
    by (rule block_row_high [OF block_15]) simp_all
  then have "first_row (niels_base_rows_15 ! 15) (smul (2 ^ 251) base_point)"
    by (auto simp: row_holds_def dest: row_triple_first)
  then have "has_coords (snd t) (fst t) (smul (2 ^ 252) base_point)"
    using doubles_ok_correct [OF top_ok, of "smul (2 ^ 251) base_point"]
    by (simp add: first_row_def uv smul_smul t_def)
  from has_coords_swap [OF t this] have "smul (2 ^ 252) base_point = - smul c base_point" .
  then show ?thesis by (simp only: ell_def c_def [symmetric] smul_add) simp
qed

end
