(* ===== verification/Schnorr_Group.thy ===== *)
theory Schnorr_Group
  imports Ristretto_Quotient Base_Correct Keys Vrf_Correct
begin

unbundle bit_operations_syntax

text \<open>
  Keys and signatures in the group: public keys are encodings of multiples of the base point, and the verifier's
  equation holds for the signer's response.
\<close>

section \<open>Multiples of the base point\<close>

lemma smul_base_mod: "smul (k mod ell) base_point = smul k base_point"
  by (rule smul_mod [OF base_point_order])

lemma encodable_multiple: "encodable (smul k base_point)"
proof -
  have "odd ell" by (simp add: ell_def)
  then obtain j where "k = 2 * j \<or> k + ell = 2 * j" by (metis dvd_def odd_add)
  moreover have "smul (k + ell) base_point = smul k base_point" by (simp add: smul_add base_point_order)
  ultimately have "smul k base_point = smul (2 * j) base_point" by metis
  also have "\<dots> = smul j base_point + smul j base_point" by (simp add: smul_smul [symmetric] smul_2)
  finally show ?thesis by (simp add: encodable_double)
qed

lemma base_multiple:
  "sc_limbs (2 ^ 32) s \<Longrightarrow> sval s < 2 ^ 255 \<Longrightarrow>
    represents (ge25519_scalarmult_base_niels ge25519_niels_base_multiples s) (smul (sval s) base_point)"
  by (rule scalarmult_base_correct [OF base_table_correct])

lemma base_multiple_encodes:
  "sc_limbs (2 ^ 32) s \<Longrightarrow> sval s < 2 ^ 255 \<Longrightarrow>
    encodes (smul (sval s) base_point) (ristretto_encode (ge25519_scalarmult_base_niels ge25519_niels_base_multiples s))"
  by (intro encode_encodes base_multiple encodable_multiple)

lemma reduced_below: "reduced s \<Longrightarrow> sval s < 2 ^ 255"
  by (auto simp: reduced_def ell_def)

text \<open>The public key of a secret scalar.\<close>

lemma public_key_encodes:
  assumes "length key = 32" "le_val key < 2 ^ 255"
  shows "encodes (smul (le_val key) base_point) (private_key_to_public_key key)"
  unfolding private_key_to_public_key_def
  using base_multiple_encodes [of "expand_raw256_modm key"] expand_raw256_modm_correct [OF assms(1)] assms(2) by simp

section \<open>The verification equation\<close>

lemma negated_correct: "represents A Q \<Longrightarrow> represents (ge25519_negated A) (- Q)"
  by (simp add: rep_defs ge25519_negated_def fe_bound fe_fp)

lemma encodes_identity: "encodes 0 (replicate 32 0)"
proof -
  have "encodes 0 (ristretto_encode ge25519_neutral)"
    using encode_encodes [OF neutral_correct] encodable_double [of 0] by simp
  moreover have "ristretto_encode ge25519_neutral = le_bytes 32 0"
    using encode_neutral represents_partial [OF neutral_correct] by simp
  moreover have "le_bytes 32 0 = replicate 32 0" by (simp add: numeral_eq_Suc)
  ultimately show ?thesis by simp
qed

text \<open>
  With both scalars zero the point has an arbitrary fourth coordinate, which the encoding ignores.
\<close>

lemma double_scalarmult_encodes:
  assumes "represents p P" "encodable P" "sc_limbs (2 ^ 32) k" "sval k < 2 ^ 255" "sc_limbs (2 ^ 32) s" "sval s < 2 ^ 255"
  shows "encodes (smul (sval k) P + smul (sval s) base_point)
    (ristretto_encode (ge25519_double_scalarmult_vartime ge25519_niels_sliding_multiples t_uninit p k s))"
proof -
  define r where "r = ge25519_double_scalarmult_vartime ge25519_niels_sliding_multiples t_uninit p k s"
  note d = double_scalarmult_correct [OF assms(1) sliding_table_correct sliding_length assms(3-6), of t_uninit, folded r_def]
  have enc: "encodable (smul (sval k) P + smul (sval s) base_point)"
    by (intro encodable_add encodable_smul assms(2) encodable_multiple)
  show ?thesis
  proof (cases "sval k \<noteq> 0 \<or> sval s \<noteq> 0")
    case True
    then show ?thesis using encode_encodes [OF d(2) enc] by (simp add: r_def)
  next
    case False
    then have "ristretto_encode r = replicate 32 0" using encode_neutral d(1) by (simp add: numeral_eq_Suc)
    then show ?thesis using False encodes_identity by (simp add: r_def)
  qed
qed

lemma verification_point_encodes:
  assumes "encodes A public_key" "reduced k" "sc_limbs (2 ^ 32) s" "sval s < 2 ^ 255"
  shows "\<exists>Q. same_coset (smul (sval s) base_point - smul (sval k) A) Q \<and>
    encodes Q (ristretto_encode (verification_point t_uninit public_key k s))"
proof -
  obtain r Q where Q: "ristretto_decode public_key = Some r" "represents r Q" "same_coset A Q" "encodable Q"
    by (rule encodes_decode [OF assms(1)])
  have "encodes (smul (sval k) (- Q) + smul (sval s) base_point) (ristretto_encode (verification_point t_uninit public_key k s))"
    unfolding verification_point_def decode_unchecked_def Q(1) option.case
    by (rule double_scalarmult_encodes [OF negated_correct [OF Q(2)]])
      (use Q(4) encodable_neg reduced_limbs32 [OF assms(2)] reduced_below [OF assms(2)] assms(3,4) in simp_all)
  moreover have "same_coset (smul (sval s) base_point + smul (- sval k) A) (smul (sval s) base_point + smul (- sval k) Q)"
    by (intro same_coset_add same_coset_refl same_coset_smul Q(3))
  ultimately show ?thesis
    by (intro exI [of _ "smul (sval k) (- Q) + smul (sval s) base_point"]) (simp add: add.commute)
qed

lemma verification_point_encodes_iff:
  assumes "encodes A public_key" "reduced k" "sc_limbs (2 ^ 32) s" "sval s < 2 ^ 255"
  shows "ristretto_encode (verification_point t_uninit public_key k s) = R \<longleftrightarrow>
    encodes (smul (sval s) base_point - smul (sval k) A) R"
proof -
  define V where "V = smul (sval s) base_point - smul (sval k) A"
  obtain Q where Q: "same_coset V Q" "encodes Q (ristretto_encode (verification_point t_uninit public_key k s))"
    using verification_point_encodes [OF assms, of t_uninit] by (auto simp: V_def)
  then have "encodes V (ristretto_encode (verification_point t_uninit public_key k s))"
    using encodes_same_coset same_coset_sym by blast
  then show ?thesis using encodes_unique same_coset_refl by (auto simp: V_def [symmetric])
qed

text \<open>Verification in the group: the acceptance condition for a key that encodes a point.\<close>

lemma verify_in_group:
  assumes "encodes A public_key" "length sig = 64"
  obtains buf where "schnorr_challenge message public_key (take 32 sig) = Some buf" "length buf = 64"
    "sr25519_verify t_uninit sig message public_key =
      Some (2 ^ 255 \<le> le_val (drop 32 sig) \<and> le_val (drop 32 sig) - 2 ^ 255 < ell \<and>
        encodes (smul (le_val (drop 32 sig) - 2 ^ 255) base_point - smul (le_val buf mod ell) A) (take 32 sig))"
proof (rule sr25519_verify_correct [OF assms(2), of message public_key t_uninit])
  fix buf
  define s1 where "s1 = (drop 32 sig)[31 := drop 32 sig ! 31 AND 127]"
  define k where "k = expand256_modm buf 64"
  assume c: "schnorr_challenge message public_key (take 32 sig) = Some buf" "length buf = 64"
    and v: "sr25519_verify t_uninit sig message public_key =
      Some (2 ^ 255 \<le> le_val (drop 32 sig) \<and> le_val (drop 32 sig) - 2 ^ 255 < ell \<and>
        ristretto_encode (verification_point t_uninit public_key (expand256_modm buf 64)
          (expand_raw256_modm ((drop 32 sig)[31 := drop 32 sig ! 31 AND 127]))) = take 32 sig)"
  have len: "length (drop 32 sig) = 32" using assms(2) by simp
  have k: "reduced k" "sval k = le_val buf mod ell" using expand256_modm_correct [of 64 buf] c(2) by (simp_all add: k_def)
  have s1: "length s1 = 32" "le_val s1 = le_val (drop 32 sig) mod 2 ^ 255"
    using le_val_clear_marker [OF len] len by (simp_all add: s1_def)
  have "ristretto_encode (verification_point t_uninit public_key k (expand_raw256_modm s1)) = take 32 sig \<longleftrightarrow>
      encodes (smul (le_val (drop 32 sig) - 2 ^ 255) base_point - smul (le_val buf mod ell) A) (take 32 sig)"
    if "2 ^ 255 \<le> le_val (drop 32 sig)" "le_val (drop 32 sig) - 2 ^ 255 < ell"
  proof -
    have "le_val s1 = (le_val (drop 32 sig) - 2 ^ 255) mod 2 ^ 255" unfolding s1(2) by simp
    also have "\<dots> = le_val (drop 32 sig) - 2 ^ 255" using that by (intro mod_pos_pos_trivial) (simp_all add: ell_def)
    finally have "sval (expand_raw256_modm s1) = le_val (drop 32 sig) - 2 ^ 255"
      using expand_raw256_modm_correct(1) [OF s1(1)] by simp
    moreover have "le_val (drop 32 sig) - 2 ^ 255 < 2 ^ 255" using that(2) by (simp add: ell_def)
    ultimately show ?thesis
      using verification_point_encodes_iff [OF assms(1) k(1) expand_raw256_modm_correct(2) [OF s1(1)]] k(2) by simp
  qed
  then show ?thesis by (intro that [OF c]) (use v in \<open>auto simp: s1_def k_def\<close>)
qed

lemma signature_accepted:
  assumes "encodes (smul x base_point) public_key" "length sig = 64" "length nonce = 32"
    and "take 32 sig = ristretto_encode (ge25519_scalarmult_base_niels ge25519_niels_base_multiples
      (expand256_modm (nonce @ replicate 32 0) 64))"
    and "schnorr_challenge message public_key (take 32 sig) = Some buf"
    and "le_val (drop 32 sig) = 2 ^ 255 + (le_val buf * x + le_val nonce) mod ell"
  shows "sr25519_verify t_uninit sig message public_key = Some True"
proof (rule verify_in_group [OF assms(1,2), of message t_uninit])
  fix buf'
  define s where "s = (le_val buf * x + le_val nonce) mod ell"
  define r where "r = expand256_modm (nonce @ replicate 32 0) 64"
  assume "schnorr_challenge message public_key (take 32 sig) = Some buf'"
    and v: "sr25519_verify t_uninit sig message public_key =
      Some (2 ^ 255 \<le> le_val (drop 32 sig) \<and> le_val (drop 32 sig) - 2 ^ 255 < ell \<and>
        encodes (smul (le_val (drop 32 sig) - 2 ^ 255) base_point - smul (le_val buf' mod ell) (smul x base_point)) (take 32 sig))"
  then have buf: "buf' = buf" using assms(5) by simp
  have s: "0 \<le> s" "s < ell" "le_val (drop 32 sig) = 2 ^ 255 + s" using ell_pos assms(6) by (simp_all add: s_def)
  have r: "reduced r" "sval r = le_val nonce mod ell"
    using expand256_modm_correct [of 64 "nonce @ replicate 32 0"] assms(3) by (simp_all add: r_def le_val_append)
  have "encodes (smul (sval r) base_point) (take 32 sig)"
    unfolding assms(4) r_def [symmetric]
    by (rule base_multiple_encodes [OF reduced_limbs32 [OF r(1)] reduced_below [OF r(1)]])
  moreover have "smul s base_point - smul (le_val buf mod ell) (smul x base_point) = smul (sval r) base_point"
  proof -
    have "smul s base_point = smul (le_val buf * x) base_point + smul (sval r) base_point"
      by (simp only: s_def smul_base_mod smul_add r(2))
    moreover have "smul (le_val buf mod ell) (smul x base_point) = smul (le_val buf * x) base_point"
      by (metis mod_mult_left_eq smul_base_mod smul_smul)
    ultimately show ?thesis by simp
  qed
  ultimately show ?thesis using v s by (simp add: buf)
qed

text \<open>
  The 32 zero bytes encode the neutral element.  As a public key they make the challenge drop out of the equation.
\<close>

lemma identity_key_accepts:
  assumes "length R = 32" "0 \<le> s" "s < ell"
  shows "sr25519_verify t_uninit (R @ le_bytes 32 (2 ^ 255 + s)) message (replicate 32 0) = Some (encodes (smul s base_point) R)"
proof -
  define m where "m = le_bytes 32 (2 ^ 255 + s)"
  have "2 ^ 255 + s < 256 ^ 32" using assms(3) by (simp add: ell_def)
  then have m: "length m = 32" "le_val m = 2 ^ 255 + s"
    using assms(2) by (simp_all only: m_def length_le_bytes le_val_le_bytes) (intro mod_pos_pos_trivial, simp_all)
  have sig: "length (R @ m) = 64" "take 32 (R @ m) = R" "drop 32 (R @ m) = m" using assms(1) m(1) by simp_all
  have bounds: "2 ^ 255 \<le> 2 ^ 255 + s" "2 ^ 255 + s - 2 ^ 255 = s" using assms(2) by simp_all
  show ?thesis
  proof (rule verify_in_group [OF encodes_identity sig(1), of message t_uninit], unfold sig(2,3) m(2) bounds(2))
    fix buf
    assume "sr25519_verify t_uninit (R @ m) message (replicate 32 0) =
      Some (2 ^ 255 \<le> 2 ^ 255 + s \<and> s < ell \<and> encodes (smul s base_point - smul (le_val buf mod ell) 0) R)"
    then show ?thesis unfolding m_def [symmetric] by (simp only: bounds(1) assms(3) simp_thms smul_point_0 diff_zero)
  qed
qed

lemma encodes_public_key:
  assumes "0 \<le> s" "s < ell"
  shows "encodes (smul s base_point) (private_key_to_public_key (le_bytes 32 s))"
proof -
  have "s < 2 ^ 255" using assms(2) by (simp add: ell_def)
  moreover from this have "le_val (le_bytes 32 s) = s"
    using assms(1) by (simp only: le_val_le_bytes) (intro mod_pos_pos_trivial, simp_all)
  ultimately show ?thesis using public_key_encodes [of "le_bytes 32 s"] by simp
qed

section \<open>Soft derivation\<close>

lemma derived_public_key:
  assumes "encodes (smul x base_point) public_key" "reduced scalar" "length out = 32" "le_val out = (x + sval scalar) mod ell"
  shows "ristretto_encode (ge25519_add (ge25519_scalarmult_base_niels ge25519_niels_base_multiples scalar)
    (decode_unchecked public_key)) = private_key_to_public_key out"
proof -
  obtain r Q where Q: "ristretto_decode public_key = Some r" "represents r Q" "same_coset (smul x base_point) Q" "encodable Q"
    by (rule encodes_decode [OF assms(1)])
  have "represents (ge25519_add (ge25519_scalarmult_base_niels ge25519_niels_base_multiples scalar) (decode_unchecked public_key))
      (smul (sval scalar) base_point + Q)"
    unfolding decode_unchecked_def Q(1) option.case
    by (intro add_correct base_multiple reduced_limbs32 reduced_below assms(2) Q(2))
  then have "encodes (smul (sval scalar) base_point + Q) (ristretto_encode
      (ge25519_add (ge25519_scalarmult_base_niels ge25519_niels_base_multiples scalar) (decode_unchecked public_key)))"
    by (intro encode_encodes encodable_add encodable_multiple Q(4))
  moreover have "le_val out < ell" unfolding assms(4) by (rule pos_mod_bound [OF ell_pos])
  then have "encodes (smul (le_val out) base_point) (private_key_to_public_key out)"
    by (intro public_key_encodes [OF assms(3)]) (simp add: ell_def)
  moreover have "same_coset (smul (sval scalar) base_point + smul x base_point) (smul (sval scalar) base_point + Q)"
    by (intro same_coset_add same_coset_refl Q(3))
  moreover have "smul (le_val out) base_point = smul (sval scalar) base_point + smul x base_point"
    by (simp only: assms(4) smul_base_mod smul_add add.commute)
  ultimately show ?thesis using encodes_unique same_coset_sym by metis
qed

end
