(* ===== verification/Undecodable_Key.thy ===== *)
theory Undecodable_Key
  imports Schnorr_Group
begin

unbundle bit_operations_syntax

text \<open>
  What \<open>sr25519_verify\<close> does with a public key that does not decode: the point it uses has all coordinates zero, the
  additions carry the zeros into the result, and the result encodes to 32 zero bytes.
\<close>

section \<open>Structures of zeros\<close>

text \<open>Coordinates within their bounds and, when the flag is set, all zero.\<close>

definition partial_zero :: "bool \<Rightarrow> ge25519 \<Rightarrow> bool" where
  "partial_zero z r \<longleftrightarrow> tight (ge_x r) \<and> tight (ge_y r) \<and> tight (ge_z r) \<and>
     (z \<longrightarrow> fe (ge_x r) = 0 \<and> fe (ge_y r) = 0 \<and> fe (ge_z r) = 0)"

definition full_zero :: "bool \<Rightarrow> ge25519 \<Rightarrow> bool" where
  "full_zero z r \<longleftrightarrow> partial_zero z r \<and> tight (ge_t r) \<and> (z \<longrightarrow> fe (ge_t r) = 0)"

definition p1p1_zero :: "bool \<Rightarrow> ge25519_p1p1 \<Rightarrow> bool" where
  "p1p1_zero z t \<longleftrightarrow> loose (pp_x t) \<and> loose (pp_y t) \<and> loose (pp_z t) \<and> loose (pp_t t) \<and>
     (z \<longrightarrow> fe (pp_x t) = 0 \<and> fe (pp_y t) = 0 \<and> fe (pp_z t) = 0 \<and> fe (pp_t t) = 0)"

definition pniels_zero :: "ge25519_pniels \<Rightarrow> bool" where
  "pniels_zero q \<longleftrightarrow> basic (pn_ysubx q) \<and> basic (pn_xaddy q) \<and> tight (pn_z q) \<and> tight (pn_t2d q) \<and>
     fe (pn_ysubx q) = 0 \<and> fe (pn_xaddy q) = 0 \<and> fe (pn_z q) = 0 \<and> fe (pn_t2d q) = 0"

lemmas zero_defs = partial_zero_def full_zero_def p1p1_zero_def pniels_zero_def

lemma zero_conversions:
  "p1p1_zero z t \<Longrightarrow> full_zero z (ge25519_p1p1_to_full t)"
  "p1p1_zero z t \<Longrightarrow> partial_zero z (ge25519_p1p1_to_partial r t)"
  "full_zero True r \<Longrightarrow> pniels_zero (ge25519_full_to_pniels r)"
  by (simp_all add: zero_defs ge25519_p1p1_to_full_def ge25519_p1p1_to_partial_def ge25519_full_to_pniels_def fe_bound fe_fp)

lemma double_zero: "partial_zero z r \<Longrightarrow> p1p1_zero z (ge25519_double_p1p1 r)"
  by (simp add: zero_defs ge25519_double_p1p1_def Let_def fe_bound fe_fp)

lemma nielsadd2_zero:
  assumes "full_zero z r" "rep_niels q Q" "s = 0 \<or> s = 1"
  shows "p1p1_zero z (ge25519_nielsadd2_p1p1 r q s)"
  using assms by (elim disjE)
    (simp_all add: zero_defs rep_niels_def ge25519_nielsadd2_p1p1_def p1p1_of_array_def Let_def fe_bound fe_fp)

lemma pnielsadd_p1p1_zero:
  assumes "full_zero z r" "pniels_zero q" "s = 0 \<or> s = 1"
  shows "p1p1_zero True (ge25519_pnielsadd_p1p1 r q s)"
  using assms by (elim disjE)
    (simp_all add: zero_defs ge25519_pnielsadd_p1p1_def p1p1_of_array_def Let_def fe_bound fe_fp)

lemma pnielsadd_zero:
  assumes "full_zero z r" "pniels_zero q"
  shows "pniels_zero (ge25519_pnielsadd r q)"
  using assms by (simp add: zero_defs ge25519_pnielsadd_def Let_def fe_bound fe_fp)

lemma odd_multiples_zero:
  assumes "full_zero z d1" "pniels_zero q" "k < n"
  shows "pniels_zero (odd_multiples d1 q n ! k)"
  using assms(2,3)
proof (induction n arbitrary: q k)
  case (Suc n)
  then show ?case using Suc.IH [OF pnielsadd_zero [OF assms(1) Suc.prems(1)]] by (cases k) simp_all
qed simp

section \<open>The double scalar multiplication\<close>

lemma step_zero:
  assumes "partial_zero z r" "\<And>k. k < 8 \<Longrightarrow> pniels_zero (pre ! k)" "odd_niels B table" "length table = 32"
    and "sliding_digit 15 d1" "sliding_digit 63 d2"
  shows "partial_zero (z \<or> d1 \<noteq> 0) (fst (double_scalarmult_step pre table d1 d2 r))"
proof -
  define t1 where "t1 = ge25519_double_p1p1 r"
  define st2 where "st2 = (if d1 \<noteq> 0 then let r = ge25519_p1p1_to_full t1
      in (r, ge25519_pnielsadd_p1p1 r (pre ! (nat \<bar>d1\<bar> div 2)) (digit_signbit d1)) else (r, t1))"
  define st3 where "st3 = (if d2 \<noteq> 0 then let r = ge25519_p1p1_to_full (snd st2)
      in (r, ge25519_nielsadd2_p1p1 r (table ! (nat \<bar>d2\<bar> div 2)) (digit_signbit d2)) else st2)"
  have rng: "- 128 \<le> d1" "d1 < 128" "- 128 \<le> d2" "d2 < 128" using assms(5,6) by (auto simp: sliding_digit_def)
  have sign: "digit_signbit d1 = 0 \<or> digit_signbit d1 = 1" "digit_signbit d2 = 0 \<or> digit_signbit d2 = 1"
    using rng by (simp_all add: digit_signbit_exact)
  have t1: "p1p1_zero z t1" unfolding t1_def by (rule double_zero [OF assms(1)])
  have t2: "p1p1_zero (z \<or> d1 \<noteq> 0) (snd st2)"
  proof (cases "d1 = 0")
    case False
    then have "nat \<bar>d1\<bar> div 2 < 8" using odd_index [OF False assms(5)] by linarith
    from pnielsadd_p1p1_zero [OF zero_conversions(1) [OF t1] assms(2) [OF this] sign(1)] False show ?thesis
      by (simp add: st2_def Let_def)
  qed (use t1 in \<open>simp add: st2_def\<close>)
  have "p1p1_zero (z \<or> d1 \<noteq> 0) (snd st3)"
  proof (cases "d2 = 0")
    case False
    from nielsadd2_zero [OF zero_conversions(1) [OF t2] odd_entry_niels [OF assms(3,4) False assms(6)] sign(2)] False
    show ?thesis by (simp add: st3_def Let_def)
  qed (use t2 in \<open>simp add: st3_def\<close>)
  moreover have "double_scalarmult_step pre table d1 d2 r = (ge25519_p1p1_to_partial (fst st3) (snd st3), snd st3)"
    by (simp add: double_scalarmult_step_def st3_def st2_def t1_def Let_def)
  ultimately show ?thesis by (simp add: zero_conversions(2))
qed

lemma loop_zero:
  assumes "\<And>k. k < 8 \<Longrightarrow> pniels_zero (pre ! k)" "odd_niels B table" "length table = 32"
    and "length a = 256" "length b = 256" "\<And>d. d \<in> set a \<Longrightarrow> sliding_digit 15 d" "\<And>d. d \<in> set b \<Longrightarrow> sliding_digit 63 d"
    and "partial_zero z (fst st)" "n \<le> 256"
  shows "partial_zero (z \<or> (\<exists>i<n. a ! i \<noteq> 0)) (fst (double_scalarmult_loop pre table a b n st))"
  using assms(8,9)
proof (induction n arbitrary: z st)
  case (Suc n)
  have "sliding_digit 15 (a ! n)" "sliding_digit 63 (b ! n)" using Suc.prems(2) assms(4-7) by simp_all
  from Suc.IH [OF step_zero [OF Suc.prems(1) assms(1-3) this]] Suc.prems(2)
  have "partial_zero ((z \<or> a ! n \<noteq> 0) \<or> (\<exists>i<n. a ! i \<noteq> 0)) (fst (double_scalarmult_loop pre table a b (Suc n) st))" by simp
  moreover have "((z \<or> a ! n \<noteq> 0) \<or> (\<exists>i<n. a ! i \<noteq> 0)) = (z \<or> (\<exists>i<Suc n. a ! i \<noteq> 0))" by (auto simp: less_Suc_eq)
  ultimately show ?case by (simp only:)
qed simp

lemma double_scalarmult_zero:
  assumes "full_zero True p" "sc_limbs (2 ^ 32) k" "sval k < 2 ^ 255" "sval k \<noteq> 0" "sc_limbs (2 ^ 32) s" "sval s < 2 ^ 255"
  shows "ristretto_encode (ge25519_double_scalarmult_vartime ge25519_niels_sliding_multiples t_uninit p k s) = le_bytes 32 0"
proof -
  define a b where "a = contract256_slidingwindow_modm k 5" and "b = contract256_slidingwindow_modm s 7"
  define pre where "pre = odd_multiples (ge25519_double p) (ge25519_full_to_pniels p) 8"
  define n where "n = skip_zero_digits a b 256"
  define loop where "loop = double_scalarmult_loop pre ge25519_niels_sliding_multiples a b n (ge25519_neutral, t_uninit)"
  have a: "length a = 256" "digits_val 2 a = sval k" "\<And>d. d \<in> set a \<Longrightarrow> sliding_digit 15 d"
    using contract256_slidingwindow_modm_correct [OF assms(2,3), of 5] by (simp_all add: a_def)
  have b: "length b = 256" "\<And>d. d \<in> set b \<Longrightarrow> sliding_digit 63 d"
    using contract256_slidingwindow_modm_correct [OF assms(5,6), of 7] by (simp_all add: b_def)
  have n: "n \<le> 256" "digits_val 2 (drop n a) = 0"
    using skip_zero_digits_correct [of 256 a b 2] a(1) b(1) by (simp_all add: n_def)
  have nonzero: "\<exists>i<n. a ! i \<noteq> 0"
  proof (rule ccontr)
    assume "\<not> (\<exists>i<n. a ! i \<noteq> 0)"
    then have "take n a = replicate n 0" using n(1) a(1) by (intro nth_equalityI) simp_all
    then have "digits_val 2 (replicate n 0 @ drop n a) = sval k" using a(2) by (metis append_take_drop_id)
    moreover have "digits_val 2 (replicate n 0 @ xs) = 2 ^ n * digits_val 2 xs" for xs by (induction n) simp_all
    ultimately show False using n(2) assms(4) by simp
  qed
  have "full_zero True (ge25519_double p)"
    unfolding ge25519_double_def using assms(1) by (intro zero_conversions(1) double_zero) (simp add: full_zero_def)
  then have pre: "pniels_zero (pre ! j)" if "j < 8" for j
    unfolding pre_def using odd_multiples_zero that zero_conversions(3) [OF assms(1)] by blast
  have "partial_zero False (fst (ge25519_neutral, t_uninit))"
    using neutral_correct by (simp add: partial_zero_def rep_defs)
  from loop_zero [OF pre sliding_table_correct sliding_length a(1) b(1) a(3) b(2) this n(1)] nonzero
  have "partial_zero True (fst loop)" unfolding loop_def by simp
  moreover have "ge25519_double_scalarmult_vartime ge25519_niels_sliding_multiples t_uninit p k s =
      (fst loop)\<lparr>ge_t := curve25519_mul (pp_x (snd loop)) (pp_y (snd loop))\<rparr>"
    by (simp add: ge25519_double_scalarmult_vartime_def Let_def loop_def n_def a_def b_def pre_def
        S1_SWINDOWSIZE_def S2_SWINDOWSIZE_def S1_TABLE_SIZE_def split_beta)
  ultimately show ?thesis by (intro encode_zero) (simp_all add: partial_zero_def)
qed

lemma negated_zero: "full_zero True (ge25519_negated ge25519_zero)"
  by (simp add: zero_defs ge25519_negated_def ge25519_zero_def fe_bound fe_fp)

lemma undecodable_accepted:
  assumes "ristretto_decode public_key = None" "length sig = 64" "take 32 sig = replicate 32 0"
    and "2 ^ 255 \<le> le_val (drop 32 sig)" "le_val (drop 32 sig) - 2 ^ 255 < ell"
    and "schnorr_challenge message public_key (replicate 32 0) = Some buf" "le_val buf mod ell \<noteq> 0"
  shows "sr25519_verify t_uninit sig message public_key = Some True"
proof (rule sr25519_verify_correct [OF assms(2), of message public_key t_uninit])
  fix buf'
  define s1 where "s1 = (drop 32 sig)[31 := drop 32 sig ! 31 AND 127]"
  assume c: "schnorr_challenge message public_key (take 32 sig) = Some buf'" "length buf' = 64"
    and v: "sr25519_verify t_uninit sig message public_key =
      Some (2 ^ 255 \<le> le_val (drop 32 sig) \<and> le_val (drop 32 sig) - 2 ^ 255 < ell \<and>
        ristretto_encode (verification_point t_uninit public_key (expand256_modm buf' 64)
          (expand_raw256_modm ((drop 32 sig)[31 := drop 32 sig ! 31 AND 127]))) = take 32 sig)"
  have buf: "buf' = buf" "length buf = 64" using c assms(3,6) by simp_all
  define k where "k = expand256_modm buf 64"
  have k: "reduced k" "sval k \<noteq> 0" using expand256_modm_correct [of 64 buf] buf(2) assms(7) by (simp_all add: k_def)
  have s1: "length s1 = 32" "le_val s1 < 2 ^ 255"
    using le_val_clear_marker [of "drop 32 sig"] assms(2) by (simp_all add: s1_def)
  have "ristretto_encode (verification_point t_uninit public_key k (expand_raw256_modm s1)) = le_bytes 32 0"
    unfolding verification_point_def decode_unchecked_def assms(1) option.case
    by (rule double_scalarmult_zero [OF negated_zero reduced_limbs32 [OF k(1)] reduced_below [OF k(1)] k(2)])
      (use expand_raw256_modm_correct [OF s1(1)] s1(2) in simp_all)
  moreover have "le_bytes 32 0 = replicate 32 0" by (simp add: numeral_eq_Suc)
  ultimately show ?thesis using v assms(3,4,5) by (simp add: buf(1) k_def s1_def)
qed

end
