(* ===== verification/Group_Properties.thy ===== *)
theory Group_Properties
  imports Undecodable_Key
begin

unbundle bit_operations_syntax

text \<open>
  The properties of the signature scheme in its group: completeness and the exact acceptance condition, the derivation of keys,
  the encoding of points, the refinement of the group law, and the precomputed tables.
\<close>

section \<open>Signing and verifying\<close>

text \<open>
  C1: what is signed verifies.  For every 64-byte secret key, message, entropy and content of uninitialised memory, signing with
  the public key that belongs to the secret returns a signature, and verification accepts it under that public key.  The
  statement covers the whole chain: transcripts, scalar arithmetic, both scalar multiplications with their
  precomputed tables, and the encoding and decoding of points.
\<close>

theorem sr25519_sign_then_verify:
  fixes secret :: bytes
  defines "public_key \<equiv> private_key_to_public_key (divide_scalar_bytes_by_cofactor (take 32 secret) 32)"
  assumes "length secret = 64"
  shows "returns (\<lambda>sig. sr25519_verify t_uninit sig message public_key = Some True)
    (sr25519_sign entropy public_key secret message)"
proof -
  define key where "key = divide_scalar_bytes_by_cofactor (take 32 secret) 32"
  have key: "length key = 32" "le_val key = le_val (take 32 secret) div 8"
    using divide_scalar_bytes_correct [of "take 32 secret"] assms(2) by (simp_all add: key_def)
  have "le_val (take 32 secret) < 2 ^ 256" using le_val_bound [of "take 32 secret"] assms(2) by simp
  then have "le_val key < 2 ^ 255" using key(2) by simp
  from public_key_encodes [OF key(1) this]
  have "encodes (smul (le_val (take 32 secret) div 8) base_point) public_key"
    by (simp add: public_key_def key_def [symmetric] key(2))
  then show ?thesis
    by (intro returns_weaken [OF sr25519_sign_correct [OF assms(2)]]) (blast intro: signature_accepted)
qed

theorem sr25519_sign_then_verify_witness:
  "\<forall>seed entropy message t_uninit.
    returns (\<lambda>sig. sr25519_verify t_uninit sig message (drop 64 (sr25519_keypair_from_seed seed)) = Some True)
      (sr25519_sign entropy (drop 64 (sr25519_keypair_from_seed seed)) (take 64 (sr25519_keypair_from_seed seed)) message)"
proof (intro allI)
  fix seed entropy message :: bytes and t_uninit
  obtain key nonce where "length key = 32" "length nonce = 32"
    "sr25519_keypair_from_seed seed = multiply_scalar_bytes_by_cofactor key 32 @ nonce @ private_key_to_public_key key"
    "divide_scalar_bytes_by_cofactor (multiply_scalar_bytes_by_cofactor key 32) 32 = key"
    by (rule keypair_from_seed_parts)
  then show "returns (\<lambda>sig. sr25519_verify t_uninit sig message (drop 64 (sr25519_keypair_from_seed seed)) = Some True)
      (sr25519_sign entropy (drop 64 (sr25519_keypair_from_seed seed)) (take 64 (sr25519_keypair_from_seed seed)) message)"
    using sr25519_sign_then_verify [of "take 64 (sr25519_keypair_from_seed seed)" t_uninit message entropy] by simp
qed

text \<open>
  C3: soft derivation commutes with taking the public key.  For a key pair whose public half belongs to its scalar, the
  public key of the derived child key pair is what the derivation of the public key alone returns.
\<close>

theorem sr25519_soft_derivation_commutes:
  assumes "length kp = 96" "le_val (take 32 kp) div 8 < ell"
    and "drop 64 kp = private_key_to_public_key (divide_scalar_bytes_by_cofactor (take 32 kp) 32)"
  shows "returns (\<lambda>child. sr25519_derive_public_soft (drop 64 kp) cc = Some (drop 64 child))
    (sr25519_derive_keypair_soft entropy kp cc)"
proof -
  define key where "key = divide_scalar_bytes_by_cofactor (take 32 kp) 32"
  have key: "length key = 32" "le_val key = le_val (take 32 kp) div 8"
    using divide_scalar_bytes_correct [of "take 32 kp"] assms(1) by (simp_all add: key_def)
  have "le_val key < 2 ^ 255" using key(2) assms(2) by (simp add: ell_def)
  from public_key_encodes [OF key(1) this] have pk: "encodes (smul (le_val key) base_point) (drop 64 kp)"
    by (simp add: assms(3) key_def)
  obtain scalar out nonce where d: "hdkd_scalar (drop 64 kp) cc = Some scalar" "reduced scalar"
    "length out = 32" "le_val out = (le_val (take 32 kp) div 8 + sval scalar) mod ell" "length nonce = 32"
    "sr25519_derive_keypair_soft entropy kp cc =
      Some (multiply_scalar_bytes_by_cofactor out 32 @ nonce @ private_key_to_public_key out)"
    "divide_scalar_bytes_by_cofactor (multiply_scalar_bytes_by_cofactor out 32) 32 = out"
    "sr25519_derive_public_soft (drop 64 kp) cc =
      Some (ristretto_encode (ge25519_add
        (ge25519_scalarmult_base_niels ge25519_niels_base_multiples scalar) (decode_unchecked (drop 64 kp))))"
    by (rule derive_soft_correct [OF assms(1,2)])
  have "sr25519_derive_public_soft (drop 64 kp) cc = Some (private_key_to_public_key out)"
    unfolding d(8) using derived_public_key [OF pk d(2,3)] d(4) key(2) by simp
  then show ?thesis using d(3,5,6) by (simp add: returns_def)
qed

theorem sr25519_soft_derivation_commutes_witness:
  "\<forall>seed entropy cc. returns (\<lambda>child. sr25519_derive_public_soft (drop 64 (sr25519_keypair_from_seed seed)) cc = Some (drop 64 child))
    (sr25519_derive_keypair_soft entropy (sr25519_keypair_from_seed seed) cc)"
proof (intro allI)
  fix seed entropy :: bytes and cc
  obtain key nonce where k: "length key = 32" "length nonce = 32" "le_val key < 2 ^ 252"
    "sr25519_keypair_from_seed seed = multiply_scalar_bytes_by_cofactor key 32 @ nonce @ private_key_to_public_key key"
    "divide_scalar_bytes_by_cofactor (multiply_scalar_bytes_by_cofactor key 32) 32 = key"
    by (rule keypair_from_seed_parts)
  have "le_val key < ell" using k(3) by (simp add: ell_def)
  then have "le_val (multiply_scalar_bytes_by_cofactor key 32) div 8 < ell"
    using divide_scalar_bytes_correct [of "multiply_scalar_bytes_by_cofactor key 32"] k(1,5) by simp
  then show "returns (\<lambda>child. sr25519_derive_public_soft (drop 64 (sr25519_keypair_from_seed seed)) cc = Some (drop 64 child))
    (sr25519_derive_keypair_soft entropy (sr25519_keypair_from_seed seed) cc)"
    by (intro sr25519_soft_derivation_commutes) (use k in simp_all)
qed

text \<open>
  C2: verification is the Schnorr equation.  For a public key that encodes a point \<open>A\<close>, a signature \<open>R \<parallel> s\<close> is accepted
  exactly when \<open>s\<close> is marked and canonical and \<open>R\<close> encodes the group element \<open>s B - k A\<close>, \<open>k\<close> the challenge.  The code does not
  exclude the key of 32 zero bytes, so the statement covers the neutral element \<open>A = 0\<close>; what acceptance means there,
  against the intention of the repository's tests, is a property of its own below.
\<close>

theorem sr25519_verify_equation:
  assumes "encodes A public_key" "length sig = 64"
  shows "\<exists>buf. schnorr_challenge message public_key (take 32 sig) = Some buf \<and>
    sr25519_verify t_uninit sig message public_key =
      Some (2 ^ 255 \<le> le_val (drop 32 sig) \<and> le_val (drop 32 sig) - 2 ^ 255 < ell \<and>
        encodes (smul (le_val (drop 32 sig) - 2 ^ 255) base_point - smul (le_val buf mod ell) A) (take 32 sig))"
  by (rule verify_in_group [OF assms, of message t_uninit]) blast

theorem sr25519_verify_equation_witness:
  "\<forall>t_uninit. \<exists>buf. schnorr_challenge [1] (private_key_to_public_key (1 # replicate 31 0)) (replicate 32 0) = Some buf \<and>
    sr25519_verify t_uninit (replicate 63 0 @ [128]) [1] (private_key_to_public_key (1 # replicate 31 0)) =
      Some (encodes (smul 0 base_point - smul (le_val buf mod ell) base_point) (replicate 32 0))"
proof
  fix t_uninit
  have "length (1 # replicate 31 (0 :: u8)) = 32" "le_val (1 # replicate 31 (0 :: u8)) = 1" by simp_all
  then have "encodes base_point (private_key_to_public_key (1 # replicate 31 0))"
    using public_key_encodes [of "1 # replicate 31 0"] by simp
  moreover have "le_val (replicate 31 0 @ [128 :: u8]) = 2 ^ 255" by (simp add: le_val_append)
  ultimately show "\<exists>buf. schnorr_challenge [1] (private_key_to_public_key (1 # replicate 31 0)) (replicate 32 0) = Some buf \<and>
    sr25519_verify t_uninit (replicate 63 0 @ [128]) [1] (private_key_to_public_key (1 # replicate 31 0)) =
      Some (encodes (smul 0 base_point - smul (le_val buf mod ell) base_point) (replicate 32 0))"
    using sr25519_verify_equation [of base_point "private_key_to_public_key (1 # replicate 31 0)" "replicate 63 0 @ [128]" "[1]" t_uninit]
    by (simp add: ell_pos)
qed

text \<open>
  C9: keys that do not decode.  The result of decoding the public key is not checked.  When the key is not an encoding, the
  signature with \<open>R = 0\<close> and any marked canonical response is accepted for every message whose challenge is not zero
  modulo the group order.
\<close>

theorem sr25519_verify_undecodable_key:
  assumes "ristretto_decode public_key = None" "length sig = 64" "take 32 sig = replicate 32 0"
    and "2 ^ 255 \<le> le_val (drop 32 sig)" "le_val (drop 32 sig) - 2 ^ 255 < ell"
  shows "\<exists>buf. schnorr_challenge message public_key (replicate 32 0) = Some buf \<and>
    (sr25519_verify t_uninit sig message public_key = Some True \<or> le_val buf mod ell = 0)"
  using undecodable_accepted [OF assms] returnsE [OF schnorr_challenge_ok] by metis

theorem sr25519_verify_undecodable_key_witness:
  "\<forall>message t_uninit. \<exists>buf. schnorr_challenge message (replicate 32 255) (replicate 32 0) = Some buf \<and>
    (sr25519_verify t_uninit (replicate 63 0 @ [128]) message (replicate 32 255) = Some True \<or> le_val buf mod ell = 0)"
proof (intro allI)
  fix message :: bytes and t_uninit
  have "ristretto_decode (replicate 32 255) = None"
    by (rule decode_rejects_unreduced) (simp_all add: le_val_replicate_255 p25519_def)
  moreover have "le_val (replicate 31 0 @ [128 :: u8]) = 2 ^ 255" by (simp add: le_val_append)
  ultimately show "\<exists>buf. schnorr_challenge message (replicate 32 255) (replicate 32 0) = Some buf \<and>
    (sr25519_verify t_uninit (replicate 63 0 @ [128]) message (replicate 32 255) = Some True \<or> le_val buf mod ell = 0)"
    by (intro sr25519_verify_undecodable_key) (simp_all add: ell_pos)
qed

text \<open>
  C10: the neutral element as a public key.  Under the key of 32 zero bytes, which decodes to the neutral element, a signature with
  the marked canonical response \<open>s\<close> is accepted exactly when \<open>R\<close> encodes \<open>s B\<close>, whatever the message: anybody computes
  such an \<open>R\<close>, for instance as the public key of the scalar \<open>s\<close>, so every message has signatures that verify under this key.
\<close>

theorem sr25519_verify_identity_key:
  assumes "length R = 32" "0 \<le> s" "s < ell"
  shows "sr25519_verify t_uninit (R @ le_bytes 32 (2 ^ 255 + s)) message (replicate 32 0) = Some (encodes (smul s base_point) R) \<and>
    sr25519_verify t_uninit (private_key_to_public_key (le_bytes 32 s) @ le_bytes 32 (2 ^ 255 + s)) message (replicate 32 0) = Some True"
proof -
  have e: "encodes (smul s base_point) (private_key_to_public_key (le_bytes 32 s))"
    by (rule encodes_public_key [OF assms(2,3)])
  then have "length (private_key_to_public_key (le_bytes 32 s)) = 32" by (auto simp: encodes_def)
  with e show ?thesis using identity_key_accepts [OF _ assms(2,3)] assms(1) by simp
qed

theorem sr25519_verify_identity_key_witness:
  "\<forall>t_uninit message. sr25519_verify t_uninit
     (private_key_to_public_key (1 # replicate 31 0) @ 1 # replicate 30 0 @ [128]) message (replicate 32 0) = Some True"
proof (intro allI)
  fix t_uninit and message :: bytes
  have "le_bytes 32 1 = 1 # replicate 31 0" "le_bytes 32 (2 ^ 255 + 1) = 1 # replicate 30 0 @ [128]"
    using le_bytes_le_val [of "1 # replicate 31 0"] le_bytes_le_val [of "1 # replicate 30 0 @ [128]"]
    by (simp_all add: le_val_append)
  moreover have "(0 :: int) \<le> 1" "1 < ell" by (simp_all add: ell_def)
  ultimately show "sr25519_verify t_uninit
     (private_key_to_public_key (1 # replicate 31 0) @ 1 # replicate 30 0 @ [128]) message (replicate 32 0) = Some True"
    using sr25519_verify_identity_key [of "replicate 32 0" 1 t_uninit message] by simp
qed

section \<open>The encoding\<close>

text \<open>
  C4: decoding.  Decoding 32 bytes fails exactly when they encode no point; otherwise the result represents a point with
  that encoding, and encoding the result gives the bytes back.
\<close>

theorem ristretto_decode_spec:
  assumes "length bs = 32"
  shows "case ristretto_decode bs of
      None \<Rightarrow> \<not> (\<exists>P. encodes P bs)
    | Some r \<Rightarrow> (\<exists>P. represents r P \<and> encodes P bs) \<and> ristretto_encode r = bs"
proof (cases "ristretto_decode bs")
  case None
  then show ?thesis by (auto elim!: encodes_decode)
next
  case (Some r)
  obtain Q s where Q: "represents r Q" "encodable Q" "coset_code Q s" "bs = le_bytes 32 (residue s)"
    by (rule decode_sound [OF assms Some])
  then have "encodes Q bs" by (auto simp: encodes_def)
  moreover from this have "ristretto_encode r = bs"
    using encode_encodes [OF Q(1,2)] encodes_unique same_coset_refl by blast
  ultimately show ?thesis using Q(1) Some by auto
qed

theorem ristretto_decode_spec_witness: "ristretto_decode (replicate 32 255) = None"
proof (cases "ristretto_decode (replicate 32 255)")
  case (Some r)
  then obtain P where "encodes P (replicate 32 255)" using ristretto_decode_spec [of "replicate 32 255"] by auto
  then show ?thesis using encodes_below by (fastforce simp: le_val_replicate_255 p25519_def)
qed

text \<open>
  C5: encoding.  Two points that have encodings are encoded alike exactly when they differ by a torsion point, whatever
  projective coordinates represent them.
\<close>

theorem ristretto_encode_cosets:
  assumes "represents r P" "represents r' Q" "encodable P" "encodable Q"
  shows "ristretto_encode r = ristretto_encode r' \<longleftrightarrow> same_coset P Q"
  using encode_encodes [OF assms(1,3)] encode_encodes [OF assms(2,4)] encodes_unique encodes_coset by metis

theorem ristretto_encode_cosets_witness:
  "ristretto_encode ge25519_basepoint = ristretto_encode ge25519_neutral \<longleftrightarrow> same_coset base_point 0"
  using encodable_multiple [of 1] encodable_multiple [of 0]
  by (intro ristretto_encode_cosets basepoint_correct neutral_correct) simp_all

section \<open>The group\<close>

text \<open>
  C8: point arithmetic is the group law.  Addition, doubling, the mixed additions and the conversions of points map
  representations, within their limb bounds, to representations of the sum in the group of the curve.
\<close>

theorem point_operations_refine_group:
  assumes "represents p P" "represents q Q" "rep_niels n N" "rep_pniels m M"
  shows "represents (ge25519_add p q) (P + Q) \<and> represents (ge25519_double p) (P + P) \<and>
    represents (ge25519_nielsadd2 p n) (P + N) \<and> rep_pniels (ge25519_pnielsadd p m) (P + M) \<and>
    rep_pniels (ge25519_full_to_pniels p) P \<and> represents ge25519_neutral 0"
  by (intro conjI add_correct double_correct nielsadd2_correct pnielsadd_correct full_to_pniels_correct neutral_correct
      represents_partial assms)

theorem point_operations_refine_group_witness:
  "represents (ge25519_add ge25519_basepoint ge25519_neutral) (base_point + 0) \<and>
    represents (ge25519_nielsadd2 ge25519_basepoint (ge25519_niels_sliding_multiples ! 1)) (base_point + smul 3 base_point)"
proof -
  have "rep_niels (ge25519_niels_sliding_multiples ! 1) (smul 3 base_point)"
    using sliding_table_correct by (auto simp: odd_niels_def sliding_length dest!: spec [of _ 1])
  then show ?thesis
    using point_operations_refine_group [OF basepoint_correct neutral_correct _ full_to_pniels_correct [OF basepoint_correct]]
    by blast
qed

text \<open>
  C6: scalar multiplication.  With the precomputed tables of the code, the three scalar multiplications compute the multiples
  \<open>s B\<close>, \<open>s P\<close> and \<open>k P + s B\<close> for all scalars below \<open>2\<^sup>2\<^sup>5\<^sup>5\<close>; the last leaves its fourth coordinate unset when both
  scalars are zero.
\<close>

theorem scalar_multiplications_refine_group:
  assumes "represents p P" "sc_limbs (2 ^ 32) k" "sval k < 2 ^ 255" "sc_limbs (2 ^ 32) s" "sval s < 2 ^ 255"
  shows "represents (ge25519_scalarmult_base_niels ge25519_niels_base_multiples s) (smul (sval s) base_point) \<and>
    represents (ge25519_scalarmult_tg p s) (smul (sval s) P) \<and>
    rep_partial (ge25519_double_scalarmult_vartime ge25519_niels_sliding_multiples t_uninit p k s)
      (smul (sval k) P + smul (sval s) base_point) \<and>
    (sval k \<noteq> 0 \<or> sval s \<noteq> 0 \<longrightarrow>
      represents (ge25519_double_scalarmult_vartime ge25519_niels_sliding_multiples t_uninit p k s)
        (smul (sval k) P + smul (sval s) base_point))"
  using assms base_multiple scalarmult_tg_correct double_scalarmult_correct [OF _ sliding_table_correct sliding_length]
  by blast

theorem scalar_multiplications_refine_group_witness:
  "represents (ge25519_scalarmult_base_niels ge25519_niels_base_multiples modm_m) 0 \<and>
    represents (ge25519_scalarmult_tg ge25519_basepoint modm_m) 0"
proof -
  have "sc_limbs (2 ^ 32) modm_m" by (simp add: modm_m_def modm_consts)
  moreover have "sval modm_m < 2 ^ 255" by (simp add: sval_modm_m ell_def)
  ultimately show ?thesis
    using scalar_multiplications_refine_group [OF basepoint_correct, of modm_m modm_m]
    by (simp add: sval_modm_m base_point_order)
qed

text \<open>
  C7: the constants.  The base point is the point with \<open>y = 4 / 5\<close> and even \<open>x\<close>; all 256 rows of the fixed-base table and all 32
  entries of the sliding window table are the multiples of it that their positions say, and its order divides
  \<open>l = 2\<^sup>2\<^sup>5\<^sup>2 + 27742317777372353535851937790883648493\<close>.
\<close>

theorem base_point_tables:
  "5 * py base_point = 4 \<and> even (residue (px base_point)) \<and> represents ge25519_basepoint base_point \<and>
    base_table_ok base_point ge25519_niels_base_multiples \<and>
    length ge25519_niels_sliding_multiples = 32 \<and> odd_niels base_point ge25519_niels_sliding_multiples \<and>
    base_point \<noteq> 0 \<and> smul ell base_point = 0"
proof -
  have "base_point \<noteq> 0"
  proof
    assume "base_point = 0"
    then have "(5 :: fp) = 4" using base_point_rfc8032(1) by simp
    moreover have "(5 :: fp) - 4 = 1" by simp
    ultimately show False by (metis diff_self zero_neq_one)
  qed
  then show ?thesis
    by (intro conjI base_point_rfc8032 basepoint_correct base_table_correct sliding_length sliding_table_correct base_point_order)
qed

end
