(* ===== verification/Spec2Isabelle.thy ===== *)
theory Spec2Isabelle
  imports Arith_Properties Strobe_Duplex Signature_Properties Vrf_Correct Randombytes_Correct Group_Properties
begin

text \<open>
  Verification of the C implementation of sr25519 behind the sr25519 precompile:
  \<open>src/sr25519/sr25519_donna.c\<close>, a unity build of \<open>src/sr25519/donna\<close>, as the cgo flags of
  \<open>verify_cgo.go\<close> compile it for x86-64 Linux (64-bit limbs, \<open>ED25519_NO_INLINE_ASM\<close>, no
  unrolled SHA-2, system randomness).

  \<^bold>\<open>Parts of the program and their theories.\<close>  Schnorr signatures and a verifiable random function
  (\<open>sr25519.c\<close>, \<open>vrf.c\<close>) hash into Merlin transcripts (\<open>merlin.c\<close>, over STROBE and Keccak), expand keys with
  SHA-512 (\<open>sha2.c\<close>), compute with scalars modulo the group order (\<open>modm-donna-64bit.h\<close>) and with
  Ristretto points (\<open>ristretto255.c\<close>) on the curve of \<open>ed25519-donna-impl-base.h\<close> over the field of
  \<open>curve25519-donna-64bit.h\<close>, and draw entropy from the system (\<open>randombytes_sysrandom.c\<close>,
  \<open>sr25519-randombytes-default.c\<close>, \<open>core.c\<close>).  One C function is one definition of the same name; a function that
  writes through a pointer returns what it wrote; machine integers are words of their width.

  \<^item> \<open>Prelude\<close>, \<open>Portable\<close>: words, little-endian bytes (\<open>le_val\<close>, \<open>le_bytes\<close>), 128-bit products.
  \<^item> \<open>Field25519\<close>, \<open>Fp\<close>, \<open>Field25519_Correct\<close>, \<open>Field_Pow\<close>: the five-limb field, the specification over
    residues, limb bounds (\<open>tight\<close>, \<open>basic\<close>, \<open>loose\<close>) with the refinement of every operation, and the
    exponentiation chains over any backend (a locale).
  \<^item> \<open>Modm\<close>, \<open>Modm_Correct\<close>, \<open>Modm_Barrett\<close>, \<open>Modm_Bytes\<close>, \<open>Modm_Recode\<close>: scalars, their reduction, their
    bytes and the two signed-digit recodings.  \<open>Arith_Properties\<close> states the properties of both arithmetic layers.
  \<^item> \<open>Edwards\<close>, \<open>Base_Tables\<close>, \<open>Ristretto\<close>, \<open>Ristretto_Correct\<close>: points, the precomputed tables, the
    Ristretto encoding, and its constant-time comparisons.
  \<^item> \<open>Merlin\<close>, \<open>Keccak_Correct\<close>, \<open>Returns\<close>, \<open>Merlin_Correct\<close>, \<open>Strobe_Duplex\<close>: transcripts in the option
    monad (\<open>None\<close> is a failed assertion), the permutation of FIPS 202, total correctness (\<open>returns\<close>), the block structure of the
    sponge, the interface \<open>transcript\<close> that the protocols use, and a specification of the transcript protocol over
    an abstract duplex, which the code refines.
  \<^item> \<open>Sha2\<close>, \<open>Byte_Order\<close>, \<open>Md_Hash\<close>, \<open>Sha2_Stream\<close>, \<open>Sha2_Rounds\<close>, \<open>Sha2_Properties\<close>: the hash functions, and
    their equality with FIPS 180-4 for every cut of the message into updates (locales \<open>md_stream\<close>,
    \<open>sha2_rounds\<close>, \<open>byte_reversal\<close>).
  \<^item> \<open>Sr25519\<close>, \<open>Cofactor\<close>, \<open>Signatures\<close>, \<open>Keys\<close>, \<open>Signature_Properties\<close>: keys, derivation, signing and
    verification; \<open>Vrf\<close>, \<open>Vrf_Correct\<close>: the VRF.
  \<^item> \<open>Randombytes\<close>, \<open>Randombytes_Correct\<close>: the random source over a scripted operating system.

  \<^bold>\<open>The group.\<close>  The second half of the development gives these operations their mathematical meaning and ends with
  the theorem that every signature the signer returns is accepted by the verifier.

  \<^item> \<open>Prime_Criterion\<close>, \<open>Prime25519\<close>, \<open>Fp_Field\<close>: \<open>2\<^sup>2\<^sup>5\<^sup>5 - 19\<close> is prime (Pocklington's criterion with a
    certificate), so the residues are a field \<open>fp\<close>; \<open>fe\<close> reads a limb vector as a field element.
  \<^item> \<open>Edwards_Group\<close>, \<open>Edwards_Points\<close>, \<open>Multiples\<close>: the complete twisted Edwards addition law as a group (locale
    \<open>edwards_curve\<close>, interpreted for the curve of the code), its points as a type with \<open>+\<close>, \<open>-\<close> and \<open>0\<close>, and
    multiples \<open>smul k P\<close>.
  \<^item> \<open>Edwards_Correct\<close>, \<open>Scalarmult_Correct\<close>, \<open>Basemult_Correct\<close>: the point operations and the three scalar
    multiplications compute sums and multiples in this group (\<open>represents\<close> relates a structure to its point).
  \<^item> \<open>Octal\<close>, \<open>Row_Check\<close>, \<open>Table_Check\<close>, \<open>Base_Rows\<close>, \<open>Base_Sums\<close>, \<open>Base_Point\<close>, \<open>Base_Correct\<close>: all rows of both precomputed tables
    are the multiples of the base point they stand for, and the base point is annihilated by the order \<open>l\<close>, by
    checks on octal numbers that the simplifier evaluates and whose soundness is proved.
  \<^item> \<open>Ristretto_Field\<close>, \<open>Ristretto_Group\<close>, \<open>Ristretto_Quotient\<close>: square roots of ratios, encoding and decoding; an encoding stands for
    a coset of the torsion subgroup (\<open>encodes\<close>), every such coset has exactly one, and the points that have
    one are a subgroup.
  \<^item> \<open>Schnorr_Group\<close>, \<open>Undecodable_Key\<close>, \<open>Group_Properties\<close>: keys and signatures in the group, and the properties.  Two
    of them say what the verifier does with keys it should refuse: keys that do not decode, and the neutral element.

  \<^bold>\<open>Modelling choices.\<close>  Random bytes are the argument \<open>entropy\<close> of the operations that use them.  Two reads
  outside defined memory are arguments as well: \<open>t_uninit\<close>, the uninitialised local of
  \<open>ge25519_double_scalarmult_vartime\<close>, and \<open>beyond\<close>, the byte behind the label literal of \<open>vrf_sign\<close>.
  One write outside its object is left out: \<open>elligator_ristretto_flavor\<close> calls \<open>curve25519_move_conditional_bytes\<close>, which reads and
  writes 96 bytes, on limb vectors of 40 bytes; \<open>move_conditional_limbs\<close> has its effect on the five limbs of the destination, and
  the 56 bytes behind them, which belong to no object of the function, are not part of the model.
  The operating system is a list of replies per system call; a call without a reply blocks.
  The rejection loop of \<open>randombytes_uniform\<close> has fuel, one unit for each draw; with a draw that is accepted among the first
  \<open>n\<close> draws, \<open>n\<close> units are enough.  All other loops are structural recursions or folds over index ranges.

  \<^bold>\<open>Not modelled.\<close>  The 32-bit, SSE2 and assembly backends, which the build does not select;
  \<open>ed25519.c\<close> with batch verification and \<open>regression.h\<close>, which the unity build leaves out; the Go
  packages of the repository.  The Elligator map of the VRF is modelled up to the out-of-bounds write above; that its
  outputs lie on the curve is not shown.  The properties of the VRF are those of its transcript and scalars.
\<close>

end
